(* ===== verification/Fw_Prelude.thy ===== *)
theory Fw_Prelude
  imports Main "HOL-Library.Word"
begin

text \<open>
  The shared vocabulary of the development: the fixed-width integer types of the firmware,
  the packed little-endian and big-endian byte layouts its structs and frames use, and the
  generic facts on words, lists and options that the component theories rest on. The
  collection \<open>fw_simps\<close> gathers the equations that unfold byte layouts.
\<close>

unbundle bit_operations_syntax

named_theorems fw_simps

type_synonym u8 = "8 word"
type_synonym u16 = "16 word"
type_synonym u32 = "32 word"
type_synonym bytes = "8 word list"

section \<open>Byte layouts\<close>

text \<open>
  The ESP32 is little-endian, so a packed struct that is cast to a byte pointer is the
  concatenation of its fields' little-endian bytes. The frame header is written in
  big-endian order by hand.
\<close>

definition le16 :: "u16 \<Rightarrow> bytes" where
  "le16 x = [ucast x, ucast (drop_bit 8 x)]"

definition le32 :: "u32 \<Rightarrow> bytes" where
  "le32 x = [ucast x, ucast (drop_bit 8 x), ucast (drop_bit 16 x), ucast (drop_bit 24 x)]"

definition be16 :: "u16 \<Rightarrow> bytes" where
  "be16 x = [ucast (drop_bit 8 x), ucast x]"

definition rd_be16 :: "u8 \<Rightarrow> u8 \<Rightarrow> u16" where
  "rd_be16 hi lo = push_bit 8 (ucast hi) OR ucast lo"

definition rd_le16 :: "u8 \<Rightarrow> u8 \<Rightarrow> u16" where
  "rd_le16 lo hi = push_bit 8 (ucast hi) OR ucast lo"

definition rd_be32 :: "u8 \<Rightarrow> u8 \<Rightarrow> u8 \<Rightarrow> u8 \<Rightarrow> u32" where
  "rd_be32 a b c d =
     push_bit 24 (ucast a) OR push_bit 16 (ucast b) OR push_bit 8 (ucast c) OR ucast d"

definition rd_le32 :: "u8 \<Rightarrow> u8 \<Rightarrow> u8 \<Rightarrow> u8 \<Rightarrow> u32" where
  "rd_le32 a b c d = rd_be32 d c b a"

lemma length_le16 [simp]: "length (le16 x) = 2"
  by (simp add: le16_def)

lemma length_le32 [simp]: "length (le32 x) = 4"
  by (simp add: le32_def)

lemma length_be16 [simp]: "length (be16 x) = 2"
  by (simp add: be16_def)

lemma rd_be16_of_bytes [simp, fw_simps]: "rd_be16 (ucast (drop_bit 8 x)) (ucast x) = x"
  by (rule bit_word_eqI) (auto simp: rd_be16_def bit_simps)

lemma rd_le16_of_bytes [simp, fw_simps]: "rd_le16 (ucast x) (ucast (drop_bit 8 x)) = x"
  by (rule bit_word_eqI) (auto simp: rd_le16_def bit_simps)

lemma rd_be32_of_bytes [simp, fw_simps]:
  "rd_be32 (ucast (drop_bit 24 x)) (ucast (drop_bit 16 x)) (ucast (drop_bit 8 x)) (ucast x) = x"
proof (rule bit_word_eqI)
  fix n assume "n < LENGTH(32)"
  then consider "n < 8" | "8 \<le> n" "n < 16" | "16 \<le> n" "n < 24" | "24 \<le> n" "n < 32"
    by fastforce
  then show "bit (rd_be32 (ucast (drop_bit 24 x)) (ucast (drop_bit 16 x))
      (ucast (drop_bit 8 x)) (ucast x)) n = bit x n"
    by cases (auto simp: rd_be32_def bit_simps)
qed

lemma rd_le32_of_bytes [simp, fw_simps]:
  "rd_le32 (ucast x) (ucast (drop_bit 8 x)) (ucast (drop_bit 16 x)) (ucast (drop_bit 24 x)) = x"
  by (simp add: rd_le32_def)

lemma bit_u8_high [simp]: "8 \<le> n \<Longrightarrow> \<not> bit a n" for a :: u8
  by (auto dest: bit_imp_le_length)

lemma be16_rd [simp]: "be16 (rd_be16 a b) = [a, b]"
  by (auto simp: be16_def rd_be16_def bit_simps intro!: bit_word_eqI)

lemma le16_rd [simp]: "le16 (rd_le16 a b) = [a, b]"
  by (auto simp: le16_def rd_le16_def bit_simps intro!: bit_word_eqI)

lemma le32_rd [simp]: "le32 (rd_le32 a b c d) = [a, b, c, d]"
  by (auto simp: le32_def rd_le32_def rd_be32_def bit_simps intro!: bit_word_eqI)

lemma le32_inject [simp]: "le32 x = le32 y \<longleftrightarrow> x = y"
proof
  assume "le32 x = le32 y"
  then have "rd_le32 (ucast x) (ucast (drop_bit 8 x)) (ucast (drop_bit 16 x)) (ucast (drop_bit 24 x))
    = rd_le32 (ucast y) (ucast (drop_bit 8 y)) (ucast (drop_bit 16 y)) (ucast (drop_bit 24 y))"
    by (simp add: le32_def)
  then show "x = y" by simp
qed simp

lemma le16_inject [simp]: "le16 x = le16 y \<longleftrightarrow> x = y"
proof
  assume "le16 x = le16 y"
  then have "rd_le16 (ucast x) (ucast (drop_bit 8 x)) = rd_le16 (ucast y) (ucast (drop_bit 8 y))"
    by (simp add: le16_def)
  then show "x = y" by simp
qed simp

section \<open>Lists of fixed length\<close>

text \<open>\<open>blit\<close> is \<open>memcpy\<close> into the middle of an array.\<close>

definition blit :: "'a list \<Rightarrow> nat \<Rightarrow> 'a list \<Rightarrow> 'a list" where
  "blit buf off xs = take off buf @ xs @ drop (off + length xs) buf"

lemma length_blit [simp]:
  "off + length xs \<le> length buf \<Longrightarrow> length (blit buf off xs) = length buf"
  by (simp add: blit_def)

lemma list_length_eq_4E:
  assumes "length xs = 4"
  obtains a b c d where "xs = [a, b, c, d]"
  using assms by (auto simp: numeral_eq_Suc length_Suc_conv)

lemma list_length_eq_2E:
  assumes "length xs = 2"
  obtains a b where "xs = [a, b]"
  using assms by (auto simp: numeral_eq_Suc length_Suc_conv)

text \<open>Splitting a flat byte block into records of a fixed width.\<close>

fun chunks :: "nat \<Rightarrow> nat \<Rightarrow> 'a list \<Rightarrow> 'a list list" where
  "chunks w 0 bs = []"
| "chunks w (Suc n) bs = take w bs # chunks w n (drop w bs)"

lemma length_chunks [simp]: "length (chunks w n bs) = n"
  by (induction w n bs rule: chunks.induct) auto

lemma chunks_concat:
  "(\<And>x. length (f x) = w) \<Longrightarrow> chunks w (length xs) (concat (map f xs)) = map f xs"
  by (induction xs) auto

lemma length_concat_map:
  "(\<And>x. length (f x) = w) \<Longrightarrow> length (concat (map f xs)) = w * length xs"
  by (induction xs) auto

section \<open>Machine arithmetic\<close>

lemma xor_zero_iff: "a XOR b = 0 \<longleftrightarrow> a = b" for a :: "'a::len word"
  by (simp add: bit_eq_iff bit_simps)

lemma unat_word_of_nat_less:
  "k < 2 ^ LENGTH('a) \<Longrightarrow> unat (word_of_nat k :: 'a::len word) = k"
  by (simp add: unat_of_nat)

lemma unat_ucast_mod:
  "unat (ucast x :: 'b::len word) = unat x mod 2 ^ LENGTH('b)" for x :: "'a::len word"
  by (simp add: unsigned_ucast_eq unsigned_take_bit_eq take_bit_eq_mod)

lemma unat_plus_less:
  "unat x + unat y < 2 ^ LENGTH('a) \<Longrightarrow> unat (x + y) = unat x + unat y" for x y :: "'a::len word"
  by (simp add: unat_word_ariths)

lemma unat_inc: "unat (x + 1) = unat x + 1" if "x < - 1" for x :: "'a::len word"
proof -
  have "unat x < mask LENGTH('a)"
    using that by (simp add: word_less_nat_alt unsigned_minus_1_eq_mask)
  then have "unat x + 1 < 2 ^ LENGTH('a)"
    by (simp add: mask_eq_exp_minus_1)
  then show ?thesis by (simp add: unat_word_ariths)
qed

lemma less_inc: "x < x + 1" if "x < - 1" for x :: "'a::len word"
  using unat_inc [OF that] by (simp add: word_less_nat_alt)

end
