(* ===== verification/Fw_Crc.thy ===== *)
theory Fw_Crc
  imports Fw_Prelude
begin

text \<open>
  The checksums of \<open>src/src/Domain/ProtocolDefs.h\<close>: CRC-16/CCITT of the frames, CRC-32 of
  the stored blobs and of the OTA image, each as the shift register the C++ loops run. The
  contract of such a register is the locale \<open>crc_register\<close> (the step and the feeding of a
  byte are linear over XOR and lose nothing) and its extension \<open>crc_burst\<close> (the register
  tells apart every short window of bytes); what a checksum detects is proved once there
  and interpreted on both registers.
\<close>

section \<open>The registers\<close>

definition crc16_bit :: "u16 \<Rightarrow> u16" where
  "crc16_bit crc =
     (if crc AND 0x8000 \<noteq> 0 then push_bit 1 crc XOR 0x1021 else push_bit 1 crc)"

definition crc16_feed :: "u8 \<Rightarrow> u16" where
  "crc16_feed b = push_bit 8 (ucast b)"

definition crc16_byte :: "u16 \<Rightarrow> u8 \<Rightarrow> u16" where
  "crc16_byte crc b = (crc16_bit ^^ 8) (crc XOR crc16_feed b)"

definition calculateCRC16 :: "bytes \<Rightarrow> u16" where
  "calculateCRC16 data = foldl crc16_byte 0xFFFF data"

definition calculateCRC16WithTimestamp :: "bytes \<Rightarrow> u32 \<Rightarrow> u16" where
  "calculateCRC16WithTimestamp data timestamp =
     (let crc = calculateCRC16 data;
          crc = crc XOR ucast (timestamp AND 0xFFFF);
          upper = ucast (drop_bit 16 timestamp AND 0xFFFF);
          crc = crc XOR upper;
          crc = push_bit 1 crc OR drop_bit 15 crc
      in crc XOR ucast (timestamp AND 0xFF))"

definition crc32_bit :: "u32 \<Rightarrow> u32" where
  "crc32_bit crc = drop_bit 1 crc XOR (0xEDB88320 AND (- (crc AND 1)))"

definition crc32_feed :: "u8 \<Rightarrow> u32" where
  "crc32_feed b = ucast b"

definition crc32_byte :: "u32 \<Rightarrow> u8 \<Rightarrow> u32" where
  "crc32_byte crc b = (crc32_bit ^^ 8) (crc XOR crc32_feed b)"

definition updateCRC32 :: "u32 \<Rightarrow> bytes \<Rightarrow> u32" where
  "updateCRC32 crc data = foldl crc32_byte crc data"

definition calculateCRC32 :: "bytes \<Rightarrow> u32" where
  "calculateCRC32 data = NOT (foldl crc32_byte 0xFFFFFFFF data)"

section \<open>The contract of a checksum register\<close>

locale crc_register =
  fixes step :: "'w::len word \<Rightarrow> 'w word"
    and feed :: "u8 \<Rightarrow> 'w word"
    and byte :: "'w word \<Rightarrow> u8 \<Rightarrow> 'w word"
  assumes byte_eq: "byte r b = (step ^^ 8) (r XOR feed b)"
    and step_xor: "step (x XOR y) = step x XOR step y"
    and step_zero_only: "step x = 0 \<Longrightarrow> x = 0"
    and feed_xor: "feed (a XOR b) = feed a XOR feed b"
    and feed_zero_only: "feed b = 0 \<Longrightarrow> b = 0"
begin

lemma steps_xor: "(step ^^ n) (x XOR y) = (step ^^ n) x XOR (step ^^ n) y"
  by (induction n) (simp_all add: step_xor)

lemma steps_zero_only: "(step ^^ n) x = 0 \<Longrightarrow> x = 0"
  by (induction n) (auto dest: step_zero_only)

lemma steps_zero: "(step ^^ n) 0 = 0"
  using steps_xor [of n 0 0] by simp

lemma byte_xor: "byte (r XOR s) (a XOR b) = byte r a XOR byte s b"
proof -
  have "(r XOR s) XOR feed (a XOR b) = (r XOR feed a) XOR (s XOR feed b)"
    by (simp add: feed_xor xor.assoc xor.left_commute)
  then show ?thesis by (simp only: byte_eq steps_xor)
qed

lemma byte_zero_only: "byte r 0 = 0 \<Longrightarrow> r = 0"
proof -
  have "feed 0 = 0" using feed_xor [of 0 0] by simp
  then show "byte r 0 = 0 \<Longrightarrow> r = 0"
    by (auto simp: byte_eq dest: steps_zero_only)
qed

lemma fold_xor:
  "length as = length bs \<Longrightarrow>
   foldl byte (r XOR s) (map2 (XOR) as bs) = foldl byte r as XOR foldl byte s bs"
  by (induction as bs arbitrary: r s rule: list_induct2) (simp_all add: byte_xor)

lemma map2_xor_self: "map2 (XOR) bs bs = replicate (length bs) (0 :: u8)"
  by (induction bs) auto

lemma fold_zeros_only: "foldl byte r (replicate n 0) = 0 \<Longrightarrow> r = 0"
  by (induction n arbitrary: r) (auto dest: byte_zero_only)

lemma fold_register_inj: "foldl byte r bs = foldl byte s bs \<longleftrightarrow> r = s"
proof
  assume "foldl byte r bs = foldl byte s bs"
  then have "foldl byte (r XOR s) (replicate (length bs) 0) = 0"
    by (simp add: fold_xor flip: map2_xor_self)
  then have "r XOR s = 0" by (rule fold_zeros_only)
  then show "r = s" by (simp add: xor_zero_iff)
qed simp

lemma byte_inj: "byte r a = byte r b \<longleftrightarrow> a = b"
proof
  assume "byte r a = byte r b"
  then have "byte (r XOR r) (a XOR b) = 0" by (subst byte_xor) (simp only: xor_self_eq)
  then have "feed (a XOR b) = 0" by (auto simp: byte_eq dest: steps_zero_only)
  then have "a XOR b = 0" by (rule feed_zero_only)
  then show "a = b" by (simp add: xor_zero_iff)
qed simp

text \<open>A change that is confined to one byte always changes the checksum.\<close>

lemma single_byte: "foldl byte r (p @ a # s) = foldl byte r (p @ b # s) \<longleftrightarrow> a = b"
  by (simp add: fold_register_inj byte_inj)

end

locale crc_burst = crc_register step feed byte
  for step :: "'w::len word \<Rightarrow> 'w word" and feed :: "u8 \<Rightarrow> 'w word"
    and byte :: "'w word \<Rightarrow> u8 \<Rightarrow> 'w word" +
  fixes window :: nat
  assumes window: "length es = window \<Longrightarrow> foldl byte 0 es = 0 \<Longrightarrow> es = replicate window 0"
begin

lemma xor_zero_eq: "map2 (XOR) u v = replicate (length u) (0 :: u8) \<Longrightarrow> length u = length v \<Longrightarrow> u = v"
  by (induction u v rule: list_induct2') (auto simp: xor_zero_iff)

text \<open>So does every change that is confined to a window of the register's width.\<close>

lemma burst:
  assumes "length u = window" "length v = window"
  shows "foldl byte r (p @ u @ s) = foldl byte r (p @ v @ s) \<longleftrightarrow> u = v"
proof
  let ?q = "foldl byte r p"
  assume "foldl byte r (p @ u @ s) = foldl byte r (p @ v @ s)"
  then have "foldl byte ?q u = foldl byte ?q v"
    by (simp add: fold_register_inj)
  then have "foldl byte (?q XOR ?q) (map2 (XOR) u v) = 0"
    using assms by (subst fold_xor) simp_all
  then have "map2 (XOR) u v = replicate window 0"
    using assms by (simp add: window)
  then show "u = v" using xor_zero_eq [of u v] assms by simp
qed simp

end

section \<open>The two registers keep the contract\<close>

lemma and_8000_iff: "x AND 0x8000 \<noteq> 0 \<longleftrightarrow> bit x 15" for x :: u16
proof -
  have eq: "(0x8000 :: u16) = 2 ^ 15" by simp
  show ?thesis by (subst eq) (simp only: and_exp_eq_0_iff_not_bit not_not)
qed

lemma crc16_bit_eq: "crc16_bit x = push_bit 1 x XOR (if bit x 15 then 0x1021 else 0)"
  by (simp only: crc16_bit_def and_8000_iff) simp

lemma crc16_bit_xor: "crc16_bit (x XOR y) = crc16_bit x XOR crc16_bit y"
  by (cases "bit x 15"; cases "bit y 15")
    (simp_all add: crc16_bit_eq bit_xor_iff push_bit_xor ac_simps del: push_bit_Suc)

lemma crc16_bit_zero_only: "x = 0" if "crc16_bit x = 0"
proof -
  have eq: "push_bit 1 x = (if bit x 15 then 0x1021 else 0)"
    using that by (simp add: crc16_bit_eq xor_zero_iff)
  have no15: "\<not> bit x 15"
  proof
    assume "bit x 15"
    with eq have "bit (push_bit 1 x) 0 = bit (0x1021 :: u16) 0" by simp
    then show False by (simp add: bit_simps del: push_bit_Suc)
  qed
  with eq have "push_bit 1 x = 0" by simp
  then have *: "\<not> bit (push_bit 1 x) n" for n by simp
  have "\<not> bit x n" if "n < 16" for n
    using * [of "Suc n"] no15 that by (cases "n = 15") (auto simp: bit_simps simp del: push_bit_Suc)
  then show "x = 0" by (intro bit_word_eqI) simp
qed

lemma crc32_mask: "- (x AND 1) = (if bit x 0 then - 1 else 0)" for x :: u32
  by (simp add: and_one_eq odd_iff_mod_2_eq_one bit_0)

lemma crc32_bit_eq: "crc32_bit x = drop_bit 1 x XOR (if bit x 0 then 0xEDB88320 else 0)"
  by (simp add: crc32_bit_def crc32_mask)

lemma crc32_bit_xor: "crc32_bit (x XOR y) = crc32_bit x XOR crc32_bit y"
  by (cases "bit x 0"; cases "bit y 0")
    (simp_all add: crc32_bit_eq bit_xor_iff drop_bit_xor ac_simps)

lemma crc32_bit_zero_only: "x = 0" if "crc32_bit x = 0"
proof -
  have eq: "drop_bit 1 x = (if bit x 0 then 0xEDB88320 else 0)"
    using that by (simp add: crc32_bit_eq xor_zero_iff)
  have no0: "\<not> bit x 0"
  proof
    assume "bit x 0"
    with eq have "bit (drop_bit 1 x) 31 = bit (0xEDB88320 :: u32) 31" by simp
    then show False by (auto simp: bit_simps dest: bit_imp_le_length)
  qed
  with eq have "drop_bit 1 x = 0" by simp
  then have *: "\<not> bit (drop_bit 1 x) n" for n by simp
  have "\<not> bit x n" for n
    using * [of "n - 1"] no0 by (cases n) (auto simp: bit_simps)
  then show "x = 0" by (intro bit_word_eqI) simp
qed

lemma feed_zero_onlys: "crc16_feed b = 0 \<Longrightarrow> b = 0" "crc32_feed b = 0 \<Longrightarrow> b = 0"
proof -
  assume "crc16_feed b = 0"
  then have *: "\<not> bit (crc16_feed b) n" for n by simp
  have "\<not> bit b n" if "n < 8" for n
    using * [of "n + 8"] that by (simp add: crc16_feed_def bit_simps)
  then show "b = 0" by (intro bit_word_eqI) simp
next
  assume "crc32_feed b = 0"
  then have *: "\<not> bit (crc32_feed b) n" for n by simp
  have "\<not> bit b n" if "n < 8" for n
    using * [of n] that by (simp add: crc32_feed_def bit_simps)
  then show "b = 0" by (intro bit_word_eqI) simp
qed

lemma feed_xors:
  "crc16_feed (a XOR b) = crc16_feed a XOR crc16_feed b"
  "crc32_feed (a XOR b) = crc32_feed a XOR crc32_feed b"
  by (simp_all add: crc16_feed_def crc32_feed_def push_bit_xor unsigned_xor_eq)

text \<open>Feeding bytes early: as long as no bit leaves the register, a step is a shift.\<close>

lemma crc16_shift: "i \<le> 8 \<Longrightarrow> (crc16_bit ^^ i) (ucast b) = push_bit i (ucast b)" for b :: u8
proof (induction i)
  case (Suc i)
  then have "\<not> bit (push_bit i (ucast b) :: u16) 15"
    by (simp add: bit_simps)
  with Suc show ?case by (simp add: crc16_bit_eq push_bit_push_bit del: push_bit_Suc)
qed simp

lemma crc16_early: "(crc16_bit ^^ 8) (ucast b) = crc16_feed b"
  by (simp add: crc16_shift crc16_feed_def)

lemma crc32_shift:
  "i \<le> 8 \<Longrightarrow> j \<le> 16 \<Longrightarrow>
   (crc32_bit ^^ i) (push_bit (j + 8) (ucast b)) = push_bit (j + 8 - i) (ucast b)" for b :: u8
proof (induction i)
  case (Suc i)
  then have "\<not> bit (push_bit (j + 8 - i) (ucast b) :: u32) 0"
    by (simp add: bit_simps)
  moreover have "drop_bit 1 (push_bit (j + 8 - i) (ucast b) :: u32) = push_bit (j + 8 - Suc i) (ucast b)"
    using Suc.prems by (intro bit_word_eqI) (auto simp: bit_simps dest: bit_imp_le_length)
  ultimately show ?case using Suc by (simp add: crc32_bit_eq)
qed simp

lemma crc32_early:
  "(crc32_bit ^^ 8) (push_bit 8 (ucast b)) = crc32_feed b"
  "(crc32_bit ^^ 8) (push_bit 16 (ucast b)) = push_bit 8 (ucast b)"
  "(crc32_bit ^^ 8) (push_bit 24 (ucast b)) = push_bit 16 (ucast b)"
  using crc32_shift [of 8 0 b] crc32_shift [of 8 8 b] crc32_shift [of 8 16 b]
  by (simp_all add: crc32_feed_def)

interpretation crc16: crc_register crc16_bit crc16_feed crc16_byte
  by unfold_locales
    (simp_all add: crc16_byte_def crc16_bit_xor crc16_bit_zero_only feed_xors feed_zero_onlys)

interpretation crc32: crc_register crc32_bit crc32_feed crc32_byte
  by unfold_locales
    (simp_all add: crc32_byte_def crc32_bit_xor crc32_bit_zero_only feed_xors feed_zero_onlys)

text \<open>A register fed with its own width of bytes from zero is the shifted block itself.\<close>

lemma rd_be16_xor: "rd_be16 a b = push_bit 8 (ucast a) XOR ucast b"
  by (rule bit_word_eqI) (auto simp: rd_be16_def bit_simps)

lemma crc16_window_eq: "foldl crc16_byte 0 [a, b] = (crc16_bit ^^ 8) ((crc16_bit ^^ 8) (rd_be16 a b))"
  by (simp add: crc16_byte_def rd_be16_xor crc16.steps_xor crc16_early crc16_feed_def)

lemma rd_le32_xor:
  "rd_le32 a b c d = ucast a XOR push_bit 8 (ucast b) XOR push_bit 16 (ucast c) XOR push_bit 24 (ucast d)"
proof (rule bit_word_eqI)
  fix n assume "n < LENGTH(32)"
  then consider "n < 8" | "8 \<le> n" "n < 16" | "16 \<le> n" "n < 24" | "24 \<le> n" "n < 32"
    by fastforce
  then show "bit (rd_le32 a b c d) n = bit (ucast a XOR push_bit 8 (ucast b) XOR
      push_bit 16 (ucast c) XOR push_bit 24 (ucast d) :: u32) n"
    by cases (auto simp: rd_le32_def rd_be32_def bit_simps)
qed

lemma crc32_window_eq:
  "foldl crc32_byte 0 [a, b, c, d] = (crc32_bit ^^ 8) ((crc32_bit ^^ 8) ((crc32_bit ^^ 8)
     ((crc32_bit ^^ 8) (rd_le32 a b c d))))"
  by (simp only: crc32_byte_def rd_le32_xor crc32.steps_xor crc32_early crc32_feed_def
      foldl_Cons foldl_Nil xor.left_neutral xor.assoc)

lemma rd_be16_zero: "rd_be16 a b = 0 \<Longrightarrow> [a, b] = [0, 0]"
proof -
  assume "rd_be16 a b = 0"
  then have "be16 (rd_be16 a b) = be16 0" by (rule arg_cong)
  then show ?thesis by (simp only: be16_rd) (simp add: be16_def)
qed

lemma rd_le32_zero: "rd_le32 a b c d = 0 \<Longrightarrow> [a, b, c, d] = [0, 0, 0, 0]"
proof -
  assume "rd_le32 a b c d = 0"
  then have "le32 (rd_le32 a b c d) = le32 0" by (rule arg_cong)
  then show ?thesis by (simp only: le32_rd) (simp add: le32_def)
qed

interpretation crc16: crc_burst crc16_bit crc16_feed crc16_byte 2
proof unfold_locales
  fix es :: bytes assume "length es = 2" and z: "foldl crc16_byte 0 es = 0"
  then obtain a b where es: "es = [a, b]" by (auto elim: list_length_eq_2E)
  from z have "rd_be16 a b = 0"
    unfolding es crc16_window_eq by (auto dest!: crc16.steps_zero_only)
  from rd_be16_zero [OF this] show "es = replicate 2 0" by (simp add: es numeral_eq_Suc)
qed

interpretation crc32: crc_burst crc32_bit crc32_feed crc32_byte 4
proof unfold_locales
  fix es :: bytes assume "length es = 4" and z: "foldl crc32_byte 0 es = 0"
  then obtain a b c d where es: "es = [a, b, c, d]" by (auto elim: list_length_eq_4E)
  from z have "rd_le32 a b c d = 0"
    unfolding es crc32_window_eq by (auto dest!: crc32.steps_zero_only)
  from rd_le32_zero [OF this] show "es = replicate 4 0" by (simp add: es numeral_eq_Suc)
qed

section \<open>What the checksums detect\<close>

text \<open>The frame's checksum, appended in big-endian order, leaves the register at zero.\<close>

lemma crc16_residue: "foldl crc16_byte r (be16 r) = 0"
proof -
  obtain a b where ab: "be16 r = [a, b]" by (simp add: be16_def)
  then have r: "rd_be16 a b = r" by (auto simp: be16_def)
  have "foldl crc16_byte (0 XOR r) (map2 (XOR) [a, b] [0, 0]) =
        foldl crc16_byte 0 [a, b] XOR foldl crc16_byte r [0, 0]"
    by (rule crc16.fold_xor) simp
  moreover have "foldl crc16_byte r [0, 0] = (crc16_bit ^^ 8) ((crc16_bit ^^ 8) r)"
    by (simp add: crc16_byte_def crc16_feed_def)
  moreover have "foldl crc16_byte 0 [a, b] = (crc16_bit ^^ 8) ((crc16_bit ^^ 8) r)"
    by (simp only: crc16_window_eq r)
  ultimately show ?thesis by (simp add: ab)
qed

lemma crc16_residue_iff: "foldl crc16_byte r [hi, lo] = 0 \<longleftrightarrow> rd_be16 hi lo = r"
proof
  assume "rd_be16 hi lo = r"
  then have "be16 r = [hi, lo]" by auto
  then show "foldl crc16_byte r [hi, lo] = 0" using crc16_residue [of r] by simp
next
  assume z: "foldl crc16_byte r [hi, lo] = 0"
  have len: "length [hi, lo] = 2" "length (be16 r) = 2" by simp_all
  from z have "foldl crc16_byte r ([] @ [hi, lo] @ []) = foldl crc16_byte r ([] @ be16 r @ [])"
    by (simp add: crc16_residue)
  then have "[hi, lo] = be16 r" by (simp only: crc16.burst [OF len])
  then show "rd_be16 hi lo = r" by (auto simp: be16_def)
qed

subsection \<open>Parity\<close>

text \<open>
  The parity of the set bits of a word. The polynomial of CRC-16/CCITT has an even number
  of terms, so the register keeps the parity of everything fed into it.
\<close>

definition odd_bits :: "'a::len word \<Rightarrow> bool" where
  "odd_bits w = foldr (\<lambda>n p. bit w n \<noteq> p) [0..<LENGTH('a)] False"

definition odd_bits_all :: "bytes \<Rightarrow> bool" where
  "odd_bits_all bs = foldr (\<lambda>b p. odd_bits b \<noteq> p) bs False"

lemma odd_bits_xor: "odd_bits (x XOR y) = (odd_bits x \<noteq> odd_bits y)"
proof -
  have "foldr (\<lambda>n p. bit (x XOR y) n \<noteq> p) ns False =
      (foldr (\<lambda>n p. bit x n \<noteq> p) ns False \<noteq> foldr (\<lambda>n p. bit y n \<noteq> p) ns False)" for ns
    by (induction ns) (auto simp: bit_xor_iff)
  then show ?thesis by (simp add: odd_bits_def)
qed

lemma odd_bits_zero [simp]: "\<not> odd_bits 0"
proof -
  have "\<not> foldr (\<lambda>n p. bit (0 :: 'a word) n \<noteq> p) ns False" for ns
    by (induction ns) auto
  then show ?thesis by (simp add: odd_bits_def)
qed

lemma foldr_neq_append:
  "foldr (\<lambda>n p. f n \<noteq> p) (ms @ ns) False =
   (foldr (\<lambda>n p. f n \<noteq> p) ms False \<noteq> foldr (\<lambda>n p. f n \<noteq> p) ns False)"
  by (induction ms) auto

lemma foldr_neq_none: "(\<And>n. n \<in> set ns \<Longrightarrow> \<not> f n) \<Longrightarrow> \<not> foldr (\<lambda>n p. f n \<noteq> p) ns False"
  by (induction ns) auto

lemma foldr_neq_shift:
  "foldr (\<lambda>n p. f n \<noteq> p) [k..<k + m] False = foldr (\<lambda>n p. f (n + k) \<noteq> p) [0..<m] False"
proof -
  have "[k..<k + m] = map (\<lambda>n. n + k) [0..<m]" by (simp add: map_add_upt add.commute)
  then show ?thesis by (simp add: foldr_map comp_def)
qed

text \<open>Shifting left by \<open>k\<close> drops the top \<open>k\<close> bits from the count.\<close>

lemma odd_bits_push_bit_1: "odd_bits (push_bit 1 x) = (odd_bits x \<noteq> bit x 15)" for x :: u16
proof -
  let ?P = "\<lambda>f ns. foldr (\<lambda>n p. f n \<noteq> p) ns False"
  have "[0..<16] = [0] @ [1..<1 + 15]" by (simp add: upt_rec)
  then have "odd_bits (push_bit 1 x) = ?P (bit (push_bit 1 x)) [1..<1 + 15]"
    by (simp add: odd_bits_def bit_simps del: push_bit_Suc upt_Suc)
  also have "\<dots> = ?P (\<lambda>n. bit (push_bit 1 x) (n + 1)) [0..<15]"
    by (rule foldr_neq_shift)
  also have "\<dots> = ?P (bit x) [0..<15]"
    by (rule foldr_cong) (auto simp: bit_simps simp del: push_bit_Suc)
  also have "\<dots> = (?P (bit x) ([0..<15] @ [15]) \<noteq> bit x 15)"
    by (simp only: foldr_neq_append) auto
  also have "[0..<15] @ [15] = [0..<16]" by (simp add: upt_rec)
  finally show ?thesis by (simp add: odd_bits_def)
qed

lemma odd_bits_crc16_bit: "odd_bits (crc16_bit x) = odd_bits x"
proof -
  have p: "odd_bits (0x1021 :: u16)"
    by (simp add: odd_bits_def upt_rec)
  show ?thesis
    by (cases "bit x 15") (simp_all add: crc16_bit_eq odd_bits_xor odd_bits_push_bit_1 p del: push_bit_Suc One_nat_def)
qed

lemma odd_bits_feed: "odd_bits (crc16_feed b) = odd_bits b"
proof -
  let ?P = "\<lambda>f ns. foldr (\<lambda>n p. f n \<noteq> p) ns False"
  have none: "\<not> ?P (bit (crc16_feed b)) [0..<8]"
    by (rule foldr_neq_none) (simp add: crc16_feed_def bit_simps)
  have split: "[0..<16] = [0..<8] @ [8..<8 + 8]" by (simp add: upt_rec)
  have "odd_bits (crc16_feed b) = ?P (bit (crc16_feed b)) [0..<16]"
    by (simp add: odd_bits_def)
  also have "\<dots> = ?P (bit (crc16_feed b)) ([0..<8] @ [8..<8 + 8])"
    by (simp only: split)
  also have "\<dots> = ?P (bit (crc16_feed b)) [8..<8 + 8]"
    unfolding foldr_neq_append using none by blast
  also have "\<dots> = ?P (\<lambda>n. bit (crc16_feed b) (n + 8)) [0..<8]"
    by (rule foldr_neq_shift)
  also have "\<dots> = ?P (bit b) [0..<8]"
    by (rule foldr_cong) (auto simp: crc16_feed_def bit_simps)
  finally show ?thesis by (simp add: odd_bits_def)
qed

lemma odd_bits_crc16_byte: "odd_bits (crc16_byte r b) = (odd_bits r \<noteq> odd_bits b)"
proof -
  have "odd_bits ((crc16_bit ^^ n) x) = odd_bits x" for n x
    by (induction n) (simp_all add: odd_bits_crc16_bit)
  then show ?thesis by (simp add: crc16_byte_def odd_bits_xor odd_bits_feed)
qed

lemma odd_bits_crc16_fold: "odd_bits (foldl crc16_byte r bs) = (odd_bits r \<noteq> odd_bits_all bs)"
  by (induction bs arbitrary: r) (auto simp: odd_bits_all_def odd_bits_crc16_byte)

lemma odd_bits_all_map2_xor:
  "length as = length bs \<Longrightarrow>
   odd_bits_all (map2 (XOR) as bs) = (odd_bits_all as \<noteq> odd_bits_all bs)"
  by (induction as bs rule: list_induct2) (auto simp: odd_bits_all_def odd_bits_xor)

section \<open>What the checksums detect\<close>

text \<open>
  Two messages that differ only inside a window of two adjacent bytes have different frame
  checksums; two blobs that differ only inside a window of four bytes, one 32-bit field for
  instance, have different CRC-32 values.
\<close>

lemma crc16_burst:
  assumes "length u = 2" and "length v = 2"
  shows "calculateCRC16 (p @ u @ s) = calculateCRC16 (p @ v @ s) \<longleftrightarrow> u = v"
  unfolding calculateCRC16_def using assms by (rule crc16.burst)

lemma crc32_burst:
  assumes "length u = 4" and "length v = 4"
  shows "calculateCRC32 (p @ u @ s) = calculateCRC32 (p @ v @ s) \<longleftrightarrow> u = v"
proof -
  have "NOT x = NOT y \<longleftrightarrow> x = y" for x y :: u32
    by (metis bit.double_compl)
  then show ?thesis
    unfolding calculateCRC32_def using crc32.burst [OF assms] by simp
qed

text \<open>
  Starting from all ones, feeding an image chunk by chunk with \<open>updateCRC32\<close> and
  complementing the register at the end gives the checksum of the whole image.
\<close>

lemma crc32_chunks: "NOT (foldl updateCRC32 0xFFFFFFFF cs) = calculateCRC32 (concat cs)"
proof -
  have "foldl updateCRC32 r cs = foldl crc32_byte r (concat cs)" for r
    by (induction cs arbitrary: r) (simp_all add: updateCRC32_def)
  then show ?thesis by (simp add: calculateCRC32_def)
qed

end
