(* ===== verification/Fw_Ring.thy ===== *)
theory Fw_Ring
  imports Fw_Prelude
begin

text \<open>
  The ring-buffer discipline of \<open>HistoryService\<close>: 16-bit indices that advance modulo the
  capacity, and the loop \<open>while (current != head) { ...; current = (current + 1) % N; }\<close>
  that every scan of the buffer uses. The loop is \<open>ring_scan\<close>, a partial function: \<open>None\<close>
  is a scan that never returns or whose body reads outside the array. For indices inside
  the array the scan is a walk over the list of stored slots (\<open>ring_scan_list\<close>). The
  contract of a bounded log that drops its oldest entry is the locale \<open>bounded_log\<close>, which
  \<open>HistoryService\<close> provides.
\<close>

section \<open>Indices\<close>

definition ring_next :: "nat \<Rightarrow> u16 \<Rightarrow> u16" where
  "ring_next n i = word_of_nat ((unat i + 1) mod n)"

definition ring_count :: "nat \<Rightarrow> nat \<Rightarrow> nat \<Rightarrow> nat" where
  "ring_count n t h = (if t \<le> h then h - t else n - t + h)"

definition ring_idx :: "nat \<Rightarrow> nat \<Rightarrow> nat \<Rightarrow> nat list" where
  "ring_idx n t k = map (\<lambda>j. (t + j) mod n) [0..<k]"

definition ring_list :: "nat \<Rightarrow> 'a list \<Rightarrow> nat \<Rightarrow> nat \<Rightarrow> 'a list" where
  "ring_list n buf t h = map (\<lambda>i. buf ! i) (ring_idx n t (ring_count n t h))"

lemma unat_ring_next:
  assumes "0 < n" "n \<le> 65536"
  shows "unat (ring_next n i) = (unat i + 1) mod n"
proof -
  have "(unat i + 1) mod n < 65536"
    using assms by (meson le_trans mod_less_divisor not_le)
  then show ?thesis by (simp add: ring_next_def unat_of_nat)
qed

lemma ring_count_less: "t < n \<Longrightarrow> h < n \<Longrightarrow> ring_count n t h < n"
  by (auto simp: ring_count_def)

lemma ring_count_self [simp]: "ring_count n t t = 0"
  by (simp add: ring_count_def)

lemma mod_wrap: "t < n \<Longrightarrow> j < n \<Longrightarrow> (t + j) mod n = (if t + j < n then t + j else t + j - n)" for n :: nat
  by (auto simp: mod_if)

lemma ring_count_step:
  "t < n \<Longrightarrow> h < n \<Longrightarrow> t \<noteq> h \<Longrightarrow> ring_count n t h = Suc (ring_count n ((t + 1) mod n) h)"
  by (cases "t + 1 < n") (auto simp: ring_count_def mod_if)

lemma ring_end: "t < n \<Longrightarrow> h < n \<Longrightarrow> (t + ring_count n t h) mod n = h"
  by (auto simp: ring_count_def mod_if)

lemma ring_idx_Cons: "ring_idx n t (Suc k) = t mod n # ring_idx n ((t + 1) mod n) k"
proof -
  have "[0..<Suc k] = 0 # map Suc [0..<k]"
    by (metis upt_conv_Cons map_Suc_upt zero_less_Suc)
  then show ?thesis by (simp add: ring_idx_def comp_def mod_simps del: upt_Suc)
qed

lemma ring_idx_snoc: "ring_idx n t (Suc k) = ring_idx n t k @ [(t + k) mod n]"
  by (simp add: ring_idx_def)

lemma length_ring_idx [simp]: "length (ring_idx n t k) = k"
  by (simp add: ring_idx_def)

lemma ring_idx_bound: "0 < n \<Longrightarrow> i \<in> set (ring_idx n t k) \<Longrightarrow> i < n"
  by (auto simp: ring_idx_def)

lemma ring_idx_distinct:
  assumes "t < n" "k \<le> n"
  shows "distinct (ring_idx n t k)"
proof -
  have "inj_on (\<lambda>j. (t + j) mod n) {0..<k}"
    using assms by (auto intro!: inj_onI simp: mod_wrap split: if_splits)
  then show ?thesis by (simp add: ring_idx_def distinct_map)
qed

lemma length_ring_list [simp]: "length (ring_list n buf t h) = ring_count n t h"
  by (simp add: ring_list_def)

lemma ring_list_empty [simp]: "ring_list n buf t t = []"
  by (simp add: ring_list_def ring_idx_def)

lemma ring_list_step:
  "t < n \<Longrightarrow> h < n \<Longrightarrow> t \<noteq> h \<Longrightarrow>
   ring_list n buf t h = buf ! t # ring_list n buf ((t + 1) mod n) h"
  by (simp add: ring_list_def ring_count_step ring_idx_Cons)

section \<open>The scan loop\<close>

partial_function (option) ring_scan ::
  "nat \<Rightarrow> ('s \<Rightarrow> bool) \<Rightarrow> (u16 \<Rightarrow> 's \<Rightarrow> (bool \<times> 's) option) \<Rightarrow> u16 \<Rightarrow> u16 \<Rightarrow> 's \<Rightarrow> 's option" where
  "ring_scan n go body stop cur s =
     (if cur = stop \<or> \<not> go s then Some s
      else Option.bind (body cur s)
        (\<lambda>r. if fst r then Some (snd r) else ring_scan n go body stop (ring_next n cur) (snd r)))"

fun list_scan :: "('s \<Rightarrow> bool) \<Rightarrow> ('i \<Rightarrow> 's \<Rightarrow> bool \<times> 's) \<Rightarrow> 'i list \<Rightarrow> 's \<Rightarrow> 's" where
  "list_scan go f [] s = s"
| "list_scan go f (i # is) s =
     (if \<not> go s then s
      else if fst (f i s) then snd (f i s) else list_scan go f is (snd (f i s)))"

text \<open>
  Inside the array the loop visits the stored slots from the oldest to the newest and
  returns. \<open>P\<close> is what the body needs of its state and keeps.
\<close>

lemma ring_scan_list:
  assumes n: "0 < n" "n \<le> 65536"
    and body: "\<And>i s. P s \<Longrightarrow> unat i < n \<Longrightarrow> body i s = Some (f (unat i) s)"
    and pres: "\<And>i s. P s \<Longrightarrow> i < n \<Longrightarrow> \<not> fst (f i s) \<Longrightarrow> P (snd (f i s))"
  shows "P s \<Longrightarrow> unat cur < n \<Longrightarrow> unat stop < n \<Longrightarrow>
    ring_scan n go body stop cur s =
      Some (list_scan go f (ring_idx n (unat cur) (ring_count n (unat cur) (unat stop))) s)"
proof (induction "ring_count n (unat cur) (unat stop)" arbitrary: cur s)
  case 0
  then have "cur = stop"
    using ring_end [of "unat cur" n "unat stop"] by (simp add: word_unat_eq_iff)
  then show ?case by (subst ring_scan.simps) (simp add: ring_idx_def)
next
  case (Suc k)
  then have neq: "cur \<noteq> stop" by auto
  let ?c = "unat cur" and ?c' = "unat (ring_next n cur)" and ?h = "unat stop"
  have c': "?c' = (?c + 1) mod n" using n by (rule unat_ring_next)
  then have bound: "?c' < n" using n by simp
  have cnt: "ring_count n ?c ?h = Suc (ring_count n ?c' ?h)"
    using Suc.prems neq by (simp add: c' ring_count_step word_unat_eq_iff)
  let ?r = "f ?c s"
  have idx: "ring_idx n ?c (ring_count n ?c ?h) = ?c # ring_idx n ?c' (ring_count n ?c' ?h)"
    using Suc.prems by (simp add: cnt ring_idx_Cons c')
  show ?case
  proof (cases "fst ?r")
    case True
    then show ?thesis
      using neq Suc.prems by (subst ring_scan.simps) (simp add: idx body)
  next
    case False
    then have "P (snd ?r)" using Suc.prems by (intro pres)
    then have "ring_scan n go body stop (ring_next n cur) (snd ?r) =
        Some (list_scan go f (ring_idx n ?c' (ring_count n ?c' ?h)) (snd ?r))"
      using Suc.hyps(2) cnt bound Suc.prems(3) by (intro Suc.hyps(1)) simp_all
    then show ?thesis
      using False neq Suc.prems by (subst ring_scan.simps) (simp add: idx body)
  qed
qed

text \<open>A head outside the array is never met: the scan does not return.\<close>

lemma ring_scan_diverges:
  assumes n: "0 < n" "n \<le> 65536" and stop: "n \<le> unat stop"
    and go: "\<And>s. go s"
    and body: "\<And>i s r. body i s = Some r \<Longrightarrow> \<not> fst r"
  shows "cur \<noteq> stop \<Longrightarrow> ring_scan n go body stop cur s = None"
proof (rule ccontr)
  assume neq: "cur \<noteq> stop" and "ring_scan n go body stop cur s \<noteq> None"
  then obtain s' where run: "ring_scan n go body stop cur s = Some s'" by auto
  have "n = n \<longrightarrow> go = go \<longrightarrow> body = body \<longrightarrow> stop = stop \<longrightarrow> cur = stop"
  proof (rule ring_scan.raw_induct [where P = "\<lambda>n' go' body' stop' cur' s s'.
      n' = n \<longrightarrow> go' = go \<longrightarrow> body' = body \<longrightarrow> stop' = stop \<longrightarrow> cur' = stop", OF _ run], intro impI)
    fix scan n' go' body' stop' cur' s s'
    assume IH: "\<And>n' go' body' stop' cur' s s'. scan n' go' body' stop' cur' s = Some s' \<Longrightarrow>
        n' = n \<longrightarrow> go' = go \<longrightarrow> body' = body \<longrightarrow> stop' = stop \<longrightarrow> cur' = stop"
      and eq: "(if cur' = stop' \<or> \<not> go' s then Some s
        else Option.bind (body' cur' s)
          (\<lambda>r. if fst r then Some (snd r)
               else scan n' go' body' stop' (ring_next n' cur') (snd r))) = Some s'"
      and inst: "n' = n" "go' = go" "body' = body" "stop' = stop"
    show "cur' = stop"
    proof (rule ccontr)
      assume "cur' \<noteq> stop"
      with eq inst go obtain r where r: "body cur' s = Some r" and
        rest: "(if fst r then Some (snd r) else scan n go body stop (ring_next n cur') (snd r)) = Some s'"
        by (auto simp: bind_eq_Some_conv)
      have "scan n go body stop (ring_next n cur') (snd r) = Some s'"
        using rest body [OF r] by simp
      with IH have "ring_next n cur' = stop" by blast
      then have "unat stop = (unat cur' + 1) mod n" using unat_ring_next [OF n] by metis
      with stop n show False by (metis mod_less_divisor not_le)
    qed
  qed
  then have "cur = stop" by simp
  with neq show False ..
qed

section \<open>Writing to the ring\<close>

lemma ring_list_nth:
  "j < ring_count n t h \<Longrightarrow> ring_list n buf t h ! j = buf ! ((t + j) mod n)"
  by (simp add: ring_list_def ring_idx_def)

lemma ring_list_update:
  assumes t: "t < n" and h: "h < n" and len: "length buf = n" and j: "j < ring_count n t h"
  shows "ring_list n (buf[(t + j) mod n := e]) t h = (ring_list n buf t h)[j := e]"
proof (rule nth_equalityI)
  fix i assume "i < length (ring_list n (buf[(t + j) mod n := e]) t h)"
  then have i: "i < ring_count n t h" by simp
  have "ring_count n t h < n" using t h by (rule ring_count_less)
  then have "(t + i) mod n = (t + j) mod n \<longleftrightarrow> i = j"
    using i j t by (auto simp: mod_wrap split: if_splits)
  then show "ring_list n (buf[(t + j) mod n := e]) t h ! i = (ring_list n buf t h)[j := e] ! i"
    using i j t len by (cases "i = j") (simp_all add: ring_list_nth)
qed simp

lemma ring_list_append:
  assumes t: "t < n" and h: "h < n" and len: "length buf = n" and free: "(h + 1) mod n \<noteq> t"
  shows "ring_list n (buf[h := e]) t ((h + 1) mod n) = ring_list n buf t h @ [e]"
proof -
  let ?k = "ring_count n t h"
  have k: "ring_count n t ((h + 1) mod n) = Suc ?k"
    using t h free by (auto simp: ring_count_def mod_if)
  have endk: "(t + ?k) mod n = h" using t h by (rule ring_end)
  have "Suc ?k \<le> n" using ring_count_less [OF t h] by simp
  then have "distinct (ring_idx n t (Suc ?k))" using t by (intro ring_idx_distinct)
  then have "h \<notin> set (ring_idx n t ?k)" by (simp add: ring_idx_snoc endk)
  then have "map (\<lambda>i. buf[h := e] ! i) (ring_idx n t ?k) = map (\<lambda>i. buf ! i) (ring_idx n t ?k)"
    by (auto intro: nth_list_update_neq)
  then show ?thesis
    using h len by (simp only: ring_list_def k ring_idx_snoc endk) simp
qed

lemma ring_list_overwrite:
  assumes t: "t < n" and h: "h < n" and len: "length buf = n" and full: "(h + 1) mod n = t"
    and n: "2 \<le> n"
  shows "ring_list n (buf[h := e]) ((t + 1) mod n) t = tl (ring_list n buf t h) @ [e]"
proof -
  have th: "t \<noteq> h" using full n h by (cases "h + 1 < n") (auto simp: mod_if)
  have t': "(t + 1) mod n < n" using n by simp
  have free: "(h + 1) mod n \<noteq> (t + 1) mod n" using full t n by (auto simp: mod_if)
  have "ring_list n (buf[h := e]) ((t + 1) mod n) ((h + 1) mod n) =
      ring_list n buf ((t + 1) mod n) h @ [e]"
    using t' h len free by (rule ring_list_append)
  then show ?thesis using ring_list_step [OF t h th, of buf] full by simp
qed

section \<open>A bounded log that drops its oldest entry\<close>

text \<open>
  \<open>obs\<close> is what the log is to remember of an input; \<open>entries\<close> is what it holds, oldest first.
\<close>

locale bounded_log =
  fixes entries :: "'s \<Rightarrow> 'e list"
    and push :: "'i \<Rightarrow> 's \<Rightarrow> 's"
    and obs :: "'i \<Rightarrow> 'e"
    and ok :: "'s \<Rightarrow> bool"
    and cap :: nat
  assumes ok_push: "ok s \<Longrightarrow> ok (push i s)"
    and bound: "ok s \<Longrightarrow> length (entries s) \<le> cap"
    and entries_push:
      "ok s \<Longrightarrow> entries (push i s) = drop (Suc (length (entries s)) - cap) (entries s @ [obs i])"
begin

lemma ok_fold: "ok s \<Longrightarrow> ok (fold push es s)"
  by (induction es arbitrary: s) (simp_all add: ok_push)

text \<open>After any run of pushes the log is the most recent \<open>cap\<close> of all entries.\<close>

lemma entries_fold:
  "ok s \<Longrightarrow> entries (fold push es s) =
     drop (length (entries s) + length es - cap) (entries s @ map obs es)"
proof (induction es arbitrary: s)
  case Nil
  then show ?case using bound [of s] by simp
next
  case (Cons e es)
  let ?l = "entries s" and ?d = "Suc (length (entries s)) - cap" and ?es = "map obs es"
  have d: "?d \<le> Suc (length ?l)" by simp
  have len: "length (entries (push e s)) = Suc (length ?l) - ?d"
    using Cons.prems by (simp add: entries_push)
  have "entries (fold push es (push e s)) =
      drop (length (entries (push e s)) + length es - cap) (entries (push e s) @ ?es)"
    using Cons.prems by (intro Cons.IH ok_push)
  also have "entries (push e s) @ ?es = drop ?d ((?l @ [obs e]) @ ?es)"
    using d by (simp only: entries_push [OF Cons.prems] drop_append [of ?d "?l @ [obs e]" ?es]) simp
  also have "(?l @ [obs e]) @ ?es = ?l @ obs e # ?es" by simp
  also have "drop (length (entries (push e s)) + length es - cap) (drop ?d (?l @ obs e # ?es)) =
      drop (length ?l + length (e # es) - cap) (?l @ obs e # ?es)"
  proof -
    have "Suc (length ?l) - ?d + length es - cap + ?d = length ?l + length (e # es) - cap"
      using bound [OF Cons.prems] by simp
    then show ?thesis by (simp only: len drop_drop)
  qed
  finally show ?case by simp
qed

lemma fold_bound: "ok s \<Longrightarrow> length (entries (fold push es s)) \<le> cap"
  by (intro bound ok_fold)

text \<open>Nothing is lost while the log has room.\<close>

lemma fold_no_loss:
  "ok s \<Longrightarrow> length (entries s) + length es \<le> cap \<Longrightarrow>
   entries (fold push es s) = entries s @ map obs es"
  by (simp add: entries_fold)

end

end
