(* ===== verification/Fw_Nvs.thy ===== *)
theory Fw_Nvs
  imports Fw_Prelude
begin

text \<open>
  What the firmware uses of the ESP-IDF that is not part of the repository: the reset
  reasons, and the two non-volatile storage interfaces (Arduino \<open>Preferences\<close> and the raw
  \<open>nvs_*\<close> calls). They are parameters: a record of functions over an abstract flash state
  \<open>'n\<close>. \<open>prefs_ok\<close> and \<open>nvs_ok\<close> state the documented behaviour that the storage properties
  assume, through a view of the flash state as a typed map; \<open>map_prefs\<close> and \<open>map_nvs\<close> are
  concrete instances that satisfy them.
\<close>

datatype reset_reason = ESP_RST_UNKNOWN | ESP_RST_POWERON | ESP_RST_EXT | ESP_RST_SW
  | ESP_RST_PANIC | ESP_RST_INT_WDT | ESP_RST_TASK_WDT | ESP_RST_WDT | ESP_RST_DEEPSLEEP
  | ESP_RST_BROWNOUT | ESP_RST_SDIO

datatype nvs_val = VU32 u32 | VU16 u16 | VBlob bytes

type_synonym nvs_view = "string \<times> string \<Rightarrow> nvs_val option"

section \<open>Preferences\<close>

record 'n prefs_api =
  p_begin :: "'n \<Rightarrow> string \<Rightarrow> bool \<Rightarrow> bool"
  p_isKey :: "'n \<Rightarrow> string \<Rightarrow> string \<Rightarrow> bool"
  p_putULong :: "'n \<Rightarrow> string \<Rightarrow> string \<Rightarrow> u32 \<Rightarrow> nat \<times> 'n"
  p_getULong :: "'n \<Rightarrow> string \<Rightarrow> string \<Rightarrow> u32 \<Rightarrow> u32"
  p_putUShort :: "'n \<Rightarrow> string \<Rightarrow> string \<Rightarrow> u16 \<Rightarrow> nat \<times> 'n"
  p_getUShort :: "'n \<Rightarrow> string \<Rightarrow> string \<Rightarrow> u16 \<Rightarrow> u16"
  p_putBytes :: "'n \<Rightarrow> string \<Rightarrow> string \<Rightarrow> bytes \<Rightarrow> nat \<times> 'n"
  p_getBytes :: "'n \<Rightarrow> string \<Rightarrow> string \<Rightarrow> nat \<Rightarrow> bytes"
  p_clear :: "'n \<Rightarrow> string \<Rightarrow> 'n"

text \<open>
  The documented contract: a put returns the number of bytes it stored, or 0 when it
  failed and left the flash as it was; a get returns the stored value of that type, or the
  default; \<open>getBytes\<close> returns nothing when the stored blob does not fit the buffer.
\<close>

definition put_ok :: "('n \<Rightarrow> nvs_view) \<Rightarrow> 'n \<Rightarrow> string \<Rightarrow> string \<Rightarrow> nvs_val \<Rightarrow> nat \<Rightarrow> nat \<times> 'n \<Rightarrow> bool" where
  "put_ok view n ns k v len r \<longleftrightarrow>
     (fst r = len \<and> view (snd r) = (view n)((ns, k) \<mapsto> v)) \<or>
     (fst r = 0 \<and> view (snd r) = view n)"

definition prefs_ok :: "'n prefs_api \<Rightarrow> ('n \<Rightarrow> nvs_view) \<Rightarrow> bool" where
  "prefs_ok api view \<longleftrightarrow>
     (\<forall>n ns k. p_isKey api n ns k = (view n (ns, k) \<noteq> None)) \<and>
     (\<forall>n ns k v. put_ok view n ns k (VU32 v) 4 (p_putULong api n ns k v)) \<and>
     (\<forall>n ns k v. put_ok view n ns k (VU16 v) 2 (p_putUShort api n ns k v)) \<and>
     (\<forall>n ns k v. put_ok view n ns k (VBlob v) (length v) (p_putBytes api n ns k v)) \<and>
     (\<forall>n ns k d. p_getULong api n ns k d = (case view n (ns, k) of Some (VU32 v) \<Rightarrow> v | _ \<Rightarrow> d)) \<and>
     (\<forall>n ns k d. p_getUShort api n ns k d = (case view n (ns, k) of Some (VU16 v) \<Rightarrow> v | _ \<Rightarrow> d)) \<and>
     (\<forall>n ns k m. p_getBytes api n ns k m =
        (case view n (ns, k) of Some (VBlob b) \<Rightarrow> if length b \<le> m then b else [] | _ \<Rightarrow> [])) \<and>
     (\<forall>n ns. view (p_clear api n ns) = (\<lambda>(s, k). if s = ns then None else view n (s, k)))"

lemma prefs_okD:
  assumes "prefs_ok api view"
  shows "p_isKey api n ns k = (view n (ns, k) \<noteq> None)"
    and "put_ok view n ns k (VU32 v) 4 (p_putULong api n ns k v)"
    and "put_ok view n ns k (VU16 w) 2 (p_putUShort api n ns k w)"
    and "put_ok view n ns k (VBlob b) (length b) (p_putBytes api n ns k b)"
    and "p_getULong api n ns k d = (case view n (ns, k) of Some (VU32 v) \<Rightarrow> v | _ \<Rightarrow> d)"
    and "p_getUShort api n ns k d' = (case view n (ns, k) of Some (VU16 v) \<Rightarrow> v | _ \<Rightarrow> d')"
    and "p_getBytes api n ns k m =
      (case view n (ns, k) of Some (VBlob b) \<Rightarrow> if length b \<le> m then b else [] | _ \<Rightarrow> [])"
    and "view (p_clear api n ns) = (\<lambda>(s, k). if s = ns then None else view n (s, k))"
  using assms by (simp_all add: prefs_ok_def)

text \<open>A concrete flash: a map, every namespace opens, every write succeeds.\<close>

definition map_prefs :: "nvs_view prefs_api" where
  "map_prefs = \<lparr>
     p_begin = (\<lambda>n ns ro. True),
     p_isKey = (\<lambda>n ns k. n (ns, k) \<noteq> None),
     p_putULong = (\<lambda>n ns k v. (4, n((ns, k) \<mapsto> VU32 v))),
     p_getULong = (\<lambda>n ns k d. case n (ns, k) of Some (VU32 v) \<Rightarrow> v | _ \<Rightarrow> d),
     p_putUShort = (\<lambda>n ns k v. (2, n((ns, k) \<mapsto> VU16 v))),
     p_getUShort = (\<lambda>n ns k d. case n (ns, k) of Some (VU16 v) \<Rightarrow> v | _ \<Rightarrow> d),
     p_putBytes = (\<lambda>n ns k v. (length v, n((ns, k) \<mapsto> VBlob v))),
     p_getBytes = (\<lambda>n ns k m.
       case n (ns, k) of Some (VBlob b) \<Rightarrow> if length b \<le> m then b else [] | _ \<Rightarrow> []),
     p_clear = (\<lambda>n ns. \<lambda>(s, k). if s = ns then None else n (s, k))\<rparr>"

lemma map_prefs_ok: "prefs_ok map_prefs (\<lambda>n. n)"
  by (simp add: prefs_ok_def map_prefs_def put_ok_def)

text \<open>Flash that is neither full nor worn out: namespaces open and writes succeed.\<close>

definition prefs_reliable :: "'n prefs_api \<Rightarrow> ('n \<Rightarrow> nvs_view) \<Rightarrow> bool" where
  "prefs_reliable api view \<longleftrightarrow> prefs_ok api view \<and>
     (\<forall>n ns ro. p_begin api n ns ro) \<and>
     (\<forall>n ns k v. fst (p_putULong api n ns k v) \<noteq> 0) \<and>
     (\<forall>n ns k v. fst (p_putUShort api n ns k v) \<noteq> 0) \<and>
     (\<forall>n ns k v. v \<noteq> [] \<longrightarrow> fst (p_putBytes api n ns k v) \<noteq> 0)"

lemma map_prefs_reliable: "prefs_reliable map_prefs (\<lambda>n. n)"
  using map_prefs_ok by (simp add: prefs_reliable_def) (simp add: map_prefs_def)

lemma prefs_reliableD:
  assumes "prefs_reliable api view"
  shows "prefs_ok api view" "p_begin api n ns ro"
    and "view (snd (p_putULong api n ns k v)) = (view n)((ns, k) \<mapsto> VU32 v)"
    and "view (snd (p_putUShort api n ns k w)) = (view n)((ns, k) \<mapsto> VU16 w)"
    and "b \<noteq> [] \<Longrightarrow> fst (p_putBytes api n ns k b) = length b \<and>
      view (snd (p_putBytes api n ns k b)) = (view n)((ns, k) \<mapsto> VBlob b)"
proof -
  have ok: "prefs_ok api view" using assms by (simp add: prefs_reliable_def)
  have nz: "fst (p_putULong api n ns k v) \<noteq> 0" "fst (p_putUShort api n ns k w) \<noteq> 0"
    "b \<noteq> [] \<Longrightarrow> fst (p_putBytes api n ns k b) \<noteq> 0"
    using assms by (simp_all add: prefs_reliable_def)
  show "prefs_ok api view" by (rule ok)
  show "p_begin api n ns ro" using assms by (simp add: prefs_reliable_def)
  show "view (snd (p_putULong api n ns k v)) = (view n)((ns, k) \<mapsto> VU32 v)"
    using prefs_okD(2) [OF ok, of n ns k v] nz by (auto simp: put_ok_def)
  show "view (snd (p_putUShort api n ns k w)) = (view n)((ns, k) \<mapsto> VU16 w)"
    using prefs_okD(3) [OF ok, of n ns k w] nz by (auto simp: put_ok_def)
  show "b \<noteq> [] \<Longrightarrow> fst (p_putBytes api n ns k b) = length b \<and>
      view (snd (p_putBytes api n ns k b)) = (view n)((ns, k) \<mapsto> VBlob b)"
    using prefs_okD(4) [OF ok, of n ns k b] nz by (auto simp: put_ok_def)
qed

section \<open>Raw NVS handles\<close>

datatype esp_err = ESP_OK | ESP_ERR_NVS_NOT_FOUND | ESP_ERR_NVS_NO_FREE_PAGES
  | ESP_ERR_NVS_NEW_VERSION_FOUND | ESP_ERR_OTHER

record 'n nvs_api =
  n_flash_init :: "'n \<Rightarrow> esp_err"
  n_open :: "'n \<Rightarrow> string \<Rightarrow> bool \<Rightarrow> esp_err"
  n_get_u32 :: "'n \<Rightarrow> string \<Rightarrow> string \<Rightarrow> esp_err \<times> u32"
  n_set_u32 :: "'n \<Rightarrow> string \<Rightarrow> string \<Rightarrow> u32 \<Rightarrow> esp_err \<times> 'n"
  n_get_blob :: "'n \<Rightarrow> string \<Rightarrow> string \<Rightarrow> nat \<Rightarrow> esp_err \<times> bytes"
  n_set_blob :: "'n \<Rightarrow> string \<Rightarrow> string \<Rightarrow> bytes \<Rightarrow> esp_err \<times> 'n"
  n_commit :: "'n \<Rightarrow> esp_err \<times> 'n"

text \<open>
  The documented contract of the raw calls: a successful set is what a later get returns, a
  failed one leaves the flash as it was, a commit changes no value, and a missing key is
  reported as not found.
\<close>

definition set_ok :: "('n \<Rightarrow> nvs_view) \<Rightarrow> 'n \<Rightarrow> string \<Rightarrow> string \<Rightarrow> nvs_val \<Rightarrow> esp_err \<times> 'n \<Rightarrow> bool" where
  "set_ok view n ns k v r \<longleftrightarrow>
     view (snd r) = (if fst r = ESP_OK then (view n)((ns, k) \<mapsto> v) else view n)"

definition nvs_ok :: "'n nvs_api \<Rightarrow> ('n \<Rightarrow> nvs_view) \<Rightarrow> bool" where
  "nvs_ok api view \<longleftrightarrow>
     (\<forall>n ns k v. view n (ns, k) = Some (VU32 v) \<longrightarrow> n_get_u32 api n ns k = (ESP_OK, v)) \<and>
     (\<forall>n ns k. view n (ns, k) = None \<longrightarrow> fst (n_get_u32 api n ns k) = ESP_ERR_NVS_NOT_FOUND) \<and>
     (\<forall>n ns k b m. view n (ns, k) = Some (VBlob b) \<longrightarrow> length b \<le> m \<longrightarrow>
        n_get_blob api n ns k m = (ESP_OK, b)) \<and>
     (\<forall>n ns k m. view n (ns, k) = None \<longrightarrow> fst (n_get_blob api n ns k m) = ESP_ERR_NVS_NOT_FOUND) \<and>
     (\<forall>n ns k v. set_ok view n ns k (VU32 v) (n_set_u32 api n ns k v)) \<and>
     (\<forall>n ns k b. set_ok view n ns k (VBlob b) (n_set_blob api n ns k b)) \<and>
     (\<forall>n. view (snd (n_commit api n)) = view n)"

lemma nvs_okD:
  assumes "nvs_ok api view"
  shows "view n (ns, k) = Some (VU32 v) \<Longrightarrow> n_get_u32 api n ns k = (ESP_OK, v)"
    and "view n (ns, k) = None \<Longrightarrow> fst (n_get_u32 api n ns k) = ESP_ERR_NVS_NOT_FOUND"
    and "view n (ns, k) = Some (VBlob b) \<Longrightarrow> length b \<le> m \<Longrightarrow> n_get_blob api n ns k m = (ESP_OK, b)"
    and "view n (ns, k) = None \<Longrightarrow> fst (n_get_blob api n ns k m) = ESP_ERR_NVS_NOT_FOUND"
    and "set_ok view n ns k (VU32 v) (n_set_u32 api n ns k v)"
    and "set_ok view n ns k (VBlob b) (n_set_blob api n ns k b)"
    and "view (snd (n_commit api n)) = view n"
  using assms by (simp_all add: nvs_ok_def)

definition map_nvs :: "nvs_view nvs_api" where
  "map_nvs = \<lparr>
     n_flash_init = (\<lambda>n. ESP_OK),
     n_open = (\<lambda>n ns rw. ESP_OK),
     n_get_u32 = (\<lambda>n ns k. case n (ns, k) of
         None \<Rightarrow> (ESP_ERR_NVS_NOT_FOUND, 0) | Some (VU32 v) \<Rightarrow> (ESP_OK, v) | _ \<Rightarrow> (ESP_ERR_OTHER, 0)),
     n_set_u32 = (\<lambda>n ns k v. (ESP_OK, n((ns, k) \<mapsto> VU32 v))),
     n_get_blob = (\<lambda>n ns k m. case n (ns, k) of
         None \<Rightarrow> (ESP_ERR_NVS_NOT_FOUND, [])
       | Some (VBlob b) \<Rightarrow> if length b \<le> m then (ESP_OK, b) else (ESP_ERR_OTHER, [])
       | _ \<Rightarrow> (ESP_ERR_OTHER, [])),
     n_set_blob = (\<lambda>n ns k b. (ESP_OK, n((ns, k) \<mapsto> VBlob b))),
     n_commit = (\<lambda>n. (ESP_OK, n))\<rparr>"

lemma map_nvs_ok: "nvs_ok map_nvs (\<lambda>n. n)"
  by (auto simp: nvs_ok_def map_nvs_def set_ok_def split: nvs_val.splits)

section \<open>Accumulating a put's result into a boolean\<close>

text \<open>
  The C++ statement \<open>success &= prefs.putULong(...)\<close> is the bitwise and of a boolean and a
  byte count: only bit 0 of the count survives.
\<close>

definition and_assign :: "bool \<Rightarrow> nat \<Rightarrow> bool" where
  "and_assign success r \<longleftrightarrow> (of_bool success :: nat) AND r \<noteq> 0"

lemma and_assign_iff: "and_assign success r \<longleftrightarrow> success \<and> odd r"
  by (cases success) (auto simp: and_assign_def and.commute [of 1] and_one_eq odd_iff_mod_2_eq_one)

end
