(* ===== verification/Fw_History.thy ===== *)
theory Fw_History
  imports Fw_Event Fw_Ring Fw_Nvs
begin

text \<open>
  \<open>HistoryService\<close> (\<open>src/src/Services/HistoryService.cpp\<close>): the detection log in RTC memory,
  its checksum, its NVS backup and its storage worker, one definition per method. The
  constants of the removed \<open>Config.h\<close> are the record \<open>history_cfg\<close>. What a method reads from
  the RTOS (lock acquisition, queue space, clocks) is an argument; what it does to other
  objects is part of its result. \<open>None\<close> is a call with no defined outcome: it reads outside
  the buffer, or does not return.
\<close>

record history_cfg =
  BUFFER_SIZE :: nat
  NVS_FLUSH_THRESHOLD :: u8
  RTC_MAGIC_NUMBER :: u32

record rtc_state =
  rs_magicNumber :: u32
  rs_crc32 :: u32
  rs_bootCount :: u32
  rs_head :: u16
  rs_tail :: u16
  rs_globalEventId :: u32
  rs_buffer :: "det_event list"
  rs_reserved :: "u8 \<times> u8"

datatype storage_cmd = SAVE_HIT | FORCE_FLUSH | RESTORE | CLEAR_NVS

record storage_message =
  sm_cmd :: storage_cmd
  sm_eventId :: u32

text \<open>
  A pointer is modelled by whether it is null: the mutex and the worker task as booleans,
  the queue as the list of its messages.
\<close>

record history =
  h_state :: rtc_state
  h_stateMutex :: bool
  h_storageQueue :: "storage_message list option"
  h_storageTask :: bool
  h_initialized :: bool
  h_workerRunning :: bool
  h_lastNvsFlushId :: u32
  h_eventsSinceFlush :: u8
  h_timeSyncReceived :: bool
  h_flushPending :: bool
  h_bleConnected :: bool
  h_connectionStart :: u32

definition NVS_NAMESPACE :: string where "NVS_NAMESPACE = ''devicedata''"
definition NVS_KEY_BOOT_COUNT :: string where "NVS_KEY_BOOT_COUNT = ''bootCnt''"
definition NVS_KEY_EVENT_ID :: string where "NVS_KEY_EVENT_ID = ''eventId''"
definition NVS_KEY_HEAD :: string where "NVS_KEY_HEAD = ''head''"
definition NVS_KEY_TAIL :: string where "NVS_KEY_TAIL = ''tail''"
definition NVS_KEY_EVENTS :: string where "NVS_KEY_EVENTS = ''events''"

lemmas nvs_key_defs = NVS_NAMESPACE_def NVS_KEY_BOOT_COUNT_def NVS_KEY_EVENT_ID_def
  NVS_KEY_HEAD_def NVS_KEY_TAIL_def NVS_KEY_EVENTS_def

text \<open>The constructor; the RTC memory it finds is whatever the previous session left.\<close>

definition history_new :: "bool \<Rightarrow> bool \<Rightarrow> rtc_state \<Rightarrow> history" where
  "history_new mutexOk queueOk rtc =
     \<lparr>h_state = rtc, h_stateMutex = mutexOk,
      h_storageQueue = (if queueOk then Some [] else None), h_storageTask = False,
      h_initialized = False, h_workerRunning = False, h_lastNvsFlushId = 0,
      h_eventsSinceFlush = 0, h_timeSyncReceived = False, h_flushPending = False,
      h_bleConnected = False, h_connectionStart = 0\<rparr>"

section \<open>RTC state and checksum\<close>

definition calculateBufferCRC :: "rtc_state \<Rightarrow> u32" where
  "calculateBufferCRC st = calculateCRC32 (enc_events (rs_buffer st))"

definition updateCRC :: "rtc_state \<Rightarrow> rtc_state" where
  "updateCRC st = st\<lparr>rs_crc32 := calculateBufferCRC st\<rparr>"

definition validateState :: "history_cfg \<Rightarrow> rtc_state \<Rightarrow> bool" where
  "validateState c st \<longleftrightarrow>
     (if rs_magicNumber st \<noteq> RTC_MAGIC_NUMBER c then False
      else calculateBufferCRC st = rs_crc32 st)"

definition resetState :: "history_cfg \<Rightarrow> rtc_state" where
  "resetState c =
     updateCRC \<lparr>rs_magicNumber = RTC_MAGIC_NUMBER c, rs_crc32 = 0, rs_bootCount = 0,
       rs_head = 0, rs_tail = 0, rs_globalEventId = 0,
       rs_buffer = replicate (BUFFER_SIZE c) zero_event, rs_reserved = (0, 0)\<rparr>"

definition getEventCount :: "history_cfg \<Rightarrow> rtc_state \<Rightarrow> u16" where
  "getEventCount c st =
     (if rs_head st \<ge> rs_tail st then rs_head st - rs_tail st
      else word_of_int (int (BUFFER_SIZE c) - uint (rs_tail st) + uint (rs_head st)))"

definition buf_at :: "rtc_state \<Rightarrow> u16 \<Rightarrow> det_event option" where
  "buf_at st i =
     (if unat i < length (rs_buffer st) then Some (rs_buffer st ! unat i) else None)"

section \<open>The storage queue\<close>

definition queueStorageCommand ::
  "storage_cmd \<Rightarrow> u32 \<Rightarrow> bool \<Rightarrow> history \<Rightarrow> bool \<times> history" where
  "queueStorageCommand cmd eventId qsend h =
     (case h_storageQueue h of
        None \<Rightarrow> (False, h)
      | Some q \<Rightarrow>
          if \<not> qsend then (False, h)
          else (True, h\<lparr>h_storageQueue := Some (q @ [\<lparr>sm_cmd = cmd, sm_eventId = eventId\<rparr>])\<rparr>))"

definition needsNvsFlush :: "history_cfg \<Rightarrow> history \<Rightarrow> bool" where
  "needsNvsFlush c h \<longleftrightarrow> h_eventsSinceFlush h \<ge> NVS_FLUSH_THRESHOLD c"

text \<open>The idiom that marks a flush as pending and takes the mark back if the queue is full.\<close>

definition queueFlush :: "u32 \<Rightarrow> bool \<Rightarrow> history \<Rightarrow> history" where
  "queueFlush eventId qsend h =
     (let (queued, h') = queueStorageCommand SAVE_HIT eventId qsend (h\<lparr>h_flushPending := True\<rparr>)
      in if queued then h' else h'\<lparr>h_flushPending := False\<rparr>)"

section \<open>Logging a detection\<close>

record log_env =
  le_lock :: bool
  le_uptime :: u32
  le_epoch :: u32
  le_qsend :: bool

definition MIN_VALID_EPOCH :: u32 where "MIN_VALID_EPOCH = 1577836800"

text \<open>The field writes of \<open>logDetection\<close> to the event's slot, in their order.\<close>

definition stamp_event ::
  "u32 \<Rightarrow> u32 \<Rightarrow> bool \<Rightarrow> u32 \<Rightarrow> u32 \<Rightarrow> u16 \<Rightarrow> bool \<Rightarrow> det_event \<Rightarrow> det_event" where
  "stamp_event newId bootCount timeSynced uptime epoch durationMs overflow slot =
     (let e = slot\<lparr>ev_id := newId, ev_timestampMs := uptime, ev_bootCount := bootCount,
                    ev_durationMs := durationMs\<rparr>;
          e = (if epoch \<ge> MIN_VALID_EPOCH then
                 (let e = e\<lparr>ev_timestamp := epoch\<rparr>
                  in if \<not> timeSynced then setTimeEstimated e else e)
               else e\<lparr>ev_timestamp := 0\<rparr>);
          e = e\<lparr>ev_reserved := (0, 0, 0, 0, 0)\<rparr>;
          e = clearFlags e
      in if overflow then setOverflow e else e)"

text \<open>The ring update of \<open>logDetection\<close>: drop the oldest slot if full, fill the head slot.\<close>

definition store_event ::
  "history_cfg \<Rightarrow> (bool \<Rightarrow> det_event \<Rightarrow> det_event) \<Rightarrow> rtc_state \<Rightarrow> rtc_state option" where
  "store_event c stamp st =
     (let nextHead = ring_next (BUFFER_SIZE c) (rs_head st);
          overflow = (nextHead = rs_tail st);
          st = (if overflow then st\<lparr>rs_tail := ring_next (BUFFER_SIZE c) (rs_tail st)\<rparr> else st)
      in case buf_at st (rs_head st) of
           None \<Rightarrow> None
         | Some slot \<Rightarrow>
             Some (updateCRC (st\<lparr>rs_globalEventId := rs_globalEventId st + 1,
               rs_buffer := (rs_buffer st)[unat (rs_head st) := stamp overflow slot],
               rs_head := nextHead\<rparr>)))"

text \<open>
  The result is the event's id (0: not logged), the epoch passed on to
  \<open>ConfigService::updateLastKnownEpoch\<close>, if any, and the new state.
\<close>

definition logDetection ::
  "history_cfg \<Rightarrow> u16 \<Rightarrow> log_env \<Rightarrow> history \<Rightarrow> (u32 \<times> u32 option \<times> history) option" where
  "logDetection c durationMs env h =
     (if \<not> h_initialized h then Some (0, None, h)
      else if \<not> h_stateMutex h then Some (0, None, h)
      else if \<not> le_lock env then Some (0, None, h)
      else
        (case store_event c
            (stamp_event (rs_globalEventId (h_state h) + 1) (rs_bootCount (h_state h))
              (h_timeSyncReceived h) (le_uptime env) (le_epoch env) durationMs) (h_state h) of
           None \<Rightarrow> None
         | Some st \<Rightarrow>
             let h = h\<lparr>h_state := st, h_eventsSinceFlush := h_eventsSinceFlush h + 1\<rparr>;
                 eventId = rs_globalEventId st;
                 shouldFlush = needsNvsFlush c h;
                 criticalThreshold = (word_of_nat ((BUFFER_SIZE c * 9) div 10) :: u16);
                 isCriticallyFull = (getEventCount c st \<ge> criticalThreshold);
                 shouldQueueFlush =
                   (if isCriticallyFull then True
                    else if shouldFlush \<and> \<not> h_bleConnected h then True
                    else False);
                 epochSeen = (if le_epoch env \<ge> MIN_VALID_EPOCH then Some (le_epoch env) else None)
             in Some (eventId, epochSeen,
                  if shouldQueueFlush \<and> \<not> h_flushPending h
                  then queueFlush eventId (le_qsend env) h else h)))"

section \<open>Reading the log\<close>

definition getNextUnsynced :: "history_cfg \<Rightarrow> bool \<Rightarrow> history \<Rightarrow> det_event option option" where
  "getNextUnsynced c lock h =
     (if \<not> h_initialized h \<or> \<not> h_stateMutex h then Some None
      else if \<not> lock then Some None
      else let st = h_state h in
        ring_scan (BUFFER_SIZE c) (\<lambda>_. True)
          (\<lambda>i found. map_option
             (\<lambda>e. if \<not> isSynced e then (True, Some e) else (False, found)) (buf_at st i))
          (rs_head st) (rs_tail st) None)"

text \<open>The two bulk readers collect matching events until the caller's array is full.\<close>

definition collect_events ::
  "history_cfg \<Rightarrow> (det_event \<Rightarrow> bool) \<Rightarrow> u8 \<Rightarrow> rtc_state \<Rightarrow> det_event list option" where
  "collect_events c want maxCount st =
     ring_scan (BUFFER_SIZE c) (\<lambda>out. length out < unat maxCount)
       (\<lambda>i out. map_option
          (\<lambda>e. (False, if want e then out @ [e] else out)) (buf_at st i))
       (rs_head st) (rs_tail st) []"

definition getUnsyncedEvents ::
  "history_cfg \<Rightarrow> u8 \<Rightarrow> bool \<Rightarrow> history \<Rightarrow> (bool \<times> det_event list) option" where
  "getUnsyncedEvents c maxCount lock h =
     (if \<not> h_initialized h then Some (False, [])
      else if \<not> h_stateMutex h then Some (False, [])
      else if \<not> lock then Some (True, [])
      else map_option (Pair True)
        (collect_events c (\<lambda>e. \<not> isSynced e) maxCount (h_state h)))"

definition getEventsSince ::
  "history_cfg \<Rightarrow> u32 \<Rightarrow> u8 \<Rightarrow> bool \<Rightarrow> history \<Rightarrow> (bool \<times> det_event list) option" where
  "getEventsSince c sinceId maxCount lock h =
     (if \<not> h_initialized h then Some (False, [])
      else if \<not> h_stateMutex h then Some (False, [])
      else if \<not> lock then Some (True, [])
      else map_option (Pair True)
        (collect_events c (\<lambda>e. ev_id e > sinceId) maxCount (h_state h)))"

definition scan_any :: "history_cfg \<Rightarrow> (det_event \<Rightarrow> bool) \<Rightarrow> rtc_state \<Rightarrow> bool option" where
  "scan_any c p st =
     ring_scan (BUFFER_SIZE c) (\<lambda>_. True)
       (\<lambda>i found. map_option (\<lambda>e. if p e then (True, True) else (False, found)) (buf_at st i))
       (rs_head st) (rs_tail st) False"

definition hasPendingData :: "history_cfg \<Rightarrow> bool \<Rightarrow> history \<Rightarrow> bool option" where
  "hasPendingData c lock h =
     (if \<not> h_initialized h \<or> \<not> h_stateMutex h then Some False
      else if \<not> lock then Some False
      else scan_any c (\<lambda>e. \<not> isSynced e) (h_state h))"

definition hasOverflowed :: "history_cfg \<Rightarrow> bool \<Rightarrow> history \<Rightarrow> bool option" where
  "hasOverflowed c lock h =
     (if \<not> h_stateMutex h then Some False
      else if \<not> lock then Some False
      else scan_any c wasOverflow (h_state h))"

definition getPendingCount :: "history_cfg \<Rightarrow> bool \<Rightarrow> history \<Rightarrow> u16 option" where
  "getPendingCount c lock h =
     (if \<not> h_initialized h \<or> \<not> h_stateMutex h then Some 0
      else if \<not> lock then Some 0
      else let st = h_state h in
        ring_scan (BUFFER_SIZE c) (\<lambda>_. True)
          (\<lambda>i count. map_option
             (\<lambda>e. (False, if \<not> isSynced e then count + 1 else count)) (buf_at st i))
          (rs_head st) (rs_tail st) 0)"

definition getStoredCount :: "history_cfg \<Rightarrow> history \<Rightarrow> u16" where
  "getStoredCount c h = getEventCount c (h_state h)"

definition getBootCount :: "history \<Rightarrow> u32" where
  "getBootCount h = rs_bootCount (h_state h)"

definition getLatestEventId :: "history \<Rightarrow> u32" where
  "getLatestEventId h = rs_globalEventId (h_state h)"

section \<open>Acknowledging events\<close>

definition set_slot :: "u16 \<Rightarrow> det_event \<Rightarrow> rtc_state \<Rightarrow> rtc_state" where
  "set_slot i e st = st\<lparr>rs_buffer := (rs_buffer st)[unat i := e]\<rparr>"

definition markAsSynced ::
  "history_cfg \<Rightarrow> u32 \<Rightarrow> bool \<Rightarrow> history \<Rightarrow> (bool \<times> history) option" where
  "markAsSynced c eventId lock h =
     (if \<not> h_initialized h \<or> \<not> h_stateMutex h then Some (False, h)
      else if \<not> lock then Some (False, h)
      else map_option (\<lambda>(found, st). (found, h\<lparr>h_state := st\<rparr>))
        (ring_scan (BUFFER_SIZE c) (\<lambda>_. True)
          (\<lambda>i (found, st). map_option
             (\<lambda>e. if ev_id e = eventId
                  then (True, True, updateCRC (set_slot i (setSynced e) st))
                  else (False, found, st)) (buf_at st i))
          (rs_head (h_state h)) (rs_tail (h_state h)) (False, h_state h)))"

fun mark_loop ::
  "history_cfg \<Rightarrow> u32 list \<Rightarrow> u8 \<Rightarrow> rtc_state \<Rightarrow> (u8 \<times> rtc_state) option" where
  "mark_loop c [] marked st = Some (marked, st)"
| "mark_loop c (eventId # eventIds) marked st =
     Option.bind
       (ring_scan (BUFFER_SIZE c) (\<lambda>_. True)
          (\<lambda>i (marked, st). map_option
             (\<lambda>e. if ev_id e = eventId
                  then (True, if \<not> isSynced e then (marked + 1, set_slot i (setSynced e) st)
                              else (marked, st))
                  else (False, marked, st)) (buf_at st i))
          (rs_head st) (rs_tail st) (marked, st))
       (\<lambda>(marked, st). mark_loop c eventIds marked st)"

definition markMultipleAsSynced ::
  "history_cfg \<Rightarrow> u32 list \<Rightarrow> bool \<Rightarrow> history \<Rightarrow> (u8 \<times> history) option" where
  "markMultipleAsSynced c eventIds lock h =
     (if \<not> h_initialized h \<or> eventIds = [] then Some (0, h)
      else if \<not> h_stateMutex h then Some (0, h)
      else if \<not> lock then Some (0, h)
      else map_option
        (\<lambda>(marked, st). (marked, h\<lparr>h_state := if marked > 0 then updateCRC st else st\<rparr>))
        (mark_loop c eventIds 0 (h_state h)))"

definition clear :: "bool \<Rightarrow> history \<Rightarrow> history" where
  "clear lock h =
     (if \<not> h_stateMutex h then h
      else if \<not> lock then h
      else h\<lparr>h_state := updateCRC ((h_state h)\<lparr>rs_head := 0, rs_tail := 0, rs_globalEventId := 0,
             rs_buffer := replicate (length (rs_buffer (h_state h))) zero_event\<rparr>)\<rparr>)"

section \<open>The log a state stands for\<close>

text \<open>
  \<open>rtc_ok\<close> says that the indices address the buffer, \<open>rtc_valid\<close> that the state also passes
  \<open>validateState\<close>. \<open>stored\<close> is the abstract log: the events from the oldest to the newest.
\<close>

definition rtc_ok :: "history_cfg \<Rightarrow> rtc_state \<Rightarrow> bool" where
  "rtc_ok c st \<longleftrightarrow> 2 \<le> BUFFER_SIZE c \<and> BUFFER_SIZE c \<le> 65536 \<and>
     length (rs_buffer st) = BUFFER_SIZE c \<and>
     unat (rs_head st) < BUFFER_SIZE c \<and> unat (rs_tail st) < BUFFER_SIZE c"

definition rtc_valid :: "history_cfg \<Rightarrow> rtc_state \<Rightarrow> bool" where
  "rtc_valid c st \<longleftrightarrow> rtc_ok c st \<and> validateState c st"

definition stored :: "history_cfg \<Rightarrow> rtc_state \<Rightarrow> det_event list" where
  "stored c st =
     ring_list (BUFFER_SIZE c) (rs_buffer st) (unat (rs_tail st)) (unat (rs_head st))"

definition ids_ok :: "history_cfg \<Rightarrow> rtc_state \<Rightarrow> bool" where
  "ids_ok c st \<longleftrightarrow> sorted_wrt (<) (map ev_id (stored c st)) \<and>
     (\<forall>e\<in>set (stored c st). ev_id e \<le> rs_globalEventId st)"

lemma rtc_okD:
  assumes "rtc_ok c st"
  shows "0 < BUFFER_SIZE c" "2 \<le> BUFFER_SIZE c" "BUFFER_SIZE c \<le> 65536"
    "length (rs_buffer st) = BUFFER_SIZE c"
    "unat (rs_head st) < BUFFER_SIZE c" "unat (rs_tail st) < BUFFER_SIZE c"
  using assms by (auto simp: rtc_ok_def)

lemma rtc_valid_ok [simp]: "rtc_valid c st \<Longrightarrow> rtc_ok c st"
  by (simp add: rtc_valid_def)

lemma updateCRC_fields [simp]:
  "rs_buffer (updateCRC st) = rs_buffer st" "rs_head (updateCRC st) = rs_head st"
  "rs_tail (updateCRC st) = rs_tail st" "rs_globalEventId (updateCRC st) = rs_globalEventId st"
  "rs_magicNumber (updateCRC st) = rs_magicNumber st"
  "rs_bootCount (updateCRC st) = rs_bootCount st"
  by (simp_all add: updateCRC_def)

lemma rtc_ok_updateCRC [simp]: "rtc_ok c (updateCRC st) = rtc_ok c st"
  by (simp add: rtc_ok_def)

lemma stored_updateCRC [simp]: "stored c (updateCRC st) = stored c st"
  by (simp add: stored_def)

lemma ids_ok_updateCRC [simp]: "ids_ok c (updateCRC st) = ids_ok c st"
  by (simp add: ids_ok_def)

lemma validate_updateCRC [simp]:
  "validateState c (updateCRC st) \<longleftrightarrow> rs_magicNumber st = RTC_MAGIC_NUMBER c"
  by (simp add: validateState_def updateCRC_def calculateBufferCRC_def)

lemma rtc_valid_magic: "rtc_valid c st \<Longrightarrow> rs_magicNumber st = RTC_MAGIC_NUMBER c"
  by (auto simp: rtc_valid_def validateState_def split: if_splits)

lemma length_stored: "rtc_ok c st \<Longrightarrow> length (stored c st) < BUFFER_SIZE c"
  by (simp add: stored_def ring_count_less rtc_okD)

lemma getEventCount_stored:
  assumes "rtc_ok c st"
  shows "unat (getEventCount c st) = length (stored c st)"
proof (cases "rs_head st \<ge> rs_tail st")
  case True
  then have "unat (rs_head st - rs_tail st) = unat (rs_head st) - unat (rs_tail st)"
    by (simp add: unat_sub)
  then show ?thesis
    using True by (simp add: getEventCount_def stored_def ring_count_def word_le_nat_alt)
next
  case False
  let ?n = "BUFFER_SIZE c" and ?h = "unat (rs_head st)" and ?t = "unat (rs_tail st)"
  have lt: "?h < ?t" using False by (simp add: word_le_nat_alt)
  have eq: "int ?n - uint (rs_tail st) + uint (rs_head st) = int (?n - ?t + ?h)"
  proof -
    have "uint (rs_tail st) = int ?t" "uint (rs_head st) = int ?h" by simp_all
    moreover have "?t \<le> ?n" using rtc_okD [OF assms] by simp
    ultimately show ?thesis by linarith
  qed
  have less: "?n - ?t + ?h < 2 ^ LENGTH(16)" using lt rtc_okD [OF assms] by simp
  have "getEventCount c st = word_of_nat (?n - ?t + ?h)"
    using False by (simp only: getEventCount_def eq of_int_of_nat_eq if_False)
  then have "unat (getEventCount c st) = ?n - ?t + ?h"
    using less by (simp only: unat_word_of_nat_less)
  then show ?thesis using lt by (simp add: stored_def ring_count_def)
qed

section \<open>Scans as list functions\<close>

lemma list_scan_map: "list_scan go (\<lambda>i. g (h i)) is s = list_scan go g (map h is) s"
  by (induction "is" arbitrary: s) simp_all

lemma list_scan_find:
  "list_scan (\<lambda>_. True) (\<lambda>i s. if p i s then (True, h i s) else (False, s)) is s =
     (case find (\<lambda>i. p i s) is of None \<Rightarrow> s | Some i \<Rightarrow> h i s)"
  by (induction "is") simp_all

lemma list_scan_fold:
  "list_scan (\<lambda>_. True) (\<lambda>e s. (False, g e s)) es s = fold g es s"
  by (induction es arbitrary: s) simp_all

lemma buf_at_ok: "rtc_ok c st \<Longrightarrow> unat i < BUFFER_SIZE c \<Longrightarrow> buf_at st i = Some (rs_buffer st ! unat i)"
  by (simp add: buf_at_def rtc_okD)

text \<open>Every read-only scan is a walk over the stored events.\<close>

lemma scan_read:
  assumes ok: "rtc_ok c st"
  shows "ring_scan (BUFFER_SIZE c) go (\<lambda>i s. map_option (\<lambda>e. g e s) (buf_at st i))
      (rs_head st) (rs_tail st) s = Some (list_scan go g (stored c st) s)"
proof -
  have "ring_scan (BUFFER_SIZE c) go (\<lambda>i s. map_option (\<lambda>e. g e s) (buf_at st i))
      (rs_head st) (rs_tail st) s =
    Some (list_scan go (\<lambda>i. g (rs_buffer st ! i)) (ring_idx (BUFFER_SIZE c) (unat (rs_tail st))
      (ring_count (BUFFER_SIZE c) (unat (rs_tail st)) (unat (rs_head st)))) s)"
    using rtc_okD [OF ok]
    by (intro ring_scan_list [where P = "\<lambda>_. True"]) (simp_all add: buf_at_ok [OF ok])
  then show ?thesis
    by (simp add: stored_def ring_list_def list_scan_map [of go g "\<lambda>i. rs_buffer st ! i"])
qed

section \<open>What the readers return\<close>

definition h_ready :: "history \<Rightarrow> bool" where
  "h_ready h \<longleftrightarrow> h_initialized h \<and> h_stateMutex h"

abbreviation h_stored :: "history_cfg \<Rightarrow> history \<Rightarrow> det_event list" where
  "h_stored c h \<equiv> stored c (h_state h)"

lemma list_scan_first:
  "list_scan (\<lambda>_. True) (\<lambda>e found. if p e then (True, Some e) else (False, found)) es found =
     (case find p es of None \<Rightarrow> found | Some e \<Rightarrow> Some e)"
  using list_scan_find [where p = "\<lambda>e _. p e" and h = "\<lambda>e _. Some e"] by auto

lemma list_scan_any:
  "list_scan (\<lambda>_. True) (\<lambda>e found. if p e then (True, True) else (False, found)) es False =
     (\<exists>e\<in>set es. p e)"
  by (induction es) simp_all

lemma list_scan_collect:
  "length out \<le> m \<Longrightarrow>
   list_scan (\<lambda>out. length out < m) (\<lambda>e out. (False, if p e then out @ [e] else out)) es out =
     take m (out @ filter p es)"
  by (induction es arbitrary: out) (auto simp: take_Cons')

lemma list_scan_count:
  "list_scan (\<lambda>_. True) (\<lambda>e k. (False, if p e then k + 1 else k)) es k =
     k + word_of_nat (length (filter p es))"
  by (induction es arbitrary: k) (simp_all add: algebra_simps)

lemma getNextUnsynced_stored:
  "h_ready h \<Longrightarrow> rtc_ok c (h_state h) \<Longrightarrow>
   getNextUnsynced c True h = Some (find (\<lambda>e. \<not> isSynced e) (h_stored c h))"
  by (simp add: getNextUnsynced_def h_ready_def Let_def scan_read list_scan_first split: option.split)

lemma collect_events_stored:
  "rtc_ok c st \<Longrightarrow> collect_events c p m st = Some (take (unat m) (filter p (stored c st)))"
  by (simp add: collect_events_def scan_read list_scan_collect)

lemma scan_any_stored: "rtc_ok c st \<Longrightarrow> scan_any c p st = Some (\<exists>e\<in>set (stored c st). p e)"
  by (simp add: scan_any_def scan_read list_scan_any)

lemma getPendingCount_stored:
  "h_ready h \<Longrightarrow> rtc_ok c (h_state h) \<Longrightarrow>
   getPendingCount c True h =
     Some (word_of_nat (length (filter (\<lambda>e. \<not> isSynced e) (h_stored c h))))"
  by (simp add: getPendingCount_def h_ready_def Let_def scan_read list_scan_count)

lemma pending_bound:
  assumes "rtc_ok c st"
  shows "length (filter p (stored c st)) < 2 ^ LENGTH(16)"
proof -
  have "length (filter p (stored c st)) \<le> length (stored c st)" by simp
  also have "\<dots> < BUFFER_SIZE c" using assms by (rule length_stored)
  finally show ?thesis using rtc_okD(3) [OF assms] by simp
qed

section \<open>What logging does to the log\<close>

text \<open>
  The event that \<open>stamp_event\<close> builds does not depend on what the slot held; neither does
  it on the time-sync state, because the flags are cleared after they are set.
\<close>

definition new_event :: "u32 \<Rightarrow> u32 \<Rightarrow> u32 \<Rightarrow> u32 \<Rightarrow> u16 \<Rightarrow> bool \<Rightarrow> det_event" where
  "new_event newId bootCount uptime epoch durationMs overflow =
     \<lparr>ev_id = newId, ev_timestampMs = uptime, ev_bootCount = bootCount,
      ev_durationMs = durationMs, ev_timestamp = (if epoch \<ge> MIN_VALID_EPOCH then epoch else 0),
      ev_flags = (if overflow then 2 else 0), ev_reserved = (0, 0, 0, 0, 0)\<rparr>"

lemma stamp_event_new:
  "stamp_event newId bootCount synced uptime epoch dur overflow slot =
     new_event newId bootCount uptime epoch dur overflow"
  by (simp add: stamp_event_def new_event_def Let_def clearFlags_def setOverflow_def
      setTimeEstimated_def)

lemma ring_full:
  assumes "t < n" "h < n" "2 \<le> n"
  shows "(h + 1) mod n = t \<longleftrightarrow> Suc (ring_count n t h) = n"
  using assms by (auto simp: ring_count_def mod_if)

lemma store_event_stored:
  assumes ok: "rtc_ok c st"
    and stamp: "\<And>ov slot. stamp ov slot = ev ov"
  defines "full \<equiv> Suc (length (stored c st)) = BUFFER_SIZE c"
  obtains st' where "store_event c stamp st = Some st'" "rtc_ok c st'"
    "validateState c st' \<longleftrightarrow> rs_magicNumber st = RTC_MAGIC_NUMBER c"
    "stored c st' = (if full then tl (stored c st) else stored c st) @ [ev full]"
    "rs_globalEventId st' = rs_globalEventId st + 1"
    "rs_bootCount st' = rs_bootCount st" "rs_magicNumber st' = rs_magicNumber st"
proof -
  let ?n = "BUFFER_SIZE c" and ?h = "unat (rs_head st)" and ?t = "unat (rs_tail st)"
  note b = rtc_okD [OF ok]
  have nh: "unat (ring_next ?n i) = (unat i + 1) mod ?n" for i
    using b by (intro unat_ring_next)
  have ov: "ring_next ?n (rs_head st) = rs_tail st \<longleftrightarrow> full"
    using b ring_full [of ?t ?n ?h] by (simp add: word_unat_eq_iff nh full_def stored_def)
  have bnd: "(i + 1) mod ?n < ?n" for i using b by simp
  let ?st = "updateCRC (st\<lparr>rs_tail := (if full then ring_next ?n (rs_tail st) else rs_tail st),
      rs_globalEventId := rs_globalEventId st + 1,
      rs_buffer := (rs_buffer st)[?h := ev full], rs_head := ring_next ?n (rs_head st)\<rparr>)"
  have "store_event c stamp st = Some ?st"
    by (simp add: store_event_def Let_def buf_at_def b stamp ov)
  moreover have "rtc_ok c ?st" using b bnd by (simp add: rtc_ok_def nh)
  moreover have "stored c ?st = (if full then tl (stored c st) else stored c st) @ [ev full]"
  proof (cases full)
    case True
    then have "(?h + 1) mod ?n = ?t" using ov by (simp add: word_unat_eq_iff nh)
    then show ?thesis
      using True b ring_list_overwrite [of ?t ?n ?h "rs_buffer st" "ev True"]
      by (simp add: stored_def nh)
  next
    case False
    then have "(?h + 1) mod ?n \<noteq> ?t" using ov by (simp add: word_unat_eq_iff nh)
    then show ?thesis
      using False b ring_list_append [of ?t ?n ?h "rs_buffer st" "ev False"]
      by (simp add: stored_def nh)
  qed
  ultimately show thesis by (intro that [of ?st]) simp_all
qed

lemma queueFlush_state [simp]:
  "h_state (queueFlush i q h) = h_state h" "h_initialized (queueFlush i q h) = h_initialized h"
  "h_stateMutex (queueFlush i q h) = h_stateMutex h"
  "h_eventsSinceFlush (queueFlush i q h) = h_eventsSinceFlush h"
  by (simp_all add: queueFlush_def queueStorageCommand_def split: option.split)

definition h_valid :: "history_cfg \<Rightarrow> history \<Rightarrow> bool" where
  "h_valid c h \<longleftrightarrow> h_ready h \<and> rtc_valid c (h_state h)"

lemma h_validD:
  assumes "h_valid c h"
  shows "h_ready h" "rtc_valid c (h_state h)" "rtc_ok c (h_state h)"
  using assms by (simp_all add: h_valid_def)

lemma tl_append_drop:
  "length l < n \<Longrightarrow> 2 \<le> n \<Longrightarrow>
   (if Suc (length l) = n then tl l else l) @ [e] = drop (Suc (length l) - (n - 1)) (l @ [e])"
  by (cases l) auto

text \<open>The events that are given the log, the number of the oldest ones that make room.\<close>

definition log_spec :: "history_cfg \<Rightarrow> (bool \<Rightarrow> det_event) \<Rightarrow> det_event list \<Rightarrow> det_event list" where
  "log_spec c ev l =
     drop (Suc (length l) - (BUFFER_SIZE c - 1)) (l @ [ev (Suc (length l) = BUFFER_SIZE c)])"

lemma logDetection_stored:
  assumes h: "h_valid c h" and lock: "le_lock env"
  defines "st \<equiv> h_state h"
  obtains ep h' where
    "logDetection c dur env h = Some (rs_globalEventId st + 1, ep, h')"
    "h_valid c h'"
    "h_stored c h' = log_spec c (new_event (rs_globalEventId st + 1) (rs_bootCount st)
       (le_uptime env) (le_epoch env) dur) (stored c st)"
    "rs_globalEventId (h_state h') = rs_globalEventId st + 1"
    "rs_bootCount (h_state h') = rs_bootCount st"
proof -
  note v = h_validD [OF h]
  let ?ev = "new_event (rs_globalEventId st + 1) (rs_bootCount st) (le_uptime env) (le_epoch env) dur"
  obtain st' where st': "store_event c (stamp_event (rs_globalEventId st + 1) (rs_bootCount st)
        (h_timeSyncReceived h) (le_uptime env) (le_epoch env) dur) st = Some st'"
      "rtc_ok c st'" "validateState c st' \<longleftrightarrow> rs_magicNumber st = RTC_MAGIC_NUMBER c"
      "stored c st' = (if Suc (length (stored c st)) = BUFFER_SIZE c then tl (stored c st)
         else stored c st) @ [?ev (Suc (length (stored c st)) = BUFFER_SIZE c)]"
      "rs_globalEventId st' = rs_globalEventId st + 1" "rs_bootCount st' = rs_bootCount st"
    using store_event_stored [OF v(3), of "stamp_event (rs_globalEventId st + 1) (rs_bootCount st)
        (h_timeSyncReceived h) (le_uptime env) (le_epoch env) dur" ?ev]
    unfolding st_def stamp_event_new by blast
  have val: "rtc_valid c st'"
    using st'(2,3) rtc_valid_magic [OF v(2)] by (simp add: rtc_valid_def st_def)
  have len: "length (stored c st) < BUFFER_SIZE c" "2 \<le> BUFFER_SIZE c"
    using length_stored [OF v(3)] rtc_okD [OF v(3)] by (simp_all add: st_def)
  have spec: "stored c st' = log_spec c ?ev (stored c st)"
    unfolding st'(4) log_spec_def by (rule tl_append_drop [OF len])
  let ?h = "h\<lparr>h_state := st', h_eventsSinceFlush := h_eventsSinceFlush h + 1\<rparr>"
  have "\<exists>ep h'. logDetection c dur env h = Some (rs_globalEventId st + 1, ep, h') \<and>
      (h' = queueFlush (rs_globalEventId st + 1) (le_qsend env) ?h \<or> h' = ?h)"
    using v(1) lock st'(1,5) by (simp add: logDetection_def h_ready_def Let_def st_def)
  then obtain ep h' where "logDetection c dur env h = Some (rs_globalEventId st + 1, ep, h')"
      and "h' = queueFlush (rs_globalEventId st + 1) (le_qsend env) ?h \<or> h' = ?h" by blast
  then show thesis
    using v(1) val spec st'(5,6) by (intro that) (auto simp: h_valid_def h_ready_def)
qed

section \<open>The log is a bounded log\<close>

text \<open>
  What an event records of a detection: its duration, its uptime stamp and its epoch. The
  interpretation discharges the contract \<open>bounded_log\<close> for \<open>logDetection\<close>.
\<close>

type_synonym detection = "u16 \<times> u32 \<times> u32 \<times> bool"

fun log_one :: "history_cfg \<Rightarrow> detection \<Rightarrow> history \<Rightarrow> history" where
  "log_one c (dur, up, epoch, q) h =
     (case logDetection c dur \<lparr>le_lock = True, le_uptime = up, le_epoch = epoch, le_qsend = q\<rparr> h of
        Some (_, _, h') \<Rightarrow> h' | None \<Rightarrow> h)"

fun detection_obs :: "detection \<Rightarrow> u16 \<times> u32 \<times> u32" where
  "detection_obs (dur, up, epoch, q) = (dur, up, if epoch \<ge> MIN_VALID_EPOCH then epoch else 0)"

definition event_obs :: "det_event \<Rightarrow> u16 \<times> u32 \<times> u32" where
  "event_obs e = (ev_durationMs e, ev_timestampMs e, ev_timestamp e)"

lemma event_obs_new [simp]:
  "event_obs (new_event i b up epoch dur ov) = (dur, up, if epoch \<ge> MIN_VALID_EPOCH then epoch else 0)"
  by (simp add: event_obs_def new_event_def)

lemma log_one_stored:
  assumes "h_valid c h"
  shows "h_valid c (log_one c d h)"
    and "map event_obs (h_stored c (log_one c d h)) =
      drop (Suc (length (h_stored c h)) - (BUFFER_SIZE c - 1))
        (map event_obs (h_stored c h) @ [detection_obs d])"
proof -
  obtain dur up epoch q where d: "d = (dur, up, epoch, q)" by (cases d)
  let ?env = "\<lparr>le_lock = True, le_uptime = up, le_epoch = epoch, le_qsend = q\<rparr>"
  obtain ep h' where l: "logDetection c dur ?env h = Some (rs_globalEventId (h_state h) + 1, ep, h')"
      "h_valid c h'"
      "h_stored c h' = log_spec c (new_event (rs_globalEventId (h_state h) + 1)
         (rs_bootCount (h_state h)) up epoch dur) (h_stored c h)"
    by (rule logDetection_stored [OF assms, of ?env dur], simp, rule that) simp_all
  have eq: "log_one c d h = h'" using l(1) by (simp add: d)
  show "h_valid c (log_one c d h)" unfolding eq by (rule l(2))
  show "map event_obs (h_stored c (log_one c d h)) =
      drop (Suc (length (h_stored c h)) - (BUFFER_SIZE c - 1))
        (map event_obs (h_stored c h) @ [detection_obs d])"
    unfolding eq l(3) by (simp add: log_spec_def d flip: drop_map)
qed

interpretation hlog: bounded_log "\<lambda>h. map event_obs (h_stored c h)" "log_one c" detection_obs
    "h_valid c" "BUFFER_SIZE c - 1" for c
proof unfold_locales
  fix s i assume s: "h_valid c s"
  show "h_valid c (log_one c i s)" using s by (rule log_one_stored)
  show "length (map event_obs (h_stored c s)) \<le> BUFFER_SIZE c - 1"
    using length_stored [OF h_validD(3) [OF s]] by simp
  show "map event_obs (h_stored c (log_one c i s)) =
      drop (Suc (length (map event_obs (h_stored c s))) - (BUFFER_SIZE c - 1))
        (map event_obs (h_stored c s) @ [detection_obs i])"
    using log_one_stored(2) [OF s] by simp
qed

section \<open>What acknowledging does to the log\<close>

fun upd_first :: "('a \<Rightarrow> bool) \<Rightarrow> ('a \<Rightarrow> 'a) \<Rightarrow> 'a list \<Rightarrow> 'a list" where
  "upd_first p f [] = []"
| "upd_first p f (x # xs) = (if p x then f x # xs else x # upd_first p f xs)"

lemma length_upd_first [simp]: "length (upd_first p f xs) = length xs"
  by (induction xs) simp_all

lemma map_upd_first: "(\<And>x. g (f x) = g x) \<Longrightarrow> map g (upd_first p f xs) = map g xs"
  by (induction xs) simp_all

lemma upd_first_none: "find p xs = None \<Longrightarrow> upd_first p f xs = xs"
  by (induction xs) (simp_all split: if_splits)

lemma upd_first_at:
  "j < length xs \<Longrightarrow> p (xs ! j) \<Longrightarrow> (\<And>k. k < j \<Longrightarrow> \<not> p (xs ! k)) \<Longrightarrow>
   upd_first p f xs = xs[j := f (xs ! j)]"
proof (induction xs arbitrary: j)
  case (Cons x xs)
  show ?case
  proof (cases j)
    case (Suc i)
    then have "\<not> p x" using Cons.prems(3) [of 0] by simp
    moreover have "upd_first p f xs = xs[i := f (xs ! i)]"
      using Cons.prems Suc by (intro Cons.IH) force+
    ultimately show ?thesis using Suc by simp
  qed (use Cons.prems in simp)
qed simp

lemma upd_first_unique:
  "distinct (map g xs) \<Longrightarrow>
   upd_first (\<lambda>x. g x = k) f xs = map (\<lambda>x. if g x = k then f x else x) xs"
  by (induction xs) (auto intro!: map_idI [symmetric] simp: image_iff)

text \<open>Writing the slot in which a scan stops updates the first match of the stored list.\<close>

lemma stored_set_slot:
  assumes ok: "rtc_ok c st"
    and found: "find (\<lambda>i. p (rs_buffer st ! i)) (ring_idx (BUFFER_SIZE c) (unat (rs_tail st))
      (ring_count (BUFFER_SIZE c) (unat (rs_tail st)) (unat (rs_head st)))) = Some i"
  shows "stored c (st\<lparr>rs_buffer := (rs_buffer st)[i := f (rs_buffer st ! i)]\<rparr>) =
      upd_first p f (stored c st)"
    and "find p (stored c st) = Some (rs_buffer st ! i)"
proof -
  let ?n = "BUFFER_SIZE c" and ?t = "unat (rs_tail st)" and ?h = "unat (rs_head st)"
  let ?k = "ring_count ?n ?t ?h"
  note b = rtc_okD [OF ok]
  obtain j where j: "j < ?k" "p (rs_buffer st ! i)" "i = (?t + j) mod ?n"
    and before: "\<And>k. k < j \<Longrightarrow> \<not> p (rs_buffer st ! ((?t + k) mod ?n))"
    using found by (auto simp: find_Some_iff ring_idx_def)
  have nth: "k < ?k \<Longrightarrow> stored c st ! k = rs_buffer st ! ((?t + k) mod ?n)" for k
    by (simp add: stored_def ring_list_nth)
  have len: "length (stored c st) = ?k" by (simp add: stored_def)
  have "upd_first p f (stored c st) = (stored c st)[j := f (stored c st ! j)]"
    using j before nth len by (intro upd_first_at) auto
  then show "stored c (st\<lparr>rs_buffer := (rs_buffer st)[i := f (rs_buffer st ! i)]\<rparr>) =
      upd_first p f (stored c st)"
    using b j nth by (simp add: stored_def ring_list_update)
  show "find p (stored c st) = Some (rs_buffer st ! i)"
    using j before nth len by (auto simp: find_Some_iff intro!: exI [of _ j])
qed

lemma find_ring_idx_None:
  assumes "find (\<lambda>i. p (rs_buffer st ! i)) (ring_idx (BUFFER_SIZE c) (unat (rs_tail st))
      (ring_count (BUFFER_SIZE c) (unat (rs_tail st)) (unat (rs_head st)))) = None"
  shows "find p (stored c st) = None"
  using assms by (auto simp: find_None_iff stored_def ring_list_def)

text \<open>
  The scan that stops at the first match: until then it keeps its state \<open>s\<close>, then its body
  runs \<open>hit\<close> on the matching slot. \<open>get\<close> is the log in the loop's state.
\<close>

lemma scan_first:
  assumes ok: "rtc_ok c (get s)"
  defines "st \<equiv> get s"
  shows "ring_scan (BUFFER_SIZE c) (\<lambda>_. True)
      (\<lambda>i s. map_option (\<lambda>e. if p e then (True, hit i e s) else (False, s)) (buf_at (get s) i))
      (rs_head st) (rs_tail st) s =
    Some (case find (\<lambda>i. p (rs_buffer st ! i)) (ring_idx (BUFFER_SIZE c) (unat (rs_tail st))
        (ring_count (BUFFER_SIZE c) (unat (rs_tail st)) (unat (rs_head st)))) of
      None \<Rightarrow> s | Some i \<Rightarrow> hit (word_of_nat i) (rs_buffer st ! i) s)"
  unfolding list_scan_find [where p = "\<lambda>i _. p (rs_buffer st ! i)"
      and h = "\<lambda>i s. hit (word_of_nat i) (rs_buffer st ! i) s", symmetric]
  by (rule ring_scan_list [where P = "\<lambda>s'. s' = s"])
    (use rtc_okD [OF ok] buf_at_ok [OF ok] in \<open>simp_all add: st_def split: if_splits\<close>)

definition pending :: "det_event list \<Rightarrow> nat" where
  "pending l = length (filter (\<lambda>e. \<not> isSynced e) l)"

definition mark_spec :: "u32 \<Rightarrow> det_event list \<Rightarrow> det_event list" where
  "mark_spec i l = upd_first (\<lambda>e. ev_id e = i) setSynced l"

lemma length_mark_spec [simp]: "length (mark_spec i l) = length l"
  by (simp add: mark_spec_def)

lemma map_id_mark_spec [simp]: "map ev_id (mark_spec i l) = map ev_id l"
  by (simp add: mark_spec_def map_upd_first)

lemma mark_spec_none: "find (\<lambda>e. ev_id e = i) l = None \<Longrightarrow> mark_spec i l = l"
  by (simp add: mark_spec_def upd_first_none)

lemma mark_spec_synced:
  "find (\<lambda>e. ev_id e = i) l = Some e \<Longrightarrow> isSynced e \<Longrightarrow> mark_spec i l = l"
  by (induction l) (auto simp: mark_spec_def split: if_splits)

lemma pending_mark_spec:
  "find (\<lambda>e. ev_id e = i) l = Some e \<Longrightarrow>
   pending l = pending (mark_spec i l) + (if isSynced e then 0 else 1)"
  by (induction l) (auto simp: mark_spec_def pending_def split: if_splits)

lemma pending_mark_spec_le: "pending (mark_spec i l) \<le> pending l"
  by (cases "find (\<lambda>e. ev_id e = i) l") (simp_all add: mark_spec_none pending_mark_spec)

lemma find_id_iff: "find (\<lambda>e. ev_id e = i) l \<noteq> None \<longleftrightarrow> i \<in> ev_id ` set l"
  by (auto simp: find_None_iff)

lemma slot_lt:
  assumes ok: "rtc_ok c st"
    and found: "find q (ring_idx (BUFFER_SIZE c) t k) = Some i"
  shows "unat (word_of_nat i :: u16) = i"
proof -
  have "i \<in> set (ring_idx (BUFFER_SIZE c) t k)" using found by (auto simp: find_Some_iff)
  then have "i < BUFFER_SIZE c" using rtc_okD(1) [OF ok] by (rule ring_idx_bound [rotated])
  then show ?thesis using rtc_okD(3) [OF ok] by (intro unat_word_of_nat_less) simp
qed

lemma set_slot_fields [simp]:
  "rs_head (set_slot i e st) = rs_head st" "rs_tail (set_slot i e st) = rs_tail st"
  "rs_globalEventId (set_slot i e st) = rs_globalEventId st"
  "rs_bootCount (set_slot i e st) = rs_bootCount st"
  "rs_magicNumber (set_slot i e st) = rs_magicNumber st"
  "rtc_ok c (set_slot i e st) = rtc_ok c st"
  by (simp_all add: set_slot_def rtc_ok_def)

text \<open>One scan of the two marking operations, over the loop state \<open>s\<close> whose log is \<open>get s\<close>.\<close>

lemma scan_mark:
  fixes s :: 's and c :: history_cfg and eventId :: u32
  defines "p \<equiv> \<lambda>e. ev_id e = eventId"
  assumes ok: "rtc_ok c (get s)"
    and hit: "\<And>i e. find p (stored c (get s)) = Some e \<Longrightarrow>
      stored c (set_slot i (setSynced e) (get s)) = mark_spec eventId (stored c (get s)) \<Longrightarrow>
      Q (hit i e s)"
    and miss: "find p (stored c (get s)) = None \<Longrightarrow> Q s"
  obtains s' where "ring_scan (BUFFER_SIZE c) (\<lambda>_. True)
      (\<lambda>i s. map_option (\<lambda>e. if p e then (True, hit i e s) else (False, s)) (buf_at (get s) i))
      (rs_head (get s)) (rs_tail (get s)) s = Some s'" "Q s'"
proof -
  let ?st = "get s"
  let ?find = "find (\<lambda>i. p (rs_buffer ?st ! i)) (ring_idx (BUFFER_SIZE c) (unat (rs_tail ?st))
        (ring_count (BUFFER_SIZE c) (unat (rs_tail ?st)) (unat (rs_head ?st))))"
  note run = scan_first [where get = get and s = s and p = p and hit = hit, OF ok]
  show thesis
  proof (cases ?find)
    case None
    then show ?thesis using run by (intro that [of s] miss find_ring_idx_None) simp_all
  next
    case (Some i)
    let ?e = "rs_buffer ?st ! i"
    have "find p (stored c ?st) = Some ?e" using ok Some by (rule stored_set_slot)
    moreover have "stored c (set_slot (word_of_nat i) (setSynced ?e) ?st) =
        mark_spec eventId (stored c ?st)"
      using stored_set_slot(1) [OF ok Some, of setSynced] slot_lt [OF ok Some]
      by (simp add: set_slot_def mark_spec_def p_def)
    ultimately have "Q (hit (word_of_nat i) ?e s)" by (rule hit)
    then show ?thesis using run Some by (intro that) simp_all
  qed
qed

lemma markAsSynced_stored:
  assumes h: "h_valid c h"
  obtains st' where
    "markAsSynced c eventId True h =
       Some (eventId \<in> ev_id ` set (h_stored c h), h\<lparr>h_state := st'\<rparr>)"
    "rtc_valid c st'" "stored c st' = mark_spec eventId (h_stored c h)"
    "rs_globalEventId st' = rs_globalEventId (h_state h)"
    "rs_bootCount st' = rs_bootCount (h_state h)"
proof -
  let ?st = "h_state h"
  note v = h_validD [OF h]
  let ?hit = "\<lambda>i e (found, st). (True, updateCRC (set_slot i (setSynced e) st))"
  let ?Q = "\<lambda>(found, st'). found = (eventId \<in> ev_id ` set (h_stored c h)) \<and> rtc_valid c st' \<and>
    stored c st' = mark_spec eventId (h_stored c h) \<and>
    rs_globalEventId st' = rs_globalEventId ?st \<and> rs_bootCount st' = rs_bootCount ?st"
  obtain s' where s': "ring_scan (BUFFER_SIZE c) (\<lambda>_. True)
      (\<lambda>i s. map_option (\<lambda>e. if ev_id e = eventId then (True, ?hit i e s) else (False, s))
        (buf_at (snd s) i)) (rs_head ?st) (rs_tail ?st) (False, ?st) = Some s'" "?Q s'"
    by (rule scan_mark [where get = snd and s = "(False, ?st)" and hit = ?hit and Q = ?Q
          and eventId = eventId and c = c])
      (use v rtc_valid_magic [OF v(2)] find_id_iff [of eventId "h_stored c h"] in
        \<open>auto simp: rtc_valid_def mark_spec_none\<close>)
  have "markAsSynced c eventId True h = map_option (\<lambda>(found, st). (found, h\<lparr>h_state := st\<rparr>)) (Some s')"
    using v(1) s'(1)
    by (simp add: markAsSynced_def h_ready_def split_def if_distrib [of "\<lambda>x. (_, x)"] cong: if_cong)
  then show thesis using s'(2) by (cases s') (auto intro: that)
qed

text \<open>
  The bulk operation: each identifier in turn marks its first match; the result counts the
  events that were not acknowledged before. A call passes at most 255 identifiers, because
  their number is a byte.
\<close>

lemma mark_loop_stored:
  assumes "rtc_ok c st" "unat marked + length ids < 256"
  obtains marked' st' where "mark_loop c ids marked st = Some (marked', st')"
    "rtc_ok c st'" "stored c st' = fold mark_spec ids (stored c st)"
    "unat marked' + pending (stored c st') = unat marked + pending (stored c st)"
    "unat marked \<le> unat marked'" "unat marked' \<le> unat marked + length ids"
    "marked' = marked \<longrightarrow> st' = st"
    "rs_magicNumber st' = rs_magicNumber st" "rs_globalEventId st' = rs_globalEventId st"
    "rs_bootCount st' = rs_bootCount st"
  using assms
proof (induction ids arbitrary: marked st thesis)
  case Nil
  show ?case by (rule Nil.prems(1) [of marked st]) (simp_all add: Nil.prems(2))
next
  case (Cons i ids)
  let ?hit = "\<lambda>k e (m, st). if \<not> isSynced e then (m + 1, set_slot k (setSynced e) st) else (m, st)"
  let ?Q = "\<lambda>(m, st1). rtc_ok c st1 \<and> stored c st1 = mark_spec i (stored c st) \<and>
    unat m + pending (stored c st1) = unat marked + pending (stored c st) \<and>
    unat marked \<le> unat m \<and> unat m \<le> unat marked + 1 \<and> (m = marked \<longrightarrow> st1 = st) \<and>
    rs_magicNumber st1 = rs_magicNumber st \<and> rs_globalEventId st1 = rs_globalEventId st \<and>
    rs_bootCount st1 = rs_bootCount st"
  have small: "unat marked < 255" using Cons.prems(3) by simp
  then have ne: "marked < - 1" by (simp add: word_less_nat_alt unsigned_minus_1_eq_mask mask_eq_exp_minus_1)
  have inc: "unat (marked + 1) = unat marked + 1" using ne by (rule unat_inc)
  have neq: "marked + 1 \<noteq> marked" by simp
  have hit: "?Q (?hit k e (marked, st))"
    if f: "find (\<lambda>e. ev_id e = i) (stored c st) = Some e"
      and upd: "stored c (set_slot k (setSynced e) st) = mark_spec i (stored c st)" for k e
  proof (cases "isSynced e")
    case True
    then show ?thesis using Cons.prems(2) mark_spec_synced [OF f] by simp
  next
    case False
    have "pending (stored c st) = pending (mark_spec i (stored c st)) + 1"
      using pending_mark_spec [OF f] False by simp
    then show ?thesis using False upd Cons.prems(2) inc by simp
  qed
  have miss: "?Q (marked, st)" if "find (\<lambda>e. ev_id e = i) (stored c st) = None"
    using that Cons.prems(2) by (simp add: mark_spec_none)
  obtain m1 st1 where s1: "ring_scan (BUFFER_SIZE c) (\<lambda>_. True)
      (\<lambda>k s. map_option (\<lambda>e. if ev_id e = i then (True, ?hit k e s) else (False, s))
        (buf_at (snd s) k)) (rs_head st) (rs_tail st) (marked, st) = Some (m1, st1)"
      "?Q (m1, st1)"
    by (rule scan_mark [where get = snd and s = "(marked, st)" and hit = ?hit and Q = ?Q
          and eventId = i and c = c])
      (use Cons.prems(2) hit miss in \<open>simp_all only: snd_conv surj_pair, blast\<close>)
  have le: "unat m1 + length ids < 256" using s1(2) Cons.prems(3) by simp
  have ok1: "rtc_ok c st1" using s1(2) by simp
  show ?case
  proof (rule Cons.IH [of m1 st1])
    fix m2 st2
    assume 2: "mark_loop c ids m1 st1 = Some (m2, st2)" "rtc_ok c st2"
      "stored c st2 = fold mark_spec ids (stored c st1)"
      "unat m2 + pending (stored c st2) = unat m1 + pending (stored c st1)"
      "unat m1 \<le> unat m2" "unat m2 \<le> unat m1 + length ids" "m2 = m1 \<longrightarrow> st2 = st1"
      "rs_magicNumber st2 = rs_magicNumber st1" "rs_globalEventId st2 = rs_globalEventId st1"
      "rs_bootCount st2 = rs_bootCount st1"
    have "mark_loop c (i # ids) marked st = Some (m2, st2)"
      using s1(1) 2(1) by (simp add: split_def if_distrib [of "\<lambda>x. (_, x)"] cong: if_cong)
    moreover have "m2 = marked \<longrightarrow> st2 = st"
      using s1(2) 2(5,7) by (auto simp: word_unat_eq_iff)
    ultimately show ?case
      using s1(2) 2 unfolding prod.case by (elim conjE, intro Cons.prems(1) [of m2 st2]) simp_all
  qed (use ok1 le in simp_all)
qed

lemma markMultiple_stored:
  assumes h: "h_valid c h" and len: "length ids < 256"
  obtains marked st' where
    "markMultipleAsSynced c ids True h = Some (marked, h\<lparr>h_state := st'\<rparr>)"
    "rtc_valid c st'" "stored c st' = fold mark_spec ids (h_stored c h)"
    "unat marked + pending (stored c st') = pending (h_stored c h)"
    "rs_globalEventId st' = rs_globalEventId (h_state h)"
    "rs_bootCount st' = rs_bootCount (h_state h)"
proof (cases "ids = []")
  case True
  then show ?thesis
    using h_validD [OF h] by (intro that [of 0 "h_state h"]) (simp_all add: markMultipleAsSynced_def)
next
  case False
  note v = h_validD [OF h]
  obtain m st' where m: "mark_loop c ids 0 (h_state h) = Some (m, st')"
    "rtc_ok c st'" "stored c st' = fold mark_spec ids (h_stored c h)"
    "unat m + pending (stored c st') = pending (h_stored c h)"
    "m = 0 \<longrightarrow> st' = h_state h" "rs_magicNumber st' = rs_magicNumber (h_state h)"
    "rs_globalEventId st' = rs_globalEventId (h_state h)"
    "rs_bootCount st' = rs_bootCount (h_state h)"
    by (rule mark_loop_stored [OF v(3), of 0 ids]) (use len in simp_all)
  let ?st = "if m > 0 then updateCRC st' else st'"
  have "markMultipleAsSynced c ids True h = Some (m, h\<lparr>h_state := ?st\<rparr>)"
    using False v(1) m(1) by (simp add: markMultipleAsSynced_def h_ready_def)
  moreover have "rtc_valid c ?st"
    using m v rtc_valid_magic [OF v(2)] by (auto simp: rtc_valid_def word_gt_0)
  ultimately show ?thesis using m by (intro that [of m ?st]) simp_all
qed

section \<open>Identifiers stay sorted\<close>

lemma sorted_wrt_drop_append:
  "sorted_wrt (<) (map f l) \<Longrightarrow> (\<And>e. e \<in> set l \<Longrightarrow> f e < f x) \<Longrightarrow>
   sorted_wrt (<) (map f (drop k (l @ [x])))"
  for f :: "'a \<Rightarrow> 'b::linorder"
proof -
  assume "sorted_wrt (<) (map f l)" "\<And>e. e \<in> set l \<Longrightarrow> f e < f x"
  then have "sorted_wrt (<) (map f (l @ [x]))" by (auto simp: sorted_wrt_append)
  then have "sorted_wrt (<) (drop k (map f (l @ [x])))" by (rule sorted_wrt_drop)
  then show ?thesis by (simp only: drop_map)
qed

lemma ids_ok_log:
  assumes ids: "ids_ok c st" and g: "rs_globalEventId st < - 1"
    and st': "stored c st' = log_spec c (new_event (rs_globalEventId st + 1) b up ep dur) (stored c st)"
      "rs_globalEventId st' = rs_globalEventId st + 1"
  shows "ids_ok c st'"
proof -
  have less: "rs_globalEventId st < rs_globalEventId st + 1" using g by (rule less_inc)
  have new: "ev_id (new_event i b up ep dur ov) = i" for i ov by (simp add: new_event_def)
  have "sorted_wrt (<) (map ev_id (stored c st'))"
    unfolding st'(1) log_spec_def
  proof (rule sorted_wrt_drop_append)
    show "sorted_wrt (<) (map ev_id (stored c st))" using ids by (simp add: ids_ok_def)
    fix e assume "e \<in> set (stored c st)"
    then have "ev_id e \<le> rs_globalEventId st" using ids by (simp add: ids_ok_def)
    then show "ev_id e < ev_id (new_event (rs_globalEventId st + 1) b up ep dur
        (Suc (length (stored c st)) = BUFFER_SIZE c))"
      unfolding new using less by (rule le_less_trans)
  qed
  moreover have "ev_id e \<le> rs_globalEventId st'" if e: "e \<in> set (stored c st')" for e
  proof -
    have "e \<in> set (stored c st) \<or> ev_id e = rs_globalEventId st + 1"
      using e unfolding st'(1) log_spec_def by (auto dest: in_set_dropD simp: new)
    then show ?thesis using ids less by (fastforce simp: ids_ok_def st'(2))
  qed
  ultimately show ?thesis by (simp add: ids_ok_def)
qed

text \<open>Any operation that keeps the identifiers of the log and does not lower the counter.\<close>

lemma ids_ok_keep:
  assumes "ids_ok c st" "map ev_id (stored c st') = map ev_id (stored c st)"
    "rs_globalEventId st \<le> rs_globalEventId st'"
  shows "ids_ok c st'"
proof -
  have set_eq: "ev_id ` set (stored c st') = ev_id ` set (stored c st)"
    using assms(2) by (metis set_map)
  have "\<forall>i\<in>ev_id ` set (stored c st'). i \<le> rs_globalEventId st'"
    unfolding set_eq using assms(1,3) by (auto simp: ids_ok_def intro: order_trans)
  then show ?thesis using assms(1,2) by (simp add: ids_ok_def)
qed

lemma map_id_fold_mark [simp]: "map ev_id (fold mark_spec ids l) = map ev_id l"
  by (induction ids arbitrary: l) simp_all

lemma ids_ok_mark: "ids_ok c st \<Longrightarrow> stored c st' = mark_spec i (stored c st) \<Longrightarrow>
  rs_globalEventId st' = rs_globalEventId st \<Longrightarrow> ids_ok c st'"
  by (erule ids_ok_keep) simp_all

text \<open>With distinct identifiers an acknowledgement reaches the event it names and no other.\<close>

lemma mark_spec_unique:
  assumes "ids_ok c st"
  shows "mark_spec i (stored c st) =
    map (\<lambda>e. if ev_id e = i then setSynced e else e) (stored c st)"
proof -
  have "distinct (map ev_id (stored c st))"
    using assms by (simp add: ids_ok_def strict_sorted_iff)
  then show ?thesis unfolding mark_spec_def by (rule upd_first_unique)
qed

section \<open>Draining the log\<close>

text \<open>
  One delivery that is acknowledged: the next event to send is read and its identifier is
  marked. \<open>drain\<close> repeats it.
\<close>

definition deliver_one :: "history_cfg \<Rightarrow> history \<Rightarrow> history option" where
  "deliver_one c h =
     (case getNextUnsynced c True h of
        None \<Rightarrow> None
      | Some None \<Rightarrow> Some h
      | Some (Some e) \<Rightarrow> map_option snd (markAsSynced c (ev_id e) True h))"

fun drain :: "history_cfg \<Rightarrow> nat \<Rightarrow> history \<Rightarrow> history option" where
  "drain c 0 h = Some h"
| "drain c (Suc n) h = Option.bind (deliver_one c h) (drain c n)"

lemma find_pending: "find (\<lambda>e. \<not> isSynced e) l = None \<longleftrightarrow> pending l = 0"
  by (induction l) (simp_all add: pending_def)

lemma find_unique:
  assumes "distinct (map f l)" "find p l = Some e"
  shows "find (\<lambda>x. f x = f e) l = Some e"
  using assms by (induction l) (auto split: if_splits simp: find_Some_iff image_iff)

lemma deliver_one_pending:
  assumes h: "h_valid c h" and ids: "ids_ok c (h_state h)"
  obtains h' where "deliver_one c h = Some h'" "h_valid c h'" "ids_ok c (h_state h')"
    "pending (h_stored c h') = pending (h_stored c h) - 1"
    "map ev_id (h_stored c h') = map ev_id (h_stored c h)"
proof (cases "find (\<lambda>e. \<not> isSynced e) (h_stored c h)")
  case None
  then show ?thesis
    using assms h_validD [OF h] find_pending [of "h_stored c h"] by (intro that [of h])
      (simp_all add: deliver_one_def getNextUnsynced_stored)
next
  case (Some e)
  note v = h_validD [OF h]
  obtain st' where m: "markAsSynced c (ev_id e) True h =
      Some (ev_id e \<in> ev_id ` set (h_stored c h), h\<lparr>h_state := st'\<rparr>)"
    "rtc_valid c st'" "stored c st' = mark_spec (ev_id e) (h_stored c h)"
    "rs_globalEventId st' = rs_globalEventId (h_state h)"
    by (rule markAsSynced_stored [OF h])
  have "distinct (map ev_id (h_stored c h))" using ids by (simp add: ids_ok_def strict_sorted_iff)
  then have "find (\<lambda>x. ev_id x = ev_id e) (h_stored c h) = Some e" using Some by (rule find_unique)
  then have "pending (h_stored c h) = pending (mark_spec (ev_id e) (h_stored c h)) +
      (if isSynced e then 0 else 1)" by (rule pending_mark_spec)
  moreover have "\<not> isSynced e" using Some by (auto simp: find_Some_iff)
  ultimately show ?thesis
    using Some v m ids_ok_mark [OF ids m(3,4)] by (intro that [of "h\<lparr>h_state := st'\<rparr>"])
      (simp_all add: deliver_one_def getNextUnsynced_stored h_valid_def h_ready_def)
qed

lemma drain_pending:
  assumes "h_valid c h" "ids_ok c (h_state h)"
  obtains h' where "drain c n h = Some h'" "h_valid c h'" "ids_ok c (h_state h')"
    "pending (h_stored c h') = pending (h_stored c h) - n"
    "map ev_id (h_stored c h') = map ev_id (h_stored c h)"
  using assms
proof (induction n arbitrary: h thesis)
  case 0
  show ?case by (rule "0.prems"(1)) (use "0.prems" in simp_all)
next
  case (Suc n)
  obtain h1 where 1: "deliver_one c h = Some h1" "h_valid c h1" "ids_ok c (h_state h1)"
    "pending (h_stored c h1) = pending (h_stored c h) - 1"
    "map ev_id (h_stored c h1) = map ev_id (h_stored c h)"
    by (rule deliver_one_pending [OF Suc.prems(2,3)])
  show ?case
  proof (rule Suc.IH [OF _ 1(2,3)])
    fix h'
    assume "drain c n h1 = Some h'" "h_valid c h'" "ids_ok c (h_state h')"
      "pending (h_stored c h') = pending (h_stored c h1) - n"
      "map ev_id (h_stored c h') = map ev_id (h_stored c h1)"
    then show ?case by (intro Suc.prems(1) [of h']) (simp_all add: 1)
  qed
qed

section \<open>A concrete log\<close>

text \<open>A four-slot log whose two events wrap around the end of the buffer.\<close>

definition demo_cfg :: history_cfg where
  "demo_cfg = \<lparr>BUFFER_SIZE = 4, NVS_FLUSH_THRESHOLD = 50, RTC_MAGIC_NUMBER = 0x48495354\<rparr>"

definition demo_event1 :: det_event where
  "demo_event1 = \<lparr>ev_id = 6, ev_timestampMs = 100, ev_bootCount = 2, ev_durationMs = 800,
     ev_timestamp = 0, ev_flags = 1, ev_reserved = (0, 0, 0, 0, 0)\<rparr>"

definition demo_event2 :: det_event where
  "demo_event2 = \<lparr>ev_id = 7, ev_timestampMs = 5000, ev_bootCount = 3, ev_durationMs = 1200,
     ev_timestamp = 0, ev_flags = 0, ev_reserved = (0, 0, 0, 0, 0)\<rparr>"

definition demo_state :: rtc_state where
  "demo_state = updateCRC \<lparr>rs_magicNumber = 0x48495354, rs_crc32 = 0, rs_bootCount = 3,
     rs_head = 1, rs_tail = 3, rs_globalEventId = 7,
     rs_buffer = [demo_event2, zero_event, zero_event, demo_event1], rs_reserved = (0, 0)\<rparr>"

definition demo_history :: history where
  "demo_history = (history_new True True demo_state)\<lparr>h_initialized := True\<rparr>"

lemma demo_state_simps [simp]:
  "rs_head demo_state = 1" "rs_tail demo_state = 3" "rs_globalEventId demo_state = 7"
  "rs_bootCount demo_state = 3"
  "rs_buffer demo_state = [demo_event2, zero_event, zero_event, demo_event1]"
  by (simp_all add: demo_state_def)

lemma demo_history_state [simp]: "h_state demo_history = demo_state"
  by (simp add: demo_history_def history_new_def)

lemma demo_state_valid [simp]: "rtc_valid demo_cfg demo_state"
  by (simp add: rtc_valid_def rtc_ok_def demo_cfg_def demo_state_def)

lemma demo_valid [simp]: "h_valid demo_cfg demo_history"
  by (simp add: h_valid_def h_ready_def demo_history_def history_new_def)

lemma demo_stored [simp]: "stored demo_cfg demo_state = [demo_event1, demo_event2]"
  by (simp add: stored_def ring_list_def ring_idx_def ring_count_def demo_cfg_def upt_rec)

lemma demo_events [simp]:
  "isSynced demo_event1" "\<not> isSynced demo_event2" "ev_id demo_event1 = 6" "ev_id demo_event2 = 7"
  by (simp_all add: flag_bits demo_event1_def demo_event2_def)

lemma demo_ids_ok [simp]: "ids_ok demo_cfg demo_state"
  by (simp add: ids_ok_def)

section \<open>Properties\<close>

text \<open>
  C3: \<open>logDetection\<close>, whenever it is initialized and gets the mutex, appends exactly one event
  that carries the next identifier, the boot count, the uptime stamp, the duration and the
  epoch (or 0 before the clock is valid); when all \<open>BUFFER_SIZE - 1\<close> usable slots are taken it
  first drops the oldest event and flags the new one as overflow; and it leaves a state
  that passes validation.
\<close>

theorem logDetection_refines:
  assumes "h_valid c h" "le_lock env"
  shows "\<exists>ep h'. logDetection c dur env h = Some (rs_globalEventId (h_state h) + 1, ep, h') \<and>
    h_valid c h' \<and>
    h_stored c h' = log_spec c (new_event (rs_globalEventId (h_state h) + 1)
      (rs_bootCount (h_state h)) (le_uptime env) (le_epoch env) dur) (h_stored c h) \<and>
    rs_globalEventId (h_state h') = rs_globalEventId (h_state h) + 1"
  by (rule logDetection_stored [OF assms, of dur]) blast

theorem logDetection_refines_witness:
  "\<exists>ep h'. logDetection demo_cfg 900
      \<lparr>le_lock = True, le_uptime = 7000, le_epoch = 0, le_qsend = True\<rparr> demo_history =
      Some (8, ep, h') \<and> h_valid demo_cfg h' \<and>
    h_stored demo_cfg h' = [demo_event1, demo_event2, new_event 8 3 7000 0 900 False] \<and>
    rs_globalEventId (h_state h') = 8"
  using logDetection_refines [OF demo_valid, of
      "\<lparr>le_lock = True, le_uptime = 7000, le_epoch = 0, le_qsend = True\<rparr>" 900]
  by (simp add: log_spec_def demo_cfg_def [THEN arg_cong [of _ _ BUFFER_SIZE]])

text \<open>
  After any sequence of detections the log holds, in order, the most recent
  \<open>BUFFER_SIZE - 1\<close> of the old and the new detections: nothing else is lost, duplicated or
  reordered. (An instance of the contract \<open>bounded_log\<close>.)
\<close>

theorem logged_sequence_kept:
  assumes "h_valid c h"
  shows "map event_obs (h_stored c (fold (log_one c) ds h)) =
    drop (length (h_stored c h) + length ds - (BUFFER_SIZE c - 1))
      (map event_obs (h_stored c h) @ map detection_obs ds)"
  using hlog.entries_fold [OF assms, of ds] by simp

theorem logged_sequence_kept_witness:
  "map event_obs (h_stored demo_cfg
     (fold (log_one demo_cfg) [(10, 6000, 0, True), (11, 7000, 0, False)] demo_history)) =
   [(1200, 5000, 0), (10, 6000, 0), (11, 7000, 0)]"
proof -
  have "BUFFER_SIZE demo_cfg = 4" "\<not> MIN_VALID_EPOCH \<le> 0"
    by (simp_all add: demo_cfg_def MIN_VALID_EPOCH_def)
  then show ?thesis
    unfolding logged_sequence_kept [OF demo_valid]
    by (simp add: event_obs_def demo_event1_def demo_event2_def)
qed

text \<open>
  The readers agree on the abstract log: \<open>getNextUnsynced\<close> is its oldest unacknowledged
  event, \<open>getUnsyncedEvents\<close> the first ones up to the caller's bound, \<open>getEventsSince\<close> the
  first ones with a larger identifier, \<open>getPendingCount\<close> the number of unacknowledged events,
  \<open>hasPendingData\<close> whether there is one, and \<open>getStoredCount\<close> the length of the log. All of
  them return.
\<close>

theorem readers_agree:
  assumes "h_valid c h"
  shows "getNextUnsynced c True h = Some (find (\<lambda>e. \<not> isSynced e) (h_stored c h)) \<and>
    getUnsyncedEvents c m True h = Some (True, take (unat m) (filter (\<lambda>e. \<not> isSynced e) (h_stored c h))) \<and>
    getEventsSince c i m True h = Some (True, take (unat m) (filter (\<lambda>e. ev_id e > i) (h_stored c h))) \<and>
    map_option unat (getPendingCount c True h) = Some (pending (h_stored c h)) \<and>
    hasPendingData c True h = Some (pending (h_stored c h) \<noteq> 0) \<and>
    unat (getStoredCount c h) = length (h_stored c h)"
proof -
  note v = h_validD [OF assms]
  have "(\<exists>e\<in>set (h_stored c h). \<not> isSynced e) \<longleftrightarrow> pending (h_stored c h) \<noteq> 0"
    by (simp add: pending_def filter_empty_conv)
  moreover have "unat (word_of_nat (pending (h_stored c h)) :: u16) = pending (h_stored c h)"
    unfolding pending_def by (rule unat_word_of_nat_less [OF pending_bound [OF v(3)]])
  ultimately show ?thesis
    using v by (simp add: getNextUnsynced_stored getPendingCount_stored getUnsyncedEvents_def
      getEventsSince_def hasPendingData_def collect_events_stored scan_any_stored h_ready_def
      getStoredCount_def getEventCount_stored flip: pending_def)
qed

theorem readers_agree_witness:
  "getNextUnsynced demo_cfg True demo_history = Some (Some demo_event2) \<and>
   getUnsyncedEvents demo_cfg 5 True demo_history = Some (True, [demo_event2]) \<and>
   getEventsSince demo_cfg 5 1 True demo_history = Some (True, [demo_event1]) \<and>
   map_option unat (getPendingCount demo_cfg True demo_history) = Some 1 \<and>
   hasPendingData demo_cfg True demo_history = Some True \<and>
   unat (getStoredCount demo_cfg demo_history) = 2"
  using readers_agree [OF demo_valid, of 5 5] readers_agree [OF demo_valid, of 1 5]
  by (simp add: pending_def)

text \<open>
  C24: \<open>markAsSynced\<close> reports whether the log holds the identifier, acknowledges the event that
  carries it, and changes no other event, no identifier and no counter; the state still
  validates.
\<close>

theorem markAsSynced_exact:
  assumes "h_valid c h" "ids_ok c (h_state h)"
  shows "\<exists>st'. markAsSynced c i True h =
      Some (i \<in> ev_id ` set (h_stored c h), h\<lparr>h_state := st'\<rparr>) \<and>
    rtc_valid c st' \<and> ids_ok c st' \<and>
    stored c st' = map (\<lambda>e. if ev_id e = i then setSynced e else e) (h_stored c h) \<and>
    rs_globalEventId st' = rs_globalEventId (h_state h)"
proof (rule markAsSynced_stored [OF assms(1), of i])
  fix st'
  assume m: "markAsSynced c i True h =
      Some (i \<in> ev_id ` set (h_stored c h), h\<lparr>h_state := st'\<rparr>)" "rtc_valid c st'"
    "stored c st' = mark_spec i (h_stored c h)"
    "rs_globalEventId st' = rs_globalEventId (h_state h)"
  then show ?thesis
    using ids_ok_mark [OF assms(2) m(3,4)] mark_spec_unique [OF assms(2)] by auto
qed

theorem markAsSynced_exact_witness:
  "\<exists>st'. markAsSynced demo_cfg 7 True demo_history = Some (True, demo_history\<lparr>h_state := st'\<rparr>) \<and>
    rtc_valid demo_cfg st' \<and> ids_ok demo_cfg st' \<and>
    stored demo_cfg st' = [demo_event1, setSynced demo_event2] \<and> rs_globalEventId st' = 7"
  using markAsSynced_exact [OF demo_valid, of 7] by simp

text \<open>
  \<open>markMultipleAsSynced\<close>, called with at most 255 identifiers, acknowledges exactly what
  the single acknowledgements in turn would, returns how many events that newly
  acknowledged, and leaves a state that validates.
\<close>

theorem markMultiple_counts:
  assumes "h_valid c h" "length ids < 256"
  shows "\<exists>marked st'. markMultipleAsSynced c ids True h = Some (marked, h\<lparr>h_state := st'\<rparr>) \<and>
    rtc_valid c st' \<and> stored c st' = fold mark_spec ids (h_stored c h) \<and>
    unat marked + pending (stored c st') = pending (h_stored c h)"
  by (rule markMultiple_stored [OF assms]) blast

theorem markMultiple_counts_witness:
  "\<exists>marked st'. markMultipleAsSynced demo_cfg [6, 7, 7] True demo_history =
      Some (marked, demo_history\<lparr>h_state := st'\<rparr>) \<and> rtc_valid demo_cfg st' \<and>
    stored demo_cfg st' = [demo_event1, setSynced demo_event2] \<and> unat marked = 1"
  using markMultiple_counts [OF demo_valid, of "[6, 7, 7]"]
  by (auto simp: mark_spec_def pending_def)

text \<open>
  No unacknowledged event is stuck. If every delivery of \<open>getNextUnsynced\<close>'s event is
  acknowledged, the number of pending events drops by one each time, no event leaves the
  log, and after as many rounds as there are pending events nothing is pending.
\<close>

theorem drain_completes:
  assumes "h_valid c h" "ids_ok c (h_state h)"
  shows "\<exists>h'. drain c (pending (h_stored c h)) h = Some h' \<and>
    getNextUnsynced c True h' = Some None \<and>
    map ev_id (h_stored c h') = map ev_id (h_stored c h)"
proof (rule drain_pending [OF assms, of "pending (h_stored c h)"])
  fix h'
  assume d: "drain c (pending (h_stored c h)) h = Some h'" "h_valid c h'"
    "pending (h_stored c h') = pending (h_stored c h) - pending (h_stored c h)"
    "map ev_id (h_stored c h') = map ev_id (h_stored c h)"
  then have "find (\<lambda>e. \<not> isSynced e) (h_stored c h') = None" by (simp only: find_pending diff_self_eq_0)
  then show ?thesis using d h_validD [OF d(2)] by (simp add: getNextUnsynced_stored)
qed

theorem drain_completes_witness:
  "\<exists>h'. drain demo_cfg 1 demo_history = Some h' \<and> getNextUnsynced demo_cfg True h' = Some None \<and>
    map ev_id (h_stored demo_cfg h') = [6, 7]"
  using drain_completes [OF demo_valid] by (simp add: pending_def)

text \<open>
  What \<open>validateState\<close> detects, and what it does not. A buffer that differs from a valid
  one within four adjacent bytes is rejected; but the checksum covers the buffer only, so
  a state whose indices or event counter were changed is still accepted.
\<close>

theorem validateState_coverage:
  assumes "validateState c st" "length u = 4" "length v = 4"
    "enc_events (rs_buffer st) = p @ u @ s" "enc_events buf = p @ v @ s"
  shows "validateState c (st\<lparr>rs_buffer := buf, rs_head := hd', rs_tail := tl',
    rs_globalEventId := i\<rparr>) \<longleftrightarrow> u = v"
proof -
  have "rs_magicNumber st = RTC_MAGIC_NUMBER c" "calculateCRC32 (p @ u @ s) = rs_crc32 st"
    using assms(1,4) by (auto simp: validateState_def calculateBufferCRC_def split: if_splits)
  then show ?thesis
    using crc32_burst [OF assms(2,3), of p s] assms(5)
    by (auto simp: validateState_def calculateBufferCRC_def)
qed

theorem validateState_coverage_witness:
  "\<not> validateState demo_cfg (demo_state\<lparr>rs_buffer := [demo_event2\<lparr>ev_id := 9\<rparr>, zero_event,
      zero_event, demo_event1], rs_head := 1, rs_tail := 3, rs_globalEventId := 7\<rparr>)"
proof -
  let ?s = "drop 4 (enc_event demo_event2) @ enc_events [zero_event, zero_event, demo_event1]"
  have "validateState demo_cfg demo_state" using demo_state_valid by (simp add: rtc_valid_def)
  then have "validateState demo_cfg (demo_state\<lparr>rs_buffer := [demo_event2\<lparr>ev_id := 9\<rparr>, zero_event,
      zero_event, demo_event1], rs_head := 1, rs_tail := 3, rs_globalEventId := 7\<rparr>) \<longleftrightarrow>
    le32 7 = le32 9"
    by (rule validateState_coverage [where p = "[]" and s = ?s])
      (simp_all add: enc_events_def enc_event_def demo_event2_def)
  then show ?thesis by simp
qed



end
