(* ===== verification/Fw_HistoryNvs.thy ===== *)
theory Fw_HistoryNvs
  imports Fw_History
begin

text \<open>
  The second half of \<open>HistoryService\<close>: the NVS backup of the log (\<open>flushToNvs\<close>,
  \<open>restoreFromNvs\<close> and the metadata pair), the storage worker and its queue, the boot logic of
  \<open>init\<close>, the back-filling of timestamps, the BLE connection notice and the fast-forward of
  the event counter. The flash is an argument (\<open>'n\<close> behind a \<open>prefs_api\<close>) that each operation
  returns changed. The lemmas show what each operation does to the stored log, that a flush
  followed by a restore gives the log back, and what \<open>init\<close> makes of each kind of boot.
\<close>

section \<open>Flushing\<close>

record flush_env =
  fe_batteryCritical :: bool
  fe_charging :: bool
  fe_pairing :: bool
  fe_lock :: bool

text \<open>The write of the event blob: up to three attempts, the last byte count is kept.\<close>

fun put_retry ::
  "'n prefs_api \<Rightarrow> string \<Rightarrow> string \<Rightarrow> bytes \<Rightarrow> nat \<Rightarrow> nat \<Rightarrow> 'n \<Rightarrow> nat \<times> 'n" where
  "put_retry api ns k bs 0 written n = (written, n)"
| "put_retry api ns k bs (Suc attempts) written n =
     (let (written, n) = p_putBytes api n ns k bs
      in if written = length bs then (written, n)
         else put_retry api ns k bs attempts written n)"

definition flushToNvs ::
  "'n prefs_api \<Rightarrow> flush_env \<Rightarrow> history \<Rightarrow> 'n \<Rightarrow> bool \<times> history \<times> 'n" where
  "flushToNvs api env h n =
     (if \<not> h_initialized h then (False, h, n)
      else if fe_batteryCritical env \<and> \<not> fe_charging env then (False, h, n)
      else if fe_pairing env then (False, h, n)
      else if \<not> h_stateMutex h then (False, h, n)
      else if \<not> fe_lock env then (False, h, n)
      else
        let local = h_state h;
            h = h\<lparr>h_lastNvsFlushId := rs_globalEventId local, h_eventsSinceFlush := 0\<rparr>
        in if \<not> p_begin api n NVS_NAMESPACE False then (False, h, n)
        else
          let success = True;
              (r, n) = p_putULong api n NVS_NAMESPACE NVS_KEY_BOOT_COUNT (rs_bootCount local);
              success = and_assign success r;
              (r, n) = p_putULong api n NVS_NAMESPACE NVS_KEY_EVENT_ID (rs_globalEventId local);
              success = and_assign success r;
              (r, n) = p_putUShort api n NVS_NAMESPACE NVS_KEY_HEAD (rs_head local);
              success = and_assign success r;
              (r, n) = p_putUShort api n NVS_NAMESPACE NVS_KEY_TAIL (rs_tail local);
              success = and_assign success r;
              blob = enc_events (rs_buffer local);
              (written, n) = put_retry api NVS_NAMESPACE NVS_KEY_EVENTS blob 3 0 n
          in if written \<noteq> length blob then (False, h, n)
             else if \<not> success then (False, h, n)
             else (True, h, n))"

definition forceNvsSync :: "'n prefs_api \<Rightarrow> flush_env \<Rightarrow> history \<Rightarrow> 'n \<Rightarrow> history \<times> 'n" where
  "forceNvsSync api env h n = snd (flushToNvs api env h n)"

section \<open>Restoring\<close>

text \<open>
  \<open>junk\<close> is what the uninitialised stack buffer holds where \<open>getBytes\<close> writes nothing; the
  result is the event count cut to a byte.
\<close>

definition restoreFromNvs ::
  "history_cfg \<Rightarrow> 'n prefs_api \<Rightarrow> bytes \<Rightarrow> bool \<Rightarrow> history \<Rightarrow> 'n \<Rightarrow> u8 \<times> history" where
  "restoreFromNvs c api junk lock h n =
     (if \<not> p_begin api n NVS_NAMESPACE True then (0, h)
      else if \<not> p_isKey api n NVS_NAMESPACE NVS_KEY_EVENT_ID then (0, h)
      else
        let nvsBootCount = p_getULong api n NVS_NAMESPACE NVS_KEY_BOOT_COUNT 0;
            nvsEventId = p_getULong api n NVS_NAMESPACE NVS_KEY_EVENT_ID 0;
            nvsHead = p_getUShort api n NVS_NAMESPACE NVS_KEY_HEAD 0;
            nvsTail = p_getUShort api n NVS_NAMESPACE NVS_KEY_TAIL 0;
            bufferSize = BUFFER_SIZE c * 24;
            restored = p_getBytes api n NVS_NAMESPACE NVS_KEY_EVENTS bufferSize;
            nvsBuffer = dec_events (BUFFER_SIZE c) (restored @ drop (length restored) junk)
        in if h_stateMutex h \<and> lock then
             (let st = updateCRC ((h_state h)\<lparr>rs_bootCount := nvsBootCount,
                    rs_globalEventId := nvsEventId, rs_head := nvsHead, rs_tail := nvsTail,
                    rs_buffer := nvsBuffer, rs_magicNumber := RTC_MAGIC_NUMBER c\<rparr>)
              in (ucast (getEventCount c st),
                  h\<lparr>h_state := st, h_lastNvsFlushId := rs_globalEventId st,
                    h_eventsSinceFlush := 0\<rparr>))
           else (ucast (0 :: u16), h))"

definition clearNvs :: "'n prefs_api \<Rightarrow> 'n \<Rightarrow> 'n" where
  "clearNvs api n =
     (if p_begin api n NVS_NAMESPACE False then p_clear api n NVS_NAMESPACE else n)"

definition saveMetadataToNvs ::
  "'n prefs_api \<Rightarrow> bool \<Rightarrow> history \<Rightarrow> 'n \<Rightarrow> bool \<times> 'n" where
  "saveMetadataToNvs api lock h n =
     (if \<not> h_stateMutex h then (False, n)
      else if \<not> lock then (False, n)
      else if \<not> p_begin api n NVS_NAMESPACE False then (False, n)
      else
        let (_, n) = p_putULong api n NVS_NAMESPACE NVS_KEY_BOOT_COUNT (rs_bootCount (h_state h));
            (_, n) = p_putULong api n NVS_NAMESPACE NVS_KEY_EVENT_ID (rs_globalEventId (h_state h))
        in (True, n))"

definition loadMetadataFromNvs ::
  "'n prefs_api \<Rightarrow> bool \<Rightarrow> history \<Rightarrow> 'n \<Rightarrow> bool \<times> history" where
  "loadMetadataFromNvs api lock h n =
     (if \<not> p_begin api n NVS_NAMESPACE True then (False, h)
      else if \<not> p_isKey api n NVS_NAMESPACE NVS_KEY_BOOT_COUNT then (False, h)
      else
        let bootCount = p_getULong api n NVS_NAMESPACE NVS_KEY_BOOT_COUNT 0;
            eventId = p_getULong api n NVS_NAMESPACE NVS_KEY_EVENT_ID 0
        in if h_stateMutex h \<and> lock
           then (True, h\<lparr>h_state := (h_state h)\<lparr>rs_bootCount := bootCount,
                              rs_globalEventId := eventId\<rparr>\<rparr>)
           else (False, h))"

section \<open>The storage worker\<close>

text \<open>
  \<open>junk\<close> and \<open>lock\<close> are for the restore branch; \<open>env\<close> is what a flush reads.
\<close>

definition processStorageCommand ::
  "history_cfg \<Rightarrow> 'n prefs_api \<Rightarrow> bytes \<Rightarrow> flush_env \<Rightarrow> storage_message \<Rightarrow> history \<Rightarrow> 'n \<Rightarrow>
   history \<times> 'n" where
  "processStorageCommand c api junk env msg h n =
     (case sm_cmd msg of
        SAVE_HIT \<Rightarrow> (let (_, h, n) = flushToNvs api env h n in (h\<lparr>h_flushPending := False\<rparr>, n))
      | FORCE_FLUSH \<Rightarrow> (let (_, h, n) = flushToNvs api env h n in (h\<lparr>h_flushPending := False\<rparr>, n))
      | RESTORE \<Rightarrow> (let (_, h) = restoreFromNvs c api junk (fe_lock env) h n in (h, n))
      | CLEAR_NVS \<Rightarrow> (h, clearNvs api n))"

definition startStorageWorker :: "bool \<Rightarrow> history \<Rightarrow> bool \<times> history" where
  "startStorageWorker taskOk h =
     (if h_workerRunning h then (True, h)
      else if h_storageQueue h = None then (False, h)
      else if \<not> taskOk then (False, h\<lparr>h_storageTask := False\<rparr>)
      else (True, h\<lparr>h_storageTask := True, h_workerRunning := True\<rparr>))"

text \<open>
  One iteration of the worker's loop. \<open>still\<close> is the running flag as the worker reads it again
  after the receive; it is an input because the main task may clear it in between.
\<close>

definition storageWorker_step ::
  "history_cfg \<Rightarrow> 'n prefs_api \<Rightarrow> bytes \<Rightarrow> flush_env \<Rightarrow> bool \<Rightarrow> history \<Rightarrow> 'n \<Rightarrow> history \<times> 'n" where
  "storageWorker_step c api junk env still h n =
     (if \<not> h_workerRunning h then (h, n)
      else case h_storageQueue h of
          Some (msg # rest) \<Rightarrow>
            if \<not> still then (h, n)
            else processStorageCommand c api junk env msg (h\<lparr>h_storageQueue := Some rest\<rparr>) n
        | _ \<Rightarrow> (h, n))"

fun processAll ::
  "history_cfg \<Rightarrow> 'n prefs_api \<Rightarrow> bytes \<Rightarrow> flush_env \<Rightarrow> storage_message list \<Rightarrow> history \<Rightarrow> 'n \<Rightarrow>
   history \<times> 'n" where
  "processAll c api junk env [] h n = (h, n)"
| "processAll c api junk env (msg # rest) h n =
     (let (h, n) = processStorageCommand c api junk env msg (h\<lparr>h_storageQueue := Some rest\<rparr>) n
      in processAll c api junk env rest h n)"

definition stopStorageWorker ::
  "history_cfg \<Rightarrow> 'n prefs_api \<Rightarrow> bytes \<Rightarrow> flush_env \<Rightarrow> history \<Rightarrow> 'n \<Rightarrow> history \<times> 'n" where
  "stopStorageWorker c api junk env h n =
     (if \<not> h_workerRunning h \<and> \<not> h_storageTask h then (h, n)
      else
        let h = h\<lparr>h_workerRunning := False\<rparr>;
            (h, n) = (case h_storageQueue h of
                None \<Rightarrow> (h, n) | Some q \<Rightarrow> processAll c api junk env q h n)
        in (if h_storageTask h then h\<lparr>h_storageTask := False\<rparr> else h, n))"

section \<open>Booting\<close>

record init_env =
  ie_resetReason :: reset_reason
  ie_mutexOk :: bool
  ie_queueOk :: bool
  ie_taskOk :: bool
  ie_lock :: bool

definition history_init ::
  "history_cfg \<Rightarrow> 'n prefs_api \<Rightarrow> bytes \<Rightarrow> init_env \<Rightarrow> history \<Rightarrow> 'n \<Rightarrow> history" where
  "history_init c api junk env h n =
     (let h = (if \<not> h_stateMutex h then h\<lparr>h_stateMutex := ie_mutexOk env\<rparr> else h);
          h = (if h_storageQueue h = None
               then h\<lparr>h_storageQueue := if ie_queueOk env then Some [] else None\<rparr> else h);
          isColdBoot = (ie_resetReason env = ESP_RST_POWERON \<or>
            ie_resetReason env = ESP_RST_BROWNOUT \<or>
            rs_magicNumber (h_state h) \<noteq> RTC_MAGIC_NUMBER c);
          recover = (\<lambda>h. let (restoredCount, h) = restoreFromNvs c api junk (ie_lock env) h n
            in if restoredCount > 0
               then h\<lparr>h_state := (h_state h)\<lparr>rs_bootCount := rs_bootCount (h_state h) + 1\<rparr>\<rparr>
               else h\<lparr>h_state := (resetState c)\<lparr>rs_bootCount := 1\<rparr>\<rparr>);
          h = (if isColdBoot then recover h
               else if \<not> validateState c (h_state h) then recover h
               else h);
          h = h\<lparr>h_state := updateCRC (h_state h)\<rparr>;
          h = h\<lparr>h_lastNvsFlushId := rs_globalEventId (h_state h), h_eventsSinceFlush := 0,
                h_initialized := True\<rparr>
      in snd (startStorageWorker (ie_taskOk env) h))"

section \<open>Time synchronisation\<close>

text \<open>
  The timestamp that \<open>applyTimeSync\<close> gives to an event of this boot that has none: the epoch
  of the boot plus the event's uptime, in seconds.
\<close>

definition backfill_timestamp :: "u32 \<Rightarrow> u32 \<Rightarrow> det_event \<Rightarrow> u32" where
  "backfill_timestamp currentEpoch currentUptime e =
     (let uptimeSec = currentUptime div 1000;
          bootEpoch = (if currentEpoch \<ge> uptimeSec then currentEpoch - uptimeSec else 0)
      in bootEpoch + ev_timestampMs e div 1000)"

definition needs_backfill :: "u32 \<Rightarrow> det_event \<Rightarrow> bool" where
  "needs_backfill bootCount e \<longleftrightarrow> ev_bootCount e = bootCount \<and> ev_timestamp e = 0"

definition backfill_event :: "u32 \<Rightarrow> u32 \<Rightarrow> u32 \<Rightarrow> det_event \<Rightarrow> det_event" where
  "backfill_event bootCount currentEpoch currentUptime e =
     (if needs_backfill bootCount e
      then e\<lparr>ev_timestamp := backfill_timestamp currentEpoch currentUptime e\<rparr> else e)"

record time_env =
  te_millis :: u32
  te_uptime :: u32
  te_lock :: bool
  te_qsend :: bool

text \<open>
  The result is the argument of \<open>settimeofday\<close> (seconds and microseconds), if it is called,
  and the new state.
\<close>

definition applyTimeSync ::
  "history_cfg \<Rightarrow> u32 \<Rightarrow> time_env \<Rightarrow> history \<Rightarrow> ((u32 \<times> u32) option \<times> history) option" where
  "applyTimeSync c currentEpoch env h =
     (if \<not> h_initialized h \<or> \<not> h_stateMutex h then Some (None, h)
      else
        let tv = (currentEpoch, (te_millis env mod 1000) * 1000);
            h = h\<lparr>h_timeSyncReceived := True\<rparr>
        in if \<not> te_lock env then Some (Some tv, h)
           else map_option
             (\<lambda>(updatedCount, st).
                let h = h\<lparr>h_state := if updatedCount > 0 then updateCRC st else st\<rparr>
                in (Some tv,
                    if updatedCount > 0 \<and> h_workerRunning h \<and> \<not> h_flushPending h
                    then queueFlush 0 (te_qsend env) h else h))
             (ring_scan (BUFFER_SIZE c) (\<lambda>_. True)
               (\<lambda>i (updatedCount :: u32, st). map_option
                  (\<lambda>e. (False, if needs_backfill (rs_bootCount st) e
                     then (updatedCount + 1,
                           set_slot i (backfill_event (rs_bootCount st) currentEpoch (te_uptime env) e) st)
                     else (updatedCount, st))) (buf_at st i))
               (rs_head (h_state h)) (rs_tail (h_state h)) (0, h_state h)))"

definition onSystemTimeSynced ::
  "history_cfg \<Rightarrow> u32 \<Rightarrow> time_env \<Rightarrow> history \<Rightarrow> ((u32 \<times> u32) option \<times> history) option" where
  "onSystemTimeSynced c currentEpoch env h = applyTimeSync c currentEpoch env h"

section \<open>Connection notices\<close>

definition setBleConnected ::
  "history_cfg \<Rightarrow> bool \<Rightarrow> u32 \<Rightarrow> bool \<Rightarrow> history \<Rightarrow> history" where
  "setBleConnected c connected millis qsend h =
     (let wasConnected = h_bleConnected h;
          h = h\<lparr>h_bleConnected := connected\<rparr>;
          h = (if \<not> wasConnected \<and> connected then h\<lparr>h_connectionStart := millis\<rparr> else h)
      in if wasConnected \<and> \<not> connected then
           (let h = h\<lparr>h_connectionStart := 0\<rparr>
            in if needsNvsFlush c h \<and> \<not> h_flushPending h
               then queueFlush (rs_globalEventId (h_state h)) qsend h else h)
         else h)"

definition fastForwardEventId ::
  "history_cfg \<Rightarrow> 'n prefs_api \<Rightarrow> u32 \<Rightarrow> bool \<Rightarrow> bool \<Rightarrow> flush_env \<Rightarrow> history \<Rightarrow> 'n \<Rightarrow> history \<times> 'n" where
  "fastForwardEventId c api newId lock qsend env h n =
     (if \<not> h_initialized h then (h, n)
      else if \<not> h_stateMutex h then (h, n)
      else
        let didUpdate = (lock \<and> newId > rs_globalEventId (h_state h))
        in if \<not> didUpdate then (h, n)
           else
             let h = h\<lparr>h_state := updateCRC ((h_state h)\<lparr>rs_globalEventId := newId\<rparr>),
                       h_eventsSinceFlush := NVS_FLUSH_THRESHOLD c\<rparr>;
                 (flushOk, h) = (if h_workerRunning h
                    then queueStorageCommand FORCE_FLUSH newId qsend h else (False, h))
             in if \<not> flushOk then snd (flushToNvs api env h n) else (h, n))"

section \<open>What these operations do to the log\<close>

lemma queueStorageCommand_state [simp]:
  "h_state (snd (queueStorageCommand cmd i q h)) = h_state h"
  "h_initialized (snd (queueStorageCommand cmd i q h)) = h_initialized h"
  "h_stateMutex (snd (queueStorageCommand cmd i q h)) = h_stateMutex h"
  by (simp_all add: queueStorageCommand_def split: option.split)

lemma startStorageWorker_state [simp]:
  "h_state (snd (startStorageWorker b h)) = h_state h"
  "h_initialized (snd (startStorageWorker b h)) = h_initialized h"
  "h_stateMutex (snd (startStorageWorker b h)) = h_stateMutex h"
  by (simp_all add: startStorageWorker_def)

lemma flushToNvs_state [simp]:
  "h_state (fst (snd (flushToNvs api env h n))) = h_state h"
  "h_initialized (fst (snd (flushToNvs api env h n))) = h_initialized h"
  "h_stateMutex (fst (snd (flushToNvs api env h n))) = h_stateMutex h"
  by (simp_all add: flushToNvs_def Let_def split_def)

lemma fastForward_state:
  assumes "h_valid c h" "ids_ok c (h_state h)"
  shows "h_valid c (fst (fastForwardEventId c api newId lock qsend env h n))"
    and "ids_ok c (h_state (fst (fastForwardEventId c api newId lock qsend env h n)))"
    and "h_stored c (fst (fastForwardEventId c api newId lock qsend env h n)) = h_stored c h"
    and "rs_globalEventId (h_state (fst (fastForwardEventId c api newId lock qsend env h n))) =
      (if lock then max (rs_globalEventId (h_state h)) newId else rs_globalEventId (h_state h))"
proof -
  let ?h = "h_state h"
  let ?st = "if lock \<and> newId > rs_globalEventId ?h
    then updateCRC (?h\<lparr>rs_globalEventId := newId\<rparr>) else ?h"
  let ?r = "fst (fastForwardEventId c api newId lock qsend env h n)"
  note v = h_validD [OF assms(1)]
  have r: "h_state ?r = ?st" "h_initialized ?r = h_initialized h" "h_stateMutex ?r = h_stateMutex h"
    using v(1) by (simp_all add: fastForwardEventId_def h_ready_def Let_def split_def)
  show st: "h_stored c ?r = h_stored c h" by (simp add: r(1)) (simp add: stored_def)
  show g: "rs_globalEventId (h_state ?r) =
      (if lock then max (rs_globalEventId (h_state h)) newId else rs_globalEventId (h_state h))"
    by (simp add: r(1) max_def not_less) (auto simp: not_less)
  show "h_valid c ?r"
    using v rtc_valid_magic [OF v(2)] by (simp add: h_valid_def h_ready_def r rtc_valid_def rtc_ok_def)
  show "ids_ok c (h_state ?r)"
    using assms(2) by (rule ids_ok_keep) (simp_all add: st g)
qed

text \<open>A scan that rewrites every stored slot in turn maps the stored list.\<close>

definition map_slots :: "('a \<Rightarrow> 'a) \<Rightarrow> nat list \<Rightarrow> 'a list \<Rightarrow> 'a list" where
  "map_slots g is b = fold (\<lambda>i b. b[i := g (b ! i)]) is b"

lemma length_map_slots [simp]: "length (map_slots g is b) = length b"
  unfolding map_slots_def by (induction "is" arbitrary: b) simp_all

lemma map_slots_nth:
  "distinct is \<Longrightarrow> \<forall>i\<in>set is. i < length b \<Longrightarrow>
   map_slots g is b ! j = (if j \<in> set is then g (b ! j) else b ! j)"
  unfolding map_slots_def by (induction "is" arbitrary: b) (auto simp: nth_list_update)

lemma list_scan_slots:
  "distinct is \<Longrightarrow> \<forall>i\<in>set is. i < length (rs_buffer st) \<and> i < 65536 \<Longrightarrow>
   list_scan (\<lambda>_. True) (\<lambda>i (k, st). (False, if d (rs_buffer st ! i)
       then (k + 1, set_slot (word_of_nat i) (f (rs_buffer st ! i)) st) else (k, st))) is (k, st) =
     (k + word_of_nat (length (filter (\<lambda>i. d (rs_buffer st ! i)) is)),
      st\<lparr>rs_buffer := map_slots (\<lambda>e. if d e then f e else e) is (rs_buffer st)\<rparr>)"
  for k :: u32
proof (induction "is" arbitrary: k st)
  case Nil
  then show ?case by (simp add: map_slots_def)
next
  case (Cons i "is")
  let ?e = "rs_buffer st ! i" and ?g = "\<lambda>e. if d e then f e else e"
  have i: "i < length (rs_buffer st)" "unat (word_of_nat i :: u16) = i"
    using Cons.prems by (auto intro: unat_word_of_nat_less)
  have same: "filter (\<lambda>j. d ((rs_buffer st)[i := x] ! j)) is = filter (\<lambda>j. d (rs_buffer st ! j)) is" for x
  proof -
    have "(rs_buffer st)[i := x] ! j = rs_buffer st ! j" if "j \<in> set is" for j
      using that Cons.prems(1) by (intro nth_list_update_neq) auto
    then show ?thesis by (simp cong: filter_cong)
  qed
  show ?case
  proof (cases "d ?e")
    case True
    let ?st = "set_slot (word_of_nat i) (f ?e) st"
    have "rs_buffer ?st = (rs_buffer st)[i := f ?e]" by (simp add: set_slot_def i)
    then show ?thesis
      using True Cons.prems i Cons.IH [of ?st "k + 1"]
      by (simp add: same map_slots_def) (simp add: set_slot_def)
  next
    case False
    then show ?thesis using Cons.prems i Cons.IH [of st k] by (simp add: map_slots_def)
  qed
qed

lemma stored_map_slots:
  assumes ok: "rtc_ok c st"
  shows "stored c (st\<lparr>rs_buffer := map_slots g (ring_idx (BUFFER_SIZE c) (unat (rs_tail st))
      (ring_count (BUFFER_SIZE c) (unat (rs_tail st)) (unat (rs_head st)))) (rs_buffer st)\<rparr>) =
    map g (stored c st)"
proof -
  let ?n = "BUFFER_SIZE c" and ?k = "ring_count (BUFFER_SIZE c) (unat (rs_tail st)) (unat (rs_head st))"
  let ?is = "ring_idx ?n (unat (rs_tail st)) ?k"
  note b = rtc_okD [OF ok]
  have "?k < ?n" using b by (intro ring_count_less)
  then have d: "distinct ?is" using b by (intro ring_idx_distinct) simp_all
  have bnd: "\<forall>i\<in>set ?is. i < length (rs_buffer st)" using ring_idx_bound [OF b(1)] b(4) by auto
  show ?thesis
    by (simp add: stored_def ring_list_def map_slots_nth [OF d bnd] cong: map_cong)
qed

lemma backfill_scan:
  fixes epoch up :: u32
  assumes ok: "rtc_ok c st"
  defines "g \<equiv> backfill_event (rs_bootCount st) epoch up"
  obtains st' where "ring_scan (BUFFER_SIZE c) (\<lambda>_. True)
      (\<lambda>i (k :: u32, st). map_option
        (\<lambda>e. (False, if needs_backfill (rs_bootCount st) e
           then (k + 1, set_slot i (backfill_event (rs_bootCount st) epoch up e) st)
           else (k, st))) (buf_at st i)) (rs_head st) (rs_tail st) (0, st) =
    Some (word_of_nat (length (filter (needs_backfill (rs_bootCount st)) (stored c st))), st')"
    "stored c st' = map g (stored c st)" "rtc_ok c st'"
    "st' = st\<lparr>rs_buffer := rs_buffer st'\<rparr>"
    "filter (needs_backfill (rs_bootCount st)) (stored c st) = [] \<longrightarrow> st' = st"
proof -
  let ?n = "BUFFER_SIZE c" and ?k = "ring_count (BUFFER_SIZE c) (unat (rs_tail st)) (unat (rs_head st))"
  let ?is = "ring_idx ?n (unat (rs_tail st)) ?k" and ?b = "rs_bootCount st"
  note b = rtc_okD [OF ok]
  have "?k < ?n" using b by (intro ring_count_less)
  then have d: "distinct ?is" using b by (intro ring_idx_distinct) simp_all
  have bnd: "\<forall>i\<in>set ?is. i < length (rs_buffer st) \<and> i < 65536"
    using ring_idx_bound [OF b(1)] b(3,4) by fastforce
  let ?st = "st\<lparr>rs_buffer := map_slots g ?is (rs_buffer st)\<rparr>"
  have g: "g = (\<lambda>e. if needs_backfill ?b e then g e else e)"
    by (auto simp: g_def backfill_event_def)
  have "ring_scan ?n (\<lambda>_. True)
      (\<lambda>i (k :: u32, st). map_option
        (\<lambda>e. (False, if needs_backfill (rs_bootCount st) e
           then (k + 1, set_slot i (backfill_event (rs_bootCount st) epoch up e) st)
           else (k, st))) (buf_at st i)) (rs_head st) (rs_tail st) (0, st) =
    Some (list_scan (\<lambda>_. True) (\<lambda>i (k, st). (False, if needs_backfill ?b (rs_buffer st ! i)
       then (k + 1, set_slot (word_of_nat i) (g (rs_buffer st ! i)) st) else (k, st))) ?is (0, st))"
    by (rule ring_scan_list [where P = "\<lambda>(_, s). length (rs_buffer s) = ?n \<and> rs_bootCount s = ?b"])
      (use b in \<open>auto simp: buf_at_def g_def set_slot_def split: if_splits\<close>)
  also have "\<dots> = Some (word_of_nat (length (filter (\<lambda>i. needs_backfill ?b (rs_buffer st ! i)) ?is)), ?st)"
    unfolding list_scan_slots [OF d bnd] by (simp flip: g)
  also have "length (filter (\<lambda>i. needs_backfill ?b (rs_buffer st ! i)) ?is) =
      length (filter (needs_backfill ?b) (stored c st))"
    by (simp add: stored_def ring_list_def filter_map comp_def)
  finally have run: "ring_scan ?n (\<lambda>_. True)
      (\<lambda>i (k :: u32, st). map_option
        (\<lambda>e. (False, if needs_backfill (rs_bootCount st) e
           then (k + 1, set_slot i (backfill_event (rs_bootCount st) epoch up e) st)
           else (k, st))) (buf_at st i)) (rs_head st) (rs_tail st) (0, st) =
    Some (word_of_nat (length (filter (needs_backfill ?b) (stored c st))), ?st)" .
  have "?st = st" if none: "filter (needs_backfill ?b) (stored c st) = []"
  proof -
    have "g (rs_buffer st ! i) = rs_buffer st ! i" if "i \<in> set ?is" for i
      using that none by (auto simp: g_def backfill_event_def filter_empty_conv stored_def ring_list_def)
    then have "map_slots g ?is (rs_buffer st) = rs_buffer st"
      using bnd by (intro nth_equalityI) (simp_all add: map_slots_nth [OF d])
    then show ?thesis by simp
  qed
  then show thesis
    using run stored_map_slots [OF ok, of g] b by (intro that [of ?st]) (simp_all add: rtc_ok_def)
qed

lemma applyTimeSync_stored:
  assumes h: "h_valid c h" and lock: "te_lock env"
  obtains tv h' where "applyTimeSync c epoch env h = Some (Some tv, h')" "fst tv = epoch"
    "h_valid c h'" "h_timeSyncReceived h'"
    "h_stored c h' = map (backfill_event (rs_bootCount (h_state h)) epoch (te_uptime env)) (h_stored c h)"
    "rs_globalEventId (h_state h') = rs_globalEventId (h_state h)"
    "rs_bootCount (h_state h') = rs_bootCount (h_state h)"
proof -
  let ?st = "h_state h"
  let ?k = "length (filter (needs_backfill (rs_bootCount ?st)) (stored c ?st))"
  let ?g = "backfill_event (rs_bootCount ?st) epoch (te_uptime env)"
  note v = h_validD [OF h]
  obtain st' where st': "ring_scan (BUFFER_SIZE c) (\<lambda>_. True)
      (\<lambda>i (k :: u32, st). map_option
        (\<lambda>e. (False, if needs_backfill (rs_bootCount st) e
           then (k + 1, set_slot i (backfill_event (rs_bootCount st) epoch (te_uptime env) e) st)
           else (k, st))) (buf_at st i)) (rs_head ?st) (rs_tail ?st) (0, ?st) =
      Some (word_of_nat ?k, st')"
    "stored c st' = map ?g (stored c ?st)" "rtc_ok c st'" "st' = ?st\<lparr>rs_buffer := rs_buffer st'\<rparr>"
    "filter (needs_backfill (rs_bootCount ?st)) (stored c ?st) = [] \<longrightarrow> st' = ?st"
    by (rule backfill_scan [OF v(3), where epoch = epoch and up = "te_uptime env"])
  have fields: "rs_globalEventId st' = rs_globalEventId ?st" "rs_bootCount st' = rs_bootCount ?st"
    "rs_magicNumber st' = rs_magicNumber ?st" "rs_crc32 st' = rs_crc32 ?st"
    by (subst st'(4), simp)+
  have small: "unat (word_of_nat ?k :: u32) = ?k"
    using pending_bound [OF v(3), of "needs_backfill (rs_bootCount ?st)"]
    by (intro unat_word_of_nat_less) simp
  let ?st1 = "if (word_of_nat ?k :: u32) > 0 then updateCRC st' else st'"
  have val: "rtc_valid c ?st1"
  proof (cases "?k = 0")
    case True
    then show ?thesis using st'(5) v by simp
  next
    case False
    then have "(word_of_nat ?k :: u32) > 0" using small by (simp add: word_gt_0 word_unat_eq_iff)
    then show ?thesis
      using st'(3) fields rtc_valid_magic [OF v(2)] by (simp add: rtc_valid_def)
  qed
  have "\<exists>tv h'. applyTimeSync c epoch env h = Some (Some tv, h') \<and> fst tv = epoch \<and>
      h_state h' = ?st1 \<and> h_initialized h' \<and> h_stateMutex h' \<and> h_timeSyncReceived h'"
    using v(1) lock st'(1) by (simp add: applyTimeSync_def Let_def h_ready_def)
      (simp add: queueFlush_def queueStorageCommand_def split: option.split)
  then obtain tv h' where "applyTimeSync c epoch env h = Some (Some tv, h')" "fst tv = epoch"
    "h_state h' = ?st1" "h_initialized h'" "h_stateMutex h'" "h_timeSyncReceived h'" by blast
  then show thesis
    using val st'(2) fields by (intro that [of tv h']) (simp_all add: h_valid_def h_ready_def)
qed

section \<open>The backup and its restoration\<close>

definition backed_up :: "nvs_view \<Rightarrow> rtc_state \<Rightarrow> bool" where
  "backed_up w st \<longleftrightarrow>
     w (NVS_NAMESPACE, NVS_KEY_BOOT_COUNT) = Some (VU32 (rs_bootCount st)) \<and>
     w (NVS_NAMESPACE, NVS_KEY_EVENT_ID) = Some (VU32 (rs_globalEventId st)) \<and>
     w (NVS_NAMESPACE, NVS_KEY_HEAD) = Some (VU16 (rs_head st)) \<and>
     w (NVS_NAMESPACE, NVS_KEY_TAIL) = Some (VU16 (rs_tail st)) \<and>
     w (NVS_NAMESPACE, NVS_KEY_EVENTS) = Some (VBlob (enc_events (rs_buffer st)))"

definition flush_permitted :: "flush_env \<Rightarrow> bool" where
  "flush_permitted env \<longleftrightarrow>
     (fe_batteryCritical env \<longrightarrow> fe_charging env) \<and> \<not> fe_pairing env \<and> fe_lock env"

lemma nvs_keys_distinct [simp]:
  "NVS_KEY_BOOT_COUNT \<noteq> NVS_KEY_EVENT_ID" "NVS_KEY_BOOT_COUNT \<noteq> NVS_KEY_HEAD"
  "NVS_KEY_BOOT_COUNT \<noteq> NVS_KEY_TAIL" "NVS_KEY_BOOT_COUNT \<noteq> NVS_KEY_EVENTS"
  "NVS_KEY_EVENT_ID \<noteq> NVS_KEY_HEAD" "NVS_KEY_EVENT_ID \<noteq> NVS_KEY_TAIL"
  "NVS_KEY_EVENT_ID \<noteq> NVS_KEY_EVENTS" "NVS_KEY_HEAD \<noteq> NVS_KEY_TAIL"
  "NVS_KEY_HEAD \<noteq> NVS_KEY_EVENTS" "NVS_KEY_TAIL \<noteq> NVS_KEY_EVENTS"
  by (simp_all add: nvs_key_defs)

lemma put_retry_reliable:
  assumes "prefs_reliable api view" "bs \<noteq> []"
  shows "put_retry api ns k bs (Suc m) w n = p_putBytes api n ns k bs"
  using prefs_reliableD(5) [OF assms, of n ns k] by (auto simp: Let_def split_def prod_eq_iff)

lemma flush_backup:
  assumes api: "prefs_reliable api view" and h: "h_ready h" and env: "flush_permitted env"
    and ne: "rs_buffer (h_state h) \<noteq> []"
  shows "backed_up (view (snd (snd (flushToNvs api env h n)))) (h_state h)"
proof -
  let ?st = "h_state h"
  let ?blob = "enc_events (rs_buffer ?st)"
  have blob: "?blob \<noteq> []" using ne by (metis length_enc_events length_greater_0_conv mult_pos_pos zero_less_numeral)
  define n1 where "n1 = snd (p_putULong api n NVS_NAMESPACE NVS_KEY_BOOT_COUNT (rs_bootCount ?st))"
  define n2 where "n2 = snd (p_putULong api n1 NVS_NAMESPACE NVS_KEY_EVENT_ID (rs_globalEventId ?st))"
  define n3 where "n3 = snd (p_putUShort api n2 NVS_NAMESPACE NVS_KEY_HEAD (rs_head ?st))"
  define n4 where "n4 = snd (p_putUShort api n3 NVS_NAMESPACE NVS_KEY_TAIL (rs_tail ?st))"
  define n5 where "n5 = snd (p_putBytes api n4 NVS_NAMESPACE NVS_KEY_EVENTS ?blob)"
  have e: "(fe_batteryCritical env \<and> \<not> fe_charging env) = False" "\<not> fe_pairing env" "fe_lock env"
    using env by (auto simp: flush_permitted_def)
  have "snd (snd (flushToNvs api env h n)) = n5"
    using h put_retry_reliable [OF api blob, of _ _ 2] prefs_reliableD(2) [OF api]
    by (simp add: flushToNvs_def h_ready_def e Let_def split_def
        n1_def n2_def n3_def n4_def n5_def numeral_3_eq_3 numeral_2_eq_2 del: put_retry.simps)
  moreover have "view n5 = (view n)((NVS_NAMESPACE, NVS_KEY_BOOT_COUNT) \<mapsto> VU32 (rs_bootCount ?st),
      (NVS_NAMESPACE, NVS_KEY_EVENT_ID) \<mapsto> VU32 (rs_globalEventId ?st),
      (NVS_NAMESPACE, NVS_KEY_HEAD) \<mapsto> VU16 (rs_head ?st),
      (NVS_NAMESPACE, NVS_KEY_TAIL) \<mapsto> VU16 (rs_tail ?st),
      (NVS_NAMESPACE, NVS_KEY_EVENTS) \<mapsto> VBlob ?blob)"
    using prefs_reliableD(5) [OF api blob]
    by (simp add: n1_def n2_def n3_def n4_def n5_def prefs_reliableD(3,4) [OF api])
  ultimately show ?thesis by (simp add: backed_up_def)
qed

text \<open>What a restore reads is what the backup holds.\<close>

lemma restore_backup:
  assumes api: "prefs_ok api view" and b: "p_begin api n NVS_NAMESPACE True"
    and bk: "backed_up (view n) st" and ok: "rtc_ok c st" and h: "h_stateMutex h"
  obtains st' where
    "restoreFromNvs c api junk True h n = (ucast (getEventCount c st),
       h\<lparr>h_state := st', h_lastNvsFlushId := rs_globalEventId st, h_eventsSinceFlush := 0\<rparr>)"
    "rtc_valid c st'" "stored c st' = stored c st" "rs_bootCount st' = rs_bootCount st"
    "rs_globalEventId st' = rs_globalEventId st"
proof -
  note d = prefs_okD [OF api]
  have len: "length (rs_buffer st) = BUFFER_SIZE c" using ok by (rule rtc_okD)
  have dec: "dec_events (BUFFER_SIZE c) (enc_events (rs_buffer st) @ xs) = rs_buffer st" for xs
  proof -
    have app: "chunks 24 (length es) (enc_events es @ xs) = map enc_event es" for es
      by (induction es) (simp_all add: enc_events_def)
    show ?thesis using app [of "rs_buffer st"] by (simp add: dec_events_def len comp_def)
  qed
  let ?st = "updateCRC ((h_state h)\<lparr>rs_bootCount := rs_bootCount st,
      rs_globalEventId := rs_globalEventId st, rs_head := rs_head st, rs_tail := rs_tail st,
      rs_buffer := rs_buffer st, rs_magicNumber := RTC_MAGIC_NUMBER c\<rparr>)"
  have "restoreFromNvs c api junk True h n = (ucast (getEventCount c st),
       h\<lparr>h_state := ?st, h_lastNvsFlushId := rs_globalEventId st, h_eventsSinceFlush := 0\<rparr>)"
    using b bk h by (simp add: restoreFromNvs_def Let_def d backed_up_def len dec getEventCount_def)
  moreover have "rtc_valid c ?st" using ok by (simp add: rtc_valid_def rtc_ok_def)
  moreover have "stored c ?st = stored c st" by (simp add: stored_def)
  ultimately show thesis by (intro that [of ?st]) simp_all
qed

text \<open>Without a backup, a restore changes nothing and reports zero events.\<close>

lemma restore_nothing:
  assumes "prefs_ok api view" "view n (NVS_NAMESPACE, NVS_KEY_EVENT_ID) = None"
  shows "restoreFromNvs c api junk lock h n = (0, h)"
  using prefs_okD(1) [OF assms(1)] assms(2) by (simp add: restoreFromNvs_def)

lemma resetState_valid:
  assumes "2 \<le> BUFFER_SIZE c" "BUFFER_SIZE c \<le> 65536"
  shows "rtc_ok c (resetState c)" "validateState c (resetState c)" "stored c (resetState c) = []"
  using assms by (simp_all add: resetState_def rtc_ok_def stored_def)

section \<open>What a boot makes of RTC memory and backup\<close>

text \<open>The state after the creation of the missing primitives.\<close>

definition init_primitives :: "init_env \<Rightarrow> history \<Rightarrow> history" where
  "init_primitives env h =
     (let h = (if \<not> h_stateMutex h then h\<lparr>h_stateMutex := ie_mutexOk env\<rparr> else h)
      in if h_storageQueue h = None
         then h\<lparr>h_storageQueue := if ie_queueOk env then Some [] else None\<rparr> else h)"

definition cold_boot :: "history_cfg \<Rightarrow> init_env \<Rightarrow> rtc_state \<Rightarrow> bool" where
  "cold_boot c env st \<longleftrightarrow> ie_resetReason env = ESP_RST_POWERON \<or>
     ie_resetReason env = ESP_RST_BROWNOUT \<or> rs_magicNumber st \<noteq> RTC_MAGIC_NUMBER c"

lemma init_primitives_state [simp]: "h_state (init_primitives env h) = h_state h"
  by (simp add: init_primitives_def Let_def)

lemma init_primitives_mutex [simp]:
  "h_stateMutex (init_primitives env h) \<longleftrightarrow> h_stateMutex h \<or> ie_mutexOk env"
  by (simp add: init_primitives_def Let_def)

text \<open>
  Every boot continues the RTC state, or takes the backup and counts the boot, or starts a
  first session: the three equations below.
\<close>

lemma init_state:
  "h_state (history_init c api junk env h n) =
     updateCRC (if \<not> cold_boot c env (h_state h) \<and> validateState c (h_state h) then h_state h
       else let (k, h1) = restoreFromNvs c api junk (ie_lock env) (init_primitives env h) n
         in if k > 0 then (h_state h1)\<lparr>rs_bootCount := rs_bootCount (h_state h1) + 1\<rparr>
            else (resetState c)\<lparr>rs_bootCount := 1\<rparr>)"
  by (simp add: history_init_def cold_boot_def init_primitives_def Let_def split_def)

lemma restore_mutex [simp]:
  "h_stateMutex (snd (restoreFromNvs c api junk lock h n)) = h_stateMutex h"
  by (simp add: restoreFromNvs_def Let_def)

lemma init_ready:
  "h_ready (history_init c api junk env h n) \<longleftrightarrow> h_stateMutex h \<or> ie_mutexOk env"
  by (simp add: history_init_def h_ready_def Let_def split_def)

text \<open>A backup is sane if its indices address the buffer.\<close>

definition backup_sane :: "history_cfg \<Rightarrow> 'n prefs_api \<Rightarrow> 'n \<Rightarrow> bool" where
  "backup_sane c api n \<longleftrightarrow>
     unat (p_getUShort api n NVS_NAMESPACE NVS_KEY_HEAD 0) < BUFFER_SIZE c \<and>
     unat (p_getUShort api n NVS_NAMESPACE NVS_KEY_TAIL 0) < BUFFER_SIZE c"

lemma restore_ok:
  assumes "2 \<le> BUFFER_SIZE c" "BUFFER_SIZE c \<le> 65536" "backup_sane c api n"
    "fst (restoreFromNvs c api junk lock h n) > 0"
  shows "rtc_valid c (h_state (snd (restoreFromNvs c api junk lock h n)))"
  using assms
  by (auto simp: restoreFromNvs_def Let_def backup_sane_def rtc_valid_def rtc_ok_def split: if_splits)

lemma init_valid_lemma:
  assumes n: "2 \<le> BUFFER_SIZE c" "BUFFER_SIZE c \<le> 65536"
    and sane: "backup_sane c api n"
    and warm: "\<not> cold_boot c env (h_state h) \<Longrightarrow> validateState c (h_state h) \<Longrightarrow> rtc_ok c (h_state h)"
  shows "rtc_valid c (h_state (history_init c api junk env h n))"
proof (cases "\<not> cold_boot c env (h_state h) \<and> validateState c (h_state h)")
  case True
  then have "rtc_ok c (h_state h)" using warm by simp
  with True show ?thesis by (simp add: init_state rtc_valid_def cold_boot_def)
next
  case False
  let ?r = "restoreFromNvs c api junk (ie_lock env) (init_primitives env h) n"
  show ?thesis
  proof (cases "fst ?r > 0")
    case True
    then have v: "rtc_valid c (h_state (snd ?r))" using n sane by (intro restore_ok)
    then show ?thesis
      using False True rtc_valid_magic [OF v]
      by (auto simp: init_state Let_def split_def rtc_valid_def rtc_ok_def)
  next
    case zero: False
    then show ?thesis
      using False n by (auto simp: init_state Let_def split_def rtc_valid_def rtc_ok_def resetState_def)
  qed
qed

section \<open>Properties\<close>

text \<open>
  After \<open>init\<close>, whatever the reset reason and whatever the RTC memory held, the log is
  valid and usable: its checksum passes, its indices address the buffer. What the code
  relies on is that the indices of a backup are in range, and those of an RTC state
  that passes validation; neither is checked by the code.
\<close>

theorem init_establishes_invariant:
  assumes "2 \<le> BUFFER_SIZE c" "BUFFER_SIZE c \<le> 65536" "backup_sane c api n"
    "\<not> cold_boot c env (h_state h) \<Longrightarrow> validateState c (h_state h) \<Longrightarrow> rtc_ok c (h_state h)"
    "h_stateMutex h \<or> ie_mutexOk env"
  shows "h_valid c (history_init c api junk env h n)"
  using init_valid_lemma [OF assms(1-4)] assms(5) by (simp add: h_valid_def init_ready)

definition demo_init_env :: init_env where
  "demo_init_env = \<lparr>ie_resetReason = ESP_RST_POWERON, ie_mutexOk = True, ie_queueOk = True,
     ie_taskOk = True, ie_lock = True\<rparr>"

definition demo_garbage :: history where
  "demo_garbage = history_new False True (demo_state\<lparr>rs_magicNumber := 0xFFFFFFFF, rs_head := 99\<rparr>)"

lemma demo_cfg_bounds [simp]: "BUFFER_SIZE demo_cfg = 4" "RTC_MAGIC_NUMBER demo_cfg = 0x48495354"
  "NVS_FLUSH_THRESHOLD demo_cfg = 50"
  by (simp_all add: demo_cfg_def)

theorem init_establishes_invariant_witness:
  "h_valid demo_cfg (history_init demo_cfg map_prefs [] demo_init_env demo_garbage Map.empty)"
  by (rule init_establishes_invariant)
    (simp_all add: backup_sane_def map_prefs_def demo_init_env_def cold_boot_def)

text \<open>
  A wake from deep sleep with an intact RTC state continues the session: the log, the
  boot count and the event counter are what they were.
\<close>

theorem warm_boot_continues:
  assumes "rtc_valid c (h_state h)" "ie_resetReason env \<noteq> ESP_RST_POWERON"
    "ie_resetReason env \<noteq> ESP_RST_BROWNOUT"
  shows "h_state (history_init c api junk env h n) = h_state h"
proof -
  have "rs_crc32 (h_state h) = calculateBufferCRC (h_state h)"
    using assms(1) by (simp add: rtc_valid_def validateState_def split: if_splits)
  then have "updateCRC (h_state h) = h_state h" by (simp add: updateCRC_def)
  moreover have "\<not> cold_boot c env (h_state h)"
    using assms rtc_valid_magic [OF assms(1)] by (simp add: cold_boot_def)
  ultimately show ?thesis using assms(1) by (simp add: init_state rtc_valid_def)
qed

theorem warm_boot_continues_witness:
  "h_state (history_init demo_cfg map_prefs [] (demo_init_env\<lparr>ie_resetReason := ESP_RST_DEEPSLEEP\<rparr>)
     (history_new True True demo_state) Map.empty) = demo_state"
  by (subst warm_boot_continues) (simp_all add: history_new_def)

text \<open>A power-on over a backup of a log that is not empty continues that log.\<close>

lemma recover_backup:
  assumes api: "prefs_reliable api view" and h: "h_valid c h" and bk: "backed_up (view n') (h_state h)"
    and boot: "ie_resetReason ienv = ESP_RST_POWERON" "ie_lock ienv" "h_stateMutex h0 \<or> ie_mutexOk ienv"
    and some: "length (h_stored c h) mod 256 \<noteq> 0"
    and h': "h' = history_init c api junk ienv h0 n'"
  shows "h_valid c h' \<and> h_stored c h' = h_stored c h \<and>
    rs_globalEventId (h_state h') = rs_globalEventId (h_state h) \<and>
    rs_bootCount (h_state h') = rs_bootCount (h_state h) + 1"
proof -
  note v = h_validD [OF h]
  let ?h0 = "init_primitives ienv h0"
  have mutex: "h_stateMutex ?h0" using boot(3) by simp
  obtain st' where r: "restoreFromNvs c api junk True ?h0 n' = (ucast (getEventCount c (h_state h)),
       ?h0\<lparr>h_state := st', h_lastNvsFlushId := rs_globalEventId (h_state h), h_eventsSinceFlush := 0\<rparr>)"
    "rtc_valid c st'" "stored c st' = h_stored c h" "rs_bootCount st' = rs_bootCount (h_state h)"
    "rs_globalEventId st' = rs_globalEventId (h_state h)"
    by (rule restore_backup
      [OF prefs_reliableD(1) [OF api] prefs_reliableD(2) [OF api] bk v(3) mutex])
  have "unat (ucast (getEventCount c (h_state h)) :: u8) = length (h_stored c h) mod 256"
    by (simp add: unat_ucast_mod getEventCount_stored [OF v(3)])
  then have pos: "(ucast (getEventCount c (h_state h)) :: u8) > 0"
    using some by (simp add: word_gt_0 word_unat_eq_iff)
  have st: "h_state h' = updateCRC (st'\<lparr>rs_bootCount := rs_bootCount st' + 1\<rparr>)"
    using boot(1,2) pos r(1) by (simp add: h' init_state cold_boot_def Let_def)
  have "rtc_valid c (h_state h')" "stored c (h_state h') = stored c st'"
    using r(2) rtc_valid_magic [OF r(2)] by (simp_all add: st rtc_valid_def rtc_ok_def stored_def)
  then show ?thesis
    using boot(3) r by (simp add: h_valid_def st) (simp add: h' init_ready)
qed

text \<open>
  C9: power-loss recovery. If a flush went through before the power was lost, the next
  power-on finds in RTC memory whatever is there, takes the backup, and ends with the same
  events, the same event counter and the next boot count. (The number of events, cut to a
  byte, must not be zero.)
\<close>

theorem power_loss_recovery:
  assumes api: "prefs_reliable api view" and h: "h_valid c h" and env: "flush_permitted env"
    and boot: "ie_resetReason ienv = ESP_RST_POWERON" "ie_lock ienv" "h_stateMutex h0 \<or> ie_mutexOk ienv"
    and some: "length (h_stored c h) mod 256 \<noteq> 0"
    and n': "n' = snd (snd (flushToNvs api env h n))"
    and h': "h' = history_init c api junk ienv h0 n'"
  shows "h_valid c h' \<and> h_stored c h' = h_stored c h \<and>
    rs_globalEventId (h_state h') = rs_globalEventId (h_state h) \<and>
    rs_bootCount (h_state h') = rs_bootCount (h_state h) + 1"
proof -
  note v = h_validD [OF h]
  have "rs_buffer (h_state h) \<noteq> []" using rtc_okD(2,4) [OF v(3)] by auto
  then have "backed_up (view n') (h_state h)"
    unfolding n' by (rule flush_backup [OF api v(1) env])
  then show ?thesis by (rule recover_backup [OF api h _ boot some h'])
qed

definition demo_flush_env :: flush_env where
  "demo_flush_env = \<lparr>fe_batteryCritical = False, fe_charging = False, fe_pairing = False,
     fe_lock = True\<rparr>"

theorem power_loss_recovery_witness:
  "\<exists>h'. h' = history_init demo_cfg map_prefs [] demo_init_env demo_garbage
      (snd (snd (flushToNvs map_prefs demo_flush_env demo_history Map.empty))) \<and>
    h_valid demo_cfg h' \<and> h_stored demo_cfg h' = [demo_event1, demo_event2] \<and>
    rs_globalEventId (h_state h') = 7 \<and> rs_bootCount (h_state h') = 4"
  using power_loss_recovery [OF map_prefs_reliable demo_valid, of demo_flush_env demo_init_env
      demo_garbage _ Map.empty _ "[]", OF _ _ _ _ _ refl refl]
  by (simp add: demo_flush_env_def flush_permitted_def demo_init_env_def)

text \<open>
  A cold boot whose backup holds no stored event starts over: whatever event counter
  and boot count the backup carries (\<open>fastForwardEventId\<close> persists the counter exactly for
  this case) are discarded, the counter is 0 and the boot count 1.
\<close>

theorem empty_backup_discards_counter:
  assumes "prefs_reliable api view" "backed_up (view n) st" "rtc_ok c st" "stored c st = []"
    "ie_resetReason env = ESP_RST_POWERON" "h_stateMutex h \<or> ie_mutexOk env" "ie_lock env"
  shows "rs_globalEventId (h_state (history_init c api junk env h n)) = 0 \<and>
    rs_bootCount (h_state (history_init c api junk env h n)) = 1"
proof -
  have mutex: "h_stateMutex (init_primitives env h)" using assms(6) by simp
  obtain st' where r: "restoreFromNvs c api junk True (init_primitives env h) n =
      (ucast (getEventCount c st), (init_primitives env h)\<lparr>h_state := st',
         h_lastNvsFlushId := rs_globalEventId st, h_eventsSinceFlush := 0\<rparr>)"
    by (rule restore_backup [OF prefs_reliableD(1) [OF assms(1)] prefs_reliableD(2) [OF assms(1)]
          assms(2,3) mutex])
  have "getEventCount c st = 0"
    using getEventCount_stored [OF assms(3)] assms(4) by (simp add: word_unat_eq_iff)
  then show ?thesis
    using r assms(5,7) by (simp add: init_state cold_boot_def Let_def resetState_def)
qed

definition demo_empty :: rtc_state where
  "demo_empty = (resetState demo_cfg)\<lparr>rs_globalEventId := 42, rs_bootCount := 9\<rparr>"

definition demo_flash :: nvs_view where
  "demo_flash = Map.empty(
     (NVS_NAMESPACE, NVS_KEY_BOOT_COUNT) \<mapsto> VU32 9, (NVS_NAMESPACE, NVS_KEY_EVENT_ID) \<mapsto> VU32 42,
     (NVS_NAMESPACE, NVS_KEY_HEAD) \<mapsto> VU16 0, (NVS_NAMESPACE, NVS_KEY_TAIL) \<mapsto> VU16 0,
     (NVS_NAMESPACE, NVS_KEY_EVENTS) \<mapsto> VBlob (enc_events (rs_buffer demo_empty)))"

theorem empty_backup_discards_counter_witness:
  "rs_globalEventId (h_state (history_init demo_cfg map_prefs [] demo_init_env demo_garbage
      demo_flash)) = 0 \<and>
   rs_bootCount (h_state (history_init demo_cfg map_prefs [] demo_init_env demo_garbage
      demo_flash)) = 1"
  by (rule empty_backup_discards_counter [OF map_prefs_reliable, where st = demo_empty])
    (simp_all add: backed_up_def demo_flash_def demo_empty_def resetState_def rtc_ok_def stored_def
      demo_init_env_def)

text \<open>
  \<open>flushToNvs\<close> never reports success. The accumulation \<open>success &= prefs.putULong(...)\<close> is
  a bitwise and with a byte count of 4 or 2, so the flag is false after the first write even
  when every write went through and the backup is complete.
\<close>

theorem flush_reports_failure:
  assumes "prefs_reliable api view" "h_ready h" "flush_permitted env" "rs_buffer (h_state h) \<noteq> []"
  shows "\<not> fst (flushToNvs api env h n) \<and>
    backed_up (view (snd (snd (flushToNvs api env h n)))) (h_state h)"
proof -
  note ok = prefs_reliableD(1) [OF assms(1)]
  have "even (fst (p_putULong api m ns k x))" for m ns k x
    using prefs_okD(2) [OF ok, of m ns k x] by (auto simp: put_ok_def)
  then have "\<not> fst (flushToNvs api env h n)"
    by (simp add: flushToNvs_def Let_def split_def and_assign_iff)
  then show ?thesis using flush_backup [OF assms] by simp
qed

theorem flush_reports_failure_witness:
  "\<not> fst (flushToNvs map_prefs demo_flush_env demo_history Map.empty) \<and>
   backed_up (snd (snd (flushToNvs map_prefs demo_flush_env demo_history Map.empty))) demo_state"
  using flush_reports_failure [OF map_prefs_reliable, of demo_history demo_flush_env Map.empty]
    h_validD(1) [OF demo_valid]
  by (simp add: demo_flush_env_def flush_permitted_def)

text \<open>
  A time sync gives a timestamp to exactly the stored events of this boot that have
  none, and to no other; it changes no other field, no identifier and no counter, keeps the
  log valid and passes the received epoch to \<open>settimeofday\<close>.
\<close>

theorem applyTimeSync_backfills:
  assumes "h_valid c h" "te_lock env"
  shows "\<exists>us h'. applyTimeSync c epoch env h = Some (Some (epoch, us), h') \<and> h_valid c h' \<and>
    h_timeSyncReceived h' \<and>
    h_stored c h' = map (\<lambda>e. if ev_bootCount e = rs_bootCount (h_state h) \<and> ev_timestamp e = 0
        then e\<lparr>ev_timestamp := backfill_timestamp epoch (te_uptime env) e\<rparr> else e) (h_stored c h) \<and>
    rs_globalEventId (h_state h') = rs_globalEventId (h_state h)"
proof (rule applyTimeSync_stored [OF assms, of epoch])
  fix tv h'
  assume "applyTimeSync c epoch env h = Some (Some tv, h')" "fst tv = epoch"
    "h_valid c h'" "h_timeSyncReceived h'"
    "h_stored c h' = map (backfill_event (rs_bootCount (h_state h)) epoch (te_uptime env)) (h_stored c h)"
    "rs_globalEventId (h_state h') = rs_globalEventId (h_state h)"
  then show ?thesis
    by (intro exI [of _ "snd tv"] exI [of _ h'])
      (auto simp: backfill_event_def needs_backfill_def prod_eq_iff)
qed

definition demo_time_env :: time_env where
  "demo_time_env = \<lparr>te_millis = 60000, te_uptime = 60000, te_lock = True, te_qsend = True\<rparr>"

theorem applyTimeSync_backfills_witness:
  "\<exists>us h'. applyTimeSync demo_cfg 1700000060 demo_time_env demo_history =
      Some (Some (1700000060, us), h') \<and> h_valid demo_cfg h' \<and> h_timeSyncReceived h' \<and>
    h_stored demo_cfg h' = [demo_event1, demo_event2\<lparr>ev_timestamp := 1700000005\<rparr>] \<and>
    rs_globalEventId (h_state h') = 7"
  using applyTimeSync_backfills [OF demo_valid, of demo_time_env 1700000060]
  by (simp add: demo_time_env_def demo_event1_def demo_event2_def backfill_timestamp_def Let_def)

text \<open>
  The timestamp given to an event that happened before the sync is never in the future:
  computed in 32 bits without wrap-around, it is the epoch of the boot plus the event's
  uptime, between the boot and the received epoch.
\<close>

theorem backfill_timestamp_bounds:
  assumes "ev_timestampMs e \<le> uptime" "uptime div 1000 \<le> epoch"
  shows "unat (backfill_timestamp epoch uptime e) =
      unat epoch - unat uptime div 1000 + unat (ev_timestampMs e) div 1000 \<and>
    backfill_timestamp epoch uptime e \<le> epoch"
proof -
  have up: "unat uptime div 1000 \<le> unat epoch"
    using assms(2) by (simp add: word_le_nat_alt unat_div)
  have ev: "unat (ev_timestampMs e) div 1000 \<le> unat uptime div 1000"
    using assms(1) by (simp add: word_le_nat_alt div_le_mono)
  have sub: "unat (epoch - uptime div 1000) = unat epoch - unat uptime div 1000"
    using assms(2) by (simp add: unat_sub unat_div)
  have eq: "backfill_timestamp epoch uptime e = (epoch - uptime div 1000) + ev_timestampMs e div 1000"
    using assms(2) by (simp add: backfill_timestamp_def Let_def)
  have lt: "unat (epoch - uptime div 1000) + unat (ev_timestampMs e div 1000) < 2 ^ LENGTH(32)"
  proof -
    have "unat epoch < 2 ^ LENGTH(32)" by (rule unsigned_less)
    moreover have "unat epoch - unat uptime div 1000 + unat (ev_timestampMs e) div 1000 \<le> unat epoch"
      using up ev by linarith
    ultimately show ?thesis by (simp add: sub unat_div)
  qed
  have "unat (backfill_timestamp epoch uptime e) =
      unat epoch - unat uptime div 1000 + unat (ev_timestampMs e) div 1000"
    unfolding eq using unat_plus_less [OF lt] by (simp add: sub unat_div)
  then show ?thesis using up ev by (simp add: word_le_nat_alt)
qed

theorem backfill_timestamp_bounds_witness:
  "unat (backfill_timestamp 1700000060 60000 demo_event2) = 1700000005 \<and>
   backfill_timestamp 1700000060 60000 demo_event2 \<le> 1700000060"
  using backfill_timestamp_bounds [of demo_event2 60000 1700000060]
  by (simp add: demo_event2_def)

end
