(* ===== verification/Fw_HistoryRun.thy ===== *)
theory Fw_HistoryRun
  imports Fw_HistoryNvs
begin

text \<open>
  The history service as a state machine: the calls that the tasks of the firmware make, in
  any order and with any outcome of the locks, the queue and the clocks, as the step
  relation \<open>hist_step\<close> on the service and the flash. Its invariant is that the log is
  valid, that its identifiers are strictly increasing and not above the event counter, and
  that the storage queue holds flush requests only.
\<close>

definition flush_only :: "history \<Rightarrow> bool" where
  "flush_only h \<longleftrightarrow> (case h_storageQueue h of None \<Rightarrow> True
     | Some q \<Rightarrow> \<forall>m\<in>set q. sm_cmd m = SAVE_HIT \<or> sm_cmd m = FORCE_FLUSH)"

definition hist_inv :: "history_cfg \<Rightarrow> history \<Rightarrow> bool" where
  "hist_inv c h \<longleftrightarrow> h_valid c h \<and> ids_ok c (h_state h) \<and> flush_only h"

text \<open>
  The event counter is a 32-bit word; \<open>S_log\<close> is for a counter that is not exhausted. The
  bulk acknowledgement passes its count as a byte.
\<close>

inductive hist_step :: "history_cfg \<Rightarrow> 'n prefs_api \<Rightarrow> history \<times> 'n \<Rightarrow> history \<times> 'n \<Rightarrow> bool"
  for c api where
  S_log: "rs_globalEventId (h_state h) < - 1 \<Longrightarrow> logDetection c dur env h = Some (i, ep, h') \<Longrightarrow>
    hist_step c api (h, n) (h', n)"
| S_mark: "markAsSynced c i lock h = Some (b, h') \<Longrightarrow> hist_step c api (h, n) (h', n)"
| S_marks: "length ids < 256 \<Longrightarrow> markMultipleAsSynced c ids lock h = Some (k, h') \<Longrightarrow>
    hist_step c api (h, n) (h', n)"
| S_time: "applyTimeSync c epoch tenv h = Some (tv, h') \<Longrightarrow> hist_step c api (h, n) (h', n)"
| S_ble: "hist_step c api (h, n) (setBleConnected c connected ms qsend h, n)"
| S_forward: "hist_step c api (h, n) (fastForwardEventId c api newId lock qsend fenv h n)"
| S_flush: "hist_step c api (h, n) (forceNvsSync api fenv h n)"
| S_worker: "hist_step c api (h, n) (storageWorker_step c api junk fenv still h n)"
| S_stop: "hist_step c api (h, n) (stopStorageWorker c api junk fenv h n)"
| S_clear: "hist_step c api (h, n) (clear lock h, n)"
| S_clearNvs: "hist_step c api (h, n) (h, clearNvs api n)"

inductive_cases hist_stepE: "hist_step c api (h, n) (h', n')"

section \<open>Every operation keeps the invariant\<close>

lemma hist_invD:
  assumes "hist_inv c h"
  shows "h_valid c h" "ids_ok c (h_state h)" "flush_only h" "h_ready h" "rtc_ok c (h_state h)"
  using assms h_validD [of c h] by (simp_all add: hist_inv_def)

lemma flush_only_simps [simp]:
  "flush_only (h\<lparr>h_state := st\<rparr>) = flush_only h"
  "flush_only (h\<lparr>h_flushPending := b\<rparr>) = flush_only h"
  "flush_only (h\<lparr>h_timeSyncReceived := b\<rparr>) = flush_only h"
  "flush_only (h\<lparr>h_eventsSinceFlush := k\<rparr>) = flush_only h"
  "flush_only (h\<lparr>h_lastNvsFlushId := i\<rparr>) = flush_only h"
  "flush_only (h\<lparr>h_bleConnected := b\<rparr>) = flush_only h"
  "flush_only (h\<lparr>h_connectionStart := t\<rparr>) = flush_only h"
  "flush_only (h\<lparr>h_workerRunning := b\<rparr>) = flush_only h"
  "flush_only (h\<lparr>h_storageTask := b\<rparr>) = flush_only h"
  by (simp_all add: flush_only_def)

lemma flush_only_queue [simp]:
  "flush_only h \<Longrightarrow> cmd = SAVE_HIT \<or> cmd = FORCE_FLUSH \<Longrightarrow>
   flush_only (snd (queueStorageCommand cmd i q h))"
  by (auto simp: queueStorageCommand_def flush_only_def split: option.split)

lemma flush_only_queueFlush [simp]: "flush_only h \<Longrightarrow> flush_only (queueFlush i q h)"
  by (simp add: queueFlush_def split_def Let_def)

lemma flush_only_flush [simp]: "flush_only (fst (snd (flushToNvs api env h n))) = flush_only h"
  by (simp add: flushToNvs_def Let_def split_def)

text \<open>The invariant depends on these parts of the state only.\<close>

lemma hist_inv_cong:
  "h_state h' = h_state h \<Longrightarrow> h_initialized h' = h_initialized h \<Longrightarrow>
   h_stateMutex h' = h_stateMutex h \<Longrightarrow> flush_only h' \<Longrightarrow> hist_inv c h \<Longrightarrow> hist_inv c h'"
  by (simp add: hist_inv_def h_valid_def h_ready_def)

lemma inv_log:
  assumes inv: "hist_inv c h" and g: "rs_globalEventId (h_state h) < - 1"
    and run: "logDetection c dur env h = Some (i, ep, h')"
  shows "hist_inv c h'"
proof (cases "le_lock env")
  case False
  then show ?thesis using inv run hist_invD(4) [OF inv] by (simp add: logDetection_def h_ready_def)
next
  case True
  have "flush_only h'"
    using run hist_invD(3) [OF inv] by (auto simp: logDetection_def Let_def split: if_splits option.splits)
  moreover have "h_valid c h' \<and> ids_ok c (h_state h')"
  proof (rule logDetection_stored [OF hist_invD(1) [OF inv] True, of dur])
    fix ep' h''
    assume l: "logDetection c dur env h = Some (rs_globalEventId (h_state h) + 1, ep', h'')"
      "h_valid c h''"
      "h_stored c h'' = log_spec c (new_event (rs_globalEventId (h_state h) + 1)
         (rs_bootCount (h_state h)) (le_uptime env) (le_epoch env) dur) (h_stored c h)"
      "rs_globalEventId (h_state h'') = rs_globalEventId (h_state h) + 1"
    then show ?thesis using run ids_ok_log [OF hist_invD(2) [OF inv] g l(3,4)] by simp
  qed
  ultimately show ?thesis by (simp add: hist_inv_def)
qed

lemma inv_mark:
  assumes inv: "hist_inv c h" and run: "markAsSynced c i lock h = Some (b, h')"
  shows "hist_inv c h'"
proof (cases lock)
  case False
  then show ?thesis using inv run hist_invD(4) [OF inv] by (simp add: markAsSynced_def h_ready_def)
next
  case True
  obtain st' where m: "markAsSynced c i True h =
      Some (i \<in> ev_id ` set (h_stored c h), h\<lparr>h_state := st'\<rparr>)" "rtc_valid c st'"
    "stored c st' = mark_spec i (h_stored c h)"
    "rs_globalEventId st' = rs_globalEventId (h_state h)"
    by (rule markAsSynced_stored [OF hist_invD(1) [OF inv]])
  then have "h' = h\<lparr>h_state := st'\<rparr>" using run True by simp
  then show ?thesis
    using inv m ids_ok_mark [OF hist_invD(2) [OF inv] m(3,4)]
    by (simp add: hist_inv_def h_valid_def h_ready_def)
qed

lemma inv_marks:
  assumes inv: "hist_inv c h" and len: "length ids < 256"
    and run: "markMultipleAsSynced c ids lock h = Some (k, h')"
  shows "hist_inv c h'"
proof (cases lock)
  case False
  then show ?thesis
    using inv run hist_invD(4) [OF inv] by (simp add: markMultipleAsSynced_def h_ready_def split: if_splits)
next
  case True
  obtain m st' where m: "markMultipleAsSynced c ids True h = Some (m, h\<lparr>h_state := st'\<rparr>)"
    "rtc_valid c st'" "stored c st' = fold mark_spec ids (h_stored c h)"
    "rs_globalEventId st' = rs_globalEventId (h_state h)"
    by (rule markMultiple_stored [OF hist_invD(1) [OF inv] len])
  then have "h' = h\<lparr>h_state := st'\<rparr>" using run True by simp
  moreover have "ids_ok c st'"
    using hist_invD(2) [OF inv] by (rule ids_ok_keep) (simp_all add: m)
  ultimately show ?thesis using inv m by (simp add: hist_inv_def h_valid_def h_ready_def)
qed

lemma inv_time:
  assumes inv: "hist_inv c h" and run: "applyTimeSync c epoch env h = Some (tv, h')"
  shows "hist_inv c h'"
proof (cases "te_lock env")
  case False
  then have "h' = h\<lparr>h_timeSyncReceived := True\<rparr>"
    using run hist_invD(4) [OF inv] by (simp add: applyTimeSync_def h_ready_def Let_def)
  then show ?thesis using inv by (auto intro: hist_inv_cong [OF _ _ _ _ inv] simp: hist_invD)
next
  case True
  have "flush_only h'"
    using run hist_invD(3) [OF inv] by (auto simp: applyTimeSync_def Let_def split: if_splits)
  moreover have "h_valid c h' \<and> ids_ok c (h_state h')"
  proof (rule applyTimeSync_stored [OF hist_invD(1) [OF inv] True, of epoch])
    fix tv' h''
    assume t: "applyTimeSync c epoch env h = Some (Some tv', h'')" "h_valid c h''"
      "h_stored c h'' = map (backfill_event (rs_bootCount (h_state h)) epoch (te_uptime env)) (h_stored c h)"
      "rs_globalEventId (h_state h'') = rs_globalEventId (h_state h)"
    have "ids_ok c (h_state h'')"
      using hist_invD(2) [OF inv]
      by (rule ids_ok_keep) (simp_all add: t(3,4) backfill_event_def comp_def)
    then show ?thesis using run t by simp
  qed
  ultimately show ?thesis by (simp add: hist_inv_def)
qed

lemma inv_ble:
  assumes "hist_inv c h"
  shows "hist_inv c (setBleConnected c connected ms qsend h)"
  using assms by (rule hist_inv_cong [rotated 4])
    (simp_all add: setBleConnected_def Let_def hist_invD [OF assms])

lemma inv_flush:
  assumes "hist_inv c h"
  shows "hist_inv c (fst (snd (flushToNvs api env h n)))"
  using assms by (rule hist_inv_cong [rotated 4]) (simp_all add: hist_invD [OF assms])

lemma inv_forward:
  assumes "hist_inv c h"
  shows "hist_inv c (fst (fastForwardEventId c api newId lock qsend env h n))"
proof -
  note f = fastForward_state [OF hist_invD(1,2) [OF assms], of api newId lock qsend env n]
  have "flush_only (fst (fastForwardEventId c api newId lock qsend env h n))"
    using hist_invD(3) [OF assms] by (simp add: fastForwardEventId_def Let_def split_def)
  then show ?thesis using f(1,2) by (simp add: hist_inv_def)
qed

lemma inv_process:
  assumes inv: "hist_inv c h" and m: "sm_cmd m = SAVE_HIT \<or> sm_cmd m = FORCE_FLUSH"
  shows "hist_inv c (fst (processStorageCommand c api junk env m h n))"
proof -
  have "hist_inv c (fst (snd (flushToNvs api env h n))\<lparr>h_flushPending := False\<rparr>)"
    using inv_flush [OF inv] by (rule hist_inv_cong [rotated 4]) (simp_all add: hist_invD [OF inv])
  then show ?thesis using m by (auto simp: processStorageCommand_def split_def Let_def)
qed

lemma inv_dequeue:
  "hist_inv c h \<Longrightarrow> h_storageQueue h = Some (m # q) \<Longrightarrow>
   hist_inv c (h\<lparr>h_storageQueue := Some q\<rparr>) \<and> (sm_cmd m = SAVE_HIT \<or> sm_cmd m = FORCE_FLUSH)"
  by (auto simp: hist_inv_def flush_only_def h_valid_def h_ready_def)

lemma inv_worker:
  assumes "hist_inv c h"
  shows "hist_inv c (fst (storageWorker_step c api junk env still h n))"
proof (cases "h_storageQueue h")
  case (Some q)
  show ?thesis
  proof (cases q)
    case (Cons m ms)
    note d = inv_dequeue [OF assms, of m ms]
    have "hist_inv c (fst (processStorageCommand c api junk env m (h\<lparr>h_storageQueue := Some ms\<rparr>) n))"
      using d Some Cons by (intro inv_process) simp_all
    then show ?thesis using assms Some Cons by (simp add: storageWorker_step_def)
  qed (use assms Some in \<open>simp add: storageWorker_step_def\<close>)
qed (use assms in \<open>simp add: storageWorker_step_def\<close>)

lemma inv_processAll:
  "hist_inv c h \<Longrightarrow> \<forall>m\<in>set q. sm_cmd m = SAVE_HIT \<or> sm_cmd m = FORCE_FLUSH \<Longrightarrow>
   hist_inv c (fst (processAll c api junk env q h n))"
proof (induction q arbitrary: h n)
  case (Cons m q)
  have "hist_inv c (h\<lparr>h_storageQueue := Some q\<rparr>)"
    using Cons.prems by (auto simp: hist_inv_def flush_only_def h_valid_def h_ready_def)
  then have "hist_inv c (fst (processStorageCommand c api junk env m (h\<lparr>h_storageQueue := Some q\<rparr>) n))"
    using Cons.prems by (intro inv_process) auto
  then show ?case using Cons by (simp add: Let_def split_def)
qed simp

lemma inv_stop:
  assumes inv: "hist_inv c h"
  shows "hist_inv c (fst (stopStorageWorker c api junk env h n))"
proof -
  have 1: "hist_inv c (h\<lparr>h_workerRunning := False\<rparr>)"
    using inv by (rule hist_inv_cong [rotated 4]) (simp_all add: hist_invD [OF inv])
  have task: "hist_inv c h1 \<Longrightarrow> hist_inv c (h1\<lparr>h_storageTask := False\<rparr>)" for h1
    by (rule hist_inv_cong [where h = h1]) (simp_all add: hist_invD)
  have "hist_inv c (fst (processAll c api junk env q (h\<lparr>h_workerRunning := False\<rparr>) n))"
    if "h_storageQueue h = Some q" for q
    using 1 hist_invD(3) [OF inv] that by (intro inv_processAll) (simp_all add: flush_only_def)
  then show ?thesis
    using inv 1 task by (auto simp: stopStorageWorker_def Let_def split_def split: option.split)
qed

lemma inv_clear:
  assumes inv: "hist_inv c h"
  shows "hist_inv c (clear lock h)"
  using inv hist_invD(4,5) [OF inv] rtc_valid_magic [OF h_validD(2) [OF hist_invD(1) [OF inv]]]
  by (simp add: clear_def hist_inv_def h_valid_def h_ready_def rtc_valid_def rtc_ok_def ids_ok_def
      stored_def)

lemmas hist_inv_ops = inv_log inv_mark inv_marks inv_time inv_ble inv_forward inv_flush
  inv_worker inv_stop inv_clear

lemma hist_step_inv:
  assumes "hist_step c api s s'" "hist_inv c (fst s)"
  shows "hist_inv c (fst s')"
  using assms by cases (auto simp: forceNvsSync_def intro: hist_inv_ops)


lemma demo_inv: "hist_inv demo_cfg demo_history"
  using demo_valid by (simp add: hist_inv_def flush_only_def) (simp add: demo_history_def history_new_def)


end
