(* ===== verification/Fw_Clock.thy ===== *)
theory Fw_Clock
  imports Fw_HistoryRun
begin

text \<open>
  The clock behind the uptime (\<open>HAL/HAL_Base.cpp\<close>). \<open>HAL::getSystemUptime\<close> reads the wall clock of the C
  library, which \<open>applyTimeSync\<close> sets just before it reads the uptime. The other theories leave the
  clock to the environment; here both reads come from one clock, and the dates that a time sync
  gives to the events of this boot follow.
\<close>

section \<open>The clock\<close>

text \<open>
  The wall clock is a free-running counter of microseconds plus an offset, which \<open>settimeofday\<close> sets.
  \<open>millis\<close> is the counter itself, in milliseconds.
\<close>

definition gettimeofday :: "int \<Rightarrow> int \<Rightarrow> int \<times> int" where
  "gettimeofday offset t = ((offset + t) div 1000000, (offset + t) mod 1000000)"

definition settimeofday :: "int \<times> int \<Rightarrow> int \<Rightarrow> int" where
  "settimeofday tv t = fst tv * 1000000 + snd tv - t"

definition hw_millis :: "int \<Rightarrow> u32" where
  "hw_millis t = word_of_int (t div 1000)"

definition getSystemUptime :: "int \<times> int \<Rightarrow> u32" where
  "getSystemUptime now = word_of_int (fst now) * 1000 + word_of_int (snd now div 1000)"

lemma uptime_is_counter:
  assumes "0 \<le> t"
  shows "getSystemUptime (gettimeofday 0 t) = hw_millis t"
proof -
  have "t div 1000 = (t mod 1000000 + t div 1000000 * 1000 * 1000) div 1000"
    using mult_div_mod_eq [of 1000000 t] by (simp add: mult.commute)
  then have "t div 1000000 * 1000 + t mod 1000000 div 1000 = t div 1000" by (simp only: div_mult_self1)
  then have "word_of_int (t div 1000000 * 1000 + t mod 1000000 div 1000) = (word_of_int (t div 1000) :: u32)" by simp
  then show ?thesis by (simp add: getSystemUptime_def gettimeofday_def hw_millis_def)
qed

section \<open>The time sync on this clock\<close>

text \<open>
  \<open>t\<close> is the counter when the clock is set, \<open>d\<close> the microseconds until the uptime is read. The result has the new
  offset of the clock.
\<close>

definition timed_sync :: "history_cfg \<Rightarrow> u32 \<Rightarrow> int \<Rightarrow> int \<Rightarrow> bool \<Rightarrow> bool \<Rightarrow> int \<times> history \<Rightarrow>
    (int \<times> history) option" where
  "timed_sync c currentEpoch t d lock qsend = (\<lambda>(offset, h).
     (let set_to = (uint currentEpoch, uint (hw_millis t mod 1000) * 1000);
          new = settimeofday set_to t
      in map_option (\<lambda>(tv, h'). (if tv = None then offset else new, h'))
           (applyTimeSync c currentEpoch \<lparr>te_millis = hw_millis t, te_uptime = getSystemUptime (gettimeofday new (t + d)),
              te_lock = lock, te_qsend = qsend\<rparr> h)))"

lemma uptime_after_sync:
  assumes "0 \<le> k" "k < 1000" "0 \<le> d" "k * 1000 + d < 1000000"
  shows "getSystemUptime (gettimeofday (settimeofday (e, k * 1000) t) (t + d)) = word_of_int (e * 1000 + (k * 1000 + d) div 1000)"
proof -
  have s: "(e * 1000000 + (k * 1000 + d)) div 1000000 = e" "(e * 1000000 + (k * 1000 + d)) mod 1000000 = k * 1000 + d"
    using assms by simp_all
  have sum: "settimeofday (e, k * 1000) t + (t + d) = e * 1000000 + (k * 1000 + d)" by (simp add: settimeofday_def)
  show ?thesis unfolding getSystemUptime_def gettimeofday_def sum s fst_conv snd_conv by simp
qed

lemma backfill_wall_clock:
  assumes "4294968 \<le> epoch" "0 \<le> k"
  shows "backfill_timestamp epoch (word_of_int (uint epoch * 1000 + k)) e =
    epoch - word_of_int ((uint epoch * 1000 + k) mod 2 ^ 32 div 1000) + ev_timestampMs e div 1000"
proof -
  let ?up = "word_of_int (uint epoch * 1000 + k) :: u32"
  have u: "uint (?up div 1000) = (uint epoch * 1000 + k) mod 2 ^ 32 div 1000"
    unfolding uint_div uint_word_of_int by simp
  have "(uint epoch * 1000 + k) mod 2 ^ 32 \<le> 4294967295"
    using pos_mod_bound [of "2 ^ 32" "uint epoch * 1000 + k"] by simp
  then have "uint (?up div 1000) \<le> 4294967" unfolding u using zdiv_mono1 [of _ 4294967295 1000] by fastforce
  moreover have "4294968 \<le> uint epoch" using assms(1) by (simp add: word_le_def)
  ultimately have "?up div 1000 \<le> epoch" by (simp add: word_le_def)
  moreover have "?up div 1000 = word_of_int ((uint epoch * 1000 + k) mod 2 ^ 32 div 1000)"
    using u by (metis word_of_int_uint)
  ultimately show ?thesis by (simp add: backfill_timestamp_def Let_def)
qed



end
