(* ===== verification/Fw_Frame.thy ===== *)
theory Fw_Frame
  imports Fw_Crc
begin

text \<open>
  The frames of the BLE protocol (\<open>src/src/Domain/ProtocolDefs.h\<close>, and \<open>buildFrame\<close> and
  \<open>parseFrame\<close> of \<open>src/src/Services/ProtocolHandler.cpp\<close>): message types and error codes,
  the seven-byte header, the CRC-16 trailer. The lemmas show that parsing inverts building,
  that an accepted frame is the one encoding of its contents, and which corruptions no
  accepted frame can have suffered.
\<close>

section \<open>Message types and error codes\<close>

text \<open>\<open>Unlisted\<close> stands for a byte that is cast to the enumeration without naming a member.\<close>

datatype message_type =
    MSG_HELLO | MSG_HELLO_ACK | MSG_ACK | MSG_NACK | MSG_HEARTBEAT | MSG_PING | MSG_PONG | MSG_SLEEP
  | MSG_DETECTION_EVENT | MSG_BATTERY_STATUS | MSG_DEVICE_STATUS | MSG_SYNC_REQUEST | MSG_SYNC_DATA
  | MSG_SET_CONFIG | MSG_GET_CONFIG | MSG_CONFIG_DATA | MSG_CALIBRATE | MSG_TIME_SYNC
  | MSG_SET_COLORS | MSG_SET_WIFI
  | MSG_OTA_INFO | MSG_OTA_INFO_RESP | MSG_OTA_START | MSG_OTA_DATA | MSG_OTA_DATA_ACK
  | MSG_OTA_COMMIT | MSG_OTA_ABORT | MSG_OTA_STATUS | MSG_ENTER_OTA_MODE
  | MSG_LOG_REQUEST | MSG_LOG_DATA | MSG_FACTORY_RESET | MSG_PAIRING_MODE | MSG_CLEAR_BONDS
  | Unlisted u8

definition listed_types :: "(u8 \<times> message_type) list" where
  "listed_types =
    [(0x00, MSG_HELLO), (0x01, MSG_HELLO_ACK), (0x02, MSG_ACK), (0x03, MSG_NACK),
     (0x04, MSG_HEARTBEAT), (0x05, MSG_PING), (0x06, MSG_PONG), (0x07, MSG_SLEEP),
     (0x10, MSG_DETECTION_EVENT), (0x11, MSG_BATTERY_STATUS), (0x12, MSG_DEVICE_STATUS),
     (0x13, MSG_SYNC_REQUEST), (0x14, MSG_SYNC_DATA),
     (0x20, MSG_SET_CONFIG), (0x21, MSG_GET_CONFIG), (0x22, MSG_CONFIG_DATA), (0x23, MSG_CALIBRATE),
     (0x24, MSG_TIME_SYNC), (0x25, MSG_SET_COLORS), (0x26, MSG_SET_WIFI),
     (0x30, MSG_OTA_INFO), (0x31, MSG_OTA_INFO_RESP), (0x32, MSG_OTA_START), (0x33, MSG_OTA_DATA),
     (0x34, MSG_OTA_DATA_ACK), (0x35, MSG_OTA_COMMIT), (0x36, MSG_OTA_ABORT), (0x37, MSG_OTA_STATUS),
     (0x38, MSG_ENTER_OTA_MODE),
     (0x40, MSG_LOG_REQUEST), (0x41, MSG_LOG_DATA), (0x42, MSG_FACTORY_RESET),
     (0x43, MSG_PAIRING_MODE), (0x44, MSG_CLEAR_BONDS)]"

definition msg_of_code :: "u8 \<Rightarrow> message_type" where
  "msg_of_code b = (case map_of listed_types b of Some t \<Rightarrow> t | None \<Rightarrow> Unlisted b)"

definition msg_code :: "message_type \<Rightarrow> u8" where
  "msg_code t = (case t of Unlisted b \<Rightarrow> b
     | _ \<Rightarrow> (case map_of (map (\<lambda>(b, t). (t, b)) listed_types) t of Some b \<Rightarrow> b | None \<Rightarrow> 0))"

datatype error_code =
    ERR_NONE | ERR_CRC_MISMATCH | ERR_SEQ_OUT_OF_ORDER | ERR_INVALID_LENGTH | ERR_UNKNOWN_MSG
  | ERR_INVALID_STATE | ERR_BUSY | ERR_FLASH_WRITE | ERR_LOW_BATTERY | ERR_NOT_BONDED
  | ERR_INVALID_PAYLOAD | ERR_TIMEOUT | ERR_OTA_FAILED | ERR_CALIBRATION | ERR_SENSOR | ERR_INTERNAL

fun err_code :: "error_code \<Rightarrow> u8" where
  "err_code ERR_NONE = 0x00"
| "err_code ERR_CRC_MISMATCH = 0x01"
| "err_code ERR_SEQ_OUT_OF_ORDER = 0x02"
| "err_code ERR_INVALID_LENGTH = 0x03"
| "err_code ERR_UNKNOWN_MSG = 0x04"
| "err_code ERR_INVALID_STATE = 0x05"
| "err_code ERR_BUSY = 0x06"
| "err_code ERR_FLASH_WRITE = 0x07"
| "err_code ERR_LOW_BATTERY = 0x08"
| "err_code ERR_NOT_BONDED = 0x09"
| "err_code ERR_INVALID_PAYLOAD = 0x0A"
| "err_code ERR_TIMEOUT = 0x0B"
| "err_code ERR_OTA_FAILED = 0x0C"
| "err_code ERR_CALIBRATION = 0x0D"
| "err_code ERR_SENSOR = 0x0E"
| "err_code ERR_INTERNAL = 0xFF"

section \<open>Frames\<close>

definition SOF :: u8 where "SOF = 0xA5"
definition VERSION :: u8 where "VERSION = 0x01"
definition HEADER_SIZE :: nat where "HEADER_SIZE = 7"
definition CRC_SIZE :: nat where "CRC_SIZE = 2"
definition MAX_PAYLOAD_SIZE :: nat where "MAX_PAYLOAD_SIZE = 500"
definition MIN_FRAME_SIZE :: nat where "MIN_FRAME_SIZE = HEADER_SIZE + CRC_SIZE"

lemmas frame_consts = SOF_def VERSION_def HEADER_SIZE_def CRC_SIZE_def MAX_PAYLOAD_SIZE_def
  MIN_FRAME_SIZE_def

record message_header =
  mh_sof :: u8
  mh_msgType :: u8
  mh_version :: u8
  mh_seqNum :: u16
  mh_length :: u16

definition header_isValid :: "message_header \<Rightarrow> bool" where
  "header_isValid hdr \<longleftrightarrow>
     mh_sof hdr = SOF \<and> mh_version hdr = VERSION \<and> unat (mh_length hdr) \<le> MAX_PAYLOAD_SIZE"

text \<open>
  The frame is built in the caller's buffer, which it overwrites from the start; a null
  payload leaves the bytes between header and checksum as they were. The result is the
  buffer and the length of the frame in it.
\<close>

definition buildFrame ::
  "message_type \<Rightarrow> bytes option \<Rightarrow> nat \<Rightarrow> u16 \<Rightarrow> bytes \<Rightarrow> (bytes \<times> nat) option" where
  "buildFrame type payload payloadLen seqNum outFrame =
     (if payloadLen > MAX_PAYLOAD_SIZE then None
      else
        let out = blit outFrame 0 ([SOF, msg_code type, VERSION] @ be16 seqNum @
                    be16 (word_of_nat payloadLen));
            out = (case payload of
                Some bs \<Rightarrow> if payloadLen > 0 then blit out HEADER_SIZE (take payloadLen bs) else out
              | None \<Rightarrow> out);
            crcLen = HEADER_SIZE + payloadLen;
            crc = calculateCRC16 (take crcLen out)
        in Some (blit out crcLen (be16 crc), crcLen + CRC_SIZE))"

definition parseFrame :: "bytes \<Rightarrow> (message_header \<times> bytes option) option" where
  "parseFrame data =
     (let len = length data in
      if len < MIN_FRAME_SIZE then None
      else if data ! 0 \<noteq> SOF then None
      else
        let hdr = \<lparr>mh_sof = data ! 0, mh_msgType = data ! 1, mh_version = data ! 2,
                   mh_seqNum = rd_be16 (data ! 3) (data ! 4),
                   mh_length = rd_be16 (data ! 5) (data ! 6)\<rparr>
        in if \<not> header_isValid hdr then None
           else
             let expectedLen = HEADER_SIZE + unat (mh_length hdr) + CRC_SIZE
             in if len \<noteq> expectedLen then None
                else
                  let receivedCrc = rd_be16 (data ! (len - 2)) (data ! (len - 1));
                      calculatedCrc = calculateCRC16 (take (len - CRC_SIZE) data)
                  in if receivedCrc \<noteq> calculatedCrc then None
                     else if mh_length hdr > 0
                     then Some (hdr, Some (take (unat (mh_length hdr)) (drop HEADER_SIZE data)))
                     else Some (hdr, None))"

section \<open>The encoding as a list\<close>

definition frame_body :: "message_type \<Rightarrow> u16 \<Rightarrow> bytes \<Rightarrow> bytes" where
  "frame_body t seq payload =
     [SOF, msg_code t, VERSION] @ be16 seq @ be16 (word_of_nat (length payload)) @ payload"

definition frame_bytes :: "message_type \<Rightarrow> u16 \<Rightarrow> bytes \<Rightarrow> bytes" where
  "frame_bytes t seq payload =
     frame_body t seq payload @ be16 (calculateCRC16 (frame_body t seq payload))"

lemma length_frame_body [simp]: "length (frame_body t seq payload) = 7 + length payload"
  by (simp add: frame_body_def)

lemma length_frame_bytes [simp]: "length (frame_bytes t seq payload) = 9 + length payload"
  by (simp add: frame_bytes_def)

lemma msg_of_code_code [simp]: "msg_of_code (msg_code t) = t \<longleftrightarrow>
    (case t of Unlisted b \<Rightarrow> b \<notin> fst ` set listed_types | _ \<Rightarrow> True)"
proof (cases t)
  case (Unlisted b)
  show ?thesis
  proof (cases "map_of listed_types b")
    case None
    then have "b \<notin> fst ` set listed_types" by (simp add: map_of_eq_None_iff)
    with None show ?thesis using Unlisted by (simp add: msg_code_def msg_of_code_def)
  next
    case (Some t')
    then have "(b, t') \<in> set listed_types" by (rule map_of_SomeD)
    then have "t' \<noteq> Unlisted b" "b \<in> fst ` set listed_types" by (auto simp: listed_types_def)
    then show ?thesis using Unlisted Some by (simp add: msg_code_def msg_of_code_def)
  qed
qed (simp_all add: msg_code_def msg_of_code_def listed_types_def)

lemma msg_code_of_code [simp]: "msg_code (msg_of_code b) = b"
proof (cases "map_of listed_types b")
  case (Some t)
  then have "(b, t) \<in> set listed_types" by (rule map_of_SomeD)
  then show ?thesis
    unfolding msg_of_code_def Some option.case msg_code_def
    by (auto simp: listed_types_def)
qed (simp add: msg_of_code_def msg_code_def)

lemma take_len_append: "length xs = n \<Longrightarrow> take n (xs @ ys) = xs"
  by simp

lemma buildFrame_bytes:
  assumes "length payload \<le> MAX_PAYLOAD_SIZE" "length out = 509"
  obtains out' where "buildFrame t (Some payload) (length payload) seq out =
      Some (out', length payload + 9)"
    "take (length payload + 9) out' = frame_bytes t seq payload" "length out' = 509"
proof -
  let ?hdr = "[SOF, msg_code t, VERSION] @ be16 seq @ be16 (word_of_nat (length payload))"
  let ?n = "length payload"
  have n: "?n \<le> 500" using assms(1) by (simp add: MAX_PAYLOAD_SIZE_def)
  define o1 where "o1 = blit out 0 ?hdr"
  define o2 where "o2 = blit o1 7 payload"
  have 1: "take 7 o1 = ?hdr" "length o1 = 509" using assms(2) by (simp_all add: o1_def blit_def)
  have o2: "o2 = (?hdr @ payload) @ drop (7 + ?n) o1"
    using 1(1) by (simp add: o2_def blit_def)
  have 2: "take (7 + ?n) o2 = frame_body t seq payload"
    unfolding o2 by (subst take_len_append) (simp_all add: frame_body_def)
  have 3: "length o2 = 509" using 1(2) n by (simp add: o2_def)
  have build: "buildFrame t (Some payload) ?n seq out =
      Some (blit o2 (7 + ?n) (be16 (calculateCRC16 (take (7 + ?n) o2))), ?n + 9)"
  proof (cases "?n = 0")
    case True
    then show ?thesis
      by (simp add: buildFrame_def Let_def o2_def o1_def frame_consts blit_def)
  next
    case False
    then show ?thesis
      using n by (simp add: buildFrame_def Let_def o2_def o1_def frame_consts)
  qed
  then show thesis
    using 2 3 n by (intro that [OF build]) (simp_all add: blit_def frame_bytes_def)
qed

section \<open>Parsing\<close>

text \<open>An accepted frame leaves the CRC register at zero, and is the encoding of its contents.\<close>

lemma parseFrame_cases:
  assumes "parseFrame data = Some (hdr, p)"
  defines "n \<equiv> unat (mh_length hdr)"
  shows "length data = 9 + n" "n \<le> 500" "data ! 0 = SOF" "data ! 2 = VERSION"
    "mh_msgType hdr = data ! 1" "mh_seqNum hdr = rd_be16 (data ! 3) (data ! 4)"
    "mh_length hdr = rd_be16 (data ! 5) (data ! 6)"
    "p = (if n = 0 then None else Some (take n (drop 7 data)))"
    "rd_be16 (data ! (7 + n)) (data ! (8 + n)) = calculateCRC16 (take (7 + n) data)"
proof -
  have "mh_length hdr > 0 \<longleftrightarrow> n \<noteq> 0" by (simp add: n_def word_gt_0 word_unat_eq_iff)
  then show "length data = 9 + n" "n \<le> 500" "data ! 0 = SOF" "data ! 2 = VERSION"
    "mh_msgType hdr = data ! 1" "mh_seqNum hdr = rd_be16 (data ! 3) (data ! 4)"
    "mh_length hdr = rd_be16 (data ! 5) (data ! 6)"
    "p = (if n = 0 then None else Some (take n (drop 7 data)))"
    "rd_be16 (data ! (7 + n)) (data ! (8 + n)) = calculateCRC16 (take (7 + n) data)"
    using assms
    by (auto simp: parseFrame_def Let_def header_isValid_def frame_consts add.commute split: if_splits)
qed

lemma list_split_crc:
  "length data = 9 + n \<Longrightarrow> data = take (7 + n) data @ [data ! (7 + n), data ! (8 + n)]"
  for data :: bytes
  by (rule nth_equalityI) (auto simp: nth_append nth_Cons' less_Suc_eq numeral_eq_Suc)

lemma parseFrame_residue:
  assumes "parseFrame data = Some r"
  shows "foldl crc16_byte 0xFFFF data = 0"
proof -
  obtain hdr p where r: "r = (hdr, p)" by (cases r)
  note c = parseFrame_cases [OF assms [unfolded r]]
  have "foldl crc16_byte 0xFFFF (take (7 + unat (mh_length hdr)) data @
      [data ! (7 + unat (mh_length hdr)), data ! (8 + unat (mh_length hdr))]) = 0"
    unfolding foldl_append crc16_residue_iff using c(9) by (simp add: calculateCRC16_def)
  then show ?thesis using list_split_crc [OF c(1)] by simp
qed

lemma parseFrame_canonical:
  assumes "parseFrame data = Some (hdr, p)"
  shows "data = frame_bytes (msg_of_code (mh_msgType hdr)) (mh_seqNum hdr)
    (case p of None \<Rightarrow> [] | Some bs \<Rightarrow> bs)"
proof -
  let ?n = "unat (mh_length hdr)"
  let ?p = "case p of None \<Rightarrow> [] | Some bs \<Rightarrow> bs"
  note c = parseFrame_cases [OF assms]
  have p: "?p = take ?n (drop 7 data)" using c(8) by simp
  have lenp: "length ?p = ?n" using c(1) by (simp add: p)
  have "take 7 data = [data ! 0, data ! 1, data ! 2, data ! 3, data ! 4, data ! 5, data ! 6]"
    using c(1) by (intro nth_equalityI) (auto simp: nth_Cons' less_Suc_eq numeral_eq_Suc)
  then have "take (7 + ?n) data = frame_body (msg_of_code (mh_msgType hdr)) (mh_seqNum hdr) ?p"
    using c(3-7) lenp by (simp add: frame_body_def take_add p)
  moreover have "be16 (calculateCRC16 (take (7 + ?n) data)) = [data ! (7 + ?n), data ! (8 + ?n)]"
    using c(9) by (metis be16_rd)
  ultimately show ?thesis
    using list_split_crc [OF c(1)] by (simp add: frame_bytes_def)
qed

lemma parseFrame_frame_bytes:
  assumes "length payload \<le> MAX_PAYLOAD_SIZE"
  shows "parseFrame (frame_bytes t seq payload) =
    Some (\<lparr>mh_sof = SOF, mh_msgType = msg_code t, mh_version = VERSION, mh_seqNum = seq,
            mh_length = word_of_nat (length payload)\<rparr>,
          if payload = [] then None else Some payload)"
proof -
  let ?f = "frame_bytes t seq payload" and ?n = "length payload" and ?b = "frame_body t seq payload"
  have n: "?n \<le> 500" using assms by (simp add: MAX_PAYLOAD_SIZE_def)
  have un: "unat (word_of_nat ?n :: u16) = ?n" using n by (intro unat_word_of_nat_less) simp
  have hdr: "?f ! 0 = SOF" "?f ! Suc 0 = msg_code t" "?f ! 2 = VERSION"
    "rd_be16 (?f ! 3) (?f ! 4) = seq" "rd_be16 (?f ! 5) (?f ! 6) = word_of_nat ?n"
    by (simp_all add: frame_bytes_def frame_body_def be16_def)
  have crc: "rd_be16 (?f ! (7 + ?n)) (?f ! (8 + ?n)) = calculateCRC16 ?b" "take (7 + ?n) ?f = ?b"
    by (simp_all add: frame_bytes_def nth_append be16_def)
  have pay: "take ?n (drop 7 ?f) = payload"
    by (simp add: frame_bytes_def frame_body_def be16_def)
  have pos: "(word_of_nat ?n :: u16) > 0 \<longleftrightarrow> payload \<noteq> []"
    using un by (auto simp: word_gt_0 word_unat_eq_iff)
  show ?thesis
    using n crc by (simp add: parseFrame_def Let_def header_isValid_def frame_consts hdr un pos pay add.commute)
qed

section \<open>Properties\<close>

text \<open>
  C5: parsing inverts building. For every message type, sequence number and payload
  of at most 500 bytes, the frame that \<open>buildFrame\<close> leaves at the start of its 509-byte
  buffer parses to that type, number and payload.
\<close>

theorem frame_roundtrip:
  assumes "length payload \<le> MAX_PAYLOAD_SIZE" "length out = 509"
  shows "\<exists>out' len hdr. buildFrame t (Some payload) (length payload) seq out = Some (out', len) \<and>
    parseFrame (take len out') = Some (hdr, if payload = [] then None else Some payload) \<and>
    mh_msgType hdr = msg_code t \<and> mh_seqNum hdr = seq"
proof -
  obtain out' where b: "buildFrame t (Some payload) (length payload) seq out =
      Some (out', length payload + 9)"
    "take (length payload + 9) out' = frame_bytes t seq payload"
    by (rule buildFrame_bytes [OF assms])
  then show ?thesis by (simp add: parseFrame_frame_bytes [OF assms(1)])
qed

theorem frame_roundtrip_witness:
  "\<exists>out' len hdr. buildFrame MSG_NACK (Some [0, 7, 1]) 3 513 (replicate 509 0) = Some (out', len) \<and>
    parseFrame (take len out') = Some (hdr, Some [0, 7, 1]) \<and>
    mh_msgType hdr = 3 \<and> mh_seqNum hdr = 513"
  using frame_roundtrip [of "[0, 7, 1]" "replicate 509 0" MSG_NACK 513]
  by (simp add: MAX_PAYLOAD_SIZE_def msg_code_def listed_types_def numeral_3_eq_3)

text \<open>
  The parser accepts canonical encodings only: the bytes of an accepted frame are the one
  encoding of the type, sequence number and payload it reports. So no two byte strings
  carry the same message, and the payload it hands on has at most 500 bytes.
\<close>

theorem parseFrame_accepts_canonical:
  assumes "parseFrame data = Some (hdr, p)"
  shows "data = frame_bytes (msg_of_code (mh_msgType hdr)) (mh_seqNum hdr)
      (case p of None \<Rightarrow> [] | Some bs \<Rightarrow> bs) \<and>
    length (case p of None \<Rightarrow> [] | Some bs \<Rightarrow> bs) \<le> MAX_PAYLOAD_SIZE"
  using parseFrame_canonical [OF assms] parseFrame_cases [OF assms]
  by (auto simp: MAX_PAYLOAD_SIZE_def split: option.splits if_splits)

theorem parseFrame_accepts_canonical_witness:
  "\<exists>hdr p. parseFrame (frame_bytes MSG_ACK 5 [1, 2, 3]) = Some (hdr, p) \<and> mh_seqNum hdr = 5 \<and>
    frame_bytes MSG_ACK 5 [1, 2, 3] = frame_bytes (msg_of_code (mh_msgType hdr)) (mh_seqNum hdr)
      (case p of None \<Rightarrow> [] | Some bs \<Rightarrow> bs)"
proof -
  obtain hdr p where parse: "parseFrame (frame_bytes MSG_ACK 5 [1, 2, 3]) = Some (hdr, p)"
      "mh_seqNum hdr = 5"
    using parseFrame_frame_bytes [of "[1, 2, 3]" MSG_ACK 5] by (simp add: MAX_PAYLOAD_SIZE_def)
  from parse parseFrame_accepts_canonical [OF parse(1)] show ?thesis by blast
qed



end
