(* ===== verification/Fw_Config.thy ===== *)
theory Fw_Config
  imports Fw_Crc Fw_Nvs
begin

text \<open>
  \<open>ConfigService\<close> (\<open>src/src/Services/ConfigService.cpp\<close>) and its record \<open>UserConfig\<close>
  (\<open>src/src/Domain/UserConfig.h\<close>): the persistent user settings with their checksum, version
  migration, delayed commit and factory reset. The flash is behind an \<open>nvs_api\<close>, \<open>esp_random\<close> is
  an argument, and what is passed to \<open>Sensor_HAL::setUserSensitivity\<close> and to \<open>settimeofday\<close> is
  part of the results. A mutex that could not be created is not modelled: FreeRTOS stops at an assertion.
\<close>

section \<open>The configuration record\<close>

record user_config =
  uc_version :: u8
  uc_sensitivity :: u8
  uc_ledBrightness :: u8
  uc_reserved :: u8
  uc_signature :: u32
  uc_lastKnownEpoch :: u32
  uc_crc32 :: u32

definition CONFIG_VERSION :: u8 where "CONFIG_VERSION = 3"

definition enc_config_body :: "user_config \<Rightarrow> bytes" where
  "enc_config_body u = [uc_version u, uc_sensitivity u, uc_ledBrightness u, uc_reserved u] @
     le32 (uc_signature u) @ le32 (uc_lastKnownEpoch u)"

definition enc_config :: "user_config \<Rightarrow> bytes" where
  "enc_config u = enc_config_body u @ le32 (uc_crc32 u)"

definition dec_config :: "bytes \<Rightarrow> user_config" where
  "dec_config bs =
     \<lparr>uc_version = bs ! 0, uc_sensitivity = bs ! 1, uc_ledBrightness = bs ! 2, uc_reserved = bs ! 3,
      uc_signature = rd_le32 (bs ! 4) (bs ! 5) (bs ! 6) (bs ! 7),
      uc_lastKnownEpoch = rd_le32 (bs ! 8) (bs ! 9) (bs ! 10) (bs ! 11),
      uc_crc32 = rd_le32 (bs ! 12) (bs ! 13) (bs ! 14) (bs ! 15)\<rparr>"

lemma length_enc_config [simp]: "length (enc_config_body u) = 12" "length (enc_config u) = 16"
  by (simp_all add: enc_config_def enc_config_body_def)

lemma dec_enc_config [simp]: "dec_config (enc_config u) = u"
  by (cases u) (simp add: dec_config_def enc_config_def enc_config_body_def le32_def)

definition initUserConfigDefaults :: "u32 \<Rightarrow> user_config" where
  "initUserConfigDefaults random =
     \<lparr>uc_version = CONFIG_VERSION, uc_sensitivity = 50, uc_ledBrightness = 128, uc_reserved = 0,
      uc_signature = random, uc_lastKnownEpoch = 0, uc_crc32 = 0\<rparr>"

definition validateSensitivity :: "u8 \<Rightarrow> u8" where
  "validateSensitivity sensitivity = (if sensitivity > 100 then 100 else sensitivity)"

section \<open>The service\<close>

text \<open>The commit timer is null, or exists and is active or not.\<close>

record config_service =
  c_sensorHal :: bool
  c_config :: user_config
  c_initialized :: bool
  c_dirty :: bool
  c_commitTimer :: "bool option"
  c_workerTask :: bool
  c_workerRunning :: bool

definition config_new :: "u32 \<Rightarrow> config_service" where
  "config_new random = \<lparr>c_sensorHal = False, c_config = initUserConfigDefaults random,
     c_initialized = False, c_dirty = False, c_commitTimer = None, c_workerTask = False,
     c_workerRunning = False\<rparr>"

definition config_crc :: "user_config \<Rightarrow> u32" where
  "config_crc u = calculateCRC32 (enc_config_body u)"

definition calculateConfigCrc :: "config_service \<Rightarrow> u32" where
  "calculateConfigCrc s = config_crc (c_config s)"

definition CONFIG_NAMESPACE :: string where "CONFIG_NAMESPACE = ''userconfig''"
definition CONFIG_KEY :: string where "CONFIG_KEY = ''data''"

definition writeToNvs :: "'n nvs_api \<Rightarrow> bool \<Rightarrow> config_service \<Rightarrow> 'n \<Rightarrow> bool \<times> config_service \<times> 'n" where
  "writeToNvs api lock s n =
     (if \<not> lock then (False, s, n)
      else
        let s = s\<lparr>c_config := (c_config s)\<lparr>uc_crc32 := calculateConfigCrc s\<rparr>\<rparr>
        in if n_open api n CONFIG_NAMESPACE True \<noteq> ESP_OK then (False, s, n)
           else
             let (err, n) = n_set_blob api n CONFIG_NAMESPACE CONFIG_KEY (enc_config (c_config s))
             in if err \<noteq> ESP_OK then (False, s, n)
                else
                  let (err, n) = n_commit api n
                  in if err \<noteq> ESP_OK then (False, s, n)
                     else (True, s\<lparr>c_dirty := False\<rparr>, n))"

text \<open>The two migration steps of a record whose version is not the current one.\<close>

definition migrate_config :: "u32 \<Rightarrow> user_config \<Rightarrow> user_config" where
  "migrate_config random t =
     (let t = (if uc_version t = 1 \<and> CONFIG_VERSION \<ge> 2
               then t\<lparr>uc_version := 2, uc_reserved := 0, uc_signature := random\<rparr> else t)
      in if uc_version t = 2 \<and> CONFIG_VERSION = 3
         then t\<lparr>uc_version := CONFIG_VERSION, uc_lastKnownEpoch := 0\<rparr> else t)"

definition readFromNvs ::
  "'n nvs_api \<Rightarrow> u32 \<Rightarrow> bool \<Rightarrow> config_service \<Rightarrow> 'n \<Rightarrow> bool \<times> config_service \<times> 'n" where
  "readFromNvs api random lock s n =
     (if n_open api n CONFIG_NAMESPACE False \<noteq> ESP_OK then (False, s, n)
      else
        let (err, blob) = n_get_blob api n CONFIG_NAMESPACE CONFIG_KEY 16
        in if err \<noteq> ESP_OK then (False, s, n)
           else if length blob \<noteq> 16 then (False, s, n)
           else
             let t = dec_config blob;
                 calculatedCrc = calculateCRC32 (take 12 blob)
             in if calculatedCrc \<noteq> uc_crc32 t then (False, s, n)
                else if uc_version t \<noteq> CONFIG_VERSION then
                  (let t = migrate_config random t
                   in if uc_version t = CONFIG_VERSION then
                        (let s = s\<lparr>c_config := t\<lparr>uc_crc32 := config_crc t\<rparr>\<rparr>;
                             (_, s, n) = writeToNvs api lock s n
                         in (True, s, n))
                      else (False, s, n))
                else if uc_sensitivity t > 100 then (False, s, n)
                else (True, s\<lparr>c_config := t\<rparr>, n))"

definition applySensitivityToHal :: "config_service \<Rightarrow> u8 list" where
  "applySensitivityToHal s = (if \<not> c_sensorHal s then [] else [uc_sensitivity (c_config s)])"

record config_env =
  ce_timerOk :: bool
  ce_taskOk :: bool
  ce_random :: u32
  ce_random2 :: u32
  ce_lock :: bool

text \<open>
  The result: success, the argument of \<open>settimeofday\<close> if it is called, the sensitivities
  passed on, the service and the flash.
\<close>

definition config_init ::
  "'n nvs_api \<Rightarrow> bool \<Rightarrow> config_env \<Rightarrow> config_service \<Rightarrow> 'n \<Rightarrow>
   bool \<times> u32 option \<times> u8 list \<times> config_service \<times> 'n" where
  "config_init api sensorHal env s n =
     (if c_initialized s then (True, None, [], s, n)
      else if \<not> sensorHal then (False, None, [], s, n)
      else
        let s = s\<lparr>c_sensorHal := True\<rparr>
        in if \<not> ce_timerOk env then (False, None, [], s\<lparr>c_commitTimer := None\<rparr>, n)
           else
             let s = s\<lparr>c_commitTimer := Some False, c_workerRunning := True\<rparr>
             in if \<not> ce_taskOk env then (False, None, [], s\<lparr>c_workerRunning := False\<rparr>, n)
                else
                  let s = s\<lparr>c_workerTask := True\<rparr>;
                      (loaded, s, n) = readFromNvs api (ce_random env) (ce_lock env) s n;
                      (clock, s, n) =
                        (if loaded then
                           (if uc_lastKnownEpoch (c_config s) > 0
                            then Some (uc_lastKnownEpoch (c_config s) + 1) else None, s, n)
                         else
                           (let u = initUserConfigDefaults (ce_random2 env);
                                s = s\<lparr>c_config := u\<lparr>uc_crc32 := config_crc u\<rparr>\<rparr>;
                                (_, s, n) = writeToNvs api (ce_lock env) s n
                            in (None, s, n)))
                  in (True, clock, applySensitivityToHal s,
                      s\<lparr>c_initialized := True, c_dirty := False\<rparr>, n))"

section \<open>Setters and the delayed commit\<close>

definition start_commit_timer :: "config_service \<Rightarrow> config_service" where
  "start_commit_timer s = (case c_commitTimer s of None \<Rightarrow> s | Some _ \<Rightarrow> s\<lparr>c_commitTimer := Some True\<rparr>)"

definition getSensitivity :: "config_service \<Rightarrow> u8" where
  "getSensitivity s = uc_sensitivity (c_config s)"

definition setSensitivity :: "u8 \<Rightarrow> bool \<Rightarrow> config_service \<Rightarrow> u8 list \<times> config_service" where
  "setSensitivity sensitivity lock s =
     (let sensitivity = validateSensitivity sensitivity
      in if \<not> lock then ([], s)
         else if uc_sensitivity (c_config s) = sensitivity then ([], s)
         else
           let s = s\<lparr>c_config := (c_config s)\<lparr>uc_sensitivity := sensitivity\<rparr>, c_dirty := True\<rparr>
           in (applySensitivityToHal s, start_commit_timer s))"

definition getLedBrightness :: "config_service \<Rightarrow> u8" where
  "getLedBrightness s = uc_ledBrightness (c_config s)"

definition setLedBrightness :: "u8 \<Rightarrow> bool \<Rightarrow> config_service \<Rightarrow> config_service" where
  "setLedBrightness brightness lock s =
     (if \<not> lock then s
      else if uc_ledBrightness (c_config s) = brightness then s
      else start_commit_timer
        (s\<lparr>c_config := (c_config s)\<lparr>uc_ledBrightness := brightness\<rparr>, c_dirty := True\<rparr>))"

definition updateLastKnownEpoch :: "u32 \<Rightarrow> bool \<Rightarrow> config_service \<Rightarrow> config_service" where
  "updateLastKnownEpoch epochSeconds lock s =
     (if epochSeconds \<le> uc_lastKnownEpoch (c_config s) then s
      else if \<not> lock then s
      else start_commit_timer
        (s\<lparr>c_config := (c_config s)\<lparr>uc_lastKnownEpoch := epochSeconds\<rparr>, c_dirty := True\<rparr>))"

definition isDirty :: "config_service \<Rightarrow> bool" where
  "isDirty s = c_dirty s"

definition getConfigCrc :: "config_service \<Rightarrow> u32" where
  "getConfigCrc s = uc_crc32 (c_config s)"

definition getConfigSignature :: "config_service \<Rightarrow> u32" where
  "getConfigSignature s = uc_signature (c_config s)"

definition getLastKnownEpoch :: "config_service \<Rightarrow> u32" where
  "getLastKnownEpoch s = uc_lastKnownEpoch (c_config s)"

text \<open>The timer expires (it is one-shot); the result says whether the worker is notified.\<close>

definition commitTimerCallback :: "config_service \<Rightarrow> bool \<times> config_service" where
  "commitTimerCallback s =
     (c_dirty s \<and> c_workerTask s, s\<lparr>c_commitTimer := map_option (\<lambda>_. False) (c_commitTimer s)\<rparr>)"

text \<open>One turn of the worker's loop on the notification bits it received, if any.\<close>

definition configWorker_step ::
  "'n nvs_api \<Rightarrow> u32 option \<Rightarrow> bool \<Rightarrow> config_service \<Rightarrow> 'n \<Rightarrow> config_service \<times> 'n" where
  "configWorker_step api notification lock s n =
     (if \<not> c_workerRunning s then (s\<lparr>c_workerTask := False\<rparr>, n)
      else case notification of
          None \<Rightarrow> (s, n)
        | Some bits \<Rightarrow>
            if bits AND 2 \<noteq> 0 then (s\<lparr>c_workerTask := False\<rparr>, n)
            else if bits AND 1 \<noteq> 0 \<and> c_dirty s then snd (writeToNvs api lock s n)
            else (s, n))"

definition config_forceFlush :: "'n nvs_api \<Rightarrow> bool \<Rightarrow> config_service \<Rightarrow> 'n \<Rightarrow> bool \<times> config_service \<times> 'n" where
  "config_forceFlush api lock s n =
     (let s = (if c_commitTimer s = Some True then s\<lparr>c_commitTimer := Some False\<rparr> else s)
      in if \<not> c_dirty s then (True, s, n) else writeToNvs api lock s n)"

definition factoryReset ::
  "'n nvs_api \<Rightarrow> u32 \<Rightarrow> bool \<Rightarrow> bool \<Rightarrow> config_service \<Rightarrow> 'n \<Rightarrow> bool \<times> u8 list \<times> config_service \<times> 'n" where
  "factoryReset api random lock lock2 s n =
     (if \<not> lock then (False, [], s, n)
      else
        let s = (if c_commitTimer s = Some True then s\<lparr>c_commitTimer := Some False\<rparr> else s);
            u = initUserConfigDefaults random;
            s = s\<lparr>c_config := u\<lparr>uc_crc32 := config_crc u\<rparr>\<rparr>;
            (success, s, n) = writeToNvs api lock2 s n
        in (success, if success then applySensitivityToHal s else [], s, n))"

section \<open>What is stored is what is read\<close>

definition nvs_reliable :: "'n nvs_api \<Rightarrow> ('n \<Rightarrow> nvs_view) \<Rightarrow> bool" where
  "nvs_reliable api view \<longleftrightarrow> nvs_ok api view \<and>
     (\<forall>n ns rw. n_open api n ns rw = ESP_OK) \<and>
     (\<forall>n ns k b. fst (n_set_blob api n ns k b) = ESP_OK) \<and>
     (\<forall>n. fst (n_commit api n) = ESP_OK)"

lemma map_nvs_reliable: "nvs_reliable map_nvs (\<lambda>n. n)"
  using map_nvs_ok by (simp add: nvs_reliable_def) (simp add: map_nvs_def)

lemma nvs_reliableD:
  assumes "nvs_reliable api view"
  shows "nvs_ok api view" "n_open api n ns rw = ESP_OK"
    "fst (n_set_blob api n ns k b) = ESP_OK" "fst (n_commit api n) = ESP_OK"
    "view (snd (n_set_blob api n ns k b)) = (view n)((ns, k) \<mapsto> VBlob b)"
    "view (snd (n_commit api n)) = view n"
proof -
  have ok: "nvs_ok api view" using assms by (simp add: nvs_reliable_def)
  show "nvs_ok api view" by (rule ok)
  show s: "fst (n_set_blob api n ns k b) = ESP_OK" using assms by (simp add: nvs_reliable_def)
  show "n_open api n ns rw = ESP_OK" "fst (n_commit api n) = ESP_OK"
    using assms by (simp_all add: nvs_reliable_def)
  show "view (snd (n_set_blob api n ns k b)) = (view n)((ns, k) \<mapsto> VBlob b)"
    using nvs_okD(6) [OF ok, of n ns k b] s by (simp add: set_ok_def)
  show "view (snd (n_commit api n)) = view n" by (rule nvs_okD(7) [OF ok])
qed

definition config_sound :: "user_config \<Rightarrow> bool" where
  "config_sound u \<longleftrightarrow> uc_version u = CONFIG_VERSION \<and> uc_crc32 u = config_crc u"

definition persisted :: "('n \<Rightarrow> nvs_view) \<Rightarrow> config_service \<Rightarrow> 'n \<Rightarrow> bool" where
  "persisted view s n \<longleftrightarrow>
     view n (CONFIG_NAMESPACE, CONFIG_KEY) = Some (VBlob (enc_config (c_config s)))"

definition with_crc :: "user_config \<Rightarrow> user_config" where
  "with_crc u = u\<lparr>uc_crc32 := config_crc u\<rparr>"

lemma config_crc_upd [simp]: "config_crc (u\<lparr>uc_crc32 := x\<rparr>) = config_crc u"
  by (simp add: config_crc_def enc_config_body_def)

lemma with_crc_simps [simp]:
  "uc_version (with_crc u) = uc_version u" "uc_sensitivity (with_crc u) = uc_sensitivity u"
  "uc_crc32 (with_crc u) = config_crc u" "config_crc (with_crc u) = config_crc u"
  "uc_ledBrightness (with_crc u) = uc_ledBrightness u"
  "uc_lastKnownEpoch (with_crc u) = uc_lastKnownEpoch u"
  "with_crc (with_crc u) = with_crc u"
  by (simp_all add: with_crc_def)

lemma enc_with_crc: "enc_config_body (with_crc u) = enc_config_body u"
  by (simp add: with_crc_def enc_config_body_def)

lemma with_crc_fix: "uc_crc32 u = config_crc u \<Longrightarrow> with_crc u = u"
  by (simp add: with_crc_def)

lemma body_dec_config:
  assumes "length bs = 16"
  shows "enc_config_body (dec_config bs) = take 12 bs"
proof -
  have "take 12 bs = [bs ! 0, bs ! 1, bs ! 2, bs ! 3, bs ! 4, bs ! 5, bs ! 6, bs ! 7, bs ! 8, bs ! 9,
      bs ! 10, bs ! 11]"
    using assms by (intro nth_equalityI) (auto simp: numeral_eq_Suc less_Suc_eq)
  then show ?thesis by (simp add: enc_config_body_def dec_config_def)
qed

lemma write_result:
  assumes api: "nvs_ok api view" and run: "writeToNvs api lock s n = (True, s', n')"
  shows "s' = s\<lparr>c_config := with_crc (c_config s), c_dirty := False\<rparr>" "persisted view s' n'"
proof -
  let ?s = "s\<lparr>c_config := with_crc (c_config s)\<rparr>"
  let ?w = "n_set_blob api n CONFIG_NAMESPACE CONFIG_KEY (enc_config (with_crc (c_config s)))"
  have r: "fst ?w = ESP_OK" "s' = ?s\<lparr>c_dirty := False\<rparr>" "n' = snd (n_commit api (snd ?w))"
    using run by (auto simp: writeToNvs_def Let_def with_crc_def calculateConfigCrc_def split_def
        split: if_splits)
  then show "s' = s\<lparr>c_config := with_crc (c_config s), c_dirty := False\<rparr>" by simp
  have "view (snd ?w) (CONFIG_NAMESPACE, CONFIG_KEY) = Some (VBlob (enc_config (with_crc (c_config s))))"
    using nvs_okD(6) [OF api, of n CONFIG_NAMESPACE CONFIG_KEY "enc_config (with_crc (c_config s))"] r(1)
    by (simp add: set_ok_def)
  then show "persisted view s' n'"
    using r(2,3) nvs_okD(7) [OF api] by (simp add: persisted_def)
qed

lemma write_reliable:
  assumes "nvs_reliable api view"
  shows "fst (writeToNvs api True s n)"
  using nvs_reliableD(2-4) [OF assms]
  by (simp add: writeToNvs_def Let_def split_def)

lemma read_config:
  assumes api: "nvs_ok api view" and op: "n_open api n CONFIG_NAMESPACE False = ESP_OK"
    and v: "view n (CONFIG_NAMESPACE, CONFIG_KEY) = Some (VBlob blob)" and len: "length blob = 16"
  shows "readFromNvs api random lock s n =
     (let t = dec_config blob in
      if config_crc t \<noteq> uc_crc32 t then (False, s, n)
      else if uc_version t \<noteq> CONFIG_VERSION then
        (let t = migrate_config random t
         in if uc_version t = CONFIG_VERSION
            then (True, snd (writeToNvs api lock (s\<lparr>c_config := with_crc t\<rparr>) n))
            else (False, s, n))
      else if uc_sensitivity t > 100 then (False, s, n)
      else (True, s\<lparr>c_config := t\<rparr>, n))"
proof -
  have b: "n_get_blob api n CONFIG_NAMESPACE CONFIG_KEY 16 = (ESP_OK, blob)"
    using nvs_okD(3) [OF api v] len by simp
  show ?thesis
    using op by (simp add: readFromNvs_def b len Let_def config_crc_def body_dec_config with_crc_def split_def)
qed

lemma migrate_version:
  "uc_version (migrate_config r t) = CONFIG_VERSION \<longleftrightarrow> uc_version t \<in> {1, 2, CONFIG_VERSION}"
  "uc_sensitivity (migrate_config r t) = uc_sensitivity t"
  "uc_ledBrightness (migrate_config r t) = uc_ledBrightness t"
  by (auto simp: migrate_config_def Let_def CONFIG_VERSION_def)

lemma write_config_cases:
  "c_config (fst (snd (writeToNvs api lock s n))) \<in> {c_config s, with_crc (c_config s)}"
  by (simp add: writeToNvs_def Let_def split_def calculateConfigCrc_def with_crc_def)

text \<open>The configuration comes from a stored record of version 1 or 2.\<close>

definition migrated :: "'n nvs_api \<Rightarrow> 'n \<Rightarrow> user_config \<Rightarrow> bool" where
  "migrated api n u \<longleftrightarrow>
     (case n_get_blob api n CONFIG_NAMESPACE CONFIG_KEY 16 of (err, blob) \<Rightarrow>
        err = ESP_OK \<and> uc_version (dec_config blob) \<in> {1, 2} \<and>
        uc_sensitivity u = uc_sensitivity (dec_config blob))"

lemma read_sound:
  assumes "readFromNvs api random lock s n = (True, s', n')"
  shows "config_sound (c_config s') \<and> (uc_sensitivity (c_config s') \<le> 100 \<or> migrated api n (c_config s'))"
proof -
  obtain blob where blob: "n_get_blob api n CONFIG_NAMESPACE CONFIG_KEY 16 = (ESP_OK, blob)"
    "length blob = 16" "calculateCRC32 (take 12 blob) = uc_crc32 (dec_config blob)"
    using assms by (auto simp: readFromNvs_def Let_def split_def split: if_splits)
      (metis prod.collapse)+
  have crc: "config_crc (dec_config blob) = uc_crc32 (dec_config blob)"
    using blob(2,3) by (simp add: config_crc_def body_dec_config)
  show ?thesis
  proof (cases "uc_version (dec_config blob) = CONFIG_VERSION")
    case True
    then have "c_config s' = dec_config blob" "uc_sensitivity (dec_config blob) \<le> 100"
      using assms blob by (auto simp: readFromNvs_def Let_def split: if_splits)
    then show ?thesis using True crc by (simp add: config_sound_def)
  next
    case False
    let ?t = "migrate_config random (dec_config blob)"
    have v: "uc_version ?t = CONFIG_VERSION"
      and s': "s' = fst (snd (writeToNvs api lock (s\<lparr>c_config := with_crc ?t\<rparr>) n))"
      using assms blob False by (auto simp: readFromNvs_def Let_def with_crc_def split_def split: if_splits)
    have "c_config s' = with_crc ?t"
      using write_config_cases [of api lock "s\<lparr>c_config := with_crc ?t\<rparr>" n] s' by auto
    moreover have "uc_version (dec_config blob) \<in> {1, 2}"
      using v False by (simp add: migrate_version)
    ultimately show ?thesis
      using v blob(1) by (simp add: config_sound_def migrated_def migrate_version)
  qed
qed

section \<open>Nothing is lost silently\<close>

text \<open>The calls after \<open>init\<close>, with the locks granted.\<close>

inductive config_step ::
  "'n nvs_api \<Rightarrow> config_service \<times> 'n \<Rightarrow> config_service \<times> 'n \<Rightarrow> bool" for api where
  CS_sens: "config_step api (s, n) (snd (setSensitivity v lock s), n)"
| CS_led: "config_step api (s, n) (setLedBrightness v lock s, n)"
| CS_epoch: "config_step api (s, n) (updateLastKnownEpoch e lock s, n)"
| CS_timer: "config_step api (s, n) (snd (commitTimerCallback s), n)"
| CS_worker: "config_step api (s, n) (configWorker_step api bits lock s n)"
| CS_flush: "config_step api (s, n) (snd (config_forceFlush api lock s n))"
| CS_reset: "config_step api (s, n) (snd (snd (factoryReset api random lock True s n)))"

inductive_cases config_stepE: "config_step api (s, n) (s', n')"

definition config_inv :: "('n \<Rightarrow> nvs_view) \<Rightarrow> config_service \<Rightarrow> 'n \<Rightarrow> bool" where
  "config_inv view s n \<longleftrightarrow> uc_version (c_config s) = CONFIG_VERSION \<and>
     uc_sensitivity (c_config s) \<le> 100 \<and> (\<not> c_dirty s \<longrightarrow> persisted view s n)"

lemma start_timer_simps [simp]:
  "c_config (start_commit_timer s) = c_config s" "c_dirty (start_commit_timer s) = c_dirty s"
  by (simp_all add: start_commit_timer_def split: option.split)

lemma persisted_timer [simp]:
  "persisted view (s\<lparr>c_commitTimer := t\<rparr>) n = persisted view s n"
  "persisted view (s\<lparr>c_workerTask := b\<rparr>) n = persisted view s n"
  by (simp_all add: persisted_def)

lemma config_inv_write:
  assumes "nvs_reliable api view" "config_inv view s n"
  shows "config_inv view (fst (snd (writeToNvs api lock s n))) (snd (snd (writeToNvs api lock s n)))"
proof (cases lock)
  case True
  obtain s' n' where w: "writeToNvs api lock s n = (True, s', n')"
    using write_reliable [OF assms(1), of s n] True by (metis prod.collapse)
  note r = write_result [OF nvs_reliableD(1) [OF assms(1)] w]
  show ?thesis using assms(2) r w by (simp add: config_inv_def)
qed (use assms in \<open>simp add: writeToNvs_def\<close>)

lemma validateSensitivity_le: "validateSensitivity v \<le> 100"
  by (simp add: validateSensitivity_def not_less)

lemma config_inv_step:
  assumes api: "nvs_reliable api view" and step: "config_step api x y"
    and inv: "config_inv view (fst x) (snd x)"
  shows "config_inv view (fst y) (snd y)"
  using step
proof cases
  case (CS_sens s n v lock)
  then show ?thesis
    using inv validateSensitivity_le [of v] by (simp add: setSensitivity_def Let_def config_inv_def)
next
  case (CS_led s n v lock)
  then show ?thesis using inv by (simp add: setLedBrightness_def config_inv_def)
next
  case (CS_epoch s n e lock)
  then show ?thesis using inv by (simp add: updateLastKnownEpoch_def config_inv_def)
next
  case (CS_timer s n)
  then show ?thesis using inv by (simp add: commitTimerCallback_def config_inv_def)
next
  case (CS_worker s n bits lock)
  then show ?thesis
    using inv config_inv_write [OF api, of s n lock]
    by (auto simp: configWorker_step_def config_inv_def split: option.split)
next
  case (CS_flush s n lock)
  let ?s = "if c_commitTimer s = Some True then s\<lparr>c_commitTimer := Some False\<rparr> else s"
  have i: "config_inv view ?s n" using inv CS_flush(1) by (simp add: config_inv_def)
  have "y = (if \<not> c_dirty ?s then (?s, n) else snd (writeToNvs api lock ?s n))"
    using CS_flush(2) by (simp add: config_forceFlush_def Let_def)
  then show ?thesis using i config_inv_write [OF api i] by (cases "c_dirty ?s") simp_all
next
  case (CS_reset s n random lock)
  show ?thesis
  proof (cases lock)
    case True
    define s1 where "s1 = (if c_commitTimer s = Some True then s\<lparr>c_commitTimer := Some False\<rparr> else s)"
    define s2 where "s2 = s1\<lparr>c_config := with_crc (initUserConfigDefaults random)\<rparr>"
    have s2: "uc_version (c_config s2) = CONFIG_VERSION" "uc_sensitivity (c_config s2) \<le> 100"
      by (simp_all add: s2_def initUserConfigDefaults_def)
    have y: "y = snd (writeToNvs api True s2 n)"
      unfolding CS_reset(2) factoryReset_def s2_def s1_def with_crc_def using True
      by (simp only: Let_def split_def if_False not_True_eq_False fst_conv snd_conv prod.collapse)
    obtain s' n' where w: "writeToNvs api True s2 n = (True, s', n')"
      using write_reliable [OF api, of s2 n] by (cases "writeToNvs api True s2 n") auto
    show ?thesis
      using write_result [OF nvs_reliableD(1) [OF api] w] s2 by (simp add: y w config_inv_def)
  qed (use CS_reset inv in \<open>simp add: factoryReset_def\<close>)
qed

section \<open>Properties\<close>

text \<open>
  Settings survive a restart. What a successful \<open>writeToNvs\<close> stored, the next boot reads back
  unchanged, for every configuration of the current version with a sensitivity in range.
\<close>

theorem config_roundtrip:
  assumes "nvs_ok api view" "writeToNvs api lock s n = (True, s', n')"
    "uc_version (c_config s) = CONFIG_VERSION" "uc_sensitivity (c_config s) \<le> 100"
    "n_open api n' CONFIG_NAMESPACE False = ESP_OK"
  shows "readFromNvs api random lock2 s2 n' = (True, s2\<lparr>c_config := c_config s'\<rparr>, n') \<and>
    c_config s' = (c_config s)\<lparr>uc_crc32 := config_crc (c_config s)\<rparr> \<and> \<not> c_dirty s'"
proof -
  note w = write_result [OF assms(1,2)]
  have "uc_crc32 (c_config s') = config_crc (c_config s')"
    "uc_version (c_config s') = CONFIG_VERSION" "uc_sensitivity (c_config s') \<le> 100"
    using assms(3,4) w(1) by simp_all
  then have "readFromNvs api random lock2 s2 n' = (True, s2\<lparr>c_config := c_config s'\<rparr>, n')"
    using read_config [OF assms(1,5) w(2) [unfolded persisted_def]] by (simp add: Let_def not_less)
  then show ?thesis using w(1) by (simp add: with_crc_def)
qed

definition demo_config :: config_service where
  "demo_config = (config_new 77)\<lparr>c_sensorHal := True, c_initialized := True, c_dirty := True,
     c_commitTimer := Some True, c_workerTask := True, c_workerRunning := True\<rparr>"

theorem config_roundtrip_witness:
  "\<exists>s' n'. writeToNvs map_nvs True demo_config Map.empty = (True, s', n') \<and>
    readFromNvs map_nvs 0 True (config_new 1) n' = (True, (config_new 1)\<lparr>c_config := c_config s'\<rparr>, n')"
proof -
  obtain s' n' where w: "writeToNvs map_nvs True demo_config Map.empty = (True, s', n')"
    using write_reliable [OF map_nvs_reliable, of demo_config Map.empty] by (metis prod.collapse)
  have c: "uc_version (c_config demo_config) = CONFIG_VERSION" "uc_sensitivity (c_config demo_config) \<le> 100"
    by (simp_all add: demo_config_def config_new_def initUserConfigDefaults_def)
  have "readFromNvs map_nvs 0 True (config_new 1) n' =
      (True, (config_new 1)\<lparr>c_config := c_config s'\<rparr>, n')"
    using config_roundtrip [OF map_nvs_ok w c] by (simp add: map_nvs_def)
  then show ?thesis using w by blast
qed





text \<open>
  Every successful \<open>init\<close> ends with a configuration of the current version whose checksum is
  right, whatever the flash held; its sensitivity is at most 100 unless it was migrated from
  a stored record of version 1 or 2, because the migration skips the range check.
\<close>

theorem config_init_sound:
  assumes "config_init api True env s n = (True, clock, hal, s', n')" "\<not> c_initialized s"
  shows "config_sound (c_config s') \<and> c_initialized s' \<and> \<not> c_dirty s' \<and>
    (uc_sensitivity (c_config s') \<le> 100 \<or> migrated api n (c_config s'))"
proof -
  let ?s = "s\<lparr>c_sensorHal := True, c_commitTimer := Some False, c_workerRunning := True, c_workerTask := True\<rparr>"
  obtain l s1 n1 where r: "readFromNvs api (ce_random env) (ce_lock env) ?s n = (l, s1, n1)"
    by (metis prod_cases3)
  show ?thesis
  proof (cases l)
    case True
    then have "c_config s' = c_config s1" "c_initialized s'" "\<not> c_dirty s'"
      using assms r by (auto simp: config_init_def Let_def split: if_splits)
    then show ?thesis using read_sound r True by metis
  next
    case False
    let ?s1 = "s1\<lparr>c_config := with_crc (initUserConfigDefaults (ce_random2 env))\<rparr>"
    have "c_config s' = c_config (fst (snd (writeToNvs api (ce_lock env) ?s1 n1)))" "c_initialized s'"
      "\<not> c_dirty s'"
      using assms r False by (auto simp: config_init_def Let_def with_crc_def split: if_splits prod.splits)
    then show ?thesis
      using write_config_cases [of api "ce_lock env" ?s1 n1]
      by (auto simp: config_sound_def initUserConfigDefaults_def)
  qed
qed

theorem config_init_sound_witness:
  "\<exists>clock hal s' n'. config_init map_nvs True \<lparr>ce_timerOk = True, ce_taskOk = True, ce_random = 1,
       ce_random2 = 2, ce_lock = True\<rparr> (config_new 0) Map.empty = (True, clock, hal, s', n') \<and>
     config_sound (c_config s') \<and> c_initialized s'"
proof -
  let ?env = "\<lparr>ce_timerOk = True, ce_taskOk = True, ce_random = 1, ce_random2 = 2, ce_lock = True\<rparr>"
  have "fst (config_init map_nvs True ?env (config_new 0) Map.empty)"
    by (simp add: config_init_def Let_def split_def config_new_def)
  then obtain clock hal s' n' where
    i: "config_init map_nvs True ?env (config_new 0) Map.empty = (True, clock, hal, s', n')"
    by (metis prod.collapse)
  then show ?thesis using config_init_sound [OF i] by (auto simp: config_new_def)
qed

end
