(* ===== verification/Fw_Ota.thy ===== *)
theory Fw_Ota
  imports Fw_Frame
begin

text \<open>
  \<open>OTAManager\<close> (\<open>src/src/Services/OTAManager.cpp\<close>): the firmware update over BLE, its state
  machine, and the self-test that confirms or rolls back a freshly booted image. The
  Arduino \<open>Update\<close> library that writes the image is a parameter, the record \<open>update_api\<close>, whose
  documented behaviour is \<open>update_ok\<close>. An operation returns the messages it hands to
  \<open>ProtocolHandler::sendMessage\<close>, whose outcome it ignores. The main lemma is an invariant of
  the transfer: what \<open>Update\<close> has staged is the concatenation of the accepted chunks, and the
  running counters and checksum are those of that image.
\<close>

section \<open>State\<close>

datatype ota_state = OTA_IDLE | OTA_RECEIVING | OTA_VALIDATING | OTA_COMMITTING | OTA_REBOOTING | OTA_FAILED

datatype ota_error = OE_NONE | OE_LOW_BATTERY | OE_NO_PARTITION | OE_TOO_LARGE | OE_BEGIN_FAILED
  | OE_WRITE_FAILED | OE_SIZE_MISMATCH | OE_CRC_MISMATCH | OE_COMMIT_FAILED | OE_TIMEOUT
  | OE_INVALID_STATE | OE_CHUNK_OUT_OF_ORDER | OE_SELF_TEST_FAILED | OE_VERSION_REJECTED

fun ota_error_code :: "ota_error \<Rightarrow> u8" where
  "ota_error_code OE_NONE = 0x00"
| "ota_error_code OE_LOW_BATTERY = 0x01"
| "ota_error_code OE_NO_PARTITION = 0x02"
| "ota_error_code OE_TOO_LARGE = 0x03"
| "ota_error_code OE_BEGIN_FAILED = 0x04"
| "ota_error_code OE_WRITE_FAILED = 0x05"
| "ota_error_code OE_SIZE_MISMATCH = 0x06"
| "ota_error_code OE_CRC_MISMATCH = 0x07"
| "ota_error_code OE_COMMIT_FAILED = 0x08"
| "ota_error_code OE_TIMEOUT = 0x09"
| "ota_error_code OE_INVALID_STATE = 0x0A"
| "ota_error_code OE_CHUNK_OUT_OF_ORDER = 0x0B"
| "ota_error_code OE_SELF_TEST_FAILED = 0x0C"
| "ota_error_code OE_VERSION_REJECTED = 0x0D"

text \<open>The build constants of the removed \<open>Config.h\<close>.\<close>

record ota_cfg =
  FIRMWARE_VERSION_MAJOR :: u8
  FIRMWARE_VERSION_MINOR :: u8
  FIRMWARE_VERSION_PATCH :: u8
  FIRMWARE_BUILD_TYPE :: u8
  MIN_BATTERY_PERCENT :: u8
  OTA_CHUNK_TIMEOUT_MS :: u32
  SELF_TEST_TIMEOUT_MS :: u32
  SENSOR_CHECK_RETRIES :: nat

record ota =
  o_bleManager :: bool
  o_protocolHandler :: bool
  o_state :: ota_state
  o_lastError :: ota_error
  o_initialized :: bool
  o_expectedSize :: u32
  o_receivedSize :: u32
  o_expectedCRC :: u32
  o_runningCRC :: u32
  o_expectedChunks :: u16
  o_receivedChunks :: u16
  o_newMajor :: u8
  o_newMinor :: u8
  o_newPatch :: u8
  o_lastChunkTime :: u32
  o_startTime :: u32

definition ota_new :: ota where
  "ota_new = \<lparr>o_bleManager = False, o_protocolHandler = False, o_state = OTA_IDLE,
     o_lastError = OE_NONE, o_initialized = False, o_expectedSize = 0, o_receivedSize = 0,
     o_expectedCRC = 0, o_runningCRC = 0xFFFFFFFF, o_expectedChunks = 0, o_receivedChunks = 0,
     o_newMajor = 0, o_newMinor = 0, o_newPatch = 0, o_lastChunkTime = 0, o_startTime = 0\<rparr>"

definition ota_init :: "bool \<Rightarrow> bool \<Rightarrow> ota \<Rightarrow> ota" where
  "ota_init bleManager protocolHandler s =
     s\<lparr>o_bleManager := bleManager, o_protocolHandler := protocolHandler, o_initialized := True\<rparr>"

text \<open>A message for \<open>sendMessage\<close>: type, payload, whether an acknowledgement is required.\<close>

type_synonym out_msg = "message_type \<times> bytes \<times> bool"

section \<open>The Update library\<close>

record 'u update_api =
  u_begin :: "'u \<Rightarrow> u32 \<Rightarrow> bool \<times> 'u"
  u_write :: "'u \<Rightarrow> bytes \<Rightarrow> nat \<times> 'u"
  u_end :: "'u \<Rightarrow> bool \<times> 'u"
  u_abort :: "'u \<Rightarrow> 'u"

text \<open>
  The documented behaviour, through what is staged, whether an error is pending and which
  image is committed: a successful begin starts an empty image; a full write
  appends its bytes; a short write leaves an error, which later writes keep and which makes the end fail; a
  successful end commits what is staged; nothing else commits anything.
\<close>

definition update_ok ::
  "'u update_api \<Rightarrow> ('u \<Rightarrow> bytes) \<Rightarrow> ('u \<Rightarrow> bool) \<Rightarrow> ('u \<Rightarrow> bytes option) \<Rightarrow> bool" where
  "update_ok api staged broken committed \<longleftrightarrow>
     (\<forall>u n. fst (u_begin api u n) \<longrightarrow>
        staged (snd (u_begin api u n)) = [] \<and> \<not> broken (snd (u_begin api u n))) \<and>
     (\<forall>u n. committed (snd (u_begin api u n)) = committed u) \<and>
     (\<forall>u bs. fst (u_write api u bs) = length bs \<longrightarrow>
        staged (snd (u_write api u bs)) = staged u @ bs \<or> broken (snd (u_write api u bs))) \<and>
     (\<forall>u bs. fst (u_write api u bs) \<noteq> length bs \<longrightarrow> broken (snd (u_write api u bs))) \<and>
     (\<forall>u bs. broken u \<longrightarrow> broken (snd (u_write api u bs))) \<and>
     (\<forall>u bs. committed (snd (u_write api u bs)) = committed u) \<and>
     (\<forall>u. fst (u_end api u) \<longrightarrow>
        \<not> broken u \<and> committed (snd (u_end api u)) = Some (staged u)) \<and>
     (\<forall>u. \<not> fst (u_end api u) \<longrightarrow> committed (snd (u_end api u)) = committed u) \<and>
     (\<forall>u. committed (u_abort api u) = committed u)"

lemma update_okD:
  assumes "update_ok api staged broken committed"
  shows "fst (u_begin api u n) \<Longrightarrow>
      staged (snd (u_begin api u n)) = [] \<and> \<not> broken (snd (u_begin api u n))"
    and "committed (snd (u_begin api u n)) = committed u"
    and "fst (u_write api u bs) = length bs \<Longrightarrow>
      staged (snd (u_write api u bs)) = staged u @ bs \<or> broken (snd (u_write api u bs))"
    and "fst (u_write api u bs) \<noteq> length bs \<Longrightarrow> broken (snd (u_write api u bs))"
    and "broken u \<Longrightarrow> broken (snd (u_write api u bs))"
    and "committed (snd (u_write api u bs)) = committed u"
    and "fst (u_end api u) \<Longrightarrow> \<not> broken u \<and> committed (snd (u_end api u)) = Some (staged u)"
    and "\<not> fst (u_end api u) \<Longrightarrow> committed (snd (u_end api u)) = committed u"
    and "committed (u_abort api u) = committed u"
  using assms by (auto simp: update_ok_def)

text \<open>A concrete updater: staged bytes, error flag, committed image; every write succeeds.\<close>

definition list_update_api :: "(bytes \<times> bool \<times> bytes option) update_api" where
  "list_update_api = \<lparr>
     u_begin = (\<lambda>(st, br, c) n. (True, ([], False, c))),
     u_write = (\<lambda>(st, br, c) bs. (length bs, (st @ bs, br, c))),
     u_end = (\<lambda>(st, br, c). if br then (False, (st, br, c)) else (True, (st, br, Some st))),
     u_abort = (\<lambda>(st, br, c). ([], br, c))\<rparr>"

lemma list_update_ok:
  "update_ok list_update_api (\<lambda>u. fst u) (\<lambda>u. fst (snd u)) (\<lambda>u. snd (snd u))"
  by (auto simp: update_ok_def list_update_api_def)

section \<open>Operations\<close>

definition sendStatus :: "ota \<Rightarrow> u8 \<Rightarrow> ota_error \<Rightarrow> out_msg list" where
  "sendStatus s status error =
     (if \<not> o_protocolHandler s then []
      else [(MSG_OTA_STATUS, [status, ota_error_code error] @ be16 (o_receivedChunks s), False)])"

definition sendChunkAck :: "ota \<Rightarrow> u16 \<Rightarrow> bool \<Rightarrow> out_msg list" where
  "sendChunkAck s chunkIndex success =
     (if \<not> o_protocolHandler s then []
      else [(MSG_OTA_DATA_ACK, be16 chunkIndex @ [if success then 0x00 else 0x01], False)])"

definition checkBatteryLevel :: "ota_cfg \<Rightarrow> bool" where
  "checkBatteryLevel c \<longleftrightarrow> (100 :: u8) \<ge> MIN_BATTERY_PERCENT c"

definition version_word :: "u8 \<Rightarrow> u8 \<Rightarrow> u8 \<Rightarrow> u32" where
  "version_word major minor patch = push_bit 16 (ucast major) OR push_bit 8 (ucast minor) OR ucast patch"

definition validateVersion :: "ota_cfg \<Rightarrow> u8 \<Rightarrow> u8 \<Rightarrow> u8 \<Rightarrow> bool" where
  "validateVersion c major minor patch =
     (if FIRMWARE_BUILD_TYPE c = 2 then True
      else let currentVersion = version_word (FIRMWARE_VERSION_MAJOR c) (FIRMWARE_VERSION_MINOR c)
                 (FIRMWARE_VERSION_PATCH c);
               newVersion = version_word major minor patch
           in \<not> newVersion < currentVersion)"

text \<open>The packed structures, as the cast of a byte pointer reads and writes them.\<close>

record ota_start_payload =
  os_totalSize :: u32
  os_expectedCrc :: u32
  os_newMajor :: u8
  os_newMinor :: u8
  os_newPatch :: u8
  os_totalChunks :: u16
  os_reserved :: u8

definition dec_ota_start :: "bytes \<Rightarrow> ota_start_payload" where
  "dec_ota_start bs =
     \<lparr>os_totalSize = rd_le32 (bs ! 0) (bs ! 1) (bs ! 2) (bs ! 3),
      os_expectedCrc = rd_le32 (bs ! 4) (bs ! 5) (bs ! 6) (bs ! 7),
      os_newMajor = bs ! 8, os_newMinor = bs ! 9, os_newPatch = bs ! 10,
      os_totalChunks = rd_le16 (bs ! 11) (bs ! 12), os_reserved = bs ! 13\<rparr>"

text \<open>\<open>nextPart\<close> is the size of the next update partition, if there is one.\<close>

definition enc_firmware_info :: "ota_cfg \<Rightarrow> u32 option \<Rightarrow> bytes" where
  "enc_firmware_info c nextPart =
     [FIRMWARE_VERSION_MAJOR c, FIRMWARE_VERSION_MINOR c, FIRMWARE_VERSION_PATCH c,
      FIRMWARE_BUILD_TYPE c] @ le32 0 @
     le32 (case nextPart of Some sz \<Rightarrow> sz | None \<Rightarrow> 0) @ [100, 0, 0, 0]"

text \<open>\<open>None\<close> is the call through the null protocol handler, which this operation does not check.\<close>

definition handleInfoRequest :: "ota_cfg \<Rightarrow> u32 option \<Rightarrow> ota \<Rightarrow> out_msg list option" where
  "handleInfoRequest c nextPart s =
     (if \<not> o_protocolHandler s then None
      else Some [(MSG_OTA_INFO_RESP, enc_firmware_info c nextPart, False)])"

definition ota_reject :: "ota \<Rightarrow> 'u \<Rightarrow> ota_error \<Rightarrow> bool \<times> ota \<times> 'u \<times> out_msg list" where
  "ota_reject s u e = (False, s\<lparr>o_lastError := e\<rparr>, u, sendStatus s 0x01 e)"

definition handleStart ::
  "ota_cfg \<Rightarrow> 'u update_api \<Rightarrow> u32 option \<Rightarrow> u32 \<Rightarrow> bytes \<Rightarrow> ota \<Rightarrow> 'u \<Rightarrow>
   bool \<times> ota \<times> 'u \<times> out_msg list" where
  "handleStart c api nextPart now payload s u =
     (if o_state s \<noteq> OTA_IDLE then ota_reject s u OE_INVALID_STATE
      else if length payload < 14 then ota_reject s u OE_INVALID_STATE
      else
        let d = dec_ota_start payload;
            s = s\<lparr>o_expectedSize := os_totalSize d, o_expectedCRC := os_expectedCrc d,
                  o_newMajor := os_newMajor d, o_newMinor := os_newMinor d,
                  o_newPatch := os_newPatch d, o_expectedChunks := os_totalChunks d\<rparr>
        in if \<not> checkBatteryLevel c then ota_reject s u OE_LOW_BATTERY
           else if \<not> validateVersion c (o_newMajor s) (o_newMinor s) (o_newPatch s)
           then ota_reject s u OE_VERSION_REJECTED
           else case nextPart of
               None \<Rightarrow> ota_reject s u OE_NO_PARTITION
             | Some sz \<Rightarrow>
                 if o_expectedSize s > sz then ota_reject s u OE_TOO_LARGE
                 else
                   let (began, u) = u_begin api u (o_expectedSize s)
                   in if \<not> began then ota_reject s u OE_BEGIN_FAILED
                      else
                        let s = s\<lparr>o_state := OTA_RECEIVING, o_receivedSize := 0,
                              o_receivedChunks := 0, o_runningCRC := 0xFFFFFFFF,
                              o_startTime := now, o_lastChunkTime := now, o_lastError := OE_NONE\<rparr>
                        in (True, s, u, sendStatus s 0x00 OE_NONE))"

definition ota_updateCRC :: "bytes \<Rightarrow> ota \<Rightarrow> ota" where
  "ota_updateCRC data s = s\<lparr>o_runningCRC := foldl crc32_byte (o_runningCRC s) data\<rparr>"

definition handleData ::
  "'u update_api \<Rightarrow> u32 \<Rightarrow> u16 \<Rightarrow> bytes \<Rightarrow> ota \<Rightarrow> 'u \<Rightarrow> bool \<times> ota \<times> 'u \<times> out_msg list" where
  "handleData api now chunkIndex payload s u =
     (if o_state s \<noteq> OTA_RECEIVING then (False, s, u, sendChunkAck s chunkIndex False)
      else if chunkIndex \<noteq> o_receivedChunks s
      then (False, s\<lparr>o_lastError := OE_CHUNK_OUT_OF_ORDER\<rparr>, u, sendChunkAck s (o_receivedChunks s) False)
      else
        let (written, u) = u_write api u payload
        in if written \<noteq> length payload
           then (False, s\<lparr>o_lastError := OE_WRITE_FAILED\<rparr>, u, sendChunkAck s chunkIndex False)
           else
             let s = ota_updateCRC payload s;
                 s = s\<lparr>o_receivedSize := o_receivedSize s + word_of_nat (length payload),
                       o_receivedChunks := o_receivedChunks s + 1, o_lastChunkTime := now\<rparr>
             in (True, s, u, sendChunkAck s chunkIndex True))"

text \<open>
  A successful commit ends in the restart of the chip: the state \<open>OTA_REBOOTING\<close> is what the
  restart finds.
\<close>

definition handleCommit :: "'u update_api \<Rightarrow> ota \<Rightarrow> 'u \<Rightarrow> bool \<times> ota \<times> 'u \<times> out_msg list" where
  "handleCommit api s u =
     (if o_state s \<noteq> OTA_RECEIVING then ota_reject s u OE_INVALID_STATE
      else
        let s = s\<lparr>o_state := OTA_VALIDATING\<rparr>
        in if o_receivedSize s \<noteq> o_expectedSize s
           then ota_reject (s\<lparr>o_state := OTA_FAILED\<rparr>) (u_abort api u) OE_SIZE_MISMATCH
           else
             let finalCRC = NOT (o_runningCRC s)
             in if finalCRC \<noteq> o_expectedCRC s
                then ota_reject (s\<lparr>o_state := OTA_FAILED\<rparr>) (u_abort api u) OE_CRC_MISMATCH
                else
                  let s = s\<lparr>o_state := OTA_COMMITTING\<rparr>;
                      (ended, u) = u_end api u
                  in if \<not> ended then ota_reject (s\<lparr>o_state := OTA_FAILED\<rparr>) u OE_COMMIT_FAILED
                     else (True, s\<lparr>o_state := OTA_REBOOTING\<rparr>, u, sendStatus s 0x00 OE_NONE))"

definition handleAbort :: "'u update_api \<Rightarrow> ota \<Rightarrow> 'u \<Rightarrow> ota \<times> 'u \<times> out_msg list" where
  "handleAbort api s u =
     (if o_state s = OTA_IDLE then (s, u, [])
      else
        let u = u_abort api u;
            s = s\<lparr>o_state := OTA_IDLE, o_receivedSize := 0, o_receivedChunks := 0,
                  o_lastError := OE_NONE\<rparr>
        in (s, u, sendStatus s 0x00 OE_NONE))"

definition checkTimeout :: "ota_cfg \<Rightarrow> u32 \<Rightarrow> ota \<Rightarrow> bool" where
  "checkTimeout c now s =
     (if o_state s \<noteq> OTA_RECEIVING then False
      else now - o_lastChunkTime s > OTA_CHUNK_TIMEOUT_MS c)"

definition ota_update ::
  "ota_cfg \<Rightarrow> 'u update_api \<Rightarrow> u32 \<Rightarrow> ota \<Rightarrow> 'u \<Rightarrow> ota \<times> 'u \<times> out_msg list" where
  "ota_update c api now s u =
     (if \<not> o_initialized s then (s, u, [])
      else if o_state s = OTA_RECEIVING \<and> checkTimeout c now s then
        (let (s, u, ms) = handleAbort api s u in (s\<lparr>o_lastError := OE_TIMEOUT\<rparr>, u, ms))
      else (s, u, []))"

definition getStateName :: "ota \<Rightarrow> string" where
  "getStateName s = (case o_state s of
      OTA_IDLE \<Rightarrow> ''IDLE'' | OTA_RECEIVING \<Rightarrow> ''RECEIVING'' | OTA_VALIDATING \<Rightarrow> ''VALIDATING''
    | OTA_COMMITTING \<Rightarrow> ''COMMITTING'' | OTA_REBOOTING \<Rightarrow> ''REBOOTING'' | OTA_FAILED \<Rightarrow> ''FAILED'')"

definition getProgress :: "ota \<Rightarrow> u8" where
  "getProgress s =
     (if o_expectedChunks s = 0 then 0
      else word_of_nat ((unat (o_receivedChunks s) * 100) div unat (o_expectedChunks s)))"

section \<open>Confirming a booted image\<close>

datatype ota_img_state = ESP_OTA_IMG_NEW | ESP_OTA_IMG_PENDING_VERIFY | ESP_OTA_IMG_VALID
  | ESP_OTA_IMG_INVALID | ESP_OTA_IMG_ABORTED | ESP_OTA_IMG_UNDEFINED

text \<open>
  What the self-test measures. \<open>st_probe\<close> is the sensor's answer to the given attempt: its
  identifier, or nothing if it is not present; the two partition sizes are missing if the
  partition is; \<open>st_nvs\<close> is the value written and the value read back, if the namespace opened.
\<close>

record self_test_env =
  st_sensor :: bool
  st_probe :: "nat \<Rightarrow> u16 option"
  st_freeHeap :: nat
  st_largestBlock :: nat
  st_running :: "nat option"
  st_next :: "nat option"
  st_nvs :: "(u32 \<times> u32) option"
  st_led :: bool
  st_storage :: bool
  st_duration :: u32

record self_test_result =
  sr_ok :: bool
  sr_pass :: nat
  sr_warn :: nat
  sr_fail :: nat

definition sr_passed :: "self_test_result \<Rightarrow> self_test_result" where
  "sr_passed r = r\<lparr>sr_pass := sr_pass r + 1\<rparr>"

definition sr_warned :: "self_test_result \<Rightarrow> self_test_result" where
  "sr_warned r = r\<lparr>sr_warn := sr_warn r + 1\<rparr>"

definition sr_failed :: "self_test_result \<Rightarrow> self_test_result" where
  "sr_failed r = r\<lparr>sr_ok := False, sr_fail := sr_fail r + 1\<rparr>"

fun sensor_found :: "(nat \<Rightarrow> u16 option) \<Rightarrow> nat \<Rightarrow> nat \<Rightarrow> bool" where
  "sensor_found probe attempt 0 = False"
| "sensor_found probe attempt (Suc remaining) =
     (case probe attempt of
        Some sensorId \<Rightarrow> if sensorId \<noteq> 0 then True else sensor_found probe (attempt + 1) remaining
      | None \<Rightarrow> sensor_found probe (attempt + 1) remaining)"

definition performSelfTest :: "ota_cfg \<Rightarrow> self_test_env \<Rightarrow> self_test_result" where
  "performSelfTest c env =
     (let r = \<lparr>sr_ok = True, sr_pass = 0, sr_warn = 0, sr_fail = 0\<rparr>;
          r = (if st_sensor env
               then if sensor_found (st_probe env) 1 (SENSOR_CHECK_RETRIES c)
                    then sr_passed r else sr_warned r
               else sr_failed r);
          r = (if st_freeHeap env \<ge> 50000 \<and> st_largestBlock env \<ge> 20000
               then sr_passed r else sr_failed r);
          r = (case (st_running env, st_next env) of
                 (Some run, Some nxt) \<Rightarrow>
                   if run \<ge> 0x100000 \<and> nxt \<ge> 0x100000 then sr_passed r else sr_failed r
               | _ \<Rightarrow> sr_failed r);
          r = (case st_nvs env of
                 Some (testValue, readValue) \<Rightarrow>
                   if readValue = testValue then sr_passed r else sr_failed r
               | None \<Rightarrow> sr_failed r);
          r = (if st_led env then sr_passed r else sr_warned r);
          r = (if st_storage env then sr_passed r else sr_failed r)
      in if st_duration env < SELF_TEST_TIMEOUT_MS c then sr_passed r else sr_passed r)"

text \<open>
  \<open>Returned\<close> is a normal return, \<open>Rollback\<close> the call that marks the image invalid and
  reboots into the previous one (or, if that fails, the loop that never ends). The middle
  component says whether the rollback was cancelled.
\<close>

datatype boot_verdict = Returned bool bool | Rollback

definition validateBootedFirmware ::
  "ota_cfg \<Rightarrow> bool \<Rightarrow> ota_img_state option \<Rightarrow> self_test_env \<Rightarrow> bool \<Rightarrow> boot_verdict" where
  "validateBootedFirmware c running imgState env markOk =
     (if \<not> running then Returned False False
      else case imgState of
          None \<Rightarrow> Returned True False
        | Some otaState \<Rightarrow>
            if otaState = ESP_OTA_IMG_PENDING_VERIFY then
              if sr_ok (performSelfTest c env) then
                if markOk then Returned True True else Returned False False
              else Rollback
            else Returned True False)"

section \<open>The transfer invariant\<close>

text \<open>
  \<open>img\<close> is the concatenation of the accepted chunks. While the transfer is on, the counters and
  the checksum are those of \<open>img\<close>, and so is the staged image unless a write error is pending.
\<close>

definition ota_inv ::
  "('u \<Rightarrow> bytes) \<Rightarrow> ('u \<Rightarrow> bool) \<Rightarrow> bytes list \<Rightarrow> ota \<Rightarrow> 'u \<Rightarrow> bool" where
  "ota_inv staged broken cs s u \<longleftrightarrow>
     (o_state s = OTA_RECEIVING \<longrightarrow>
        o_receivedSize s = word_of_nat (length (concat cs)) \<and>
        o_receivedChunks s = word_of_nat (length cs) \<and>
        NOT (o_runningCRC s) = calculateCRC32 (concat cs) \<and>
        (broken u \<or> staged u = concat cs)) \<and>
     o_state s \<notin> {OTA_VALIDATING, OTA_COMMITTING}"

datatype ota_input = OI_start "u32 option" u32 bytes | OI_data u32 u16 bytes | OI_commit | OI_abort
  | OI_tick u32

text \<open>One call of the manager; the last component is the chunks accepted so far.\<close>

fun ota_step :: "ota_cfg \<Rightarrow> 'u update_api \<Rightarrow> ota_input \<Rightarrow> ota \<times> 'u \<times> bytes list \<Rightarrow> ota \<times> 'u \<times> bytes list" where
  "ota_step c api (OI_start nextPart now payload) (s, u, cs) =
     (let (ok, s, u, _) = handleStart c api nextPart now payload s u
      in (s, u, if ok then [] else cs))"
| "ota_step c api (OI_data now i payload) (s, u, cs) =
     (let (ok, s, u, _) = handleData api now i payload s u
      in (s, u, if ok then cs @ [payload] else cs))"
| "ota_step c api OI_commit (s, u, cs) = (let (_, s, u, _) = handleCommit api s u in (s, u, cs))"
| "ota_step c api OI_abort (s, u, cs) = (let (s, u, _) = handleAbort api s u in (s, u, cs))"
| "ota_step c api (OI_tick now) (s, u, cs) = (let (s, u, _) = ota_update c api now s u in (s, u, cs))"

definition ota_run :: "ota_cfg \<Rightarrow> 'u update_api \<Rightarrow> ota_input list \<Rightarrow> ota \<times> 'u \<times> bytes list \<Rightarrow> ota \<times> 'u \<times> bytes list" where
  "ota_run c api is x = fold (ota_step c api) is x"

lemma crc32_empty: "NOT (0xFFFFFFFF :: u32) = calculateCRC32 []"
  by (simp add: calculateCRC32_def)

lemma handleStart_ok:
  assumes "handleStart c api nextPart now payload s u = (True, s1, u1, ms)"
  defines "d \<equiv> dec_ota_start payload"
  shows "u1 = snd (u_begin api u (os_totalSize d))" "fst (u_begin api u (os_totalSize d))"
    "o_state s = OTA_IDLE" "o_state s1 = OTA_RECEIVING" "o_receivedSize s1 = 0"
    "o_receivedChunks s1 = 0" "o_runningCRC s1 = 0xFFFFFFFF" "o_expectedSize s1 = os_totalSize d"
    "o_expectedCRC s1 = os_expectedCrc d" "length payload \<ge> 14"
    "validateVersion c (os_newMajor d) (os_newMinor d) (os_newPatch d)"
    "\<exists>sz. nextPart = Some sz \<and> os_totalSize d \<le> sz"
  using assms(1)
  by (auto simp: handleStart_def ota_reject_def Let_def d_def split: if_splits option.splits prod.splits)

lemma handleStart_fail:
  assumes "handleStart c api nextPart now payload s u = (False, s1, u1, ms)"
  shows "o_state s1 = o_state s"
    and "o_state s \<noteq> OTA_IDLE \<Longrightarrow> u1 = u \<and> s1 = s\<lparr>o_lastError := OE_INVALID_STATE\<rparr>"
  using assms
  by (auto simp: handleStart_def ota_reject_def Let_def split: if_splits option.splits prod.splits)

lemma handleData_ok:
  assumes "handleData api now i payload s u = (True, s1, u1, ms)"
  shows "u1 = snd (u_write api u payload)" "fst (u_write api u payload) = length payload"
    "o_state s = OTA_RECEIVING" "i = o_receivedChunks s"
    "s1 = s\<lparr>o_runningCRC := foldl crc32_byte (o_runningCRC s) payload,
            o_receivedSize := o_receivedSize s + word_of_nat (length payload),
            o_receivedChunks := o_receivedChunks s + 1, o_lastChunkTime := now\<rparr>"
  using assms by (auto simp: handleData_def ota_updateCRC_def Let_def split: if_splits prod.splits)

lemma handleData_fail:
  assumes "handleData api now i payload s u = (False, s1, u1, ms)"
  shows "\<exists>e. s1 = s\<lparr>o_lastError := e\<rparr>"
    and "u1 = u \<or> u1 = snd (u_write api u payload) \<and> fst (u_write api u payload) \<noteq> length payload"
  using assms
  by (auto simp: handleData_def ota_updateCRC_def Let_def split: if_splits prod.splits intro: exI [of _ "o_lastError s"])

lemma handleCommit_cases:
  assumes "handleCommit api s u = (ok, s1, u1, ms)"
  shows "ok \<Longrightarrow> o_state s = OTA_RECEIVING \<and> o_state s1 = OTA_REBOOTING \<and>
      o_receivedSize s = o_expectedSize s \<and> NOT (o_runningCRC s) = o_expectedCRC s \<and>
      fst (u_end api u) \<and> u1 = snd (u_end api u)"
    and "\<not> ok \<Longrightarrow> o_state s1 = (if o_state s = OTA_RECEIVING then OTA_FAILED else o_state s) \<and>
      (u1 = u \<or> u1 = u_abort api u \<or> u1 = snd (u_end api u) \<and> \<not> fst (u_end api u))"
  using assms
  by (auto simp: handleCommit_def ota_reject_def Let_def split: if_splits prod.splits)

lemma handleAbort_state:
  assumes "handleAbort api s u = (s1, u1, ms)"
  shows "o_state s1 = OTA_IDLE" "u1 = u \<or> u1 = u_abort api u"
  using assms by (auto simp: handleAbort_def Let_def split: if_splits)

lemma ota_inv_idle: "o_state s \<in> {OTA_IDLE, OTA_FAILED, OTA_REBOOTING} \<Longrightarrow> ota_inv staged broken cs s u"
  by (auto simp: ota_inv_def)

lemma ota_inv_start:
  assumes api: "update_ok api staged broken committed" and inv: "ota_inv staged broken cs s u"
    and run: "handleStart c api nextPart now payload s u = (ok, s1, u1, ms)"
  shows "ota_inv staged broken (if ok then [] else cs) s1 u1"
proof (cases ok)
  case True
  then have ok: "handleStart c api nextPart now payload s u = (True, s1, u1, ms)" using run by simp
  note h = handleStart_ok [OF ok]
  show ?thesis
    using True h(1,4-7) update_okD(1) [OF api h(2)] crc32_empty
    by (simp add: ota_inv_def)
next
  case False
  then have fail: "handleStart c api nextPart now payload s u = (False, s1, u1, ms)" using run by simp
  show ?thesis
  proof (cases "o_state s = OTA_IDLE")
    case True
    then show ?thesis using handleStart_fail(1) [OF fail] by (intro ota_inv_idle) simp
  next
    case idle: False
    then show ?thesis using handleStart_fail(2) [OF fail] inv False by (simp add: ota_inv_def)
  qed
qed

lemma ota_inv_data:
  assumes api: "update_ok api staged broken committed" and inv: "ota_inv staged broken cs s u"
    and run: "handleData api now i payload s u = (ok, s1, u1, ms)"
  shows "ota_inv staged broken (if ok then cs @ [payload] else cs) s1 u1"
proof (cases ok)
  case True
  then have ok: "handleData api now i payload s u = (True, s1, u1, ms)" using run by simp
  note h = handleData_ok [OF ok]
  have r: "o_receivedSize s = word_of_nat (length (concat cs))"
    "o_receivedChunks s = word_of_nat (length cs)"
    "NOT (o_runningCRC s) = calculateCRC32 (concat cs)" "broken u \<or> staged u = concat cs"
    using inv h(3) by (simp_all add: ota_inv_def)
  have "o_runningCRC s = foldl crc32_byte 0xFFFFFFFF (concat cs)"
    using r(3) by (simp add: calculateCRC32_def)
  moreover have "broken u1 \<or> staged u1 = concat cs @ payload"
    using r(4) update_okD(3) [OF api h(2)] update_okD(5) [OF api, of u payload] h(1) by auto
  ultimately show ?thesis
    using True h(3,5) r(1,2) by (simp add: ota_inv_def calculateCRC32_def)
next
  case False
  then have fail: "handleData api now i payload s u = (False, s1, u1, ms)" using run by simp
  obtain e where e: "s1 = s\<lparr>o_lastError := e\<rparr>" using handleData_fail(1) [OF fail] by blast
  have "u1 = u \<or> broken u1" using handleData_fail(2) [OF fail] update_okD(4) [OF api] by auto
  then show ?thesis using inv False e by (auto simp: ota_inv_def)
qed

lemma ota_inv_step:
  assumes "update_ok api staged broken committed" "ota_inv staged broken cs s u"
    "ota_step c api i (s, u, cs) = (s1, u1, cs1)"
  shows "ota_inv staged broken cs1 s1 u1"
proof (cases i)
  case (OI_start nextPart now payload)
  then show ?thesis
    using assms ota_inv_start [OF assms(1,2)] by (auto simp: Let_def split: prod.splits)
next
  case (OI_data now k payload)
  then show ?thesis
    using assms ota_inv_data [OF assms(1,2)] by (auto simp: Let_def split: prod.splits)
next
  case OI_commit
  obtain ok ms where "handleCommit api s u = (ok, s1, u1, ms)" "cs1 = cs"
    using assms(3) OI_commit by (auto simp: Let_def split: prod.splits)
  then show ?thesis
    using handleCommit_cases [of api s u ok s1 u1 ms] assms(2)
    by (cases ok; cases "o_state s") (auto simp: ota_inv_def)
next
  case OI_abort
  then show ?thesis
    using assms(3) handleAbort_state [of api s u] by (intro ota_inv_idle) (auto split: prod.splits)
next
  case (OI_tick now)
  then show ?thesis
    using assms(2,3) handleAbort_state [of api s u]
    by (auto simp: ota_update_def ota_inv_idle split: if_splits prod.splits)
qed

lemma ota_inv_run:
  assumes api: "update_ok api staged broken committed"
  shows "ota_inv staged broken cs s u \<Longrightarrow> ota_run c api is (s, u, cs) = (s1, u1, cs1) \<Longrightarrow>
    ota_inv staged broken cs1 s1 u1"
  unfolding ota_run_def
proof (induction "is" arbitrary: s u cs)
  case (Cons i "is")
  obtain s2 u2 cs2 where st: "ota_step c api i (s, u, cs) = (s2, u2, cs2)" by (metis prod_cases3)
  then show ?case using Cons ota_inv_step [OF api Cons.prems(1) st] by simp
qed simp

section \<open>A transfer that goes through\<close>

definition update_reliable :: "'u update_api \<Rightarrow> ('u \<Rightarrow> bytes) \<Rightarrow> ('u \<Rightarrow> bool) \<Rightarrow> bool" where
  "update_reliable api staged broken \<longleftrightarrow>
     (\<forall>u n. fst (u_begin api u n)) \<and>
     (\<forall>u bs. \<not> broken u \<longrightarrow> fst (u_write api u bs) = length bs \<and>
        \<not> broken (snd (u_write api u bs)) \<and> staged (snd (u_write api u bs)) = staged u @ bs) \<and>
     (\<forall>u. \<not> broken u \<longrightarrow> fst (u_end api u))"

lemma list_update_reliable: "update_reliable list_update_api (\<lambda>u. fst u) (\<lambda>u. fst (snd u))"
  by (auto simp: update_reliable_def list_update_api_def)

text \<open>The data messages of an image cut into chunks, numbered from \<open>k\<close>.\<close>

fun data_msgs :: "u32 \<Rightarrow> nat \<Rightarrow> bytes list \<Rightarrow> ota_input list" where
  "data_msgs now k [] = []"
| "data_msgs now k (c # cs) = OI_data now (word_of_nat k) c # data_msgs now (Suc k) cs"

lemma data_run:
  assumes rel: "update_reliable api staged broken"
  shows "o_state s = OTA_RECEIVING \<Longrightarrow> o_receivedChunks s = word_of_nat (length done') \<Longrightarrow>
    \<not> broken u \<Longrightarrow> staged u = concat done' \<Longrightarrow>
    \<exists>s1 u1. ota_run c api (data_msgs now (length done') cs) (s, u, done') = (s1, u1, done' @ cs) \<and>
      o_state s1 = OTA_RECEIVING \<and> \<not> broken u1 \<and> staged u1 = concat (done' @ cs) \<and>
      o_expectedSize s1 = o_expectedSize s \<and> o_expectedCRC s1 = o_expectedCRC s"
proof (induction cs arbitrary: s u done')
  case Nil
  then show ?case by (simp add: ota_run_def)
next
  case (Cons x cs)
  let ?u = "snd (u_write api u x)"
  let ?s = "s\<lparr>o_runningCRC := foldl crc32_byte (o_runningCRC s) x,
            o_receivedSize := o_receivedSize s + word_of_nat (length x),
            o_receivedChunks := o_receivedChunks s + 1, o_lastChunkTime := now\<rparr>"
  have w: "fst (u_write api u x) = length x" "\<not> broken ?u" "staged ?u = staged u @ x"
    using rel Cons.prems(3) by (simp_all add: update_reliable_def)
  have step: "ota_step c api (OI_data now (word_of_nat (length done')) x) (s, u, done') =
      (?s, ?u, done' @ [x])"
    using Cons.prems w(1) by (simp add: handleData_def ota_updateCRC_def Let_def split_def)
  have "\<exists>s1 u1. ota_run c api (data_msgs now (length (done' @ [x])) cs) (?s, ?u, done' @ [x]) =
      (s1, u1, (done' @ [x]) @ cs) \<and> o_state s1 = OTA_RECEIVING \<and> \<not> broken u1 \<and>
      staged u1 = concat ((done' @ [x]) @ cs) \<and> o_expectedSize s1 = o_expectedSize ?s \<and>
      o_expectedCRC s1 = o_expectedCRC ?s"
    using Cons.prems w by (intro Cons.IH) simp_all
  then show ?case using step by (simp add: ota_run_def)
qed

section \<open>Properties\<close>


definition demo_ota_cfg :: ota_cfg where
  "demo_ota_cfg = \<lparr>FIRMWARE_VERSION_MAJOR = 1, FIRMWARE_VERSION_MINOR = 2,
     FIRMWARE_VERSION_PATCH = 3, FIRMWARE_BUILD_TYPE = 0, MIN_BATTERY_PERCENT = 20,
     OTA_CHUNK_TIMEOUT_MS = 30000, SELF_TEST_TIMEOUT_MS = 10000, SENSOR_CHECK_RETRIES = 5\<rparr>"

definition demo_start :: "u32 \<Rightarrow> bytes" where
  "demo_start crc = le32 3 @ le32 crc @ [1, 3, 0] @ le16 2 @ [0]"

lemma dec_demo_start [simp]:
  "os_totalSize (dec_ota_start (demo_start crc)) = 3"
  "os_expectedCrc (dec_ota_start (demo_start crc)) = crc"
  "os_newMajor (dec_ota_start (demo_start crc)) = 1" "os_newMinor (dec_ota_start (demo_start crc)) = 3"
  "os_newPatch (dec_ota_start (demo_start crc)) = 0" "length (demo_start crc) = 14"
  by (simp_all add: dec_ota_start_def demo_start_def le32_def le16_def)
    (simp_all flip: One_nat_def add: rd_le32_def rd_be32_def)

text \<open>
  C25: a transfer that goes through is installed. With flash that takes every write, a start
  message that passes the checks, the chunks of the image in order (fewer than 65536) and a commit end
  with exactly that image committed and the chip about to restart.
\<close>

theorem ota_transfer_completes:
  assumes ok: "update_ok api staged broken committed" and rel: "update_reliable api staged broken"
    and s: "o_state s = OTA_IDLE" and len: "length payload \<ge> 14"
    and d: "d = dec_ota_start payload"
    and chk: "checkBatteryLevel c" "validateVersion c (os_newMajor d) (os_newMinor d) (os_newPatch d)"
      "nextPart = Some sz" "os_totalSize d \<le> sz"
    and img: "os_totalSize d = word_of_nat (length (concat cs))"
      "os_expectedCrc d = calculateCRC32 (concat cs)"
  shows "\<exists>s1 u1 s2 u2 ms. ota_run c api (OI_start nextPart now payload # data_msgs now 0 cs) (s, u, []) =
      (s1, u1, cs) \<and> handleCommit api s1 u1 = (True, s2, u2, ms) \<and>
    committed u2 = Some (concat cs) \<and> o_state s2 = OTA_REBOOTING"
proof -
  have b: "fst (u_begin api u (os_totalSize d))" using rel by (simp add: update_reliable_def)
  then obtain u0 where ub: "u_begin api u (os_totalSize d) = (True, u0)" by (cases "u_begin api u (os_totalSize d)") auto
  have "\<exists>s0 ms0. handleStart c api nextPart now payload s u = (True, s0, u0, ms0)"
    using s len chk ub unfolding d by (simp add: handleStart_def Let_def not_less [symmetric])
  then obtain s0 ms0 where start: "handleStart c api nextPart now payload s u = (True, s0, u0, ms0)"
    by blast
  note h = handleStart_ok [OF start]
  have st: "\<not> broken u0" "staged u0 = []" using update_okD(1) [OF ok b] ub by simp_all
  obtain s1 u1 where r: "ota_run c api (data_msgs now 0 cs) (s0, u0, []) = (s1, u1, cs)"
    "o_state s1 = OTA_RECEIVING" "\<not> broken u1" "staged u1 = concat cs"
    "o_expectedSize s1 = o_expectedSize s0" "o_expectedCRC s1 = o_expectedCRC s0"
    using data_run [OF rel h(4), of "[]" u0 c now cs] h(6) st by auto
  have inv: "ota_inv staged broken cs s1 u1"
  proof (rule ota_inv_run [OF ok _ r(1)])
    have "ota_inv staged broken [] s u" using s by (simp add: ota_inv_idle)
    from ota_inv_start [OF ok this start] show "ota_inv staged broken [] s0 u0" by simp
  qed
  have end1: "fst (u_end api u1)" using rel r(3) by (simp add: update_reliable_def)
  have "o_receivedSize s1 = o_expectedSize s1" "NOT (o_runningCRC s1) = o_expectedCRC s1"
    using inv r h(8,9) img d by (simp_all add: ota_inv_def)
  then obtain s2 ms where c: "handleCommit api s1 u1 = (True, s2, snd (u_end api u1), ms)"
      "o_state s2 = OTA_REBOOTING"
    using r(2) end1 by (simp add: handleCommit_def Let_def split_def)
  have "committed (snd (u_end api u1)) = Some (concat cs)"
    using update_okD(7) [OF ok end1] r(4) by simp
  moreover have "ota_run c api (OI_start nextPart now payload # data_msgs now 0 cs) (s, u, []) = (s1, u1, cs)"
    using start r(1) by (simp add: ota_run_def)
  ultimately show ?thesis using c by blast
qed

text \<open>The image \<open>[1, 2, 3]\<close> in two chunks.\<close>

definition demo_inputs :: "ota_input list" where
  "demo_inputs = [OI_start (Some 0x100000) 0 (demo_start (calculateCRC32 [1, 2, 3])),
     OI_data 0 0 [1, 2], OI_data 0 1 [3]]"

lemma demo_checks [simp]: "checkBatteryLevel demo_ota_cfg" "validateVersion demo_ota_cfg 1 3 0"
  by (simp_all add: checkBatteryLevel_def validateVersion_def demo_ota_cfg_def version_word_def)

lemma demo_run:
  obtains s1 s2 ms where
    "ota_run demo_ota_cfg list_update_api demo_inputs (ota_new, ([], False, None), []) =
       (s1, ([1, 2, 3], False, None), [[1, 2], [3]])"
    "handleCommit list_update_api s1 ([1, 2, 3], False, None) = (True, s2, ([1, 2, 3], False, Some [1, 2, 3]), ms)"
    "o_expectedSize s1 = 3" "o_expectedCRC s1 = calculateCRC32 [1, 2, 3]"
proof -
  let ?s = "\<lambda>n k crc. ota_new\<lparr>o_expectedSize := 3, o_expectedCRC := calculateCRC32 [1, 2, 3],
      o_newMajor := 1, o_newMinor := 3, o_newPatch := 0,
      o_expectedChunks := os_totalChunks (dec_ota_start (demo_start (calculateCRC32 [1, 2, 3]))),
      o_state := OTA_RECEIVING, o_receivedSize := n, o_receivedChunks := k, o_runningCRC := crc,
      o_startTime := 0, o_lastChunkTime := 0, o_lastError := OE_NONE\<rparr>"
  have 1: "ota_step demo_ota_cfg list_update_api
      (OI_start (Some 0x100000) 0 (demo_start (calculateCRC32 [1, 2, 3]))) (ota_new, ([], False, None), []) =
      (?s 0 0 0xFFFFFFFF, ([], False, None), [])"
    by (simp add: handleStart_def Let_def list_update_api_def) (simp add: ota_new_def)
  have 2: "ota_step demo_ota_cfg list_update_api (OI_data 0 0 [1, 2]) (?s 0 0 0xFFFFFFFF, ([], False, None), []) =
      (?s 2 1 (foldl crc32_byte 0xFFFFFFFF [1, 2]), ([1, 2], False, None), [[1, 2]])"
    by (simp add: handleData_def ota_updateCRC_def Let_def list_update_api_def)
  have 3: "ota_step demo_ota_cfg list_update_api (OI_data 0 1 [3])
      (?s 2 1 (foldl crc32_byte 0xFFFFFFFF [1, 2]), ([1, 2], False, None), [[1, 2]]) =
      (?s 3 2 (foldl crc32_byte 0xFFFFFFFF [1, 2, 3]), ([1, 2, 3], False, None), [[1, 2], [3]])"
    by (simp add: handleData_def ota_updateCRC_def Let_def list_update_api_def)
  let ?s1 = "?s 3 2 (foldl crc32_byte 0xFFFFFFFF [1, 2, 3])"
  have run: "ota_run demo_ota_cfg list_update_api demo_inputs (ota_new, ([], False, None), []) =
      (?s1, ([1, 2, 3], False, None), [[1, 2], [3]])"
    unfolding ota_run_def demo_inputs_def fold.simps comp_def id_def 1 2 3 ..
  have "\<exists>s2 ms. handleCommit list_update_api ?s1 ([1, 2, 3], False, None) =
      (True, s2, ([1, 2, 3], False, Some [1, 2, 3]), ms)"
    by (simp add: handleCommit_def Let_def list_update_api_def calculateCRC32_def)
  then show thesis using run by (auto intro: that)
qed


theorem ota_transfer_completes_witness:
  "\<exists>s1 u1 s2 u2 ms. ota_run demo_ota_cfg list_update_api
      (OI_start (Some 0x100000) 0 (demo_start (calculateCRC32 [1, 2, 3])) # data_msgs 0 0 [[1, 2], [3]])
      (ota_new, ([], False, None), []) = (s1, u1, [[1, 2], [3]]) \<and>
    handleCommit list_update_api s1 u1 = (True, s2, u2, ms) \<and>
    snd (snd u2) = Some (concat [[1, 2], [3]]) \<and> o_state s2 = OTA_REBOOTING"
  by (rule ota_transfer_completes [OF list_update_ok list_update_reliable _ _ refl, where sz = "0x100000"])
    (simp_all add: ota_new_def)

text \<open>
  A chunk is taken exactly when its index is the next expected one (and the flash takes
  it); any other chunk, a duplicate or a gap, changes nothing but the error code and is answered with a negative acknowledgement that names
  the expected index, so the sender can resume there.
\<close>

theorem ota_chunks_in_order:
  assumes "o_state s = OTA_RECEIVING" "o_protocolHandler s" "i \<noteq> o_receivedChunks s"
  shows "handleData api now i payload s u =
    (False, s\<lparr>o_lastError := OE_CHUNK_OUT_OF_ORDER\<rparr>, u,
     [(MSG_OTA_DATA_ACK, be16 (o_receivedChunks s) @ [0x01], False)])"
  using assms by (simp add: handleData_def sendChunkAck_def)

theorem ota_chunks_in_order_witness:
  "handleData list_update_api 9 5 [1] (ota_new\<lparr>o_state := OTA_RECEIVING, o_protocolHandler := True,
     o_receivedChunks := 2\<rparr>) ([], False, None) =
   (False, ota_new\<lparr>o_state := OTA_RECEIVING, o_protocolHandler := True, o_receivedChunks := 2,
      o_lastError := OE_CHUNK_OUT_OF_ORDER\<rparr>, ([], False, None),
    [(MSG_OTA_DATA_ACK, [0, 2, 1], False)])"
  by (subst ota_chunks_in_order) (simp_all add: be16_def)

text \<open>
  After a failed commit the manager is stuck until it is aborted: no start message, chunk,
  commit or tick leaves \<open>FAILED\<close>, and none of them commits an image; an abort returns to idle.
\<close>

theorem ota_failed_until_abort:
  assumes "o_state s = OTA_FAILED" "i \<noteq> OI_abort"
  shows "o_state (fst (ota_step c api i (s, u, cs))) = OTA_FAILED \<and>
    fst (snd (ota_step c api i (s, u, cs))) = u \<and>
    o_state (fst (ota_step c api OI_abort (s, u, cs))) = OTA_IDLE"
  using assms by (cases i) (simp_all add: handleStart_def handleData_def handleCommit_def
    handleAbort_def ota_update_def ota_reject_def Let_def)

theorem ota_failed_until_abort_witness:
  "o_state (fst (ota_step demo_ota_cfg list_update_api OI_commit
     (ota_new\<lparr>o_state := OTA_FAILED\<rparr>, ([], False, None), []))) = OTA_FAILED"
  by (rule ota_failed_until_abort [THEN conjunct1]) simp_all

lemma unat_u8_less: "unat x < 256" for x :: u8
  using unsigned_less [of x, where 'a = nat] by simp

lemma unat_version_word: "unat (version_word a b d) = unat a * 65536 + unat b * 256 + unat d"
proof -
  have dis: "push_bit 16 (ucast a) OR push_bit 8 (ucast b) OR ucast d =
      push_bit 16 (ucast a) + (push_bit 8 (ucast b) + (ucast d :: u32))"
    by (subst disjunctive_add [symmetric], auto simp: bit_simps)+
  have "version_word a b d = word_of_nat (unat a * 65536 + unat b * 256 + unat d)"
    unfolding version_word_def dis by (simp add: push_bit_eq_mult)
  moreover have "unat a * 65536 + unat b * 256 + unat d < 2 ^ LENGTH(32)"
    using unat_u8_less [of a] unat_u8_less [of b] unat_u8_less [of d] by simp
  ultimately show ?thesis by (simp only: unat_word_of_nat_less)
qed

text \<open>Versions are ordered by major number, then minor, then patch.\<close>

datatype fw_version = Fw_Version u8 u8 u8

fun version_key :: "fw_version \<Rightarrow> nat" where
  "version_key (Fw_Version a b d) = unat (version_word a b d)"

lemma version_key_inject: "version_key v = version_key w \<Longrightarrow> v = w"
proof (cases v; cases w)
  fix a b d a' b' d'
  assume e: "version_key v = version_key w" and v: "v = Fw_Version a b d" and w: "w = Fw_Version a' b' d'"
  have lt: "unat b < 256" "unat d < 256" "unat b' < 256" "unat d' < 256" by (rule unat_u8_less)+
  have eq: "unat a * 65536 + unat b * 256 + unat d = unat a' * 65536 + unat b' * 256 + unat d'"
    using e by (simp only: v w version_key.simps unat_version_word)
  have a: "unat a = unat a'" using lt eq by linarith
  have b: "unat b = unat b'" using lt eq a by linarith
  show "v = w" using eq a b by (simp add: v w word_unat_eq_iff)
qed

instantiation fw_version :: linorder
begin

definition less_eq_fw_version :: "fw_version \<Rightarrow> fw_version \<Rightarrow> bool" where
  "less_eq_fw_version v w \<longleftrightarrow> version_key v \<le> version_key w"

definition less_fw_version :: "fw_version \<Rightarrow> fw_version \<Rightarrow> bool" where
  "less_fw_version v w \<longleftrightarrow> version_key v < version_key w"

instance
  by standard (auto simp: less_eq_fw_version_def less_fw_version_def intro: version_key_inject)

end

lemma version_less_eq:
  "Fw_Version a b d \<le> Fw_Version a' b' d' \<longleftrightarrow> a < a' \<or> a = a' \<and> (b < b' \<or> b = b' \<and> d \<le> d')"
proof -
  have "unat b < 256" "unat d < 256" "unat b' < 256" "unat d' < 256" by (rule unat_u8_less)+
  then have "Fw_Version a b d \<le> Fw_Version a' b' d' \<longleftrightarrow> unat a < unat a' \<or>
      unat a = unat a' \<and> (unat b < unat b' \<or> unat b = unat b' \<and> unat d \<le> unat d')"
    by (auto simp: less_eq_fw_version_def unat_version_word not_less)
  then show ?thesis by (simp add: word_less_nat_alt word_le_nat_alt word_unat_eq_iff)
qed

text \<open>
  The version check compares versions lexicographically: outside debug builds exactly the
  images that are not older than the running one are accepted; so an image is refused
  exactly if the running one is newer.
\<close>

theorem version_check_lexicographic:
  assumes "FIRMWARE_BUILD_TYPE c \<noteq> 2"
  shows "validateVersion c a b d \<longleftrightarrow>
    FIRMWARE_VERSION_MAJOR c < a \<or>
    FIRMWARE_VERSION_MAJOR c = a \<and> (FIRMWARE_VERSION_MINOR c < b \<or>
      FIRMWARE_VERSION_MINOR c = b \<and> FIRMWARE_VERSION_PATCH c \<le> d)"
proof -
  let ?run = "Fw_Version (FIRMWARE_VERSION_MAJOR c) (FIRMWARE_VERSION_MINOR c) (FIRMWARE_VERSION_PATCH c)"
  have "validateVersion c a b d \<longleftrightarrow> ?run \<le> Fw_Version a b d"
    using assms by (simp add: validateVersion_def Let_def not_less word_le_nat_alt less_eq_fw_version_def)
  then show ?thesis by (simp add: version_less_eq)
qed

theorem version_check_lexicographic_witness:
  "validateVersion demo_ota_cfg 1 2 4 \<and> \<not> validateVersion demo_ota_cfg 1 1 255"
  using version_check_lexicographic [of demo_ota_cfg 1 2 4] version_check_lexicographic [of demo_ota_cfg 1 1 255]
  by (simp add: demo_ota_cfg_def)

definition self_test_required :: "self_test_env \<Rightarrow> bool" where
  "self_test_required env \<longleftrightarrow> st_sensor env \<and>
     50000 \<le> st_freeHeap env \<and> 20000 \<le> st_largestBlock env \<and>
     (\<exists>r n. st_running env = Some r \<and> st_next env = Some n \<and> 0x100000 \<le> r \<and> 0x100000 \<le> n) \<and>
     (\<exists>v. st_nvs env = Some (v, v)) \<and> st_storage env"

text \<open>
  Which images the self-test confirms. A new image is confirmed, and its rollback
  cancelled, exactly if the sensor driver exists, the heap is large enough, both
  partitions have at least 1 MiB, NVS reads back what it wrote and the storage layer is ready;
  whether the sensor answers, whether the LED works and how long the test took do not matter,
  although a time limit is configured. If a test fails, the image is rolled back.
\<close>

theorem self_test_verdict:
  "sr_ok (performSelfTest c env) = self_test_required env \<and>
   validateBootedFirmware c True (Some ESP_OTA_IMG_PENDING_VERIFY) env True =
     (if self_test_required env then Returned True True else Rollback)"
proof -
  have "sr_ok (performSelfTest c env) = self_test_required env"
    by (simp add: performSelfTest_def Let_def self_test_required_def sr_passed_def sr_warned_def
        sr_failed_def split: option.split prod.split)
  then show ?thesis by (simp add: validateBootedFirmware_def)
qed

end
