(* ===== verification/Fw_Ble.thy ===== *)
theory Fw_Ble
  imports Fw_Prelude
begin

text \<open>
  \<open>BLEManager\<close> (\<open>src/src/Services/BLEManager.cpp\<close>): connection, subscription, the gate on
  unencrypted writes, the pairing windows, the ghost-bond counter in RTC memory and the
  notifications. The NimBLE stack is not part of the repository: what the firmware asks of
  it, and what it tells its event handler, is the list of \<open>ble_out\<close> actions that an
  operation returns; the number of stored bonds is an argument.
\<close>

datatype ble_out =
    EV_connect u16 | EV_disconnect u16 nat | EV_data bytes | EV_auth bool | EV_bonded bool
  | EV_subscribe bool
  | ST_adv_start | ST_adv_stop | ST_security u16 | ST_disconnect u16 | ST_update_params u16
  | ST_notify bytes | ST_indicate bytes | ST_service_changed bytes | ST_delete_bond nat

record conn_desc =
  cd_handle :: u16
  cd_bonded :: bool
  cd_encrypted :: bool

record ble =
  b_eventHandler :: bool
  b_historyService :: bool
  b_initialized :: bool
  b_deviceConnected :: bool
  b_pairingModeEnabled :: bool
  b_subscribed :: bool
  b_currentConnHandle :: u16
  b_connectionStartTime :: u32
  b_pairingModeStartTime :: u32
  b_securityRequested :: bool
  b_paramsNeedUpdate :: bool
  b_paramsUpdated :: bool
  b_bootPairingWindowActive :: bool
  b_bootTime :: u32
  b_ghostFailures :: u8
  b_ghostMagic :: u32

definition GHOST_BOND_MAGIC :: u32 where "GHOST_BOND_MAGIC = 0xDEAD8008"

text \<open>The constructor; the ghost-bond counter and its magic are whatever RTC memory holds.\<close>

definition ble_new :: "u8 \<Rightarrow> u32 \<Rightarrow> ble" where
  "ble_new failures magic =
     \<lparr>b_eventHandler = False, b_historyService = False, b_initialized = False,
      b_deviceConnected = False, b_pairingModeEnabled = False, b_subscribed = False,
      b_currentConnHandle = 0xFFFF, b_connectionStartTime = 0, b_pairingModeStartTime = 0,
      b_securityRequested = False, b_paramsNeedUpdate = False, b_paramsUpdated = False,
      b_bootPairingWindowActive = False, b_bootTime = 0, b_ghostFailures = failures,
      b_ghostMagic = magic\<rparr>"

section \<open>Advertising, pairing, bonds\<close>

definition startAdvertising :: "ble \<Rightarrow> ble_out list" where
  "startAdvertising b =
     (if \<not> b_initialized b then [] else if \<not> b_deviceConnected b then [ST_adv_start] else [])"

definition stopAdvertising :: "ble \<Rightarrow> ble_out list" where
  "stopAdvertising b = (if \<not> b_initialized b then [] else [ST_adv_stop])"

definition enablePairingMode :: "u32 \<Rightarrow> ble \<Rightarrow> ble \<times> ble_out list" where
  "enablePairingMode now b =
     (let b = b\<lparr>b_pairingModeEnabled := True, b_pairingModeStartTime := now\<rparr>
      in (b, startAdvertising b))"

definition disablePairingMode :: "ble \<Rightarrow> ble" where
  "disablePairingMode b = b\<lparr>b_pairingModeEnabled := False\<rparr>"

definition isPairingAllowed :: "nat \<Rightarrow> ble \<Rightarrow> bool" where
  "isPairingAllowed bonds b \<longleftrightarrow> bonds = 0 \<or> b_pairingModeEnabled b"

text \<open>The bonds are deleted from the last index down.\<close>

fun deleteAllBonds :: "nat \<Rightarrow> ble_out list" where
  "deleteAllBonds 0 = []"
| "deleteAllBonds (Suc i) = ST_delete_bond i # deleteAllBonds i"

text \<open>
  \<open>init\<close> after the set-up of the stack. The second component is the bond count it goes on
  with (0 after the ghost-bond recovery deleted them).
\<close>

definition ble_init :: "bool \<Rightarrow> nat \<Rightarrow> u32 \<Rightarrow> ble \<Rightarrow> ble \<times> nat \<times> ble_out list" where
  "ble_init historyService bonds now b =
     (if b_initialized b then (b, bonds, [])
      else
        let b = b\<lparr>b_historyService := historyService\<rparr>;
            b = (if b_ghostMagic b \<noteq> GHOST_BOND_MAGIC
                 then b\<lparr>b_ghostMagic := GHOST_BOND_MAGIC, b_ghostFailures := 0\<rparr> else b);
            b = b\<lparr>b_initialized := True, b_bootPairingWindowActive := True, b_bootTime := now,
                  b_pairingModeEnabled := True\<rparr>;
            (b, bonds, outs) =
              (if bonds > 0 \<and> b_ghostFailures b \<ge> 5
               then (b\<lparr>b_ghostFailures := 0\<rparr>, 0, deleteAllBonds bonds) else (b, bonds, []))
        in (b, bonds, outs @ startAdvertising b))"

definition incrementGhostBondCounter :: "nat \<Rightarrow> ble \<Rightarrow> ble" where
  "incrementGhostBondCounter bonds b =
     (if bonds > 0 \<and> b_ghostMagic b = GHOST_BOND_MAGIC \<and> b_deviceConnected b
      then b\<lparr>b_ghostFailures := b_ghostFailures b + 1\<rparr> else b)"

definition resetGhostBondCounter :: "ble \<Rightarrow> ble" where
  "resetGhostBondCounter b =
     (if b_ghostMagic b = GHOST_BOND_MAGIC \<and> b_ghostFailures b > 0
      then b\<lparr>b_ghostFailures := 0\<rparr> else b)"

section \<open>Connections\<close>

definition notify_handler :: "ble \<Rightarrow> ble_out list \<Rightarrow> ble_out list" where
  "notify_handler b evs = (if b_eventHandler b then evs else [])"

definition onConnectInternal :: "nat \<Rightarrow> u32 \<Rightarrow> conn_desc \<Rightarrow> ble \<Rightarrow> ble \<times> ble_out list" where
  "onConnectInternal bonds now desc b =
     (let b = b\<lparr>b_deviceConnected := True, b_currentConnHandle := cd_handle desc,
                b_connectionStartTime := now\<rparr>;
          adv = stopAdvertising b;
          (b, sec) =
            (if \<not> cd_bonded desc then
               if bonds = 0 then (b\<lparr>b_securityRequested := True\<rparr>, [ST_security (cd_handle desc)])
               else (b, [])
             else (b, []))
      in (b, adv @ sec @ notify_handler b [EV_connect (b_currentConnHandle b)]))"

definition onDisconnectInternal :: "conn_desc option \<Rightarrow> nat \<Rightarrow> ble \<Rightarrow> ble \<times> ble_out list" where
  "onDisconnectInternal desc reason b =
     (let connHandle = (case desc of Some d \<Rightarrow> cd_handle d | None \<Rightarrow> b_currentConnHandle b);
          b = b\<lparr>b_deviceConnected := False, b_subscribed := False, b_securityRequested := False,
                b_currentConnHandle := 0xFFFF, b_paramsNeedUpdate := False, b_paramsUpdated := False\<rparr>
      in (b, notify_handler b [EV_disconnect connHandle reason] @ startAdvertising b))"

definition onAuthenticationComplete :: "nat \<Rightarrow> conn_desc \<Rightarrow> ble \<Rightarrow> ble \<times> ble_out list" where
  "onAuthenticationComplete bonds desc b =
     (if \<not> cd_bonded desc \<and> \<not> cd_encrypted desc then
        if bonds > 0 \<and> \<not> isPairingAllowed bonds b then
          (b, notify_handler b [EV_auth False, EV_bonded False] @ [ST_disconnect (cd_handle desc)] @
              startAdvertising b)
        else (b, notify_handler b [EV_auth False, EV_bonded False])
      else
        let b = (if cd_bonded desc \<and> cd_encrypted desc \<and> b_ghostMagic b = GHOST_BOND_MAGIC \<and>
                   b_ghostFailures b > 0
                 then b\<lparr>b_ghostFailures := 0\<rparr> else b);
            b = b\<lparr>b_paramsNeedUpdate := True\<rparr>
        in (b, notify_handler b [EV_auth (cd_bonded desc), EV_bonded (cd_bonded desc)]))"

definition ble_disconnect :: "nat \<Rightarrow> ble \<Rightarrow> ble_out list" where
  "ble_disconnect connectedCount b =
     (if \<not> b_initialized b \<or> \<not> b_deviceConnected b then []
      else if connectedCount > 0 then [ST_disconnect 0] else [])"

section \<open>Writes and subscriptions\<close>

text \<open>Which characteristic a callback is about.\<close>

datatype characteristic = MainChar | OtaChar | OtherChar

definition isHandshakeMessage :: "bytes \<Rightarrow> bool" where
  "isHandshakeMessage data \<longleftrightarrow>
     length data \<ge> 2 \<and> data ! 0 = 0xA5 \<and>
     (data ! 1 = 0x00 \<or> data ! 1 = 0x02 \<or> data ! 1 = 0x04)"

definition onWrite :: "characteristic \<Rightarrow> bytes \<Rightarrow> conn_desc option \<Rightarrow> ble \<Rightarrow> ble_out list" where
  "onWrite ch data desc b =
     (if data = [] then []
      else case desc of
          Some d \<Rightarrow>
            if \<not> cd_encrypted d \<and> \<not> isHandshakeMessage data then
              (if \<not> cd_bonded d then [ST_security (cd_handle d)] else [])
            else if ch = MainChar \<or> ch = OtaChar then notify_handler b [EV_data data] else []
        | None \<Rightarrow> if ch = MainChar \<or> ch = OtaChar then notify_handler b [EV_data data] else [])"

definition onSubscribe :: "characteristic \<Rightarrow> u16 \<Rightarrow> ble \<Rightarrow> ble \<times> ble_out list" where
  "onSubscribe ch subValue b =
     (if ch = MainChar then
        (let b = b\<lparr>b_subscribed := (subValue > 0)\<rparr>
         in (b, notify_handler b [EV_subscribe (b_subscribed b)]))
      else (b, []))"

definition sendNotification :: "bytes \<Rightarrow> ble \<Rightarrow> bool \<times> ble_out list" where
  "sendNotification data b =
     (if \<not> b_initialized b \<or> \<not> b_deviceConnected b \<or> \<not> b_subscribed b then (False, [])
      else if data = [] then (False, [])
      else (True, [ST_notify data]))"

definition sendIndication :: "bytes \<Rightarrow> ble \<Rightarrow> bool \<times> ble_out list" where
  "sendIndication data b =
     (if \<not> b_initialized b \<or> \<not> b_deviceConnected b \<or> \<not> b_subscribed b then (False, [])
      else if data = [] then (False, [])
      else (True, [ST_indicate data]))"

definition indicateServiceChanged :: "ble \<Rightarrow> ble_out list" where
  "indicateServiceChanged b =
     (if \<not> b_initialized b \<or> \<not> b_deviceConnected b then []
      else [ST_service_changed [0x01, 0x00, 0xFF, 0xFF]])"

definition getConnectionHandle :: "ble \<Rightarrow> u16" where
  "getConnectionHandle b = (if b_deviceConnected b then b_currentConnHandle b else 0xFFFF)"

definition getConnectionDuration :: "u32 \<Rightarrow> ble \<Rightarrow> u32" where
  "getConnectionDuration now b =
     (if \<not> b_deviceConnected b then 0 else now - b_connectionStartTime b)"

section \<open>The periodic update\<close>

text \<open>
  \<open>window\<close> is \<open>Timing::PAIRING_WINDOW_MS\<close>; \<open>found\<close> is the descriptor that the stack finds for the
  current connection.
\<close>

definition ble_update :: "u32 \<Rightarrow> nat \<Rightarrow> u32 \<Rightarrow> conn_desc option \<Rightarrow> ble \<Rightarrow> ble \<times> ble_out list" where
  "ble_update window bonds now found b =
     (if \<not> b_initialized b then (b, [])
      else
        let b = (if b_bootPairingWindowActive b \<and> now - b_bootTime b > 60000 then
                   (let b = b\<lparr>b_bootPairingWindowActive := False\<rparr>
                    in if bonds > 0 then disablePairingMode b else b)
                 else b);
            b = (if b_pairingModeEnabled b \<and> \<not> b_bootPairingWindowActive b \<and>
                    b_pairingModeStartTime b > 0 \<and> now - b_pairingModeStartTime b > window
                 then disablePairingMode b else b);
            (b, params) =
              (if b_deviceConnected b \<and> b_paramsNeedUpdate b \<and> \<not> b_paramsUpdated b \<and>
                  now - b_connectionStartTime b \<ge> 2000
               then (b\<lparr>b_paramsUpdated := True, b_paramsNeedUpdate := False\<rparr>,
                     [ST_update_params (b_currentConnHandle b)])
               else (b, []));
            (b, sec) =
              (if b_deviceConnected b \<and> \<not> b_securityRequested b then
                 (case found of
                    None \<Rightarrow> (b, [])
                  | Some d \<Rightarrow>
                      if \<not> cd_encrypted d then
                        (if now - b_connectionStartTime b > 2500
                         then (b\<lparr>b_securityRequested := True\<rparr>, [ST_security (b_currentConnHandle b)])
                         else (b, []))
                      else (b\<lparr>b_securityRequested := True\<rparr>, []))
               else (b, []))
        in (b, params @ sec))"

section \<open>Sequences of callbacks\<close>

text \<open>
  The callbacks of the stack and the calls of the main program, and when the stack can deliver them:
  a connection is reported when there is none, the other callbacks during one.
\<close>

datatype ble_event =
    BE_connect nat u32 conn_desc | BE_disconnect "conn_desc option" nat | BE_auth nat conn_desc
  | BE_subscribe characteristic u16 | BE_update nat u32 "conn_desc option" | BE_pairing u32
  | BE_stopPairing | BE_ghost nat | BE_noGhost

fun ble_react :: "u32 \<Rightarrow> ble_event \<Rightarrow> ble \<Rightarrow> ble" where
  "ble_react window (BE_connect bonds now desc) b = fst (onConnectInternal bonds now desc b)"
| "ble_react window (BE_disconnect desc reason) b = fst (onDisconnectInternal desc reason b)"
| "ble_react window (BE_auth bonds desc) b = fst (onAuthenticationComplete bonds desc b)"
| "ble_react window (BE_subscribe ch v) b = fst (onSubscribe ch v b)"
| "ble_react window (BE_update bonds now found) b = fst (ble_update window bonds now found b)"
| "ble_react window (BE_pairing now) b = fst (enablePairingMode now b)"
| "ble_react window BE_stopPairing b = disablePairingMode b"
| "ble_react window (BE_ghost bonds) b = incrementGhostBondCounter bonds b"
| "ble_react window BE_noGhost b = resetGhostBondCounter b"

fun ble_can :: "ble_event \<Rightarrow> ble \<Rightarrow> bool" where
  "ble_can (BE_connect bonds now desc) b = (\<not> b_deviceConnected b)"
| "ble_can (BE_disconnect desc reason) b = b_deviceConnected b"
| "ble_can (BE_auth bonds desc) b = b_deviceConnected b"
| "ble_can (BE_subscribe ch v) b = b_deviceConnected b"
| "ble_can _ b = True"

inductive ble_run :: "u32 \<Rightarrow> ble \<Rightarrow> ble_event list \<Rightarrow> ble \<Rightarrow> bool" for window b0 where
  nil: "ble_run window b0 [] b0"
| snoc: "ble_run window b0 evs b \<Longrightarrow> ble_can ev b \<Longrightarrow> ble_run window b0 (evs @ [ev]) (ble_react window ev b)"

inductive_simps ble_run_nil: "ble_run window b0 [] b"
inductive_simps ble_run_snoc: "ble_run window b0 (evs @ [ev]) b"

text \<open>What the callbacks alone say of the session: is a peer connected, has it subscribed.\<close>

fun session_step :: "ble_event \<Rightarrow> bool \<times> bool \<Rightarrow> bool \<times> bool" where
  "session_step (BE_connect _ _ _) s = (True, False)"
| "session_step (BE_disconnect _ _) s = (False, False)"
| "session_step (BE_subscribe ch v) (conn, sub) = (conn, if ch = MainChar then v > 0 else sub)"
| "session_step _ s = s"

definition session :: "ble_event list \<Rightarrow> bool \<times> bool" where
  "session evs = fold session_step evs (False, False)"

definition link_clean :: "ble \<Rightarrow> bool" where
  "link_clean b \<longleftrightarrow> b_initialized b \<and> (\<not> b_deviceConnected b \<longrightarrow>
     \<not> b_subscribed b \<and> \<not> b_securityRequested b \<and> \<not> b_paramsNeedUpdate b)"

lemma ble_react_session:
  assumes "link_clean b" "ble_can ev b"
  shows "link_clean (ble_react window ev b) \<and>
    (b_deviceConnected (ble_react window ev b), b_subscribed (ble_react window ev b)) =
      session_step ev (b_deviceConnected b, b_subscribed b)"
  using assms
  by (cases ev)
    (auto simp: link_clean_def onConnectInternal_def onDisconnectInternal_def onAuthenticationComplete_def
      onSubscribe_def ble_update_def enablePairingMode_def disablePairingMode_def incrementGhostBondCounter_def
      resetGhostBondCounter_def Let_def split: option.split)

lemma ble_run_session:
  assumes "ble_run window (fst (ble_init hist bonds now (ble_new failures magic))) evs b"
  shows "link_clean b \<and> (b_deviceConnected b, b_subscribed b) = session evs"
  using assms
proof (induction rule: ble_run.induct)
  case nil
  then show ?case by (simp add: session_def link_clean_def ble_init_def ble_new_def Let_def)
next
  case (snoc evs b ev)
  then show ?case using ble_react_session [of b ev window] by (simp add: session_def)
qed

section \<open>Properties\<close>

text \<open>
  The gate on unencrypted links. What a peer writes before the link is encrypted reaches
  the protocol only if its first two bytes look like a HELLO, ACK or HEARTBEAT frame;
  everything else is dropped, and an unbonded peer is asked to pair.
\<close>

theorem unencrypted_write_gate:
  assumes "\<not> cd_encrypted d"
  shows "EV_data data \<in> set (onWrite ch data (Some d) b) \<longleftrightarrow>
    b_eventHandler b \<and> ch \<noteq> OtherChar \<and> length data \<ge> 2 \<and> data ! 0 = 0xA5 \<and>
    data ! 1 \<in> {0x00, 0x02, 0x04}"
  using assms by (cases ch) (auto simp: onWrite_def isHandshakeMessage_def notify_handler_def)

theorem unencrypted_write_gate_witness:
  "EV_data [0xA5, 0x20, 1] \<notin> set (onWrite MainChar [0xA5, 0x20, 1]
     (Some \<lparr>cd_handle = 1, cd_bonded = False, cd_encrypted = False\<rparr>) (ble_new 0 0))"
  by (subst unencrypted_write_gate) simp_all

text \<open>
  A stranger is turned away. When a peer fails authentication on a device that has bonds
  while pairing is closed, the device disconnects it; an authentication that leaves the link
  encrypted is never disconnected.
\<close>

theorem stranger_rejected:
  "ST_disconnect (cd_handle d) \<in> set (snd (onAuthenticationComplete bonds d b)) \<longleftrightarrow>
     \<not> cd_bonded d \<and> \<not> cd_encrypted d \<and> bonds > 0 \<and> \<not> b_pairingModeEnabled b"
  by (auto simp: onAuthenticationComplete_def notify_handler_def startAdvertising_def
      isPairingAllowed_def Let_def)

definition pairing_stuck :: "ble \<Rightarrow> bool" where
  "pairing_stuck b \<longleftrightarrow> b_initialized b \<and> b_pairingModeEnabled b \<and>
     \<not> b_bootPairingWindowActive b \<and> b_pairingModeStartTime b = 0"

text \<open>
  The pairing mode of a first setup stays open. If the boot window runs out while the device has no bond,
  no later update closes pairing, whatever its bonds and the time since: only
  a started pairing window times out, and none was started.
\<close>

theorem first_pairing_never_closes:
  assumes "b_initialized b" "b_pairingModeEnabled b" "b_bootPairingWindowActive b"
    "b_pairingModeStartTime b = 0" "now - b_bootTime b > 60000"
  shows "pairing_stuck (fst (ble_update window 0 now found b)) \<and>
    (\<forall>ticks. pairing_stuck (fold (\<lambda>(bonds, t, f) b. fst (ble_update window bonds t f b)) ticks
      (fst (ble_update window 0 now found b))))"
proof -
  have step: "pairing_stuck (fst (ble_update window bonds t f b'))" if "pairing_stuck b'" for bonds t f b'
    using that by (simp add: pairing_stuck_def ble_update_def Let_def split: option.split)
  have start: "pairing_stuck (fst (ble_update window 0 now found b))"
    using assms by (simp add: pairing_stuck_def ble_update_def Let_def split: option.split)
  have "pairing_stuck (fold (\<lambda>(bonds, t, f) b. fst (ble_update window bonds t f b)) ticks b')"
    if "pairing_stuck b'" for ticks b'
    using that by (induction ticks arbitrary: b') (auto simp: step)
  with start show ?thesis by blast
qed

theorem first_pairing_never_closes_witness:
  "pairing_stuck (fst (ble_update 60000 0 70000 None (fst (ble_init True 0 5 (ble_new 0 0)))))"
  by (rule first_pairing_never_closes [THEN conjunct1])
    (simp_all add: ble_init_def ble_new_def Let_def startAdvertising_def)

text \<open>
  C37: who is notified. In every sequence of callbacks that a stack can deliver to an initialised
  manager, data goes out as a notification exactly while a peer is connected that has
  subscribed to the main characteristic in this same connection and not unsubscribed; outside a
  connection nothing of the last one is left: no handle, no security request, no parameter update.
\<close>

theorem notifies_own_subscriber_only:
  assumes "ble_run window (fst (ble_init hist bonds now (ble_new failures magic))) evs b"
  shows "sendNotification data b =
      (if session evs = (True, True) \<and> data \<noteq> [] then (True, [ST_notify data]) else (False, [])) \<and>
    (\<not> fst (session evs) \<longrightarrow> getConnectionHandle b = 0xFFFF \<and> \<not> b_securityRequested b \<and> \<not> b_paramsNeedUpdate b)"
  using ble_run_session [OF assms] by (cases "session evs")
    (auto simp: sendNotification_def getConnectionHandle_def link_clean_def ble_init_def ble_new_def Let_def)

theorem notifies_own_subscriber_only_witness:
  "\<exists>b. ble_run 60000 (fst (ble_init True 1 5 (ble_new 0 0)))
      [BE_connect 1 10 \<lparr>cd_handle = 3, cd_bonded = True, cd_encrypted = True\<rparr>, BE_subscribe MainChar 1,
       BE_disconnect None 19] b \<and> sendNotification [1] b = (False, [])"
proof -
  let ?d = "\<lparr>cd_handle = 3, cd_bonded = True, cd_encrypted = True\<rparr>"
  let ?b0 = "fst (ble_init True 1 5 (ble_new 0 0))"
  let ?react = "ble_react 60000" and ?e1 = "BE_connect 1 10 ?d" and ?e2 = "BE_subscribe MainChar 1"
  have r: "ble_run 60000 ?b0 ((([] @ [?e1]) @ [?e2]) @ [BE_disconnect None 19])
      (?react (BE_disconnect None 19) (?react ?e2 (?react ?e1 ?b0)))"
    unfolding ble_run_snoc ble_run_nil
    by (simp add: ble_init_def ble_new_def onConnectInternal_def onSubscribe_def Let_def)
  show ?thesis using r notifies_own_subscriber_only [OF r, of "[1]"] by (auto simp: session_def)
qed

end
