(* ===== verification/Fw_Protocol.thy ===== *)
theory Fw_Protocol
  imports Fw_Frame Fw_HistoryNvs Fw_Config Fw_Ota Fw_Ble
begin

text \<open>
  \<open>ProtocolHandler\<close> (\<open>src/src/Services/ProtocolHandler.cpp\<close>): sending with tracking of what awaits
  an acknowledgement, retries, the reception of frames and the handlers of every
  message type. Its handlers call the other services, so the state is the record \<open>device\<close>,
  which holds the services' states; what the handlers tell the rest of the firmware is
  logged as \<open>dev_call\<close>s, what they ask of the BLE stack as \<open>ble_out\<close>s. The answers of the RTOS
  and the hardware (locks, clocks, queue space) are streams of the environment, read at a counter of the state.
\<close>

section \<open>State\<close>

record pending_message =
  pm_active :: bool
  pm_seqNum :: u16
  pm_sentTime :: u32
  pm_retryCount :: u8
  pm_msgType :: message_type
  pm_dataLen :: nat
  pm_data :: bytes

record proto =
  p_bleManager :: bool
  p_historyService :: bool
  p_otaManager :: bool
  p_txSeqNum :: u16
  p_expectedRxSeqNum :: u16
  p_pending :: "pending_message list"
  p_txCount :: u32
  p_rxCount :: u32
  p_retryCount :: u32
  p_errorCount :: u32
  p_invalidAckCount :: u8
  p_lastSecurityEvent :: u32
  p_detectionEventCount :: u8
  p_detectionWindowStart :: u32
  p_lastConfigSeqNum :: u16
  p_configSeqInitialized :: bool
  p_initialized :: bool
  p_txFrameBuffer :: bytes
  p_broken :: bool
  p_mutex :: bool

definition MAX_PENDING_MESSAGES :: nat where "MAX_PENDING_MESSAGES = 64"
definition FRAME_CAPACITY :: nat where "FRAME_CAPACITY = HEADER_SIZE + MAX_PAYLOAD_SIZE + CRC_SIZE"
definition INVALID_ACK_THRESHOLD :: u8 where "INVALID_ACK_THRESHOLD = 10"
definition SECURITY_RESET_WINDOW_MS :: u32 where "SECURITY_RESET_WINDOW_MS = 60000"
definition MAX_DETECTIONS_PER_WINDOW :: u8 where "MAX_DETECTIONS_PER_WINDOW = 5"
definition DETECTION_RATE_WINDOW_MS :: u32 where "DETECTION_RATE_WINDOW_MS = 1000"

definition empty_pending :: pending_message where
  "empty_pending = \<lparr>pm_active = False, pm_seqNum = 0, pm_sentTime = 0, pm_retryCount = 0,
     pm_msgType = MSG_HELLO, pm_dataLen = 0, pm_data = replicate FRAME_CAPACITY 0\<rparr>"

text \<open>The constructor; \<open>mutexOk\<close> says whether the mutex could be created, \<open>junk\<close> is the uninitialised buffer.\<close>

definition proto_new :: "bool \<Rightarrow> bytes \<Rightarrow> proto" where
  "proto_new mutexOk junk =
     \<lparr>p_bleManager = False, p_historyService = False, p_otaManager = False, p_txSeqNum = 0,
      p_expectedRxSeqNum = 0, p_pending = replicate MAX_PENDING_MESSAGES empty_pending,
      p_txCount = 0, p_rxCount = 0, p_retryCount = 0, p_errorCount = 0, p_invalidAckCount = 0,
      p_lastSecurityEvent = 0, p_detectionEventCount = 0, p_detectionWindowStart = 0,
      p_lastConfigSeqNum = 0, p_configSeqInitialized = False, p_initialized = False,
      p_txFrameBuffer = junk, p_broken = \<not> mutexOk, p_mutex = mutexOk\<rparr>"

definition proto_init :: "bool \<Rightarrow> bool \<Rightarrow> proto \<Rightarrow> bool \<times> proto" where
  "proto_init bleManager historyService p =
     (if p_broken p then (False, p)
      else (True, p\<lparr>p_bleManager := bleManager, p_historyService := historyService,
                    p_initialized := True\<rparr>))"

datatype dev_call = DC_activity | DC_suppress u32 | DC_timeSync u32 | DC_sleep | DC_sensitivity u8
  | DC_settime u32 u32 | DC_calibrate | DC_restart

record ('n, 'u) device =
  d_tick :: nat
  d_proto :: proto
  d_ble :: ble
  d_hist :: history
  d_cfg :: config_service
  d_ota :: ota
  d_nvs :: 'n
  d_upd :: 'u
  d_bonds :: nat
  d_rtcMagic :: u32
  d_bootMode :: u32
  d_out :: "ble_out list"
  d_calls :: "dev_call list"

text \<open>
  The constants of the removed \<open>Config.h\<close>, the interfaces of the libraries, and which callbacks
  the main program has registered.
\<close>

record ('n, 'u) dev_cfg =
  v_hist :: history_cfg
  v_ota :: ota_cfg
  v_prefs :: "'n prefs_api"
  v_update :: "'u update_api"
  ACK_TIMEOUT_MS :: u32
  MAX_RETRY_COUNT :: u8
  RTC_MAGIC_KEY :: u32
  MODE_FLASHER :: u32
  v_hardwareId :: bytes
  v_nextPart :: "u32 option"
  v_onTimeSync :: bool
  v_onSleep :: bool
  v_onActivity :: bool
  v_onCalibrate :: "(u16 \<times> u16) option"
  v_onBattery :: "(u8 \<times> bool) option"

record dev_env =
  e_lock :: "nat \<Rightarrow> bool"
  e_ms :: "nat \<Rightarrow> u32"
  e_uptime :: "nat \<Rightarrow> u32"
  e_qsend :: "nat \<Rightarrow> bool"
  e_flush :: "nat \<Rightarrow> flush_env"

definition tick :: "('n, 'u) device \<Rightarrow> ('n, 'u) device" where
  "tick d = d\<lparr>d_tick := d_tick d + 1\<rparr>"

definition ask_lock :: "dev_env \<Rightarrow> ('n, 'u) device \<Rightarrow> bool \<times> ('n, 'u) device" where
  "ask_lock env d = (e_lock env (d_tick d), tick d)"

definition ask_ms :: "dev_env \<Rightarrow> ('n, 'u) device \<Rightarrow> u32 \<times> ('n, 'u) device" where
  "ask_ms env d = (e_ms env (d_tick d), tick d)"

definition upd_proto :: "(proto \<Rightarrow> proto) \<Rightarrow> ('n, 'u) device \<Rightarrow> ('n, 'u) device" where
  "upd_proto f d = d\<lparr>d_proto := f (d_proto d)\<rparr>"

definition emit :: "ble_out list \<Rightarrow> ('n, 'u) device \<Rightarrow> ('n, 'u) device" where
  "emit outs d = d\<lparr>d_out := d_out d @ outs\<rparr>"

definition call :: "dev_call list \<Rightarrow> ('n, 'u) device \<Rightarrow> ('n, 'u) device" where
  "call cs d = d\<lparr>d_calls := d_calls d @ cs\<rparr>"

section \<open>Pending messages\<close>

fun find_index :: "('a \<Rightarrow> bool) \<Rightarrow> 'a list \<Rightarrow> nat option" where
  "find_index p [] = None"
| "find_index p (x # xs) = (if p x then Some 0 else map_option Suc (find_index p xs))"

definition findFreeSlot :: "proto \<Rightarrow> nat option" where
  "findFreeSlot p = find_index (\<lambda>m. \<not> pm_active m) (p_pending p)"

definition trackPendingLocked ::
  "u16 \<Rightarrow> message_type \<Rightarrow> bytes \<Rightarrow> nat \<Rightarrow> u32 \<Rightarrow> proto \<Rightarrow> bool \<times> proto" where
  "trackPendingLocked seqNum type data len now p =
     (case findFreeSlot p of
        None \<Rightarrow> (False, p)
      | Some slot \<Rightarrow>
          (let m = p_pending p ! slot in
           (True, p\<lparr>p_pending := (p_pending p)[slot :=
              m\<lparr>pm_active := True, pm_seqNum := seqNum, pm_msgType := type, pm_sentTime := now,
                pm_retryCount := 0, pm_dataLen := len, pm_data := blit (pm_data m) 0 (take len data)\<rparr>]\<rparr>)))"

definition clearPendingLocked :: "u16 \<Rightarrow> proto \<Rightarrow> bool \<times> proto" where
  "clearPendingLocked seqNum p =
     (case find_index (\<lambda>m. pm_active m \<and> pm_seqNum m = seqNum) (p_pending p) of
        None \<Rightarrow> (False, p)
      | Some i \<Rightarrow>
          (True, p\<lparr>p_pending := (p_pending p)[i := (p_pending p ! i)\<lparr>pm_active := False\<rparr>]\<rparr>))"

definition clearPending :: "dev_env \<Rightarrow> u16 \<Rightarrow> ('n, 'u) device \<Rightarrow> bool \<times> ('n, 'u) device" where
  "clearPending env seqNum d =
     (let (lock, d) = ask_lock env d
      in if \<not> lock then (False, d)
         else let (result, p) = clearPendingLocked seqNum (d_proto d)
              in (result, d\<lparr>d_proto := p\<rparr>))"

definition clear_all :: "proto \<Rightarrow> proto" where
  "clear_all p = p\<lparr>p_pending := map (\<lambda>m. m\<lparr>pm_active := False\<rparr>) (p_pending p)\<rparr>"

definition clearAllPending :: "dev_env \<Rightarrow> ('n, 'u) device \<Rightarrow> ('n, 'u) device" where
  "clearAllPending env d =
     (let (lock, d) = ask_lock env d in if lock then upd_proto clear_all d else d)"

definition resetForNewConnection :: "dev_env \<Rightarrow> ('n, 'u) device \<Rightarrow> ('n, 'u) device" where
  "resetForNewConnection env d =
     upd_proto (\<lambda>p. p\<lparr>p_invalidAckCount := 0, p_lastSecurityEvent := 0, p_txSeqNum := 0,
                      p_expectedRxSeqNum := 0\<rparr>) (clearAllPending env d)"

definition getPendingCount_p :: "proto \<Rightarrow> nat" where
  "getPendingCount_p p = length (filter pm_active (p_pending p))"

definition hasPendingSpace :: "proto \<Rightarrow> bool" where
  "hasPendingSpace p \<longleftrightarrow> getPendingCount_p p < MAX_PENDING_MESSAGES"

definition isAwaitingAck :: "proto \<Rightarrow> bool" where
  "isAwaitingAck p \<longleftrightarrow> getPendingCount_p p > 0"

definition resetStats :: "dev_env \<Rightarrow> ('n, 'u) device \<Rightarrow> ('n, 'u) device" where
  "resetStats env d =
     (let (lock, d) = ask_lock env d
      in if lock then upd_proto (\<lambda>p. p\<lparr>p_txCount := 0, p_rxCount := 0, p_retryCount := 0,
                                       p_errorCount := 0\<rparr>) d
         else d)"

section \<open>Sending\<close>

definition ble_send :: "bytes \<Rightarrow> ('n, 'u) device \<Rightarrow> bool \<times> ('n, 'u) device" where
  "ble_send data d = (let (sent, outs) = sendNotification data (d_ble d) in (sent, emit outs d))"

definition incr_error :: "proto \<Rightarrow> proto" where
  "incr_error p = p\<lparr>p_errorCount := p_errorCount p + 1\<rparr>"

definition sendMessage ::
  "dev_env \<Rightarrow> message_type \<Rightarrow> bytes option \<Rightarrow> bool \<Rightarrow> ('n, 'u) device \<Rightarrow> bool \<times> ('n, 'u) device" where
  "sendMessage env type payload requireAck d =
     (if \<not> p_initialized (d_proto d) \<or> \<not> p_bleManager (d_proto d) then (False, d)
      else if \<not> b_deviceConnected (d_ble d) then (False, d)
      else
        let (lock, d) = ask_lock env d
        in if \<not> lock then (False, d)
           else
             let payloadLen = (case payload of Some bs \<Rightarrow> length bs | None \<Rightarrow> 0);
                 seqNum = p_txSeqNum (d_proto d);
                 d = upd_proto (\<lambda>p. p\<lparr>p_txSeqNum := p_txSeqNum p + 1\<rparr>) d
             in case buildFrame type payload payloadLen seqNum (p_txFrameBuffer (d_proto d)) of
                  None \<Rightarrow> (False, d)
                | Some (frame, frameLen) \<Rightarrow>
                    let d = upd_proto (\<lambda>p. p\<lparr>p_txFrameBuffer := frame\<rparr>) d;
                        (tracked, d) =
                          (if requireAck then
                             (let (now, d) = ask_ms env d;
                                  (ok, p) = trackPendingLocked seqNum type frame frameLen now (d_proto d)
                              in (ok, d\<lparr>d_proto := p\<rparr>))
                           else (True, d))
                    in if \<not> tracked then (False, d)
                       else
                         let (sent, d) = ble_send (take frameLen frame) d
                         in if sent
                            then (True, upd_proto (\<lambda>p. p\<lparr>p_txCount := p_txCount p + 1\<rparr>) d)
                            else (False, upd_proto (\<lambda>p. incr_error (snd (clearPendingLocked seqNum p))) d))"

definition sendAck :: "dev_env \<Rightarrow> u16 \<Rightarrow> ('n, 'u) device \<Rightarrow> ('n, 'u) device" where
  "sendAck env ackedSeqNum d = snd (sendMessage env MSG_ACK (Some (be16 ackedSeqNum)) False d)"

definition sendNack :: "dev_env \<Rightarrow> u16 \<Rightarrow> error_code \<Rightarrow> ('n, 'u) device \<Rightarrow> ('n, 'u) device" where
  "sendNack env nackedSeqNum err d =
     snd (sendMessage env MSG_NACK (Some (be16 nackedSeqNum @ [err_code err])) False d)"

definition send_all :: "dev_env \<Rightarrow> out_msg list \<Rightarrow> ('n, 'u) device \<Rightarrow> ('n, 'u) device" where
  "send_all env ms d = fold (\<lambda>(t, payload, ack) d. snd (sendMessage env t (Some payload) ack d)) ms d"

definition sendDetectionEvent ::
  "dev_env \<Rightarrow> det_event \<Rightarrow> bool \<Rightarrow> ('n, 'u) device \<Rightarrow> bool \<times> ('n, 'u) device" where
  "sendDetectionEvent env event bypassGovernor d =
     (let (allowed, d) =
        (if bypassGovernor then (True, d)
         else
           let (now, d) = ask_ms env d;
               d = (if now - p_detectionWindowStart (d_proto d) > DETECTION_RATE_WINDOW_MS
                    then upd_proto (\<lambda>p. p\<lparr>p_detectionWindowStart := now, p_detectionEventCount := 0\<rparr>) d
                    else d)
           in if p_detectionEventCount (d_proto d) \<ge> MAX_DETECTIONS_PER_WINDOW
              then (False, call [DC_suppress 1000] d)
              else (True, upd_proto (\<lambda>p. p\<lparr>p_detectionEventCount := p_detectionEventCount p + 1\<rparr>) d))
      in if \<not> allowed then (False, d)
         else sendMessage env MSG_DETECTION_EVENT (Some (enc_event event)) True d)"

definition sendBatteryStatus :: "dev_env \<Rightarrow> u8 \<Rightarrow> bool \<Rightarrow> ('n, 'u) device \<Rightarrow> bool \<times> ('n, 'u) device" where
  "sendBatteryStatus env percent isCharging d =
     sendMessage env MSG_BATTERY_STATUS
       (Some ([percent, if isCharging then 1 else 0] @ le16 0)) False d"

definition sendWifiStatus ::
  "dev_env \<Rightarrow> u8 \<Rightarrow> u8 \<Rightarrow> u8 \<Rightarrow> u32 \<Rightarrow> ('n, 'u) device \<Rightarrow> bool \<times> ('n, 'u) device" where
  "sendWifiStatus env state reason rssi ip d =
     (if \<not> p_initialized (d_proto d) \<or> \<not> p_bleManager (d_proto d) \<or> \<not> b_deviceConnected (d_ble d)
      then (False, d)
      else sendMessage env MSG_DEVICE_STATUS (Some ([state, reason, rssi] @ le32 ip)) False d)"

text \<open>
  The 36 bytes that the static assertion of \<open>HelloAckPayload\<close> demands: the fields the header
  declares and the four more (\<open>configCrc32\<close>, \<open>configSignature\<close>, \<open>hardwareId\<close>, \<open>reserved2\<close>) that this
  function assigns.
\<close>

definition sendHelloAck :: "('n, 'u) dev_cfg \<Rightarrow> dev_env \<Rightarrow> ('n, 'u) device \<Rightarrow> bool \<times> ('n, 'u) device" where
  "sendHelloAck c env d =
     (let (batteryPercent, charging) = (case v_onBattery c of Some b \<Rightarrow> b | None \<Rightarrow> (0, False));
          lastEventId = (if p_historyService (d_proto d) then getLatestEventId (d_hist d) else 0);
          uptime = e_uptime env (d_tick d);
          bonded = (if p_bleManager (d_proto d) then word_of_nat (d_bonds d) else 0);
          payload = [FIRMWARE_VERSION_MAJOR (v_ota c), FIRMWARE_VERSION_MINOR (v_ota c),
                     FIRMWARE_VERSION_PATCH (v_ota c), FIRMWARE_BUILD_TYPE (v_ota c)] @ le32 0 @
                    [batteryPercent, if charging then 1 else 0] @ le32 lastEventId @ le32 uptime @
                    [bonded, getSensitivity (d_cfg d)] @ le32 (getConfigCrc (d_cfg d)) @
                    le32 (getConfigSignature (d_cfg d)) @ v_hardwareId c @ [0, 0]
      in sendMessage env MSG_HELLO_ACK (Some payload) False (tick d))"

definition sendPong :: "dev_env \<Rightarrow> ('n, 'u) device \<Rightarrow> bool \<times> ('n, 'u) device" where
  "sendPong env d = sendMessage env MSG_PONG None False d"

definition sendSleepNotification :: "dev_env \<Rightarrow> ('n, 'u) device \<Rightarrow> bool \<times> ('n, 'u) device" where
  "sendSleepNotification env d = sendMessage env MSG_SLEEP None False d"

definition sendConfigData :: "dev_env \<Rightarrow> ('n, 'u) device \<Rightarrow> bool \<times> ('n, 'u) device" where
  "sendConfigData env d =
     sendMessage env MSG_CONFIG_DATA
       (Some [getSensitivity (d_cfg d), getLedBrightness (d_cfg d), 0, 0]) False d"

section \<open>Security counters and retries\<close>

definition handleSecurityThresholdExceeded :: "proto \<Rightarrow> proto" where
  "handleSecurityThresholdExceeded p = p\<lparr>p_invalidAckCount := 0\<rparr>"

definition validateAckSecurity :: "dev_env \<Rightarrow> u16 \<Rightarrow> ('n, 'u) device \<Rightarrow> bool \<times> ('n, 'u) device" where
  "validateAckSecurity env seqNum d =
     (let (now, d) = ask_ms env d;
          (lock, d) = ask_lock env d;
          found = (lock \<and> (\<exists>m\<in>set (p_pending (d_proto d)). pm_active m \<and> pm_seqNum m = seqNum))
      in if found then (True, d)
         else
           let d = (if now - p_lastSecurityEvent (d_proto d) > SECURITY_RESET_WINDOW_MS
                    then upd_proto (\<lambda>p. p\<lparr>p_invalidAckCount := 0\<rparr>) d else d);
               d = upd_proto (\<lambda>p. incr_error (p\<lparr>p_invalidAckCount := p_invalidAckCount p + 1,
                                                p_lastSecurityEvent := now\<rparr>)) d
           in (False, if p_invalidAckCount (d_proto d) \<ge> INVALID_ACK_THRESHOLD
                      then upd_proto handleSecurityThresholdExceeded d else d))"

text \<open>One slot of the retry loop; the notification goes out after the mutex is released.\<close>

definition retry_slot ::
  "('n, 'u) dev_cfg \<Rightarrow> dev_env \<Rightarrow> u32 \<Rightarrow> nat \<Rightarrow> ('n, 'u) device \<Rightarrow> ('n, 'u) device" where
  "retry_slot c env now i d =
     (let (lock, d) = ask_lock env d
      in if \<not> lock then d
         else
           let m = p_pending (d_proto d) ! i
           in if \<not> pm_active m then d
              else if now - pm_sentTime m > ACK_TIMEOUT_MS c then
                if pm_retryCount m < MAX_RETRY_COUNT c then
                  (let m' = m\<lparr>pm_retryCount := pm_retryCount m + 1, pm_sentTime := now\<rparr>;
                       d = upd_proto (\<lambda>p. p\<lparr>p_pending := (p_pending p)[i := m'],
                                           p_retryCount := p_retryCount p + 1\<rparr>) d
                   in snd (ble_send (take (pm_dataLen m) (pm_data m)) d))
                else upd_proto (\<lambda>p. incr_error (p\<lparr>p_pending := (p_pending p)[i := m\<lparr>pm_active := False\<rparr>]\<rparr>)) d
              else d)"

definition processRetries :: "('n, 'u) dev_cfg \<Rightarrow> dev_env \<Rightarrow> ('n, 'u) device \<Rightarrow> ('n, 'u) device" where
  "processRetries c env d =
     (if \<not> p_initialized (d_proto d) \<or> \<not> p_bleManager (d_proto d) \<or> \<not> b_deviceConnected (d_ble d)
      then d
      else let (now, d) = ask_ms env d
           in fold (retry_slot c env now) [0..<MAX_PENDING_MESSAGES] d)"

section \<open>Handlers\<close>

text \<open>
  A handler that scans the event log has no result (\<open>None\<close>) if the scan has none. The payload is
  the list of its bytes, empty for the null pointer.
\<close>

definition handleHello ::
  "('n, 'u) dev_cfg \<Rightarrow> dev_env \<Rightarrow> u16 \<Rightarrow> bytes \<Rightarrow> ('n, 'u) device \<Rightarrow> ('n, 'u) device" where
  "handleHello c env seqNum payload d =
     (let d = (if length payload \<ge> 5 then
                 (let appLastEventId = rd_be32 (payload ! 1) (payload ! 2) (payload ! 3) (payload ! 4)
                  in if p_historyService (d_proto d) \<and> appLastEventId > getLatestEventId (d_hist d) then
                       (let (lock, d) = ask_lock env d;
                            (h, n) = fastForwardEventId (v_hist c) (v_prefs c) appLastEventId lock
                              (e_qsend env (d_tick d)) (e_flush env (d_tick d)) (d_hist d) (d_nvs d)
                        in tick (d\<lparr>d_hist := h, d_nvs := n\<rparr>))
                     else d)
               else d);
          (_, d) = sendHelloAck c env d
      in sendAck env seqNum d)"

definition pending_match :: "u16 \<Rightarrow> pending_message \<Rightarrow> bool" where
  "pending_match seqNum m \<longleftrightarrow> pm_active m \<and> pm_seqNum m = seqNum"

definition pending_event_id :: "pending_message \<Rightarrow> u32" where
  "pending_event_id m = rd_le32 (pm_data m ! HEADER_SIZE) (pm_data m ! (HEADER_SIZE + 1))
     (pm_data m ! (HEADER_SIZE + 2)) (pm_data m ! (HEADER_SIZE + 3))"

definition ack_found :: "nat \<Rightarrow> proto \<Rightarrow> proto" where
  "ack_found i p = p\<lparr>p_pending := (p_pending p)[i := (p_pending p ! i)\<lparr>pm_active := False\<rparr>],
     p_invalidAckCount := 0\<rparr>"

definition handleAck ::
  "('n, 'u) dev_cfg \<Rightarrow> dev_env \<Rightarrow> bytes \<Rightarrow> ('n, 'u) device \<Rightarrow> ('n, 'u) device option" where
  "handleAck c env payload d =
     (if length payload < 2 then Some d
      else
        let ackedSeq = rd_be16 (payload ! 0) (payload ! 1);
            (ok, d) = validateAckSecurity env ackedSeq d
        in if \<not> ok then Some d
           else
             let (lock, d) = ask_lock env d
             in if \<not> lock then Some d
                else case find_index (pending_match ackedSeq) (p_pending (d_proto d)) of
                    None \<Rightarrow> Some d
                  | Some i \<Rightarrow>
                      if pm_msgType (p_pending (d_proto d) ! i) = MSG_DETECTION_EVENT then
                        (let (hlock, d) = ask_lock env d
                         in case (if p_historyService (d_proto d)
                                  then map_option snd (markAsSynced (v_hist c)
                                    (pending_event_id (p_pending (d_proto d) ! i)) hlock (d_hist d))
                                  else Some (d_hist d)) of
                              None \<Rightarrow> None
                            | Some h \<Rightarrow>
                                let d = d\<lparr>d_hist := h\<rparr>;
                                    (lock2, d) = ask_lock env d
                                in if \<not> lock2 then Some d
                                   else if pending_match ackedSeq (p_pending (d_proto d) ! i)
                                   then Some (upd_proto (ack_found i) d)
                                   else Some d)
                      else Some (upd_proto (ack_found i) d))"

definition handleNack :: "dev_env \<Rightarrow> bytes \<Rightarrow> ('n, 'u) device \<Rightarrow> ('n, 'u) device" where
  "handleNack env payload d =
     (if length payload < 3 then d
      else let nackedSeq = rd_be16 (payload ! 0) (payload ! 1);
               (_, d) = clearPending env nackedSeq d
           in upd_proto incr_error d)"

definition handleHeartbeat :: "('n, 'u) device \<Rightarrow> ('n, 'u) device" where
  "handleHeartbeat d = d"

definition handlePing :: "dev_env \<Rightarrow> u16 \<Rightarrow> ('n, 'u) device \<Rightarrow> ('n, 'u) device" where
  "handlePing env seqNum d = (let (_, d) = sendPong env d in sendAck env seqNum d)"

text \<open>The loop of the sync request: at most ten events, each after the one sent before.\<close>

fun sync_loop ::
  "('n, 'u) dev_cfg \<Rightarrow> dev_env \<Rightarrow> nat \<Rightarrow> u32 \<Rightarrow> ('n, 'u) device \<Rightarrow> ('n, 'u) device option" where
  "sync_loop c env 0 lastSyncedId d = Some d"
| "sync_loop c env (Suc remaining) lastSyncedId d =
     (let (lock, d) = ask_lock env d
      in case getEventsSince (v_hist c) lastSyncedId 1 lock (d_hist d) of
           None \<Rightarrow> None
         | Some (ok, batch) \<Rightarrow>
             (case batch of
                [] \<Rightarrow> Some d
              | event # _ \<Rightarrow>
                  if \<not> ok then Some d
                  else
                    let (sent, d) = sendDetectionEvent env event True d
                    in if \<not> sent then Some d
                       else sync_loop c env remaining (ev_id event) d))"

definition handleSyncRequest ::
  "('n, 'u) dev_cfg \<Rightarrow> dev_env \<Rightarrow> u16 \<Rightarrow> bytes \<Rightarrow> ('n, 'u) device \<Rightarrow> ('n, 'u) device option" where
  "handleSyncRequest c env seqNum payload d =
     (if length payload < 4 \<or> \<not> p_historyService (d_proto d)
      then Some (sendNack env seqNum ERR_INVALID_PAYLOAD d)
      else
        let sinceId = rd_be32 (payload ! 0) (payload ! 1) (payload ! 2) (payload ! 3)
        in map_option (sendAck env seqNum) (sync_loop c env 10 sinceId d))"

definition handleTimeSync ::
  "('n, 'u) dev_cfg \<Rightarrow> dev_env \<Rightarrow> u16 \<Rightarrow> bytes \<Rightarrow> ('n, 'u) device \<Rightarrow> ('n, 'u) device option" where
  "handleTimeSync c env seqNum payload d =
     (if length payload < 6 then Some (sendNack env seqNum ERR_INVALID_PAYLOAD d)
      else
        let epochSeconds = rd_le32 (payload ! 0) (payload ! 1) (payload ! 2) (payload ! 3);
            (ms, d) = ask_ms env d;
            (lock, d) = ask_lock env d;
            tenv = \<lparr>te_millis = ms, te_uptime = e_uptime env (d_tick d), te_lock = lock,
                    te_qsend = e_qsend env (d_tick d)\<rparr>;
            d = tick d
        in case (if p_historyService (d_proto d)
                 then applyTimeSync (v_hist c) epochSeconds tenv (d_hist d)
                 else Some (None, d_hist d)) of
             None \<Rightarrow> None
           | Some (tv, h) \<Rightarrow>
               let d = call (case tv of Some (s, us) \<Rightarrow> [DC_settime s us] | None \<Rightarrow> []) (d\<lparr>d_hist := h\<rparr>);
                   (clock, d) = ask_lock env d;
                   d = d\<lparr>d_cfg := updateLastKnownEpoch epochSeconds clock (d_cfg d)\<rparr>;
                   d = (if v_onTimeSync c then call [DC_timeSync epochSeconds] d else d)
               in Some (sendAck env seqNum d))"

text \<open>
  \<open>v_onCalibrate\<close> is what the callback returns for the wake threshold and what the response
  sends as detection threshold (the source names a variable it does not declare).
\<close>

definition handleCalibrate ::
  "('n, 'u) dev_cfg \<Rightarrow> dev_env \<Rightarrow> u16 \<Rightarrow> ('n, 'u) device \<Rightarrow> ('n, 'u) device" where
  "handleCalibrate c env seqNum d =
     (let d = (case v_onCalibrate c of
                 Some (wakeThresh, detectionThresh) \<Rightarrow>
                   snd (sendMessage env MSG_CONFIG_DATA (Some (be16 wakeThresh @ be16 detectionThresh)) False
                     (call [DC_calibrate] d))
               | None \<Rightarrow> d)
      in sendAck env seqNum d)"

definition config_stale :: "u16 \<Rightarrow> proto \<Rightarrow> bool" where
  "config_stale seqNum p \<longleftrightarrow>
     p_configSeqInitialized p \<and> sint (seqNum - p_lastConfigSeqNum p) \<le> 0"

definition handleSetConfig :: "dev_env \<Rightarrow> u16 \<Rightarrow> bytes \<Rightarrow> ('n, 'u) device \<Rightarrow> ('n, 'u) device" where
  "handleSetConfig env seqNum payload d =
     (if config_stale seqNum (d_proto d) then sendAck env seqNum d
      else if length payload < 4 then sendNack env seqNum ERR_INVALID_PAYLOAD d
      else
        let configId = payload ! 0;
            val = payload ! 1;
            d = (if configId = 0x01 then call [DC_suppress 500] d else d);
            accept = (\<lambda>d.
              let d = upd_proto (\<lambda>p. p\<lparr>p_lastConfigSeqNum := seqNum, p_configSeqInitialized := True\<rparr>) d;
                  d = sendAck env seqNum d
              in snd (sendConfigData env d))
        in if configId = 0x01 then
             if val > 100 then sendNack env seqNum ERR_INVALID_PAYLOAD d
             else
               (let (lock, d) = ask_lock env d;
                    (hal, cfg) = setSensitivity val lock (d_cfg d)
                in accept (call (map DC_sensitivity hal) (d\<lparr>d_cfg := cfg\<rparr>)))
           else if configId = 0x02 then
             (let (lock, d) = ask_lock env d
              in accept (d\<lparr>d_cfg := setLedBrightness val lock (d_cfg d)\<rparr>))
           else sendNack env seqNum ERR_INVALID_PAYLOAD d)"

definition handleGetConfig :: "dev_env \<Rightarrow> u16 \<Rightarrow> ('n, 'u) device \<Rightarrow> ('n, 'u) device" where
  "handleGetConfig env seqNum d = snd (sendConfigData env (sendAck env seqNum d))"

definition handleSleepCommand ::
  "('n, 'u) dev_cfg \<Rightarrow> dev_env \<Rightarrow> u16 \<Rightarrow> ('n, 'u) device \<Rightarrow> ('n, 'u) device" where
  "handleSleepCommand c env seqNum d =
     (let d = sendAck env seqNum d in if v_onSleep c then call [DC_sleep] d else d)"

definition dev_enable_pairing :: "dev_env \<Rightarrow> ('n, 'u) device \<Rightarrow> ('n, 'u) device" where
  "dev_enable_pairing env d =
     (let (now, d) = ask_ms env d; (b, outs) = enablePairingMode now (d_ble d)
      in emit outs (d\<lparr>d_ble := b\<rparr>))"

definition handlePairingMode :: "dev_env \<Rightarrow> u16 \<Rightarrow> ('n, 'u) device \<Rightarrow> ('n, 'u) device" where
  "handlePairingMode env seqNum d =
     (if \<not> p_bleManager (d_proto d) then sendNack env seqNum ERR_INTERNAL d
      else sendAck env seqNum (dev_enable_pairing env d))"

definition handleClearBonds :: "dev_env \<Rightarrow> u16 \<Rightarrow> ('n, 'u) device \<Rightarrow> ('n, 'u) device" where
  "handleClearBonds env seqNum d =
     (if \<not> p_bleManager (d_proto d) then sendNack env seqNum ERR_INTERNAL d
      else
        let d = emit (deleteAllBonds (d_bonds d)) d
        in sendAck env seqNum (dev_enable_pairing env d))"

text \<open>The code after the first return of this function is unreachable.\<close>

definition handleSetWifi :: "dev_env \<Rightarrow> u16 \<Rightarrow> bytes \<Rightarrow> ('n, 'u) device \<Rightarrow> ('n, 'u) device" where
  "handleSetWifi env seqNum payload d = sendAck env seqNum d"

definition handleOtaInfo ::
  "('n, 'u) dev_cfg \<Rightarrow> dev_env \<Rightarrow> u16 \<Rightarrow> ('n, 'u) device \<Rightarrow> ('n, 'u) device option" where
  "handleOtaInfo c env seqNum d =
     (if \<not> p_otaManager (d_proto d) then Some (sendNack env seqNum ERR_INVALID_STATE d)
      else map_option (\<lambda>ms. sendAck env seqNum (send_all env ms d))
        (handleInfoRequest (v_ota c) (v_nextPart c) (d_ota d)))"

definition handleOtaStart ::
  "('n, 'u) dev_cfg \<Rightarrow> dev_env \<Rightarrow> u16 \<Rightarrow> bytes \<Rightarrow> ('n, 'u) device \<Rightarrow> ('n, 'u) device" where
  "handleOtaStart c env seqNum payload d =
     (if \<not> p_otaManager (d_proto d) then sendNack env seqNum ERR_INVALID_STATE d
      else
        let (now, d) = ask_ms env d;
            (ok, s, u, ms) = handleStart (v_ota c) (v_update c) (v_nextPart c) now payload (d_ota d) (d_upd d);
            d = send_all env ms (d\<lparr>d_ota := s, d_upd := u\<rparr>)
        in if ok then sendAck env seqNum d else sendNack env seqNum ERR_OTA_FAILED d)"

definition handleOtaData ::
  "('n, 'u) dev_cfg \<Rightarrow> dev_env \<Rightarrow> u16 \<Rightarrow> bytes \<Rightarrow> ('n, 'u) device \<Rightarrow> ('n, 'u) device" where
  "handleOtaData c env seqNum payload d =
     (if \<not> p_otaManager (d_proto d) \<or> length payload < 2 then sendNack env seqNum ERR_INVALID_STATE d
      else
        let chunkIndex = rd_be16 (payload ! 0) (payload ! 1);
            (now, d) = ask_ms env d;
            (_, s, u, ms) = handleData (v_update c) now chunkIndex (drop 2 payload) (d_ota d) (d_upd d)
        in send_all env ms (d\<lparr>d_ota := s, d_upd := u\<rparr>))"

text \<open>A successful commit restarts the chip before the acknowledgement is sent.\<close>

definition handleOtaCommit ::
  "('n, 'u) dev_cfg \<Rightarrow> dev_env \<Rightarrow> u16 \<Rightarrow> ('n, 'u) device \<Rightarrow> ('n, 'u) device" where
  "handleOtaCommit c env seqNum d =
     (if \<not> p_otaManager (d_proto d) then sendNack env seqNum ERR_INVALID_STATE d
      else
        let (ok, s, u, ms) = handleCommit (v_update c) (d_ota d) (d_upd d);
            d = send_all env ms (d\<lparr>d_ota := s, d_upd := u\<rparr>)
        in if ok then call [DC_restart] d else sendNack env seqNum ERR_OTA_FAILED d)"

definition handleOtaAbort ::
  "('n, 'u) dev_cfg \<Rightarrow> dev_env \<Rightarrow> u16 \<Rightarrow> ('n, 'u) device \<Rightarrow> ('n, 'u) device" where
  "handleOtaAbort c env seqNum d =
     (let d = (if p_otaManager (d_proto d) then
                 (let (s, u, ms) = handleAbort (v_update c) (d_ota d) (d_upd d)
                  in send_all env ms (d\<lparr>d_ota := s, d_upd := u\<rparr>))
               else d)
      in sendAck env seqNum d)"

definition handleEnterOtaMode ::
  "('n, 'u) dev_cfg \<Rightarrow> dev_env \<Rightarrow> u16 \<Rightarrow> ('n, 'u) device \<Rightarrow> ('n, 'u) device" where
  "handleEnterOtaMode c env seqNum d =
     (let d = sendAck env seqNum d
      in call [DC_restart] (d\<lparr>d_rtcMagic := RTC_MAGIC_KEY c, d_bootMode := MODE_FLASHER c\<rparr>))"

section \<open>Dispatch\<close>

definition dispatchMessage ::
  "('n, 'u) dev_cfg \<Rightarrow> dev_env \<Rightarrow> message_type \<Rightarrow> u16 \<Rightarrow> bytes \<Rightarrow> ('n, 'u) device \<Rightarrow> ('n, 'u) device option" where
  "dispatchMessage c env type seqNum payload d =
     (let isActivityMessage = (type \<noteq> MSG_HEARTBEAT \<and> type \<noteq> MSG_ACK \<and> type \<noteq> MSG_NACK);
          d = (if isActivityMessage \<and> v_onActivity c then call [DC_activity] d else d)
      in case type of
           MSG_HELLO \<Rightarrow> Some (handleHello c env seqNum payload d)
         | MSG_ACK \<Rightarrow> handleAck c env payload d
         | MSG_NACK \<Rightarrow> Some (handleNack env payload d)
         | MSG_HEARTBEAT \<Rightarrow> Some (handleHeartbeat d)
         | MSG_PING \<Rightarrow> Some (handlePing env seqNum d)
         | MSG_SYNC_REQUEST \<Rightarrow> handleSyncRequest c env seqNum payload d
         | MSG_TIME_SYNC \<Rightarrow> handleTimeSync c env seqNum payload d
         | MSG_CALIBRATE \<Rightarrow> Some (handleCalibrate c env seqNum d)
         | MSG_SET_CONFIG \<Rightarrow> Some (handleSetConfig env seqNum payload d)
         | MSG_GET_CONFIG \<Rightarrow> Some (handleGetConfig env seqNum d)
         | MSG_SLEEP \<Rightarrow> Some (handleSleepCommand c env seqNum d)
         | MSG_OTA_INFO \<Rightarrow> handleOtaInfo c env seqNum d
         | MSG_OTA_START \<Rightarrow> Some (handleOtaStart c env seqNum payload d)
         | MSG_OTA_DATA \<Rightarrow> Some (handleOtaData c env seqNum payload d)
         | MSG_OTA_COMMIT \<Rightarrow> Some (handleOtaCommit c env seqNum d)
         | MSG_OTA_ABORT \<Rightarrow> Some (handleOtaAbort c env seqNum d)
         | MSG_ENTER_OTA_MODE \<Rightarrow> Some (handleEnterOtaMode c env seqNum d)
         | MSG_PAIRING_MODE \<Rightarrow> Some (handlePairingMode env seqNum d)
         | MSG_CLEAR_BONDS \<Rightarrow> Some (handleClearBonds env seqNum d)
         | MSG_SET_WIFI \<Rightarrow> Some (handleSetWifi env seqNum payload d)
         | _ \<Rightarrow> Some (sendNack env seqNum ERR_UNKNOWN_MSG d))"

definition processReceived ::
  "('n, 'u) dev_cfg \<Rightarrow> dev_env \<Rightarrow> bytes \<Rightarrow> ('n, 'u) device \<Rightarrow> ('n, 'u) device option" where
  "processReceived c env data d =
     (if \<not> p_initialized (d_proto d) then Some d
      else case parseFrame data of
          None \<Rightarrow>
            let d = upd_proto incr_error d
            in if length data \<ge> 5
               then Some (sendNack env (rd_be16 (data ! 3) (data ! 4)) ERR_CRC_MISMATCH d)
               else Some d
        | Some (hdr, payload) \<Rightarrow>
            let (lock, d) = ask_lock env d;
                d = (if lock then upd_proto (\<lambda>p. p\<lparr>p_rxCount := p_rxCount p + 1\<rparr>) d else d)
            in dispatchMessage c env (msg_of_code (mh_msgType hdr)) (mh_seqNum hdr)
                 (case payload of Some bs \<Rightarrow> bs | None \<Rightarrow> []) d)"

end
