(* ===== verification/Fw_Delivery.thy ===== *)
theory Fw_Delivery
  imports Fw_Protocol
begin

text \<open>
  What the protocol handler guarantees: what a send puts on the link and in the table of
  pending messages, what an acknowledgement does to the event log, how retries end, what the
  rate limit lets through, and what reaches the services from a bad frame or a peer that has
  not been authenticated.
\<close>

section \<open>What an operation leaves alone\<close>

lemma tick_simps [simp]:
  "d_proto (tick d) = d_proto d" "d_ble (tick d) = d_ble d" "d_hist (tick d) = d_hist d"
  "d_cfg (tick d) = d_cfg d" "d_ota (tick d) = d_ota d" "d_nvs (tick d) = d_nvs d"
  "d_upd (tick d) = d_upd d" "d_out (tick d) = d_out d" "d_calls (tick d) = d_calls d"
  "d_bonds (tick d) = d_bonds d" "d_rtcMagic (tick d) = d_rtcMagic d" "d_bootMode (tick d) = d_bootMode d"
  "d_tick (tick d) = d_tick d + 1"
  by (simp_all add: tick_def)

lemma upd_proto_simps [simp]:
  "d_proto (upd_proto f d) = f (d_proto d)" "d_ble (upd_proto f d) = d_ble d"
  "d_hist (upd_proto f d) = d_hist d" "d_cfg (upd_proto f d) = d_cfg d"
  "d_ota (upd_proto f d) = d_ota d" "d_nvs (upd_proto f d) = d_nvs d"
  "d_upd (upd_proto f d) = d_upd d" "d_out (upd_proto f d) = d_out d"
  "d_calls (upd_proto f d) = d_calls d" "d_bonds (upd_proto f d) = d_bonds d"
  "d_tick (upd_proto f d) = d_tick d" "d_rtcMagic (upd_proto f d) = d_rtcMagic d"
  "d_bootMode (upd_proto f d) = d_bootMode d"
  by (simp_all add: upd_proto_def)

lemma emit_simps [simp]:
  "d_proto (emit os d) = d_proto d" "d_ble (emit os d) = d_ble d" "d_hist (emit os d) = d_hist d"
  "d_cfg (emit os d) = d_cfg d" "d_ota (emit os d) = d_ota d" "d_nvs (emit os d) = d_nvs d"
  "d_upd (emit os d) = d_upd d" "d_out (emit os d) = d_out d @ os" "d_calls (emit os d) = d_calls d"
  "d_tick (emit os d) = d_tick d"
  by (simp_all add: emit_def)

lemma call_simps [simp]:
  "d_proto (call cs d) = d_proto d" "d_ble (call cs d) = d_ble d" "d_hist (call cs d) = d_hist d"
  "d_cfg (call cs d) = d_cfg d" "d_ota (call cs d) = d_ota d" "d_nvs (call cs d) = d_nvs d"
  "d_upd (call cs d) = d_upd d" "d_out (call cs d) = d_out d" "d_calls (call cs d) = d_calls d @ cs"
  "d_tick (call cs d) = d_tick d"
  by (simp_all add: call_def)

lemma ask_simps [simp]:
  "ask_lock env d = (e_lock env (d_tick d), tick d)" "ask_ms env d = (e_ms env (d_tick d), tick d)"
  by (simp_all add: ask_lock_def ask_ms_def)

text \<open>The services' part of the state, which sending does not touch.\<close>

definition services :: "('n, 'u) device \<Rightarrow> ble \<times> history \<times> config_service \<times> ota \<times> 'n \<times> 'u \<times> dev_call list" where
  "services d = (d_ble d, d_hist d, d_cfg d, d_ota d, d_nvs d, d_upd d, d_calls d)"

lemma services_simps [simp]:
  "services (tick d) = services d" "services (upd_proto f d) = services d"
  "services (emit os d) = services d" "services (d\<lparr>d_proto := p\<rparr>) = services d"
  by (simp_all add: services_def)

lemma services_eqD:
  assumes "services d' = services d"
  shows "d_ble d' = d_ble d" "d_hist d' = d_hist d" "d_cfg d' = d_cfg d" "d_ota d' = d_ota d"
    "d_nvs d' = d_nvs d" "d_upd d' = d_upd d" "d_calls d' = d_calls d"
  using assms by (simp_all add: services_def)

lemma ble_send_services [simp]: "services (snd (ble_send data d)) = services d"
  by (simp add: ble_send_def split_def Let_def)

lemma sendMessage_services [simp]: "services (snd (sendMessage env t payload ack d)) = services d"
  by (simp add: sendMessage_def Let_def split_def split: option.split)

lemma sendAck_services [simp]: "services (sendAck env s d) = services d"
  by (simp add: sendAck_def)

lemma sendNack_services [simp]: "services (sendNack env s e d) = services d"
  by (simp add: sendNack_def)

section \<open>What a send does\<close>

definition link_up :: "('n, 'u) device \<Rightarrow> bool" where
  "link_up d \<longleftrightarrow> p_initialized (d_proto d) \<and> p_bleManager (d_proto d) \<and> b_initialized (d_ble d) \<and>
     b_deviceConnected (d_ble d) \<and> b_subscribed (d_ble d)"

definition proto_ok :: "proto \<Rightarrow> bool" where
  "proto_ok p \<longleftrightarrow> length (p_pending p) = MAX_PENDING_MESSAGES \<and> length (p_txFrameBuffer p) = 509 \<and>
     (\<forall>m\<in>set (p_pending p). length (pm_data m) = 509)"

definition tracked_message :: "u16 \<Rightarrow> message_type \<Rightarrow> bytes \<Rightarrow> u32 \<Rightarrow> pending_message \<Rightarrow> bool" where
  "tracked_message seq t payload now m \<longleftrightarrow> pm_active m \<and> pm_seqNum m = seq \<and> pm_msgType m = t \<and>
     pm_sentTime m = now \<and> pm_retryCount m = 0 \<and> take (pm_dataLen m) (pm_data m) = frame_bytes t seq payload"

lemma find_index_Some:
  "find_index p xs = Some i \<Longrightarrow> i < length xs \<and> p (xs ! i) \<and> (\<forall>j<i. \<not> p (xs ! j))"
proof (induction xs arbitrary: i)
  case (Cons x xs)
  then show ?case by (cases i) (auto split: if_splits simp: less_Suc_eq_0_disj)
qed simp

lemma find_index_None: "find_index p xs = None \<longleftrightarrow> (\<forall>x\<in>set xs. \<not> p x)"
  by (induction xs) auto

lemma find_index_ex: "(\<exists>x\<in>set xs. p x) \<Longrightarrow> \<exists>i. find_index p xs = Some i"
  using find_index_None [of p xs] by (cases "find_index p xs") auto

lemma ble_send_up: "link_up d \<Longrightarrow> data \<noteq> [] \<Longrightarrow> ble_send data d = (True, emit [ST_notify data] d)"
  by (simp add: ble_send_def sendNotification_def link_up_def)

text \<open>A message that needs no acknowledgement goes out as one notification of its frame.\<close>

lemma sendMessage_plain:
  fixes payload :: "bytes option"
  defines "bs \<equiv> (case payload of Some bs \<Rightarrow> bs | None \<Rightarrow> [])"
  assumes up: "link_up d" and ok: "proto_ok (d_proto d)" and lock: "e_lock env (d_tick d)"
    and len: "length bs \<le> MAX_PAYLOAD_SIZE"
  obtains d' where "sendMessage env t payload False d = (True, d')"
    "d_out d' = d_out d @ [ST_notify (frame_bytes t (p_txSeqNum (d_proto d)) bs)]"
    "p_pending (d_proto d') = p_pending (d_proto d)" "proto_ok (d_proto d')"
    "p_txSeqNum (d_proto d') = p_txSeqNum (d_proto d) + 1" "services d' = services d" "link_up d'"
    "d_tick d' = d_tick d + 1"
proof -
  let ?seq = "p_txSeqNum (d_proto d)" and ?buf = "p_txFrameBuffer (d_proto d)"
  have buf: "length ?buf = 509" using ok by (simp add: proto_ok_def)
  obtain out' where b: "buildFrame t (Some bs) (length bs) ?seq ?buf = Some (out', length bs + 9)"
    "take (length bs + 9) out' = frame_bytes t ?seq bs" "length out' = 509"
    by (rule buildFrame_bytes [OF len buf])
  have build: "buildFrame t payload (case payload of Some bs \<Rightarrow> length bs | None \<Rightarrow> 0) ?seq ?buf =
      Some (out', length bs + 9)"
    using b(1) by (cases payload) (simp_all add: bs_def buildFrame_def)
  let ?d = "upd_proto (\<lambda>p. p\<lparr>p_txFrameBuffer := out'\<rparr>)
      (upd_proto (\<lambda>p. p\<lparr>p_txSeqNum := p_txSeqNum p + 1\<rparr>) (tick d))"
  have up': "link_up ?d" using up by (simp add: link_up_def)
  have ne: "frame_bytes t ?seq bs \<noteq> []" by (metis length_frame_bytes list.size(3) add_is_0 zero_neq_numeral)
  let ?r = "upd_proto (\<lambda>p. p\<lparr>p_txCount := p_txCount p + 1\<rparr>) (emit [ST_notify (frame_bytes t ?seq bs)] ?d)"
  have "sendMessage env t payload False d = (True, ?r)"
    using up lock build b(2) ble_send_up [OF up' ne]
    by (simp add: sendMessage_def link_up_def Let_def)
  then show thesis
    using up ok b(3) by (intro that [of ?r]) (simp_all add: proto_ok_def link_up_def)
qed

text \<open>A message that needs one takes the first free slot, which keeps a copy of the frame.\<close>

lemma trackPendingLocked_ok:
  assumes ok: "proto_ok p" and free: "\<exists>m\<in>set (p_pending p). \<not> pm_active m"
    and data: "take len data = frame_bytes t seq payload" "len \<le> 509" "length data = 509"
  obtains slot m where "trackPendingLocked seq t data len now p = (True, p\<lparr>p_pending := (p_pending p)[slot := m]\<rparr>)"
    "slot < MAX_PENDING_MESSAGES" "\<not> pm_active (p_pending p ! slot)" "tracked_message seq t payload now m"
    "length (pm_data m) = 509"
proof -
  obtain slot where s: "find_index (\<lambda>m. \<not> pm_active m) (p_pending p) = Some slot"
    using find_index_ex [OF free] by blast
  note f = find_index_Some [OF s]
  let ?old = "p_pending p ! slot"
  let ?m = "?old\<lparr>pm_active := True, pm_seqNum := seq, pm_msgType := t, pm_sentTime := now,
                pm_retryCount := 0, pm_dataLen := len, pm_data := blit (pm_data ?old) 0 (take len data)\<rparr>"
  have l0: "length (pm_data ?old) = 509" using ok f by (simp add: proto_ok_def)
  have "length (take len data) = len" using data(2,3) by simp
  then have cp: "take len (blit (pm_data ?old) 0 (take len data)) = take len data"
    by (simp add: blit_def)
  have "trackPendingLocked seq t data len now p = (True, p\<lparr>p_pending := (p_pending p)[slot := ?m]\<rparr>)"
    by (simp add: trackPendingLocked_def findFreeSlot_def s Let_def)
  moreover have "tracked_message seq t payload now ?m" using cp data(1) by (simp add: tracked_message_def)
  moreover have "length (pm_data ?m) = 509" using l0 data(2,3) by simp
  moreover have "slot < MAX_PENDING_MESSAGES" using f ok by (simp add: proto_ok_def)
  moreover have "\<not> pm_active (p_pending p ! slot)" using f by simp
  ultimately show thesis by (intro that [of slot ?m])
qed

lemma sendMessage_tracked:
  assumes up: "link_up d" and ok: "proto_ok (d_proto d)" and lock: "e_lock env (d_tick d)"
    and len: "length bs \<le> MAX_PAYLOAD_SIZE" and free: "hasPendingSpace (d_proto d)"
  obtains d' slot m where "sendMessage env t (Some bs) True d = (True, d')"
    "d_out d' = d_out d @ [ST_notify (frame_bytes t (p_txSeqNum (d_proto d)) bs)]"
    "p_pending (d_proto d') = (p_pending (d_proto d))[slot := m]" "slot < MAX_PENDING_MESSAGES"
    "\<not> pm_active (p_pending (d_proto d) ! slot)"
    "tracked_message (p_txSeqNum (d_proto d)) t bs (e_ms env (d_tick d + 1)) m"
    "proto_ok (d_proto d')" "p_txSeqNum (d_proto d') = p_txSeqNum (d_proto d) + 1"
    "services d' = services d" "link_up d'"
proof -
  let ?seq = "p_txSeqNum (d_proto d)" and ?buf = "p_txFrameBuffer (d_proto d)"
  have buf: "length ?buf = 509" using ok by (simp add: proto_ok_def)
  obtain out' where b: "buildFrame t (Some bs) (length bs) ?seq ?buf = Some (out', length bs + 9)"
    "take (length bs + 9) out' = frame_bytes t ?seq bs" "length out' = 509"
    by (rule buildFrame_bytes [OF len buf])
  let ?d = "tick (upd_proto (\<lambda>p. p\<lparr>p_txFrameBuffer := out'\<rparr>)
      (upd_proto (\<lambda>p. p\<lparr>p_txSeqNum := p_txSeqNum p + 1\<rparr>) (tick d)))"
  have ok1: "proto_ok (d_proto ?d)" using ok b(3) by (simp add: proto_ok_def)
  have fr: "\<exists>m\<in>set (p_pending (d_proto ?d)). \<not> pm_active m"
  proof (rule ccontr)
    assume "\<not> ?thesis"
    then have "filter pm_active (p_pending (d_proto d)) = p_pending (d_proto d)" by simp
    then show False using free ok by (simp add: hasPendingSpace_def getPendingCount_p_def proto_ok_def)
  qed
  have le: "length bs + 9 \<le> 509" using len by (simp add: MAX_PAYLOAD_SIZE_def)
  obtain slot m where t: "trackPendingLocked ?seq t out' (length bs + 9) (e_ms env (d_tick d + 1)) (d_proto ?d) =
      (True, (d_proto ?d)\<lparr>p_pending := (p_pending (d_proto ?d))[slot := m]\<rparr>)"
    "slot < MAX_PENDING_MESSAGES" "\<not> pm_active (p_pending (d_proto ?d) ! slot)"
    "tracked_message ?seq t bs (e_ms env (d_tick d + 1)) m" "length (pm_data m) = 509"
    by (rule trackPendingLocked_ok [OF ok1 fr b(2) le b(3)])
  let ?d2 = "?d\<lparr>d_proto := (d_proto ?d)\<lparr>p_pending := (p_pending (d_proto ?d))[slot := m]\<rparr>\<rparr>"
  have up': "link_up ?d2" using up by (simp add: link_up_def)
  have ne: "frame_bytes t ?seq bs \<noteq> []" by (metis length_frame_bytes list.size(3) add_is_0 zero_neq_numeral)
  let ?r = "upd_proto (\<lambda>p. p\<lparr>p_txCount := p_txCount p + 1\<rparr>) (emit [ST_notify (frame_bytes t ?seq bs)] ?d2)"
  have "sendMessage env t (Some bs) True d = (True, ?r)"
    using up lock b(1,2) t(1) ble_send_up [OF up' ne]
    by (simp add: sendMessage_def link_up_def Let_def)
  moreover have "proto_ok (d_proto ?r)"
    using ok b(3) t(2,5) by (auto simp: proto_ok_def dest: set_update_subset_insert [THEN subsetD])
  ultimately show thesis
    using up t by (intro that [of ?r slot m]) (simp_all add: link_up_def)
qed

section \<open>Acknowledgements\<close>

definition all_locks :: "dev_env \<Rightarrow> bool" where
  "all_locks env \<longleftrightarrow> (\<forall>k. e_lock env k)"

lemma all_locksD [simp]: "all_locks env \<Longrightarrow> e_lock env k"
  by (simp add: all_locks_def)

lemma pending_match_eq [simp]: "pending_match s = (\<lambda>m. pm_active m \<and> pm_seqNum m = s)"
  by (rule ext) (simp add: pending_match_def)

text \<open>The identifier that the ACK handler reads out of a stored frame is the event's.\<close>

lemma tracked_event_id:
  assumes "tracked_message seq MSG_DETECTION_EVENT (enc_event e) now m"
  shows "pending_event_id m = ev_id e"
proof -
  let ?f = "frame_bytes MSG_DETECTION_EVENT seq (enc_event e)"
  have t: "take (pm_dataLen m) (pm_data m) = ?f" using assms by (simp add: tracked_message_def)
  then have "length ?f \<le> pm_dataLen m" by (metis length_take min.cobounded2)
  then have nth: "pm_data m ! i = ?f ! i" if "i < 33" for i
    using that t by (metis length_frame_bytes length_enc_event nth_take order_less_le_trans
        numeral_plus_numeral semiring_norm(2) semiring_norm(3) add_num_simps)
  have "?f ! 7 = enc_event e ! 0" "?f ! 8 = enc_event e ! 1" "?f ! 9 = enc_event e ! 2" "?f ! 10 = enc_event e ! 3"
    by (simp_all add: frame_bytes_def frame_body_def be16_def nth_append)
  then show ?thesis
    using nth [of 7] nth [of 8] nth [of 9] nth [of 10]
    by (simp add: pending_event_id_def HEADER_SIZE_def enc_event_def le32_def)
qed

lemma validateAckSecurity_known:
  assumes "all_locks env" "m \<in> set (p_pending (d_proto d))" "pm_active m" "pm_seqNum m = s"
  shows "validateAckSecurity env s d = (True, tick (tick d))"
  using assms by (auto simp: validateAckSecurity_def Let_def)

lemma handleAck_event:
  assumes env: "all_locks env" and hs: "p_historyService (d_proto d)"
    and h: "h_valid (v_hist c) (d_hist d)"
    and i: "find_index (pending_match s) (p_pending (d_proto d)) = Some i"
    and m: "pm_msgType (p_pending (d_proto d) ! i) = MSG_DETECTION_EVENT"
    and eid: "pending_event_id (p_pending (d_proto d) ! i) = eid"
  obtains d' st' where "handleAck c env (be16 s) d = Some d'" "d_hist d' = (d_hist d)\<lparr>h_state := st'\<rparr>"
    "rtc_valid (v_hist c) st'" "stored (v_hist c) st' = mark_spec eid (h_stored (v_hist c) (d_hist d))"
    "rs_globalEventId st' = rs_globalEventId (h_state (d_hist d))"
    "d_proto d' = ack_found i (d_proto d)" "d_out d' = d_out d" "d_nvs d' = d_nvs d" "d_ble d' = d_ble d"
proof -
  obtain st' where st': "markAsSynced (v_hist c) eid True (d_hist d) =
       Some (eid \<in> ev_id ` set (h_stored (v_hist c) (d_hist d)), (d_hist d)\<lparr>h_state := st'\<rparr>)"
    "rtc_valid (v_hist c) st'" "stored (v_hist c) st' = mark_spec eid (h_stored (v_hist c) (d_hist d))"
    "rs_globalEventId st' = rs_globalEventId (h_state (d_hist d))"
    by (rule markAsSynced_stored [OF h])
  note f = find_index_Some [OF i]
  have mem: "p_pending (d_proto d) ! i \<in> set (p_pending (d_proto d))" using f by simp
  have v: "validateAckSecurity env s d = (True, tick (tick d))"
    using validateAckSecurity_known [OF env mem] f by simp
  have rd: "rd_be16 (be16 s ! 0) (be16 s ! Suc 0) = s" "length (be16 s) = 2" by (simp_all add: be16_def)
  let ?d = "upd_proto (ack_found i) (tick ((tick (tick (tick (tick d))))\<lparr>d_hist := (d_hist d)\<lparr>h_state := st'\<rparr>\<rparr>))"
  have "handleAck c env (be16 s) d = Some ?d"
    using f i hs m eid st'(1) env by (simp add: handleAck_def rd v Let_def)
  then show thesis using st' by (intro that [of ?d st']) simp_all
qed

lemma dispatch_ack: "dispatchMessage c env MSG_ACK s payload d = handleAck c env payload d"
  by (simp add: dispatchMessage_def Let_def)

lemma processReceived_frame:
  assumes "p_initialized (d_proto d)" "length payload \<le> MAX_PAYLOAD_SIZE"
  shows "processReceived c env (frame_bytes t s payload) d =
    dispatchMessage c env (msg_of_code (msg_code t)) s payload
      (if e_lock env (d_tick d) then upd_proto (\<lambda>p. p\<lparr>p_rxCount := p_rxCount p + 1\<rparr>) (tick d) else tick d)"
  using assms by (simp add: processReceived_def parseFrame_frame_bytes Let_def if_distrib cong: if_cong)

lemma find_index_unique:
  "i < length xs \<Longrightarrow> p (xs ! i) \<Longrightarrow> (\<And>j. j < i \<Longrightarrow> \<not> p (xs ! j)) \<Longrightarrow> find_index p xs = Some i"
proof (induction xs arbitrary: i)
  case (Cons x xs)
  show ?case
  proof (cases i)
    case 0
    then show ?thesis using Cons.prems by simp
  next
    case (Suc k)
    have "\<not> p x" using Cons.prems(3) [of 0] Suc by simp
    moreover have "\<not> p (xs ! j)" if "j < k" for j using Cons.prems(3) [of "Suc j"] Suc that by simp
    ultimately show ?thesis using Cons.IH [of k] Cons.prems(1,2) Suc by simp
  qed
qed simp

lemma filter_update_out: "i < length xs \<Longrightarrow> \<not> p (xs ! i) \<Longrightarrow> \<not> p y \<Longrightarrow> filter p (xs[i := y]) = filter p xs"
  by (simp add: upd_conv_take_nth_drop) (metis append_Cons append_Nil filter.simps(2) filter_append id_take_nth_drop)

lemma pending_count_update:
  assumes "slot < length ms" "\<not> pm_active (ms ! slot)" "pm_active m"
  shows "length (filter pm_active (ms[slot := m])) = Suc (length (filter pm_active ms))"
  using assms by (simp add: upd_conv_take_nth_drop)
    (metis (no_types) filter.simps(2) filter_append id_take_nth_drop length_append add_Suc_right)

definition seq_free :: "proto \<Rightarrow> bool" where
  "seq_free p \<longleftrightarrow> (\<forall>m\<in>set (p_pending p). pm_active m \<longrightarrow> pm_seqNum m \<noteq> p_txSeqNum p)"

definition active_pending :: "proto \<Rightarrow> pending_message list" where
  "active_pending p = filter pm_active (p_pending p)"

lemma pending_ops_links [simp]:
  "p_historyService (snd (trackPendingLocked s t data len now p)) = p_historyService p"
  "p_historyService (snd (clearPendingLocked s p)) = p_historyService p"
  "p_lastConfigSeqNum (snd (trackPendingLocked s t data len now p)) = p_lastConfigSeqNum p"
  "p_lastConfigSeqNum (snd (clearPendingLocked s p)) = p_lastConfigSeqNum p"
  "p_configSeqInitialized (snd (trackPendingLocked s t data len now p)) = p_configSeqInitialized p"
  "p_configSeqInitialized (snd (clearPendingLocked s p)) = p_configSeqInitialized p"
  by (simp_all add: trackPendingLocked_def clearPendingLocked_def Let_def split: option.split)

lemma sendMessage_links [simp]:
  "p_historyService (d_proto (snd (sendMessage env t payload a d))) = p_historyService (d_proto d)"
  "p_lastConfigSeqNum (d_proto (snd (sendMessage env t payload a d))) = p_lastConfigSeqNum (d_proto d)"
  "p_configSeqInitialized (d_proto (snd (sendMessage env t payload a d))) = p_configSeqInitialized (d_proto d)"
  by (simp_all add: sendMessage_def ble_send_def incr_error_def split_def Let_def split: option.split)

lemma pending_ops_window [simp]:
  "p_detectionEventCount (snd (trackPendingLocked s t data len now p)) = p_detectionEventCount p"
  "p_detectionEventCount (snd (clearPendingLocked s p)) = p_detectionEventCount p"
  "p_detectionWindowStart (snd (trackPendingLocked s t data len now p)) = p_detectionWindowStart p"
  "p_detectionWindowStart (snd (clearPendingLocked s p)) = p_detectionWindowStart p"
  by (simp_all add: trackPendingLocked_def clearPendingLocked_def Let_def split: option.split)

lemma sendMessage_window [simp]:
  "p_detectionEventCount (d_proto (snd (sendMessage env t payload a d))) = p_detectionEventCount (d_proto d)"
  "p_detectionWindowStart (d_proto (snd (sendMessage env t payload a d))) = p_detectionWindowStart (d_proto d)"
  by (simp_all add: sendMessage_def ble_send_def incr_error_def split_def Let_def split: option.split)

text \<open>A detection that has been sent and is then acknowledged.\<close>

lemma send_then_ack:
  assumes env: "all_locks env" and up: "link_up d" and ok: "proto_ok (d_proto d)"
    and free: "hasPendingSpace (d_proto d)" and seq: "seq_free (d_proto d)"
    and hs: "p_historyService (d_proto d)" and h: "h_valid (v_hist c) (d_hist d)"
  obtains d1 d2 st' where "sendDetectionEvent env e True d = (True, d1)"
    "d_out d1 = d_out d @ [ST_notify (frame_bytes MSG_DETECTION_EVENT (p_txSeqNum (d_proto d)) (enc_event e))]"
    "length (active_pending (d_proto d1)) = Suc (length (active_pending (d_proto d)))"
    "processReceived c env (frame_bytes MSG_ACK s (be16 (p_txSeqNum (d_proto d)))) d1 = Some d2"
    "active_pending (d_proto d2) = active_pending (d_proto d)" "d_out d2 = d_out d1"
    "d_hist d2 = (d_hist d)\<lparr>h_state := st'\<rparr>" "rtc_valid (v_hist c) st'"
    "stored (v_hist c) st' = mark_spec (ev_id e) (h_stored (v_hist c) (d_hist d))"
    "rs_globalEventId st' = rs_globalEventId (h_state (d_hist d))"
    "link_up d2" "proto_ok (d_proto d2)" "p_historyService (d_proto d2)"
    "p_detectionWindowStart (d_proto d2) = p_detectionWindowStart (d_proto d)"
proof -
  let ?seq = "p_txSeqNum (d_proto d)"
  have len: "length (enc_event e) \<le> MAX_PAYLOAD_SIZE" by (simp add: MAX_PAYLOAD_SIZE_def)
  obtain d1 slot m where s: "sendMessage env MSG_DETECTION_EVENT (Some (enc_event e)) True d = (True, d1)"
    "d_out d1 = d_out d @ [ST_notify (frame_bytes MSG_DETECTION_EVENT ?seq (enc_event e))]"
    "p_pending (d_proto d1) = (p_pending (d_proto d))[slot := m]" "slot < MAX_PENDING_MESSAGES"
    "\<not> pm_active (p_pending (d_proto d) ! slot)"
    "tracked_message ?seq MSG_DETECTION_EVENT (enc_event e) (e_ms env (d_tick d + 1)) m"
    "services d1 = services d" "link_up d1" "proto_ok (d_proto d1)"
    by (rule sendMessage_tracked [OF up ok all_locksD [OF env] len free])
  let ?m' = "m\<lparr>pm_active := False\<rparr>"
  have lt: "slot < length (p_pending (d_proto d))" using s(4) ok by (simp add: proto_ok_def)
  have m: "pm_active m" "pm_seqNum m = ?seq" "pm_msgType m = MSG_DETECTION_EVENT"
    using s(6) by (simp_all add: tracked_message_def)
  define d1' where "d1' = upd_proto (\<lambda>p. p\<lparr>p_rxCount := p_rxCount p + 1\<rparr>) (tick d1)"
  have pend: "p_pending (d_proto d1') = (p_pending (d_proto d))[slot := m]" by (simp add: d1'_def s(3))
  have hist: "d_hist d1' = d_hist d" using services_eqD(2) [OF s(7)] by (simp add: d1'_def)
  have hs': "p_historyService (d_proto d1')"
    using hs sendMessage_links(1) [of env MSG_DETECTION_EVENT "Some (enc_event e)" True d] s(1)
    by (simp add: d1'_def)
  have i: "find_index (pending_match ?seq) (p_pending (d_proto d1')) = Some slot"
    using seq s(5) lt m by (intro find_index_unique) (auto simp: pend seq_free_def)
  obtain d2 st' where a: "handleAck c env (be16 ?seq) d1' = Some d2" "d_hist d2 = (d_hist d1')\<lparr>h_state := st'\<rparr>"
    "rtc_valid (v_hist c) st'" "stored (v_hist c) st' = mark_spec (ev_id e) (h_stored (v_hist c) (d_hist d1'))"
    "d_proto d2 = ack_found slot (d_proto d1')" "d_out d2 = d_out d1'" "d_ble d2 = d_ble d1'"
    "rs_globalEventId st' = rs_globalEventId (h_state (d_hist d1'))"
    by (rule handleAck_event [OF env hs' _ i, of c "ev_id e"])
      (use h hist lt m tracked_event_id [OF s(6)] in \<open>auto simp: pend\<close>)
  have recv: "processReceived c env (frame_bytes MSG_ACK s (be16 ?seq)) d1 = Some d2"
    using a(1) s(8) env by (simp add: processReceived_frame link_up_def MAX_PAYLOAD_SIZE_def be16_def
        dispatch_ack d1'_def msg_code_def listed_types_def msg_of_code_def)
  have act: "active_pending (d_proto d2) = active_pending (d_proto d)"
    using filter_update_out [of slot "p_pending (d_proto d)" pm_active ?m'] lt s(5)
    by (simp add: active_pending_def a(5) ack_found_def pend)
  have grow: "length (active_pending (d_proto d1)) = Suc (length (active_pending (d_proto d)))"
    using lt s(5) m by (simp add: active_pending_def s(3) pending_count_update)
  have up2: "link_up d2"
    using s(8) by (simp add: link_up_def a(5,7) ack_found_def d1'_def)
  have mem: "p_pending (d_proto d1') ! slot \<in> set (p_pending (d_proto d1'))"
    using lt by (simp add: pend set_update_memI)
  have ok2: "proto_ok (d_proto d2)"
    using s(9) mem by (auto simp: proto_ok_def a(5) ack_found_def d1'_def
        dest: set_update_subset_insert [THEN subsetD])
  have win: "p_detectionWindowStart (d_proto d2) = p_detectionWindowStart (d_proto d)"
    using sendMessage_window(2) [of env MSG_DETECTION_EVENT "Some (enc_event e)" True d] s(1)
    by (simp add: a(5) ack_found_def d1'_def)
  have "p_historyService (d_proto d2)" using hs' by (simp add: a(5) ack_found_def)
  then show thesis
    using s(1,2) recv act grow a hist up2 ok2 win
    by (intro that [of d1 d2 st']) (simp_all add: sendDetectionEvent_def d1'_def)
qed

section \<open>Retries\<close>

text \<open>
  What one round of \<open>processRetries\<close> does to a slot: an unacknowledged message whose timeout
  has passed is due; it is sent again while its retries last, then given up.
\<close>

definition due :: "('n, 'u) dev_cfg \<Rightarrow> u32 \<Rightarrow> pending_message \<Rightarrow> bool" where
  "due c now m \<longleftrightarrow> pm_active m \<and> now - pm_sentTime m > ACK_TIMEOUT_MS c"

definition resend :: "('n, 'u) dev_cfg \<Rightarrow> u32 \<Rightarrow> pending_message \<Rightarrow> bool" where
  "resend c now m \<longleftrightarrow> due c now m \<and> pm_retryCount m < MAX_RETRY_COUNT c"

definition retry_one :: "('n, 'u) dev_cfg \<Rightarrow> u32 \<Rightarrow> pending_message \<Rightarrow> pending_message" where
  "retry_one c now m =
     (if resend c now m then m\<lparr>pm_retryCount := pm_retryCount m + 1, pm_sentTime := now\<rparr>
      else if due c now m then m\<lparr>pm_active := False\<rparr> else m)"

definition stored_frame :: "pending_message \<Rightarrow> bytes" where
  "stored_frame m = take (pm_dataLen m) (pm_data m)"

definition frames_ok :: "proto \<Rightarrow> bool" where
  "frames_ok p \<longleftrightarrow> (\<forall>m\<in>set (p_pending p). pm_active m \<longrightarrow> stored_frame m \<noteq> [])"

lemmas retry_defs = due_def resend_def retry_one_def

lemma retry_slot_one:
  assumes env: "all_locks env" and up: "link_up d" and i: "i < length (p_pending (d_proto d))"
    and ne: "pm_active (p_pending (d_proto d) ! i) \<longrightarrow> stored_frame (p_pending (d_proto d) ! i) \<noteq> []"
  shows "link_up (retry_slot c env now i d) \<and> services (retry_slot c env now i d) = services d \<and>
    p_pending (d_proto (retry_slot c env now i d)) =
      (p_pending (d_proto d))[i := retry_one c now (p_pending (d_proto d) ! i)] \<and>
    d_out (retry_slot c env now i d) = d_out d @
      (if resend c now (p_pending (d_proto d) ! i)
       then [ST_notify (stored_frame (p_pending (d_proto d) ! i))] else [])"
proof -
  let ?m = "p_pending (d_proto d) ! i"
  consider "resend c now ?m" | "due c now ?m" "\<not> resend c now ?m" | "\<not> due c now ?m" by blast
  then show ?thesis
  proof cases
    case 1
    let ?d = "upd_proto (\<lambda>p. p\<lparr>p_pending := (p_pending p)[i := ?m\<lparr>pm_retryCount := pm_retryCount ?m + 1,
        pm_sentTime := now\<rparr>], p_retryCount := p_retryCount p + 1\<rparr>) (tick d)"
    have up': "link_up ?d" using up by (simp add: link_up_def)
    have f: "stored_frame ?m \<noteq> []" using ne 1 by (simp add: retry_defs)
    have "retry_slot c env now i d = emit [ST_notify (stored_frame ?m)] ?d"
      using 1 env ble_send_up [OF up' f] by (simp add: retry_slot_def retry_defs Let_def stored_frame_def)
    then show ?thesis using 1 up by (simp add: retry_one_def link_up_def)
  next
    case 2
    then show ?thesis using env up by (simp add: retry_slot_def retry_defs Let_def incr_error_def link_up_def)
  next
    case 3
    then show ?thesis using env up by (simp add: retry_slot_def retry_defs Let_def link_up_def)
  qed
qed

lemma retry_fold:
  assumes env: "all_locks env"
  shows "link_up d \<Longrightarrow> frames_ok (d_proto d) \<Longrightarrow> n \<le> length (p_pending (d_proto d)) \<Longrightarrow>
    (let d' = fold (retry_slot c env now) [0..<n] d; ms = take n (p_pending (d_proto d))
     in link_up d' \<and> services d' = services d \<and>
        p_pending (d_proto d') = map (retry_one c now) ms @ drop n (p_pending (d_proto d)) \<and>
        d_out d' = d_out d @ map (ST_notify \<circ> stored_frame) (filter (resend c now) ms))"
proof (induction n)
  case (Suc n)
  let ?ms = "p_pending (d_proto d)"
  define d' where "d' = fold (retry_slot c env now) [0..<n] d"
  have IH: "link_up d'" "services d' = services d"
    "p_pending (d_proto d') = map (retry_one c now) (take n ?ms) @ drop n ?ms"
    "d_out d' = d_out d @ map (ST_notify \<circ> stored_frame) (filter (resend c now) (take n ?ms))"
    using Suc by (simp_all add: Let_def d'_def)
  have lt: "n < length ?ms" using Suc.prems(3) by simp
  have dr: "drop n ?ms = ?ms ! n # drop (Suc n) ?ms" using lt by (rule Cons_nth_drop_Suc [symmetric])
  have nth: "p_pending (d_proto d') ! n = ?ms ! n"
    using lt by (simp add: IH(3) nth_append)
  have ne: "pm_active (?ms ! n) \<longrightarrow> stored_frame (?ms ! n) \<noteq> []" using Suc.prems(2) lt by (simp add: frames_ok_def)
  have upd: "(p_pending (d_proto d'))[n := retry_one c now (?ms ! n)] =
      map (retry_one c now) (take n ?ms) @ retry_one c now (?ms ! n) # drop (Suc n) ?ms"
    using lt by (simp add: IH(3) dr list_update_append)
  have "fold (retry_slot c env now) [0..<Suc n] d = retry_slot c env now n d'" by (simp add: d'_def)
  then show ?case
    using retry_slot_one [OF env IH(1), of n c now] lt IH(2,4) upd nth ne
    by (simp add: Let_def take_Suc_conv_app_nth IH(3))
qed simp

lemma processRetries_up:
  assumes env: "all_locks env" and up: "link_up d"
    and len: "length (p_pending (d_proto d)) = MAX_PENDING_MESSAGES" and ne: "frames_ok (d_proto d)"
  shows "let d' = processRetries c env d; now = e_ms env (d_tick d) in
    link_up d' \<and> services d' = services d \<and>
    p_pending (d_proto d') = map (retry_one c now) (p_pending (d_proto d)) \<and>
    d_out d' = d_out d @ map (ST_notify \<circ> stored_frame) (filter (resend c now) (p_pending (d_proto d)))"
proof -
  have up': "link_up (tick d)" using up by (simp add: link_up_def)
  show ?thesis
    using retry_fold [OF env up', of MAX_PENDING_MESSAGES c "e_ms env (d_tick d)"] up ne len
    by (simp add: processRetries_def link_up_def Let_def)
qed

text \<open>Rounds at the given times; each time is more than the timeout after the one before.\<close>

definition retry_rounds :: "('n, 'u) dev_cfg \<Rightarrow> dev_env \<Rightarrow> u32 list \<Rightarrow> ('n, 'u) device \<Rightarrow> ('n, 'u) device" where
  "retry_rounds c env nows d = fold (\<lambda>now d. processRetries c (env\<lparr>e_ms := \<lambda>_. now\<rparr>) d) nows d"

fun spaced :: "u32 \<Rightarrow> u32 \<Rightarrow> u32 list \<Rightarrow> bool" where
  "spaced timeout prev [] = True"
| "spaced timeout prev (now # nows) = (now - prev > timeout \<and> spaced timeout now nows)"

lemma retry_one_simps [simp]:
  "stored_frame (retry_one c now m) = stored_frame m" "pm_data (retry_one c now m) = pm_data m"
  "pm_seqNum (retry_one c now m) = pm_seqNum m"
  by (simp_all add: retry_one_def stored_frame_def)

lemma retry_one_active: "pm_active (retry_one c now m) \<Longrightarrow> pm_active m"
  by (simp add: retry_one_def split: if_splits)

lemma retry_one_inactive [simp]: "\<not> pm_active m \<Longrightarrow> retry_one c now m = m"
  by (simp add: retry_defs)

lemma retry_one_resend:
  assumes "pm_active m" "now - pm_sentTime m > ACK_TIMEOUT_MS c" "pm_retryCount m < MAX_RETRY_COUNT c"
  shows "resend c now m" "pm_active (retry_one c now m)" "pm_sentTime (retry_one c now m) = now"
    "unat (pm_retryCount (retry_one c now m)) = Suc (unat (pm_retryCount m))"
proof -
  have "pm_retryCount m < - 1" using assms(3) by (metis word_order.extremum order_less_le_trans)
  then show "unat (pm_retryCount (retry_one c now m)) = Suc (unat (pm_retryCount m))"
    using assms unat_inc [of "pm_retryCount m"] by (simp add: retry_defs)
qed (use assms in \<open>simp_all add: retry_defs\<close>)

lemma retry_one_expired:
  assumes "pm_active m" "now - pm_sentTime m > ACK_TIMEOUT_MS c" "\<not> pm_retryCount m < MAX_RETRY_COUNT c"
  shows "\<not> pm_active (retry_one c now m)"
  using assms by (simp add: retry_defs)

lemma fold_retry_inactive [simp]: "\<not> pm_active m \<Longrightarrow> fold (retry_one c) nows m = m"
  by (induction nows) simp_all

lemma fold_retry_active:
  assumes "pm_active m" "spaced (ACK_TIMEOUT_MS c) (pm_sentTime m) nows"
    "unat (pm_retryCount m) \<le> unat (MAX_RETRY_COUNT c)"
  shows "pm_active (fold (retry_one c) nows m) \<longleftrightarrow>
    unat (pm_retryCount m) + length nows \<le> unat (MAX_RETRY_COUNT c)"
  using assms
proof (induction nows arbitrary: m)
  case (Cons now nows)
  show ?case
  proof (cases "pm_retryCount m < MAX_RETRY_COUNT c")
    case True
    note r = retry_one_resend [OF Cons.prems(1) _ True, of now]
    have sp: "ACK_TIMEOUT_MS c < now - pm_sentTime m" using Cons.prems(2) by simp
    have le: "unat (pm_retryCount (retry_one c now m)) \<le> unat (MAX_RETRY_COUNT c)"
      using True r(4) [OF sp] by (simp add: word_less_nat_alt)
    show ?thesis using Cons.IH [OF r(2) [OF sp] _ le] Cons.prems(2) r(3,4) [OF sp] by simp
  next
    case False
    then have "unat (pm_retryCount m) = unat (MAX_RETRY_COUNT c)"
      using Cons.prems(3) by (simp add: word_less_nat_alt)
    then show ?thesis using retry_one_expired [OF Cons.prems(1) _ False, of now] Cons.prems(2) by simp
  qed
qed simp

lemma frames_ok_retry:
  assumes "frames_ok p" "p_pending p' = map (retry_one c now) (p_pending p)"
  shows "frames_ok p'"
  using assms by (auto simp: frames_ok_def dest: retry_one_active)

lemma count_list_member: "x \<in> set xs \<Longrightarrow> Suc 0 \<le> count_list xs x"
  by (metis count_list_0_iff less_one not_less_eq_eq bot_nat_0.extremum_unique not_less_eq_eq not_less)

lemma retry_rounds_step:
  "retry_rounds c env (now # nows) d =
     retry_rounds c env nows (processRetries c (env\<lparr>e_ms := \<lambda>_. now\<rparr>) d)"
  by (simp add: retry_rounds_def)

lemma retry_rounds_pending:
  assumes "all_locks env" "link_up d" "length (p_pending (d_proto d)) = MAX_PENDING_MESSAGES" "frames_ok (d_proto d)"
  shows "p_pending (d_proto (retry_rounds c env nows d)) = map (fold (retry_one c) nows) (p_pending (d_proto d)) \<and>
    services (retry_rounds c env nows d) = services d"
  using assms
proof (induction nows arbitrary: d)
  case (Cons now nows)
  let ?env = "env\<lparr>e_ms := \<lambda>_. now\<rparr>"
  let ?d = "processRetries c ?env d"
  have up: "link_up ?d" "services ?d = services d"
    "p_pending (d_proto ?d) = map (retry_one c now) (p_pending (d_proto d))"
    using processRetries_up [of ?env d c] Cons.prems by (simp_all add: all_locks_def Let_def)
  show ?case
    using Cons.IH [OF Cons.prems(1) up(1) _ frames_ok_retry [OF Cons.prems(4) up(3)]] Cons.prems(3) up(2,3)
    by (simp add: retry_rounds_step)
qed (simp add: retry_rounds_def)

lemma retry_rounds_mono:
  assumes env: "all_locks env" and "link_up d"
    and "length (p_pending (d_proto d)) = MAX_PENDING_MESSAGES" "frames_ok (d_proto d)"
  shows "count_list (d_out d) y \<le> count_list (d_out (retry_rounds c env nows d)) y"
  using assms(2-)
proof (induction nows arbitrary: d)
  case (Cons now nows)
  let ?d = "processRetries c (env\<lparr>e_ms := \<lambda>_. now\<rparr>) d"
  have s: "link_up ?d" "p_pending (d_proto ?d) = map (retry_one c now) (p_pending (d_proto d))"
    "count_list (d_out d) y \<le> count_list (d_out ?d) y"
    using processRetries_up [of "env\<lparr>e_ms := \<lambda>_. now\<rparr>" d c] env Cons.prems
    by (simp_all add: all_locks_def Let_def)
  show ?case
    using Cons.IH [OF s(1) _ frames_ok_retry [OF Cons.prems(3) s(2)]] s(2,3) Cons.prems(2)
    by (simp add: retry_rounds_step)
qed (simp add: retry_rounds_def)

text \<open>Until the retries are used up, each round puts the stored frame on the link again.\<close>

lemma retry_rounds_out:
  assumes env: "all_locks env" and up: "link_up d"
    and len: "length (p_pending (d_proto d)) = MAX_PENDING_MESSAGES" and ne: "frames_ok (d_proto d)"
    and m: "m \<in> set (p_pending (d_proto d))" "pm_active m" "spaced (ACK_TIMEOUT_MS c) (pm_sentTime m) nows"
  shows "count_list (d_out d) (ST_notify (stored_frame m)) +
      min (length nows) (unat (MAX_RETRY_COUNT c) - unat (pm_retryCount m))
    \<le> count_list (d_out (retry_rounds c env nows d)) (ST_notify (stored_frame m))"
  using up len ne m
proof (induction nows arbitrary: d m)
  case (Cons now nows)
  let ?env = "env\<lparr>e_ms := \<lambda>_. now\<rparr>" and ?x = "ST_notify (stored_frame m)"
  let ?d = "processRetries c ?env d" and ?m = "retry_one c now m"
  have st: "link_up ?d" "p_pending (d_proto ?d) = map (retry_one c now) (p_pending (d_proto d))"
    "d_out ?d = d_out d @ map (ST_notify \<circ> stored_frame) (filter (resend c now) (p_pending (d_proto d)))"
    using processRetries_up [of ?env d c] env Cons.prems by (simp_all add: all_locks_def Let_def)
  have len': "length (p_pending (d_proto ?d)) = MAX_PENDING_MESSAGES" using st(2) Cons.prems(2) by simp
  note fr = frames_ok_retry [OF Cons.prems(3) st(2)]
  have mem: "?m \<in> set (p_pending (d_proto ?d))" using st(2) Cons.prems(4) by simp
  have sp: "ACK_TIMEOUT_MS c < now - pm_sentTime m" using Cons.prems(6) by simp
  show ?case
  proof (cases "pm_retryCount m < MAX_RETRY_COUNT c")
    case True
    note r = retry_one_resend [OF Cons.prems(5) sp True]
    have "?x \<in> set (map (ST_notify \<circ> stored_frame) (filter (resend c now) (p_pending (d_proto d))))"
      using r(1) Cons.prems(4) by auto
    from count_list_member [OF this] have "Suc (count_list (d_out d) ?x) \<le> count_list (d_out ?d) ?x"
      by (simp add: st(3))
    moreover have "unat (pm_retryCount m) < unat (MAX_RETRY_COUNT c)" using True by (simp add: word_less_nat_alt)
    ultimately show ?thesis
      using Cons.IH [OF st(1) len' fr mem r(2)] Cons.prems(6) r(3,4) by (simp add: retry_rounds_step)
  next
    case False
    show ?thesis using retry_rounds_mono [OF env Cons.prems(1,2,3), of ?x c "now # nows"] False by (simp add: word_less_nat_alt)
  qed
qed (simp add: retry_rounds_def)

section \<open>The rate limit\<close>

text \<open>Detections offered in turn; the results say which were sent.\<close>

fun offer_detections ::
  "dev_env \<Rightarrow> det_event list \<Rightarrow> ('n, 'u) device \<Rightarrow> bool list \<times> ('n, 'u) device" where
  "offer_detections env [] d = ([], d)"
| "offer_detections env (e # es) d =
     (let (r, d) = sendDetectionEvent env e False d; (rs, d) = offer_detections env es d
      in (r # rs, d))"

definition window_open :: "dev_env \<Rightarrow> proto \<Rightarrow> bool" where
  "window_open env p \<longleftrightarrow> (\<forall>k. \<not> e_ms env k - p_detectionWindowStart p > DETECTION_RATE_WINDOW_MS)"

lemma sendDetectionEvent_window:
  assumes "window_open env (d_proto d)"
  shows "let (r, d') = sendDetectionEvent env e False d in
    window_open env (d_proto d') \<and> p_detectionWindowStart (d_proto d') = p_detectionWindowStart (d_proto d) \<and>
    (if p_detectionEventCount (d_proto d) \<ge> MAX_DETECTIONS_PER_WINDOW
     then \<not> r \<and> p_detectionEventCount (d_proto d') = p_detectionEventCount (d_proto d) \<and>
       d_out d' = d_out d \<and> d_calls d' = d_calls d @ [DC_suppress 1000]
     else p_detectionEventCount (d_proto d') = p_detectionEventCount (d_proto d) + 1 \<and> d_calls d' = d_calls d)"
proof -
  have w: "\<not> e_ms env (d_tick d) - p_detectionWindowStart (d_proto d) > DETECTION_RATE_WINDOW_MS"
    using assms by (simp add: window_open_def)
  have c: "d_calls (snd (sendMessage env t payload a d)) = d_calls d" for t payload a and d :: "('a, 'b) device"
    using services_eqD(7) [OF sendMessage_services] .
  show ?thesis
    using w assms by (simp add: sendDetectionEvent_def Let_def split_def c window_open_def)
qed

lemma offer_detections_bound:
  assumes "window_open env (d_proto d)"
  shows "length (filter id (fst (offer_detections env es d))) \<le> 5 - unat (p_detectionEventCount (d_proto d))"
  using assms
proof (induction es arbitrary: d)
  case (Cons e es)
  obtain r d1 where s: "sendDetectionEvent env e False d = (r, d1)" by (cases "sendDetectionEvent env e False d")
  have w: "window_open env (d_proto d1)" using sendDetectionEvent_window [OF Cons.prems, of e] s by simp
  show ?case
  proof (cases "p_detectionEventCount (d_proto d) \<ge> MAX_DETECTIONS_PER_WINDOW")
    case True
    then show ?thesis using Cons.IH [OF w] sendDetectionEvent_window [OF Cons.prems, of e] s
      by (simp add: Let_def split_def)
  next
    case False
    then have l: "unat (p_detectionEventCount (d_proto d)) < 5"
      by (simp add: MAX_DETECTIONS_PER_WINDOW_def word_less_nat_alt not_le)
    then have "unat (p_detectionEventCount (d_proto d) + 1) = Suc (unat (p_detectionEventCount (d_proto d)))"
      by (simp add: unat_word_ariths)
    then show ?thesis using False l Cons.IH [OF w] sendDetectionEvent_window [OF Cons.prems, of e] s
      by (simp add: Let_def split_def) linarith
  qed
qed simp

section \<open>Sending the backlog\<close>

fun event_frames :: "u16 \<Rightarrow> det_event list \<Rightarrow> ble_out list" where
  "event_frames s [] = []"
| "event_frames s (e # es) = ST_notify (frame_bytes MSG_DETECTION_EVENT s (enc_event e)) # event_frames (s + 1) es"

lemma filter_id_tl:
  assumes "sorted_wrt (<) (map ev_id l)" "filter (\<lambda>e. ev_id e > i) l = x # xs"
  shows "filter (\<lambda>e. ev_id e > ev_id x) l = xs"
proof -
  obtain us vs where l: "l = us @ x # vs" "\<forall>u\<in>set us. \<not> ev_id u > i" "ev_id x > i"
      "xs = filter (\<lambda>e. ev_id e > i) vs"
    using assms(2) by (auto simp: filter_eq_Cons_iff)
  have "\<forall>u\<in>set us. \<not> ev_id u > ev_id x" "\<forall>v\<in>set vs. ev_id v > ev_id x"
    using assms(1) l(1) by (auto simp: sorted_wrt_append dest: less_asym)
  moreover from this l(3) have "\<forall>v\<in>set vs. ev_id v > i" by (meson order.strict_trans)
  ultimately show ?thesis using l by (simp add: filter_True)
qed

lemma sync_loop_sends:
  assumes env: "all_locks env" and h: "h_valid (v_hist c) h" "ids_ok (v_hist c) (h_state h)"
  shows "link_up d \<Longrightarrow> proto_ok (d_proto d) \<Longrightarrow> d_hist d = h \<Longrightarrow>
    getPendingCount_p (d_proto d) + n \<le> MAX_PENDING_MESSAGES \<Longrightarrow>
    es = take n (filter (\<lambda>e. ev_id e > i) (h_stored (v_hist c) h)) \<Longrightarrow>
    \<exists>d'. sync_loop c env n i d = Some d' \<and> link_up d' \<and> proto_ok (d_proto d') \<and> services d' = services d \<and>
      d_out d' = d_out d @ event_frames (p_txSeqNum (d_proto d)) es \<and>
      p_txSeqNum (d_proto d') = p_txSeqNum (d_proto d) + word_of_nat (length es) \<and>
      getPendingCount_p (d_proto d') = getPendingCount_p (d_proto d) + length es"
proof (induction n arbitrary: i d es)
  case (Suc n)
  let ?l = "filter (\<lambda>e. ev_id e > i) (h_stored (v_hist c) h)"
  note v = h_validD [OF h(1)]
  have g: "getEventsSince (v_hist c) i 1 True h = Some (True, take 1 ?l)"
    using v by (simp add: getEventsSince_def h_ready_def collect_events_stored)
  show ?case
  proof (cases ?l)
    case Nil
    then have "sync_loop c env (Suc n) i d = Some (tick d)" using g env Suc.prems(3) by (simp add: Let_def)
    then show ?thesis using Nil Suc.prems by (simp add: link_up_def)
  next
    case (Cons e l)
    let ?d = "tick d" and ?s = "p_txSeqNum (d_proto d)"
    have up: "link_up ?d" "proto_ok (d_proto ?d)" "hasPendingSpace (d_proto ?d)"
      using Suc.prems(1,2,4) by (simp_all add: link_up_def hasPendingSpace_def)
    have len: "length (enc_event e) \<le> MAX_PAYLOAD_SIZE" by (simp add: MAX_PAYLOAD_SIZE_def)
    obtain d1 slot m where s: "sendMessage env MSG_DETECTION_EVENT (Some (enc_event e)) True ?d = (True, d1)"
      "d_out d1 = d_out ?d @ [ST_notify (frame_bytes MSG_DETECTION_EVENT (p_txSeqNum (d_proto ?d)) (enc_event e))]"
      "p_pending (d_proto d1) = (p_pending (d_proto ?d))[slot := m]" "slot < MAX_PENDING_MESSAGES"
      "\<not> pm_active (p_pending (d_proto ?d) ! slot)"
      "tracked_message (p_txSeqNum (d_proto ?d)) MSG_DETECTION_EVENT (enc_event e) (e_ms env (d_tick ?d + 1)) m"
      "proto_ok (d_proto d1)" "p_txSeqNum (d_proto d1) = p_txSeqNum (d_proto ?d) + 1"
      "services d1 = services ?d" "link_up d1"
      by (rule sendMessage_tracked [OF up(1,2) all_locksD [OF env] len up(3)])
    have cnt: "getPendingCount_p (d_proto d1) = Suc (getPendingCount_p (d_proto d))"
      using s(3-6) Suc.prems(2)
      by (simp add: getPendingCount_p_def pending_count_update proto_ok_def tracked_message_def)
    have hist: "d_hist d1 = h" using services_eqD(2) [OF s(9)] Suc.prems(3) by simp
    have rest: "filter (\<lambda>x. ev_id x > ev_id e) (h_stored (v_hist c) h) = l"
      using filter_id_tl [OF _ Cons] h(2) by (simp add: ids_ok_def)
    have step: "sync_loop c env (Suc n) i d = sync_loop c env n (ev_id e) d1"
      using g env Suc.prems(3) s(1) Cons by (simp add: Let_def sendDetectionEvent_def)
    have "\<exists>d'. sync_loop c env n (ev_id e) d1 = Some d' \<and> link_up d' \<and> proto_ok (d_proto d') \<and>
        services d' = services d1 \<and> d_out d' = d_out d1 @ event_frames (p_txSeqNum (d_proto d1)) (take n l) \<and>
        p_txSeqNum (d_proto d') = p_txSeqNum (d_proto d1) + word_of_nat (length (take n l)) \<and>
        getPendingCount_p (d_proto d') = getPendingCount_p (d_proto d1) + length (take n l)"
      using Suc.prems(4) cnt by (intro Suc.IH s(7,10) hist) (simp_all add: rest)
    then show ?thesis using step s(2,8,9) cnt Suc.prems(5) Cons
      by (simp add: algebra_simps del: sync_loop.simps) 
  qed
qed (simp add: Let_def)

section \<open>Frames that are not accepted\<close>


lemma validateAckSecurity_unknown:
  assumes "\<not> (\<exists>m\<in>set (p_pending (d_proto d)). pm_active m \<and> pm_seqNum m = s)"
  shows "let (ok, r) = validateAckSecurity env s d in \<not> ok \<and> services r = services d \<and> d_out r = d_out d \<and>
    p_pending (d_proto r) = p_pending (d_proto d) \<and> p_errorCount (d_proto r) = p_errorCount (d_proto d) + 1 \<and>
    p_invalidAckCount (d_proto r) < INVALID_ACK_THRESHOLD"
  using assms
  by (simp add: validateAckSecurity_def Let_def incr_error_def handleSecurityThresholdExceeded_def not_le
      INVALID_ACK_THRESHOLD_def)

lemma unknown_ack:
  assumes init: "p_initialized (d_proto d)"
    and un: "\<forall>m\<in>set (p_pending (d_proto d)). pm_active m \<longrightarrow> pm_seqNum m \<noteq> s"
  obtains d' where "processReceived c env (frame_bytes MSG_ACK n (be16 s)) d = Some d'"
    "services d' = services d" "d_out d' = d_out d" "p_pending (d_proto d') = p_pending (d_proto d)"
    "p_errorCount (d_proto d') = p_errorCount (d_proto d) + 1"
    "p_invalidAckCount (d_proto d') < INVALID_ACK_THRESHOLD"
proof -
  define d1 where "d1 = (if e_lock env (d_tick d) then upd_proto (\<lambda>p. p\<lparr>p_rxCount := p_rxCount p + 1\<rparr>) (tick d)
      else tick d)"
  have d1: "services d1 = services d" "d_out d1 = d_out d" "p_pending (d_proto d1) = p_pending (d_proto d)"
    "p_errorCount (d_proto d1) = p_errorCount (d_proto d)"
    by (simp_all add: d1_def)
  have nf: "\<not> (\<exists>m\<in>set (p_pending (d_proto d1)). pm_active m \<and> pm_seqNum m = s)" using un by (auto simp: d1)
  obtain ok r where val: "validateAckSecurity env s d1 = (ok, r)" by (cases "validateAckSecurity env s d1")
  note r = validateAckSecurity_unknown [OF nf, of env, unfolded val, simplified]
  have "processReceived c env (frame_bytes MSG_ACK n (be16 s)) d = handleAck c env (be16 s) d1"
    using init by (simp add: processReceived_frame MAX_PAYLOAD_SIZE_def be16_def dispatch_ack d1_def
        msg_code_def listed_types_def msg_of_code_def)
  moreover have "rd_be16 (be16 s ! 0) (be16 s ! Suc 0) = s" "length (be16 s) = 2" by (simp_all add: be16_def)
  then have "handleAck c env (be16 s) d1 = Some r" using r by (simp add: handleAck_def Let_def val)
  ultimately show thesis using r d1 by (intro that [of r]) simp_all
qed

section \<open>The greeting\<close>

lemma sendHelloAck_services [simp]: "services (snd (sendHelloAck c env d)) = services d"
  by (simp add: sendHelloAck_def Let_def split_def)

lemma last_log_spec:
  "2 \<le> BUFFER_SIZE c \<Longrightarrow> last (log_spec c ev l) = ev (Suc (length l) = BUFFER_SIZE c)"
  unfolding log_spec_def by (subst last_drop) simp_all

lemma handleHello_hist:
  assumes "all_locks env" "p_historyService (d_proto d)" "length payload \<ge> 5"
    and "h_valid (v_hist c) (d_hist d)" "ids_ok (v_hist c) (h_state (d_hist d))"
  defines "i \<equiv> rd_be32 (payload ! 1) (payload ! 2) (payload ! 3) (payload ! 4)"
  shows "h_valid (v_hist c) (d_hist (handleHello c env s payload d)) \<and>
    getLatestEventId (d_hist (handleHello c env s payload d)) = max (getLatestEventId (d_hist d)) i"
proof -
  let ?r = "fastForwardEventId (v_hist c) (v_prefs c) i True (e_qsend env (Suc (d_tick d)))
      (e_flush env (Suc (d_tick d))) (d_hist d) (d_nvs d)"
  let ?d = "if i > getLatestEventId (d_hist d) then tick ((tick d)\<lparr>d_hist := fst ?r, d_nvs := snd ?r\<rparr>) else d"
  have "handleHello c env s payload d = sendAck env s (snd (sendHelloAck c env ?d))"
    using assms(1-3) by (simp add: handleHello_def Let_def split_def i_def)
  then have "services (handleHello c env s payload d) = services ?d" by simp
  then have "d_hist (handleHello c env s payload d) = d_hist ?d" by (rule services_eqD(2))
  then show ?thesis
    using fastForward_state [OF assms(4,5), where api = "v_prefs c"] assms(4)
    by (simp add: getLatestEventId_def max_def not_less)
qed

section \<open>A concrete device\<close>

definition demo_proto :: proto where
  "demo_proto = (proto_new True (replicate 509 0))\<lparr>p_bleManager := True, p_historyService := True,
     p_initialized := True\<rparr>"

definition demo_device :: "(nvs_view, bytes \<times> bool \<times> bytes option) device" where
  "demo_device = \<lparr>d_tick = 0, d_proto = demo_proto,
     d_ble = (ble_new 0 0)\<lparr>b_eventHandler := True, b_initialized := True, b_deviceConnected := True,
       b_subscribed := True\<rparr>,
     d_hist = demo_history, d_cfg = config_new 7, d_ota = ota_new, d_nvs = Map.empty,
     d_upd = ([], False, None), d_bonds = 1, d_rtcMagic = 0, d_bootMode = 0, d_out = [], d_calls = []\<rparr>"

definition demo_dev_cfg :: "(nvs_view, bytes \<times> bool \<times> bytes option) dev_cfg" where
  "demo_dev_cfg = \<lparr>v_hist = demo_cfg, v_ota = demo_ota_cfg, v_prefs = map_prefs, v_update = list_update_api,
     ACK_TIMEOUT_MS = 5000, MAX_RETRY_COUNT = 3, RTC_MAGIC_KEY = 1, MODE_FLASHER = 2,
     v_hardwareId = replicate 8 0, v_nextPart = Some 1000000, v_onTimeSync = True, v_onSleep = True,
     v_onActivity = True, v_onCalibrate = None, v_onBattery = Some (80, False)\<rparr>"

definition demo_dev_env :: dev_env where
  "demo_dev_env = \<lparr>e_lock = (\<lambda>_. True), e_ms = (\<lambda>_. 100), e_uptime = (\<lambda>_. 100), e_qsend = (\<lambda>_. True),
     e_flush = (\<lambda>_. \<lparr>fe_batteryCritical = False, fe_charging = False, fe_pairing = False, fe_lock = True\<rparr>)\<rparr>"

lemma demo_device_simps [simp]:
  "d_proto demo_device = demo_proto" "d_hist demo_device = demo_history" "d_out demo_device = []"
  "d_tick demo_device = 0" "v_hist demo_dev_cfg = demo_cfg" "d_calls demo_device = []"
  "e_lock demo_dev_env k" "e_ms demo_dev_env k = 100" "ACK_TIMEOUT_MS demo_dev_cfg = 5000"
  "MAX_RETRY_COUNT demo_dev_cfg = 3" "v_prefs demo_dev_cfg = map_prefs"
  "b_eventHandler (d_ble demo_device)"
  by (simp_all add: demo_device_def demo_dev_cfg_def demo_dev_env_def ble_new_def)

lemma demo_proto_simps [simp]:
  "p_pending demo_proto = replicate MAX_PENDING_MESSAGES empty_pending" "p_txSeqNum demo_proto = 0"
  "p_historyService demo_proto" "p_initialized demo_proto" "p_errorCount demo_proto = 0"
  "p_detectionEventCount demo_proto = 0" "p_detectionWindowStart demo_proto = 0"
  by (simp_all add: demo_proto_def proto_new_def)

lemma empty_pending_simps [simp]: "\<not> pm_active empty_pending" "length (pm_data empty_pending) = 509"
  by (simp_all add: empty_pending_def FRAME_CAPACITY_def HEADER_SIZE_def MAX_PAYLOAD_SIZE_def CRC_SIZE_def)

lemma demo_up [simp]: "link_up demo_device" "proto_ok demo_proto" "all_locks demo_dev_env"
  "hasPendingSpace demo_proto" "seq_free demo_proto" "active_pending demo_proto = []" "getPendingCount_p demo_proto = 0"
  by (simp_all add: link_up_def demo_device_def demo_proto_def proto_new_def ble_new_def proto_ok_def all_locks_def
      demo_dev_env_def hasPendingSpace_def getPendingCount_p_def seq_free_def active_pending_def
      MAX_PENDING_MESSAGES_def)

text \<open>The bytes of an identifier as the app writes it in a request.\<close>

definition be32 :: "u32 \<Rightarrow> bytes" where
  "be32 x = rev (le32 x)"

lemma be32_simps [simp]:
  "length (be32 x) = 4" "rd_be32 (be32 x ! 0) (be32 x ! Suc 0) (be32 x ! 2) (be32 x ! 3) = x"
  by (simp_all add: be32_def le32_def)

section \<open>Properties\<close>

text \<open>
  C1: a detection is delivered and confirmed end to end. On a connected, subscribed link
  with a free slot, \<open>sendDetectionEvent\<close> puts the event's frame on the link and keeps it as pending;
  the frame of the app's ACK for its sequence number then frees that slot and
  marks exactly the event with this identifier in the log. Nothing else
  in the log, the table or on the link changes.
\<close>

theorem detection_delivered:
  assumes "all_locks env" "link_up d" "proto_ok (d_proto d)" "hasPendingSpace (d_proto d)"
    and "seq_free (d_proto d)" "p_historyService (d_proto d)"
    and "h_valid (v_hist c) (d_hist d)" "ids_ok (v_hist c) (h_state (d_hist d))"
  shows "\<exists>d1 d2 st'. sendDetectionEvent env e True d = (True, d1) \<and>
    d_out d1 = d_out d @ [ST_notify (frame_bytes MSG_DETECTION_EVENT (p_txSeqNum (d_proto d)) (enc_event e))] \<and>
    length (active_pending (d_proto d1)) = Suc (length (active_pending (d_proto d))) \<and>
    processReceived c env (frame_bytes MSG_ACK s (be16 (p_txSeqNum (d_proto d)))) d1 = Some d2 \<and>
    active_pending (d_proto d2) = active_pending (d_proto d) \<and> d_out d2 = d_out d1 \<and>
    d_hist d2 = (d_hist d)\<lparr>h_state := st'\<rparr> \<and>
    stored (v_hist c) st' = map (\<lambda>x. if ev_id x = ev_id e then setSynced x else x) (h_stored (v_hist c) (d_hist d))"
  by (rule send_then_ack [OF assms(1-7), of e s])
    (use mark_spec_unique [OF assms(8)] in \<open>auto\<close>)

theorem detection_delivered_witness:
  "\<exists>d1 d2 st'. sendDetectionEvent demo_dev_env demo_event2 True demo_device = (True, d1) \<and>
    d_out d1 = [ST_notify (frame_bytes MSG_DETECTION_EVENT 0 (enc_event demo_event2))] \<and>
    processReceived demo_dev_cfg demo_dev_env (frame_bytes MSG_ACK 9 [0, 0]) d1 = Some d2 \<and>
    active_pending (d_proto d2) = [] \<and> d_hist d2 = demo_history\<lparr>h_state := st'\<rparr> \<and>
    stored demo_cfg st' = [demo_event1, setSynced demo_event2]"
  using detection_delivered [of demo_dev_env demo_device demo_dev_cfg demo_event2 9]
  by (auto simp: be16_def)

text \<open>
  An acknowledgement of a sequence number that is not pending is harmless, whatever the locks
  do: it changes no service, no pending message and puts nothing on the link. It counts
  one error, and the count of invalid acknowledgements stays below its threshold.
\<close>

theorem phantom_ack_harmless:
  assumes "p_initialized (d_proto d)"
    and "\<forall>m\<in>set (p_pending (d_proto d)). pm_active m \<longrightarrow> pm_seqNum m \<noteq> s"
  shows "\<exists>d'. processReceived c env (frame_bytes MSG_ACK n (be16 s)) d = Some d' \<and> services d' = services d \<and>
    d_out d' = d_out d \<and> p_pending (d_proto d') = p_pending (d_proto d) \<and>
    p_errorCount (d_proto d') = p_errorCount (d_proto d) + 1 \<and>
    p_invalidAckCount (d_proto d') < INVALID_ACK_THRESHOLD"
  by (rule unknown_ack [OF assms, of c env n]) blast

theorem phantom_ack_harmless_witness:
  "\<exists>d'. processReceived demo_dev_cfg demo_dev_env (frame_bytes MSG_ACK 3 (be16 7)) demo_device = Some d' \<and>
    d_hist d' = demo_history \<and> p_errorCount (d_proto d') = 1"
  using phantom_ack_harmless [of demo_device 7 demo_dev_cfg demo_dev_env 3]
  by (auto simp: services_def)


definition demo_waiting :: pending_message where
  "demo_waiting = empty_pending\<lparr>pm_active := True, pm_retryCount := 1, pm_sentTime := 100, pm_dataLen := 9\<rparr>"

definition demo_busy :: "(nvs_view, bytes \<times> bool \<times> bytes option) device" where
  "demo_busy = upd_proto (\<lambda>p. p\<lparr>p_pending := (p_pending p)[0 := demo_waiting]\<rparr>) demo_device"


text \<open>
  The rate limit. While the clock stays within the window of 1000 ms, of any detections
  offered at most five are let through, less those already counted in this window.
\<close>

theorem rate_limit:
  assumes "\<forall>k. \<not> e_ms env k - p_detectionWindowStart (d_proto d) > DETECTION_RATE_WINDOW_MS"
  shows "length (filter id (fst (offer_detections env es d))) \<le> 5 - unat (p_detectionEventCount (d_proto d))"
  using assms by (intro offer_detections_bound) (simp add: window_open_def)

theorem rate_limit_witness:
  "length (filter id (fst (offer_detections demo_dev_env (replicate 50 demo_event1) demo_device))) \<le> 5"
  using rate_limit [of demo_dev_env demo_device "replicate 50 demo_event1"]
  by (simp add: DETECTION_RATE_WINDOW_MS_def)



text \<open>
  A settings change is lost after a reconnect. A new connection restarts both sequence
  numbers but keeps the number of the last accepted SET_CONFIG, so a SET_CONFIG whose number is not
  above that one is acknowledged to the app as usual and not applied: neither the
  settings nor any other service change.
\<close>

theorem reconnect_config_ignored:
  assumes "all_locks env" "link_up d" "proto_ok (d_proto d)" "p_configSeqInitialized (d_proto d)"
    and "sint (s - p_lastConfigSeqNum (d_proto d)) \<le> 0"
  shows "let d1 = resetForNewConnection env d in \<exists>d2. p_txSeqNum (d_proto d1) = 0 \<and>
    p_expectedRxSeqNum (d_proto d1) = 0 \<and> dispatchMessage c env MSG_SET_CONFIG s payload d1 = Some d2 \<and>
    d_out d2 = d_out d1 @ [ST_notify (frame_bytes MSG_ACK 0 (be16 s))] \<and> d_cfg d2 = d_cfg d \<and> d_hist d2 = d_hist d"
proof -
  let ?d1 = "resetForNewConnection env d"
  let ?d = "if v_onActivity c then call [DC_activity] ?d1 else ?d1"
  have st: "link_up ?d" "proto_ok (d_proto ?d)" "config_stale s (d_proto ?d)" "d_cfg ?d = d_cfg d" "d_hist ?d = d_hist d"
    "p_txSeqNum (d_proto ?d) = 0" "d_out ?d = d_out ?d1" "p_txSeqNum (d_proto ?d1) = 0" "p_expectedRxSeqNum (d_proto ?d1) = 0"
    using assms by (auto simp: resetForNewConnection_def clearAllPending_def clear_all_def link_up_def proto_ok_def
        config_stale_def)
  obtain d2 where a: "sendMessage env MSG_ACK (Some (be16 s)) False ?d = (True, d2)"
    "d_out d2 = d_out ?d @ [ST_notify (frame_bytes MSG_ACK (p_txSeqNum (d_proto ?d)) (be16 s))]"
    "services d2 = services ?d"
    by (rule sendMessage_plain [OF st(1,2) all_locksD [OF assms(1)], of "Some (be16 s)" MSG_ACK])
      (simp_all add: be16_def MAX_PAYLOAD_SIZE_def)
  have "dispatchMessage c env MSG_SET_CONFIG s payload ?d1 = Some (handleSetConfig env s payload ?d)"
    by (simp add: dispatchMessage_def Let_def)
  also have "\<dots> = Some d2" using st(3) a(1) by (simp add: handleSetConfig_def sendAck_def)
  finally show ?thesis
    using a services_eqD(2,3) [OF a(3)] st(4-) by (auto simp: Let_def)
qed

definition demo_configured :: "(nvs_view, bytes \<times> bool \<times> bytes option) device" where
  "demo_configured = upd_proto (\<lambda>p. p\<lparr>p_configSeqInitialized := True, p_lastConfigSeqNum := 40\<rparr>) demo_device"

theorem reconnect_config_ignored_witness:
  "\<exists>d2. dispatchMessage demo_dev_cfg demo_dev_env MSG_SET_CONFIG 3 [1, 90, 0, 0]
      (resetForNewConnection demo_dev_env demo_configured) = Some d2 \<and> d_cfg d2 = config_new 7"
proof -
  have st: "link_up demo_configured" "proto_ok (d_proto demo_configured)" "d_cfg demo_configured = config_new 7"
    using demo_up(1,2) by (simp_all add: demo_configured_def link_up_def proto_ok_def)
      (simp add: demo_device_def)
  show ?thesis
    using reconnect_config_ignored [OF demo_up(3) st(1,2), of 3 demo_dev_cfg "[1, 90, 0, 0]"] st(3)
    by (auto simp: Let_def demo_configured_def)
qed

definition hostile_hello :: "u16 \<Rightarrow> bytes" where
  "hostile_hello s = frame_bytes MSG_HELLO s [1, 0xFF, 0xFF, 0xFF, 0xFF]"

text \<open>
  An unauthenticated peer can exhaust the event identifiers. The HELLO frame below passes the
  write gate on an unencrypted connection, and processing it moves the event counter of
  the log to its maximum; the next detection is then stored under identifier 0, which is
  also the result that reports that nothing was logged.
\<close>

theorem hello_exhausts_ids:
  assumes "all_locks env" "link_up d" "p_historyService (d_proto d)" "b_eventHandler (d_ble d)"
    and "h_valid (v_hist c) (d_hist d)" "ids_ok (v_hist c) (h_state (d_hist d))"
    and "\<not> cd_encrypted peer" "le_lock le"
  shows "onWrite MainChar (hostile_hello s) (Some peer) (d_ble d) = [EV_data (hostile_hello s)] \<and>
    (\<exists>d' ep h'. processReceived c env (hostile_hello s) d = Some d' \<and> getLatestEventId (d_hist d') = 0xFFFFFFFF \<and>
      logDetection (v_hist c) dur le (d_hist d') = Some (0, ep, h') \<and> ev_id (last (h_stored (v_hist c) h')) = 0)"
proof -
  let ?p = "[1, 0xFF, 0xFF, 0xFF, 0xFF] :: bytes"
  define d1 where "d1 = (if v_onActivity c then call [DC_activity] else id)
      (upd_proto (\<lambda>p. p\<lparr>p_rxCount := p_rxCount p + 1\<rparr>) (tick d))"
  have d1: "p_historyService (d_proto d1)" "d_hist d1 = d_hist d" using assms(3) by (simp_all add: d1_def)
  have recv: "processReceived c env (hostile_hello s) d = Some (handleHello c env s ?p d1)"
    using assms(1,2) by (simp add: hostile_hello_def processReceived_frame link_up_def MAX_PAYLOAD_SIZE_def
        msg_code_def listed_types_def msg_of_code_def dispatchMessage_def d1_def Let_def)
  have max: "rd_be32 (?p ! 1) (?p ! 2) (?p ! 3) (?p ! 4) = - 1"
    by (simp add: rd_be32_def)
  let ?h = "d_hist (handleHello c env s ?p d1)"
  have h: "h_valid (v_hist c) ?h" "rs_globalEventId (h_state ?h) = - 1"
    using handleHello_hist [OF assms(1) d1(1), of ?p c s] assms(5,6) d1(2) max
    by (simp_all add: getLatestEventId_def max_def)
  obtain ep h' where l: "logDetection (v_hist c) dur le ?h = Some (rs_globalEventId (h_state ?h) + 1, ep, h')"
    "h_stored (v_hist c) h' = log_spec (v_hist c) (new_event (rs_globalEventId (h_state ?h) + 1)
       (rs_bootCount (h_state ?h)) (le_uptime le) (le_epoch le) dur) (stored (v_hist c) (h_state ?h))"
    by (rule logDetection_stored [OF h(1) assms(8)])
  have gate: "onWrite MainChar (hostile_hello s) (Some peer) (d_ble d) = [EV_data (hostile_hello s)]"
    using assms(4,7) by (simp add: onWrite_def isHandshakeMessage_def hostile_hello_def frame_bytes_def
        frame_body_def SOF_def msg_code_def listed_types_def notify_handler_def)
  have "ev_id (last (h_stored (v_hist c) h')) = 0"
    using rtc_okD(2) [OF h_validD(3) [OF assms(5)]] by (simp add: l(2) h(2) last_log_spec new_event_def)
  then show ?thesis using gate recv l(1) h(2) by (auto simp: getLatestEventId_def)
qed

theorem hello_exhausts_ids_witness:
  "onWrite MainChar (hostile_hello 0) (Some \<lparr>cd_handle = 1, cd_bonded = False, cd_encrypted = False\<rparr>) (d_ble demo_device) =
    [EV_data (hostile_hello 0)] \<and>
   (\<exists>d'. processReceived demo_dev_cfg demo_dev_env (hostile_hello 0) demo_device = Some d' \<and>
     getLatestEventId (d_hist d') = 0xFFFFFFFF)"
  using hello_exhausts_ids [of demo_dev_env demo_device demo_dev_cfg
      "\<lparr>cd_handle = 1, cd_bonded = False, cd_encrypted = False\<rparr>"
      "\<lparr>le_lock = True, le_uptime = 0, le_epoch = 0, le_qsend = True\<rparr>" 0 0]
  by auto

end
