(* ===== verification/Fw_Pump.thy ===== *)
theory Fw_Pump
  imports Fw_Delivery
begin

text \<open>
  \<open>DetectionDeliveryPump\<close> (\<open>src/src/Services/DetectionDeliveryPump.cpp\<close>), the poll of the main
  loop that offers the oldest unsynced event to the protocol handler, and what the pump, the log,
  the handler and an acknowledging app do together.
\<close>

record pump =
  q_bleManager :: bool
  q_historyService :: bool
  q_protocolHandler :: bool
  q_lastAttempt :: u32
  q_initialized :: bool
  q_successCount :: u32
  q_skipCount :: u32

definition MIN_PUMP_INTERVAL_MS :: u32 where "MIN_PUMP_INTERVAL_MS = 150"
definition MAX_PENDING_BEFORE_BACKOFF :: u8 where "MAX_PENDING_BEFORE_BACKOFF = 8"

definition pump_new :: pump where
  "pump_new = \<lparr>q_bleManager = False, q_historyService = False, q_protocolHandler = False,
     q_lastAttempt = 0, q_initialized = False, q_successCount = 0, q_skipCount = 0\<rparr>"

definition pump_init :: "bool \<Rightarrow> bool \<Rightarrow> bool \<Rightarrow> u32 \<Rightarrow> pump \<Rightarrow> bool \<times> pump" where
  "pump_init ble history protocol now q =
     (if \<not> ble then (False, q)
      else if \<not> history then (False, q)
      else if \<not> protocol then (False, q)
      else (True, q\<lparr>q_bleManager := True, q_historyService := True, q_protocolHandler := True,
              q_lastAttempt := now, q_initialized := True\<rparr>))"

definition isTransportReady :: "pump \<Rightarrow> ('n, 'u) device \<Rightarrow> bool" where
  "isTransportReady q d \<longleftrightarrow>
     (if \<not> q_bleManager q then False
      else b_deviceConnected (d_ble d) \<and> b_subscribed (d_ble d))"

definition isProtocolReady :: "pump \<Rightarrow> ('n, 'u) device \<Rightarrow> bool" where
  "isProtocolReady q d \<longleftrightarrow>
     (if \<not> q_protocolHandler q then False
      else let pendingCount = (word_of_nat (getPendingCount_p (d_proto d)) :: u8)
           in pendingCount < MAX_PENDING_BEFORE_BACKOFF)"

text \<open>No result stands for a scan of the log that never ends.\<close>

definition pump_update ::
  "('n, 'u) dev_cfg \<Rightarrow> dev_env \<Rightarrow> pump \<Rightarrow> ('n, 'u) device \<Rightarrow> (pump \<times> ('n, 'u) device) option" where
  "pump_update c env q d =
     (if \<not> q_initialized q then Some (q, d)
      else
        let (now, d) = ask_ms env d
        in if now - q_lastAttempt q < MIN_PUMP_INTERVAL_MS then Some (q, d)
           else
             let q = q\<lparr>q_lastAttempt := now\<rparr>
             in if \<not> isTransportReady q d then Some (q\<lparr>q_skipCount := q_skipCount q + 1\<rparr>, d)
                else if \<not> isProtocolReady q d then Some (q\<lparr>q_skipCount := q_skipCount q + 1\<rparr>, d)
                else
                  let (lock, d) = ask_lock env d
                  in case getNextUnsynced (v_hist c) lock (d_hist d) of
                       None \<Rightarrow> None
                     | Some None \<Rightarrow> Some (q, d)
                     | Some (Some event) \<Rightarrow>
                         let (sent, d) = sendDetectionEvent env event False d
                         in Some (if sent then q\<lparr>q_successCount := q_successCount q + 1\<rparr> else q, d))"

definition pump_resetStats :: "pump \<Rightarrow> pump" where
  "pump_resetStats q = q\<lparr>q_successCount := 0, q_skipCount := 0\<rparr>"

definition pump_ready :: "pump \<Rightarrow> bool" where
  "pump_ready q \<longleftrightarrow> q_initialized q \<and> q_bleManager q \<and> q_historyService q \<and> q_protocolHandler q"

lemma pump_init_ready: "pump_init True True True now q = (r, q') \<Longrightarrow> r \<and> pump_ready q'"
  by (auto simp: pump_init_def pump_ready_def)

section \<open>An app that acknowledges\<close>

text \<open>
  One round per environment: the pump is polled, and when it has sent an event the app answers
  with an ACK for the sequence number of that frame.
\<close>

fun pump_rounds ::
  "('n, 'u) dev_cfg \<Rightarrow> dev_env list \<Rightarrow> pump \<Rightarrow> ('n, 'u) device \<Rightarrow> (pump \<times> ('n, 'u) device) option" where
  "pump_rounds c [] q d = Some (q, d)"
| "pump_rounds c (env # envs) q d =
     (case pump_update c env q d of
        None \<Rightarrow> None
      | Some (q', d') \<Rightarrow>
          if q_successCount q' = q_successCount q then pump_rounds c envs q' d'
          else case processReceived c env (frame_bytes MSG_ACK 0 (be16 (p_txSeqNum (d_proto d)))) d' of
                 None \<Rightarrow> None
               | Some d'' \<Rightarrow> pump_rounds c envs q' d'')"

text \<open>
  The clock stands still within a round, and each round comes later than the pump interval after
  the last attempt and than the rate window after its start.
\<close>

fun paced :: "u32 \<Rightarrow> u32 \<Rightarrow> dev_env list \<Rightarrow> bool" where
  "paced a w [] \<longleftrightarrow> True"
| "paced a w (env # envs) \<longleftrightarrow> all_locks env \<and> (\<forall>k. e_ms env k = e_ms env 0) \<and>
     MIN_PUMP_INTERVAL_MS \<le> e_ms env 0 - a \<and> DETECTION_RATE_WINDOW_MS < e_ms env 0 - w \<and>
     paced (e_ms env 0) (e_ms env 0) envs"

definition idle_link :: "('n, 'u) dev_cfg \<Rightarrow> ('n, 'u) device \<Rightarrow> bool" where
  "idle_link c d \<longleftrightarrow> link_up d \<and> proto_ok (d_proto d) \<and> active_pending (d_proto d) = [] \<and>
     p_historyService (d_proto d) \<and> h_valid (v_hist c) (d_hist d) \<and> ids_ok (v_hist c) (h_state (d_hist d))"

lemma idle_seq_free: "active_pending p = [] \<Longrightarrow> seq_free p"
  by (auto simp: active_pending_def seq_free_def filter_empty_conv)

lemma idle_space: "active_pending p = [] \<Longrightarrow> hasPendingSpace p \<and> getPendingCount_p p = 0"
  by (simp add: active_pending_def hasPendingSpace_def getPendingCount_p_def MAX_PENDING_MESSAGES_def)

text \<open>The governor lets the event through when its window has passed.\<close>

lemma sendDetectionEvent_fresh:
  assumes "e_ms env (d_tick d) - p_detectionWindowStart (d_proto d) > DETECTION_RATE_WINDOW_MS"
  shows "sendDetectionEvent env e False d = sendDetectionEvent env e True
    (upd_proto (\<lambda>p. p\<lparr>p_detectionWindowStart := e_ms env (d_tick d), p_detectionEventCount := 1\<rparr>) (tick d))"
  using assms by (simp add: sendDetectionEvent_def Let_def MAX_DETECTIONS_PER_WINDOW_def upd_proto_def)

lemma pending_drop_one:
  assumes "ids_ok c st" "find (\<lambda>e. \<not> isSynced e) (stored c st) = Some e"
    and "stored c st' = mark_spec (ev_id e) (stored c st)"
  shows "pending (stored c st') = pending (stored c st) - 1"
proof -
  have "distinct (map ev_id (stored c st))" using assms(1) by (simp add: ids_ok_def strict_sorted_iff)
  then have "find (\<lambda>x. ev_id x = ev_id e) (stored c st) = Some e" using assms(2) by (rule find_unique)
  then have "pending (stored c st) = pending (mark_spec (ev_id e) (stored c st)) +
      (if isSynced e then 0 else 1)" by (rule pending_mark_spec)
  moreover have "\<not> isSynced e" using assms(2) by (auto simp: find_Some_iff)
  ultimately show ?thesis using assms(3) by simp
qed

text \<open>One acknowledged round: nothing happens on a drained log, otherwise one event less is unsynced.\<close>

lemma idle_link_known:
  assumes "idle_link c d"
  shows "getNextUnsynced (v_hist c) True (d_hist d) = Some (find (\<lambda>e. \<not> isSynced e) (h_stored (v_hist c) (d_hist d)))"
  using assms h_validD by (auto simp: idle_link_def getNextUnsynced_stored)

lemma pump_round_step:
  assumes q: "pump_ready q" and d: "idle_link c d"
    and p: "paced (q_lastAttempt q) w (env # envs)"
    and w: "w = p_detectionWindowStart (d_proto d) \<or> pending (h_stored (v_hist c) (d_hist d)) = 0"
  obtains q' d' where "pump_rounds c (env # envs) q d = pump_rounds c envs q' d'" "pump_ready q'" "idle_link c d'"
    "q_lastAttempt q' = e_ms env 0"
    "e_ms env 0 = p_detectionWindowStart (d_proto d') \<or> pending (h_stored (v_hist c) (d_hist d')) = 0"
    "pending (h_stored (v_hist c) (d_hist d')) = pending (h_stored (v_hist c) (d_hist d)) - 1"
    "map ev_id (h_stored (v_hist c) (d_hist d')) = map ev_id (h_stored (v_hist c) (d_hist d))"
proof -
  let ?t = "e_ms env 0" and ?l = "h_stored (v_hist c) (d_hist d)"
  have env: "all_locks env" "\<And>k. e_ms env k = ?t" "\<not> ?t - q_lastAttempt q < MIN_PUMP_INTERVAL_MS"
    "DETECTION_RATE_WINDOW_MS < ?t - w"
    using p by (simp_all add: not_less)
  note D = d [unfolded idle_link_def]
  let ?q = "q\<lparr>q_lastAttempt := ?t\<rparr>"
  have ready: "isTransportReady ?q (tick d)" "isProtocolReady ?q (tick d)"
    using q D idle_space [of "d_proto d"]
    by (simp_all add: isTransportReady_def isProtocolReady_def pump_ready_def link_up_def MAX_PENDING_BEFORE_BACKOFF_def)
  have u: "pump_update c env q d = (case find (\<lambda>e. \<not> isSynced e) ?l of
        None \<Rightarrow> Some (?q, tick (tick d))
      | Some event \<Rightarrow> let (sent, d) = sendDetectionEvent env event False (tick (tick d))
          in Some (if sent then ?q\<lparr>q_successCount := q_successCount ?q + 1\<rparr> else ?q, d))"
    using q env(1,3) env(2) [of "d_tick d"] ready idle_link_known [OF d]
    by (simp add: pump_update_def pump_ready_def Let_def split: option.split)
  show thesis
  proof (cases "find (\<lambda>e. \<not> isSynced e) ?l")
    case None
    then have r: "pump_rounds c (env # envs) q d = pump_rounds c envs ?q (tick (tick d))"
      using u by simp
    have p0: "pending ?l = 0" using None find_pending by blast
    have "pump_ready ?q" "idle_link c (tick (tick d))"
      using q D by (simp_all add: pump_ready_def idle_link_def link_up_def)
    then show thesis using p0 by (intro that [OF r]) simp_all
  next
    case (Some e)
    let ?d = "upd_proto (\<lambda>p. p\<lparr>p_detectionWindowStart := ?t, p_detectionEventCount := 1\<rparr>) (tick (tick (tick d)))"
    let ?seq = "p_txSeqNum (d_proto d)"
    have pre: "link_up ?d" "proto_ok (d_proto ?d)" "hasPendingSpace (d_proto ?d)" "seq_free (d_proto ?d)"
      "p_historyService (d_proto ?d)" "h_valid (v_hist c) (d_hist ?d)"
      using D idle_space [of "d_proto d"] idle_seq_free [of "d_proto d"]
      by (simp_all add: link_up_def proto_ok_def hasPendingSpace_def getPendingCount_p_def seq_free_def)
    obtain d1 d2 st' where s: "sendDetectionEvent env e True ?d = (True, d1)"
      "processReceived c env (frame_bytes MSG_ACK 0 (be16 (p_txSeqNum (d_proto ?d)))) d1 = Some d2"
      "active_pending (d_proto d2) = active_pending (d_proto ?d)" "d_hist d2 = (d_hist ?d)\<lparr>h_state := st'\<rparr>"
      "rtc_valid (v_hist c) st'" "stored (v_hist c) st' = mark_spec (ev_id e) (h_stored (v_hist c) (d_hist ?d))"
      "rs_globalEventId st' = rs_globalEventId (h_state (d_hist ?d))"
      "link_up d2" "proto_ok (d_proto d2)" "p_historyService (d_proto d2)"
      "p_detectionWindowStart (d_proto d2) = p_detectionWindowStart (d_proto ?d)"
      by (rule send_then_ack [OF env(1) pre, where e = e and s = 0])
    have "pending ?l \<noteq> 0" using Some find_pending by (metis option.distinct(1))
    then have "sendDetectionEvent env e False (tick (tick d)) = (True, d1)"
      using sendDetectionEvent_fresh [of env "tick (tick d)" e] env(4) env(2) [of "Suc (Suc (d_tick d))"] w s(1)
      by simp
    then have r: "pump_rounds c (env # envs) q d = pump_rounds c envs (?q\<lparr>q_successCount := q_successCount q + 1\<rparr>) d2"
      using u Some s(2) by simp
    have ids: "ids_ok (v_hist c) st'" using ids_ok_mark [of "v_hist c" "h_state (d_hist d)" st' "ev_id e"] D s(6,7) by simp
    have act: "active_pending (d_proto d2) = []" using s(3) D by (simp add: active_pending_def)
    have "idle_link c d2"
      using s(4,5,8-10) ids act pre(6) by (simp add: idle_link_def h_valid_def h_ready_def)
    moreover have "pending (stored (v_hist c) st') = pending ?l - 1"
      by (rule pending_drop_one [OF _ Some]) (use D s(6) in simp_all)
    moreover have "map ev_id (stored (v_hist c) st') = map ev_id ?l" using s(6) by simp
    ultimately show thesis
      using q s(4,11) by (intro that [OF r]) (simp_all add: pump_ready_def)
  qed
qed

lemma pump_rounds_pending:
  assumes "pump_ready q" "idle_link c d" "paced (q_lastAttempt q) w envs"
    and "w = p_detectionWindowStart (d_proto d) \<or> pending (h_stored (v_hist c) (d_hist d)) = 0"
  shows "\<exists>q' d'. pump_rounds c envs q d = Some (q', d') \<and> idle_link c d' \<and>
    pending (h_stored (v_hist c) (d_hist d')) = pending (h_stored (v_hist c) (d_hist d)) - length envs \<and>
    map ev_id (h_stored (v_hist c) (d_hist d')) = map ev_id (h_stored (v_hist c) (d_hist d))"
  using assms
proof (induction envs arbitrary: q d w)
  case (Cons env envs)
  obtain q1 d1 where 1: "pump_rounds c (env # envs) q d = pump_rounds c envs q1 d1" "pump_ready q1" "idle_link c d1"
    "q_lastAttempt q1 = e_ms env 0"
    "e_ms env 0 = p_detectionWindowStart (d_proto d1) \<or> pending (h_stored (v_hist c) (d_hist d1)) = 0"
    "pending (h_stored (v_hist c) (d_hist d1)) = pending (h_stored (v_hist c) (d_hist d)) - 1"
    "map ev_id (h_stored (v_hist c) (d_hist d1)) = map ev_id (h_stored (v_hist c) (d_hist d))"
    by (rule pump_round_step [OF Cons.prems])
  have "paced (q_lastAttempt q1) (e_ms env 0) envs" using Cons.prems(3) 1(4) by simp
  from Cons.IH [OF 1(2,3) this 1(5)] show ?case using 1 by auto
qed simp


section \<open>An app that stays silent\<close>

fun pump_polls ::
  "('n, 'u) dev_cfg \<Rightarrow> dev_env list \<Rightarrow> pump \<Rightarrow> ('n, 'u) device \<Rightarrow> (pump \<times> ('n, 'u) device) option" where
  "pump_polls c [] q d = Some (q, d)"
| "pump_polls c (env # envs) q d =
     (case pump_update c env q d of None \<Rightarrow> None | Some (q', d') \<Rightarrow> pump_polls c envs q' d')"

lemma event_frames_append:
  "event_frames s (xs @ ys) = event_frames s xs @ event_frames (s + word_of_nat (length xs)) ys"
  by (induction xs arbitrary: s) (simp_all add: add_ac)

text \<open>One poll with an unsynced event: it is sent while fewer than eight messages are pending.\<close>

lemma pump_poll_step:
  assumes q: "pump_ready q" and d: "link_up d" "proto_ok (d_proto d)" "h_valid (v_hist c) (d_hist d)"
    and e: "find (\<lambda>e. \<not> isSynced e) (h_stored (v_hist c) (d_hist d)) = Some e"
    and k: "getPendingCount_p (d_proto d) \<le> 8"
    and p: "paced (q_lastAttempt q) w (env # envs)"
    and w: "w = p_detectionWindowStart (d_proto d) \<or> getPendingCount_p (d_proto d) = 8"
  obtains q' d' where "pump_update c env q d = Some (q', d')" "pump_ready q'" "link_up d'" "proto_ok (d_proto d')"
    "d_hist d' = d_hist d" "q_lastAttempt q' = e_ms env 0"
    "getPendingCount_p (d_proto d') = min 8 (Suc (getPendingCount_p (d_proto d)))"
    "d_out d' = d_out d @ (if getPendingCount_p (d_proto d) < 8
       then [ST_notify (frame_bytes MSG_DETECTION_EVENT (p_txSeqNum (d_proto d)) (enc_event e))] else [])"
    "p_txSeqNum (d_proto d') = p_txSeqNum (d_proto d) + (if getPendingCount_p (d_proto d) < 8 then 1 else 0)"
    "e_ms env 0 = p_detectionWindowStart (d_proto d') \<or> getPendingCount_p (d_proto d') = 8"
proof -
  let ?t = "e_ms env 0" and ?k = "getPendingCount_p (d_proto d)"
  let ?q = "q\<lparr>q_lastAttempt := ?t\<rparr>"
  have env: "all_locks env" "\<And>k. e_ms env k = ?t" "\<not> ?t - q_lastAttempt q < MIN_PUMP_INTERVAL_MS"
    "DETECTION_RATE_WINDOW_MS < ?t - w"
    using p by (simp_all add: not_less)
  have tr: "isTransportReady ?q (tick d)"
    using q d by (simp add: isTransportReady_def pump_ready_def link_up_def)
  have pr: "isProtocolReady ?q (tick d) \<longleftrightarrow> ?k < 8"
    using q k by (simp add: isProtocolReady_def pump_ready_def MAX_PENDING_BEFORE_BACKOFF_def
        word_less_nat_alt unat_word_of_nat_less)
  have nx: "getNextUnsynced (v_hist c) True (d_hist d) = Some (Some e)"
    using d(3) e h_validD by (auto simp: getNextUnsynced_stored)
  show thesis
  proof (cases "?k < 8")
    case False
    then have "pump_update c env q d = Some (?q\<lparr>q_skipCount := q_skipCount q + 1\<rparr>, tick d)"
      using q env(1,3) env(2) [of "d_tick d"] tr pr by (simp add: pump_update_def pump_ready_def Let_def)
    then show thesis using False k q d
      by (intro that [of "?q\<lparr>q_skipCount := q_skipCount q + 1\<rparr>" "tick d"]) (simp_all add: pump_ready_def link_up_def)
  next
    case True
    let ?d = "upd_proto (\<lambda>p. p\<lparr>p_detectionWindowStart := ?t, p_detectionEventCount := 1\<rparr>) (tick (tick (tick d)))"
    have up: "link_up ?d" "proto_ok (d_proto ?d)" "hasPendingSpace (d_proto ?d)"
      using d True by (simp_all add: link_up_def proto_ok_def hasPendingSpace_def getPendingCount_p_def
          MAX_PENDING_MESSAGES_def)
    have len: "length (enc_event e) \<le> MAX_PAYLOAD_SIZE" by (simp add: MAX_PAYLOAD_SIZE_def)
    obtain d1 slot m where s: "sendMessage env MSG_DETECTION_EVENT (Some (enc_event e)) True ?d = (True, d1)"
      "d_out d1 = d_out ?d @ [ST_notify (frame_bytes MSG_DETECTION_EVENT (p_txSeqNum (d_proto ?d)) (enc_event e))]"
      "p_pending (d_proto d1) = (p_pending (d_proto ?d))[slot := m]" "slot < MAX_PENDING_MESSAGES"
      "\<not> pm_active (p_pending (d_proto ?d) ! slot)"
      "tracked_message (p_txSeqNum (d_proto ?d)) MSG_DETECTION_EVENT (enc_event e) (e_ms env (d_tick ?d + 1)) m"
      "proto_ok (d_proto d1)" "p_txSeqNum (d_proto d1) = p_txSeqNum (d_proto ?d) + 1"
      "services d1 = services ?d" "link_up d1"
      by (rule sendMessage_tracked [OF up(1,2) all_locksD [OF env(1)] len up(3)])
    have cnt: "getPendingCount_p (d_proto d1) = Suc ?k"
      using s(3-6) up(2)
      by (simp add: getPendingCount_p_def pending_count_update proto_ok_def tracked_message_def)
    have win: "p_detectionWindowStart (d_proto d1) = ?t"
      using sendMessage_window(2) [of env MSG_DETECTION_EVENT "Some (enc_event e)" True ?d] s(1) by simp
    have "sendDetectionEvent env e False (tick (tick d)) = (True, d1)"
      using sendDetectionEvent_fresh [of env "tick (tick d)" e] env(4) env(2) [of "Suc (Suc (d_tick d))"] w True s(1)
      by (simp add: sendDetectionEvent_def)
    then have "pump_update c env q d = Some (?q\<lparr>q_successCount := q_successCount q + 1\<rparr>, d1)"
      using q env(1,3) env(2) [of "d_tick d"] tr pr True nx by (simp add: pump_update_def pump_ready_def Let_def)
    then show thesis
      using True q s win cnt services_eqD(2) [OF s(9)]
      by (intro that [of "?q\<lparr>q_successCount := q_successCount q + 1\<rparr>" d1]) (simp_all add: pump_ready_def)
  qed
qed

text \<open>
  Backpressure, and what the pump does with an app that does not acknowledge. Polls of the pump
  on a connected link send the oldest unsynced event again and again, each
  time as a new message with its own sequence number, until eight messages are pending; from then
  on nothing is sent. Later events wait behind it, and the log is not touched.
\<close>

theorem pump_backpressure:
  assumes "pump_ready q" "link_up d" "proto_ok (d_proto d)" "h_valid (v_hist c) (d_hist d)"
    and "find (\<lambda>e. \<not> isSynced e) (h_stored (v_hist c) (d_hist d)) = Some e"
    and "getPendingCount_p (d_proto d) \<le> 8" "paced (q_lastAttempt q) w envs"
    and "w = p_detectionWindowStart (d_proto d) \<or> getPendingCount_p (d_proto d) = 8"
    and "n = min (length envs) (8 - getPendingCount_p (d_proto d))"
  shows "\<exists>q' d'. pump_polls c envs q d = Some (q', d') \<and> d_hist d' = d_hist d \<and>
    getPendingCount_p (d_proto d') = getPendingCount_p (d_proto d) + n \<and>
    d_out d' = d_out d @ event_frames (p_txSeqNum (d_proto d)) (replicate n e)"
  using assms
proof (induction envs arbitrary: q d w n)
  case (Cons env envs)
  let ?k = "getPendingCount_p (d_proto d)"
  obtain q1 d1 where 1: "pump_update c env q d = Some (q1, d1)" "pump_ready q1" "link_up d1" "proto_ok (d_proto d1)"
    "d_hist d1 = d_hist d" "q_lastAttempt q1 = e_ms env 0"
    "getPendingCount_p (d_proto d1) = min 8 (Suc ?k)"
    "d_out d1 = d_out d @ (if ?k < 8
       then [ST_notify (frame_bytes MSG_DETECTION_EVENT (p_txSeqNum (d_proto d)) (enc_event e))] else [])"
    "p_txSeqNum (d_proto d1) = p_txSeqNum (d_proto d) + (if ?k < 8 then 1 else 0)"
    "e_ms env 0 = p_detectionWindowStart (d_proto d1) \<or> getPendingCount_p (d_proto d1) = 8"
    by (rule pump_poll_step [OF Cons.prems(1-8)])
  let ?m = "min (length envs) (8 - getPendingCount_p (d_proto d1))"
  have "paced (q_lastAttempt q1) (e_ms env 0) envs" using Cons.prems(7) 1(6) by simp
  then have "\<exists>q' d'. pump_polls c envs q1 d1 = Some (q', d') \<and> d_hist d' = d_hist d1 \<and>
    getPendingCount_p (d_proto d') = getPendingCount_p (d_proto d1) + ?m \<and>
    d_out d' = d_out d1 @ event_frames (p_txSeqNum (d_proto d1)) (replicate ?m e)"
    using Cons.prems(4,5) 1(2-5,7,10) by (intro Cons.IH) simp_all
  then obtain q' d' where r: "pump_polls c envs q1 d1 = Some (q', d')" "d_hist d' = d_hist d1"
    "getPendingCount_p (d_proto d') = getPendingCount_p (d_proto d1) + ?m"
    "d_out d' = d_out d1 @ event_frames (p_txSeqNum (d_proto d1)) (replicate ?m e)" by blast
  show ?case
  proof (cases "?k < 8")
    case True
    then have "n = Suc ?m" using Cons.prems(9) 1(7) by simp
    then show ?thesis using True r 1 by simp
  next
    case False
    then have "?m = 0" "n = 0" using Cons.prems(6,9) 1(7) by simp_all
    then show ?thesis using False r 1 Cons.prems(6) by simp
  qed
qed simp

definition demo_pump :: pump where
  "demo_pump = pump_new\<lparr>q_bleManager := True, q_historyService := True, q_protocolHandler := True,
     q_initialized := True\<rparr>"

lemma demo_pump_ready [simp]: "pump_ready demo_pump" "q_lastAttempt demo_pump = 0"
  by (simp_all add: demo_pump_def pump_new_def pump_ready_def)

lemma demo_idle [simp]: "idle_link demo_dev_cfg demo_device"
  by (simp add: idle_link_def)

definition demo_clock :: "u32 \<Rightarrow> dev_env" where
  "demo_clock t = demo_dev_env\<lparr>e_ms := \<lambda>_. t\<rparr>"

lemma demo_clock_simps [simp]: "all_locks (demo_clock t)" "e_ms (demo_clock t) k = t"
  by (simp_all add: demo_clock_def all_locks_def)

lemma demo_paced [simp]: "paced 0 0 [demo_clock 2000, demo_clock 4000]"
  by (simp add: MIN_PUMP_INTERVAL_MS_def DETECTION_RATE_WINDOW_MS_def)


theorem pump_backpressure_witness:
  "\<exists>q' d'. pump_polls demo_dev_cfg [demo_clock 2000, demo_clock 4000] demo_pump demo_device = Some (q', d') \<and>
    d_hist d' = demo_history \<and> d_out d' = event_frames 0 [demo_event2, demo_event2]"
  using pump_backpressure [of demo_pump demo_device demo_dev_cfg demo_event2 0 "[demo_clock 2000, demo_clock 4000]" 2]
  by (auto simp: numeral_2_eq_2 simp del: pump_polls.simps paced.simps event_frames.simps)

end
