(* ===== verification/Fw_Led.thy ===== *)
theory Fw_Led
  imports Fw_Prelude
begin

text \<open>
  \<open>LED_HAL\<close> (\<open>src/src/HAL/LED_HAL.cpp\<close>): the colour and blink pattern that the services ask
  for, the colour last handed to the strip with the static cache that suppresses repeated
  writes, and the hold on the data pin that \<open>prepareForSleep\<close> sets. The strip and its pin
  are the fields \<open>l_strip\<close> (the colour last shown) and \<open>l_hold\<close>: while the pin is held the
  strip does not receive what is shown, so \<open>l_visible\<close> is what a user sees. The floating
  point colours of the two breathing patterns are a parameter.
\<close>

datatype blink_pattern =
    SOLID | SLOW_BLINK | FAST_BLINK | DOUBLE_BLINK | BREATHE | RAINBOW_BREATHE | PATTERN_OFF

record led =
  l_initialized :: bool
  l_pattern :: blink_pattern
  l_color :: u32
  l_lastBlink :: u32
  l_on :: bool
  l_phase :: u8
  l_lastWritten :: u32
  l_strip :: u32
  l_hold :: bool
  l_visible :: u32

record led_float =
  lf_breathe :: "u32 \<Rightarrow> u8 \<Rightarrow> u8"
  lf_rainbow :: "u32 \<Rightarrow> u32"

definition SLOW_BLINK_PERIOD :: u32 where "SLOW_BLINK_PERIOD = 1000"
definition FAST_BLINK_PERIOD :: u32 where "FAST_BLINK_PERIOD = 250"
definition DOUBLE_BLINK_ON :: u32 where "DOUBLE_BLINK_ON = 100"
definition DOUBLE_BLINK_OFF :: u32 where "DOUBLE_BLINK_OFF = 100"
definition DOUBLE_BLINK_PAUSE :: u32 where "DOUBLE_BLINK_PAUSE = 500"

section \<open>Operations\<close>

text \<open>
  The constructor, on a pin that is held or not (a hold survives deep sleep) and a strip
  that shows some colour.
\<close>

definition led_new :: "bool \<Rightarrow> u32 \<Rightarrow> led" where
  "led_new hold shown =
     \<lparr>l_initialized = False, l_pattern = PATTERN_OFF, l_color = 0, l_lastBlink = 0, l_on = False,
      l_phase = 0, l_lastWritten = 0xFFFFFFFF, l_strip = shown, l_hold = hold, l_visible = shown\<rparr>"

definition led_show :: "u32 \<Rightarrow> led \<Rightarrow> led" where
  "led_show color l =
     l\<lparr>l_strip := color, l_visible := (if l_hold l then l_visible l else color)\<rparr>"

definition led_init :: "u32 \<Rightarrow> led \<Rightarrow> led" where
  "led_init now l =
     (if l_initialized l then l
      else (led_show 0 (l\<lparr>l_hold := False\<rparr>))\<lparr>l_initialized := True, l_pattern := PATTERN_OFF,
             l_color := 0, l_on := False, l_lastBlink := now, l_phase := 0\<rparr>)"

definition writeColor :: "u32 \<Rightarrow> led \<Rightarrow> led" where
  "writeColor color l =
     (if \<not> l_initialized l then l
      else if color = l_lastWritten l then l
      else (led_show color l)\<lparr>l_lastWritten := color, l_on := (color \<noteq> 0)\<rparr>)"

definition setColor :: "u32 \<Rightarrow> u32 \<Rightarrow> led \<Rightarrow> led" where
  "setColor now color l =
     (if \<not> l_initialized l then l
      else writeColor color
        (l\<lparr>l_pattern := (if color \<noteq> 0 then SOLID else PATTERN_OFF), l_color := color,
           l_lastBlink := now, l_phase := 0\<rparr>))"

definition setPattern :: "u32 \<Rightarrow> u32 \<Rightarrow> blink_pattern \<Rightarrow> led \<Rightarrow> led" where
  "setPattern now color pattern l =
     (if \<not> l_initialized l then l
      else
        let l = l\<lparr>l_pattern := pattern, l_color := (if color \<noteq> 0 then color else 0xFFFFFF),
                  l_lastBlink := now, l_phase := 0\<rparr>
        in if pattern = SOLID then writeColor (l_color l) l
           else if pattern = PATTERN_OFF then writeColor 0 l
           else writeColor (l_color l) l)"

definition led_off :: "led \<Rightarrow> led" where
  "led_off l =
     (if \<not> l_initialized l then l
      else writeColor 0 (l\<lparr>l_pattern := PATTERN_OFF, l_color := 0, l_phase := 0\<rparr>))"

definition flash :: "u32 \<Rightarrow> u32 \<Rightarrow> led \<Rightarrow> led" where
  "flash now color l =
     (if \<not> l_initialized l then l
      else
        let savedPattern = l_pattern l; savedColor = l_color l;
            l = writeColor 0 (writeColor color l)
        in l\<lparr>l_pattern := savedPattern, l_color := savedColor, l_lastBlink := now, l_phase := 0\<rparr>)"

text \<open>How long phase \<open>p\<close> of the double blink lasts.\<close>

definition phaseDuration :: "u8 \<Rightarrow> u32" where
  "phaseDuration p =
     (if p = 0 then DOUBLE_BLINK_ON else if p = 1 then DOUBLE_BLINK_OFF
      else if p = 2 then DOUBLE_BLINK_ON else if p = 3 then DOUBLE_BLINK_OFF
      else if p = 4 then DOUBLE_BLINK_PAUSE else DOUBLE_BLINK_ON)"

definition breathe_color :: "led_float \<Rightarrow> u32 \<Rightarrow> u32 \<Rightarrow> u32" where
  "breathe_color f now color =
     push_bit 16 (ucast (lf_breathe f now (ucast (drop_bit 16 color AND 0xFF)))) OR
     push_bit 8 (ucast (lf_breathe f now (ucast (drop_bit 8 color AND 0xFF)))) OR
     ucast (lf_breathe f now (ucast (color AND 0xFF)))"

definition blink_to :: "u32 \<Rightarrow> u8 \<Rightarrow> bool \<Rightarrow> led \<Rightarrow> led" where
  "blink_to now newPhase shouldBeOn l =
     writeColor (if shouldBeOn then l_color l else 0) (l\<lparr>l_lastBlink := now, l_phase := newPhase\<rparr>)"

definition led_update :: "led_float \<Rightarrow> u32 \<Rightarrow> led \<Rightarrow> led" where
  "led_update f now l =
     (if \<not> l_initialized l then l
      else case l_pattern l of
        SOLID \<Rightarrow> l
      | PATTERN_OFF \<Rightarrow> l
      | SLOW_BLINK \<Rightarrow>
          if now - l_lastBlink l \<ge> SLOW_BLINK_PERIOD then blink_to now (l_phase l) (\<not> l_on l) l else l
      | FAST_BLINK \<Rightarrow>
          if now - l_lastBlink l \<ge> FAST_BLINK_PERIOD then blink_to now (l_phase l) (\<not> l_on l) l else l
      | DOUBLE_BLINK \<Rightarrow>
          if now - l_lastBlink l \<ge> phaseDuration (l_phase l)
          then (let newPhase = (l_phase l + 1) mod 5
                in blink_to now newPhase (newPhase = 0 \<or> newPhase = 2) l) else l
      | BREATHE \<Rightarrow> writeColor (breathe_color f now (l_color l)) l
      | RAINBOW_BREATHE \<Rightarrow>
          (let rgb = lf_rainbow f now in (led_show rgb l)\<lparr>l_on := (rgb \<noteq> 0)\<rparr>))"

definition prepareForSleep :: "led \<Rightarrow> led" where
  "prepareForSleep l =
     (let l = led_show 0 l;
          l = l\<lparr>l_visible := 0, l_hold := True\<rparr>
      in l\<lparr>l_pattern := PATTERN_OFF, l_color := 0, l_on := False, l_phase := 0\<rparr>)"

section \<open>Sequences of calls\<close>

datatype led_op =
    LO_init u32 | LO_color u32 u32 | LO_pattern u32 u32 blink_pattern | LO_off
  | LO_flash u32 u32 | LO_update u32 | LO_sleep

fun led_react :: "led_float \<Rightarrow> led_op \<Rightarrow> led \<Rightarrow> led" where
  "led_react f (LO_init now) l = led_init now l"
| "led_react f (LO_color now c) l = setColor now c l"
| "led_react f (LO_pattern now c p) l = setPattern now c p l"
| "led_react f LO_off l = led_off l"
| "led_react f (LO_flash now c) l = flash now c l"
| "led_react f (LO_update now) l = led_update f now l"
| "led_react f LO_sleep l = prepareForSleep l"

lemmas led_op_defs = writeColor_def setColor_def setPattern_def led_off_def flash_def blink_to_def
  led_show_def Let_def

lemma led_init_again [simp]: "l_initialized l \<Longrightarrow> led_init now l = l"
  by (simp add: led_init_def)

lemma writeColor_keeps [simp]:
  "l_initialized (writeColor c l) = l_initialized l"
  "l_hold (writeColor c l) = l_hold l"
  "l_pattern (writeColor c l) = l_pattern l"
  "l_color (writeColor c l) = l_color l"
  "l_phase (writeColor c l) = l_phase l"
  by (simp_all add: led_op_defs)

lemma writeColor_held [simp]: "l_hold l \<Longrightarrow> l_visible (writeColor c l) = l_visible l"
  by (simp add: led_op_defs)

text \<open>One call on a driver that has been initialised keeps the hold and what is visible under it.\<close>

lemma led_react_held:
  assumes "l_initialized l" "l_hold l" "l_visible l = 0"
  shows "l_initialized (led_react f op l) \<and> l_hold (led_react f op l) \<and>
    l_visible (led_react f op l) = 0"
  using assms
  by (cases op) (auto simp: setColor_def setPattern_def led_off_def flash_def led_update_def
      blink_to_def led_show_def prepareForSleep_def Let_def split: blink_pattern.splits)

lemma led_run_held:
  assumes "l_initialized l" "l_hold l" "l_visible l = 0"
  shows "l_hold (fold (led_react f) ops l) \<and> l_visible (fold (led_react f) ops l) = 0"
  using assms by (induction ops arbitrary: l) (simp_all add: led_react_held)

text \<open>
  Once \<open>prepareForSleep\<close> has run on an initialised driver, no sequence of calls of the
  driver ever lights the LED again: the pin stays held (only the first \<open>init\<close> of a boot
  releases it) and the LED is dark whatever colour is asked for. A sleep that is aborted
  after that call therefore leaves the device without its LED until the next reset.
\<close>

theorem led_dark_after_sleep:
  assumes "l_initialized l"
  shows "l_visible (fold (led_react f) ops (prepareForSleep l)) = 0 \<and>
    l_hold (fold (led_react f) ops (prepareForSleep l))"
  using led_run_held [of "prepareForSleep l" f ops] assms
  by (simp add: prepareForSleep_def led_show_def Let_def)

lemma led_dark_after_sleep_witness:
  "l_visible (fold (led_react \<lparr>lf_breathe = \<lambda>t c. c, lf_rainbow = \<lambda>t. 1\<rparr>)
     [LO_init 5, LO_color 7 0xFF, LO_update 9]
     (prepareForSleep (led_init 1 (led_new True 0)))) = 0"
  using led_dark_after_sleep [of "led_init 1 (led_new True 0)"
      "\<lparr>lf_breathe = \<lambda>t c. c, lf_rainbow = \<lambda>t. 1\<rparr>" "[LO_init 5, LO_color 7 0xFF, LO_update 9]"]
  by (simp add: led_init_def led_new_def led_show_def)

text \<open>
  While the pin is not held the user sees what the driver has shown, and outside the two
  breathing patterns the flag \<open>isOn\<close> tells whether the LED is lit.
\<close>

definition led_ok :: "led \<Rightarrow> bool" where
  "led_ok l \<longleftrightarrow> l_initialized l \<and> \<not> l_hold l \<and> l_visible l = l_strip l \<and>
     (l_on l \<longleftrightarrow> l_strip l \<noteq> 0) \<and> l_phase l < 5"

lemma writeColor_ok: "led_ok l \<Longrightarrow> led_ok (writeColor c l)"
  by (simp add: led_ok_def led_op_defs)

lemma mod5_less: "x mod 5 < 5" for x :: u8
  by (simp add: word_less_nat_alt unat_mod)

lemma led_react_ok:
  assumes "led_ok l" "op \<noteq> LO_sleep"
  shows "led_ok (led_react f op l)"
  using assms
  by (cases op)
    (auto simp: led_ok_def setColor_def setPattern_def led_off_def flash_def led_update_def
      blink_to_def led_show_def writeColor_def Let_def mod5_less split: blink_pattern.splits)

theorem led_invariant:
  assumes "led_ok l" "LO_sleep \<notin> set ops"
  shows "led_ok (fold (led_react f) ops l)"
  using assms by (induction ops arbitrary: l) (auto simp: led_react_ok)

text \<open>
  A flash ends with the LED dark and restores only the recorded pattern and colour: on a
  solid colour the LED stays dark although the driver reports that colour, through any number
  of updates.
\<close>

lemma flash_leaves_solid_dark:
  assumes "led_ok l" "l_pattern l = SOLID" "l_lastWritten l = l_strip l" "c \<noteq> 0"
  shows "l_visible (fold (led_react f) (map LO_update ts) (flash now c l)) = 0 \<and>
    l_pattern (flash now c l) = SOLID \<and> l_color (flash now c l) = l_color l"
proof -
  let ?l = "flash now c l"
  have st: "l_initialized ?l" "l_pattern ?l = SOLID" "l_visible ?l = 0" "l_color ?l = l_color l"
    using assms by (auto simp: flash_def led_ok_def writeColor_def led_show_def Let_def)
  have "fold (led_react f) (map LO_update ts) ?l = ?l"
    using st by (induction ts) (simp_all add: led_update_def)
  with st show ?thesis by simp
qed

end
