(* ===== verification/Fw_Battery.thy ===== *)
theory Fw_Battery
  imports Fw_Prelude
begin

text \<open>
  The battery part of \<open>PowerManager\<close> (\<open>src/src/Services/PowerManager.cpp\<close>): the voltage
  reading, the table of open-circuit voltages, the smoothed estimate and the level that is
  reported. The table and the constants come from the removed \<open>Config.h\<close> and are parameters;
  so is the single-precision arithmetic of the C++ implementation, a record of functions on a
  type \<open>'f\<close> about which nothing is assumed.
\<close>

record 'f float_ops =
  fo_of :: "u32 \<Rightarrow> 'f"
  fo_lit :: "nat \<Rightarrow> nat \<Rightarrow> 'f"
  fo_add :: "'f \<Rightarrow> 'f \<Rightarrow> 'f"
  fo_sub :: "'f \<Rightarrow> 'f \<Rightarrow> 'f"
  fo_mul :: "'f \<Rightarrow> 'f \<Rightarrow> 'f"
  fo_div :: "'f \<Rightarrow> 'f \<Rightarrow> 'f"
  fo_u8 :: "'f \<Rightarrow> u8"
  fo_u16 :: "'f \<Rightarrow> u16"

text \<open>\<open>fo_lit a b\<close> is the literal \<open>a / b\<close>, for instance \<open>0.5f\<close> is \<open>fo_lit 1 2\<close>.\<close>

type_synonym ocv_table = "(u32 \<times> u8) list"

record 'f battery_cfg =
  fl :: "'f float_ops"
  OCV_SOC_TABLE :: ocv_table
  EXTERNAL_POWER_THRESHOLD_MV :: u32
  MIN_SAMPLES_FOR_STABLE :: u8
  SMOOTHING_ALPHA :: 'f
  HYSTERESIS_PERCENT :: u8
  LOW_BATTERY_PERCENT :: u8
  CRITICAL_BATTERY_PERCENT :: u8
  ADC_SAMPLES :: u8

record 'f battery =
  y_percent :: u8
  y_charging :: bool
  y_lastAdc :: u16
  y_smoothed :: 'f
  y_sampleCount :: u8
  y_lastLog :: u32
  y_lastCheck :: u32

definition battery_new :: "'f battery_cfg \<Rightarrow> 'f battery" where
  "battery_new c =
     \<lparr>y_percent = 100, y_charging = False, y_lastAdc = 0, y_smoothed = fo_lit (fl c) 100 1,
      y_sampleCount = 0, y_lastLog = 0, y_lastCheck = 0\<rparr>"

section \<open>Operations\<close>

text \<open>\<open>adc i\<close> is the \<open>i\<close>th reading of the pin, in millivolts.\<close>

definition readBatteryVoltage :: "'f battery_cfg \<Rightarrow> (nat \<Rightarrow> u32) \<Rightarrow> u32" where
  "readBatteryVoltage c adc =
     (let sum = sum_list (map adc [0..<unat (ADC_SAMPLES c)]);
          avgPinMv = sum div ucast (ADC_SAMPLES c)
      in avgPinMv * 2)"

fun ocv_loop :: "u32 \<Rightarrow> ocv_table \<Rightarrow> u8" where
  "ocv_loop v ((hv, hp) # (lv, lp) # rest) =
     (if v > lv then
        (if v \<ge> hv then hp
         else
           let voltageRange = hv - lv;
               percentRange = ucast hp - ucast lp :: u32;
               voltageOffset = v - lv
           in if voltageRange = 0 then lp
              else
                let interpolated = ucast lp + (percentRange * voltageOffset) div voltageRange
                in if interpolated > 100 then 100 else ucast interpolated)
      else ocv_loop v ((lv, lp) # rest))"
| "ocv_loop v t = 0"

definition voltageToPercent :: "ocv_table \<Rightarrow> u32 \<Rightarrow> u8" where
  "voltageToPercent t v =
     (if v \<ge> fst (hd t) then 100 else if v \<le> fst (last t) then 0 else ocv_loop v t)"

text \<open>The new smoothed value: a running mean at first, exponential smoothing later.\<close>

definition smooth :: "'f battery_cfg \<Rightarrow> u8 \<Rightarrow> u8 \<Rightarrow> 'f \<Rightarrow> 'f" where
  "smooth c count raw old =
     (let ops = fl c; one = fo_lit ops 1 1
      in if count \<le> MIN_SAMPLES_FOR_STABLE c then
           (let initAlpha = fo_div ops one (fo_of ops (ucast count))
            in fo_add ops (fo_mul ops old (fo_sub ops one initAlpha))
                 (fo_mul ops (fo_of ops (ucast raw)) initAlpha))
         else fo_add ops (fo_mul ops (SMOOTHING_ALPHA c) (fo_of ops (ucast raw)))
                (fo_mul ops (fo_sub ops one (SMOOTHING_ALPHA c)) old))"

text \<open>
  The level to report for a new estimate: the old one within the hysteresis, except that it
  follows a rise while charging.
\<close>

definition battery_level :: "'f battery_cfg \<Rightarrow> bool \<Rightarrow> u8 \<Rightarrow> u8 \<Rightarrow> u8" where
  "battery_level c charging smoothedInt percent =
     (let delta = smoothedInt - percent;
          delta = (if sint delta < 0 then - delta else delta);
          percent = (if delta \<ge> HYSTERESIS_PERCENT c then smoothedInt else percent)
      in if charging \<and> smoothedInt > percent then smoothedInt else percent)"

text \<open>\<open>now\<close> gives the clock readings in order.\<close>

definition updateBatteryStatus ::
  "'f battery_cfg \<Rightarrow> (nat \<Rightarrow> u32) \<Rightarrow> bool \<Rightarrow> (nat \<Rightarrow> u32) \<Rightarrow> 'f battery \<Rightarrow> 'f battery" where
  "updateBatteryStatus c adc chargingPinLow now b =
     (let voltageMv = readBatteryVoltage c adc;
          b = b\<lparr>y_lastAdc := (if voltageMv > 65535 then 65535 else ucast voltageMv)\<rparr>;
          b = (if voltageMv < EXTERNAL_POWER_THRESHOLD_MV c
               then b\<lparr>y_percent := 100, y_smoothed := fo_lit (fl c) 100 1, y_charging := False\<rparr>
               else
                 let rawPercent = voltageToPercent (OCV_SOC_TABLE c) voltageMv;
                     b = (if y_sampleCount b < 255 then b\<lparr>y_sampleCount := y_sampleCount b + 1\<rparr> else b);
                     b = b\<lparr>y_smoothed := smooth c (y_sampleCount b) rawPercent (y_smoothed b)\<rparr>;
                     smoothedInt = fo_u8 (fl c) (fo_add (fl c) (y_smoothed b) (fo_lit (fl c) 1 2));
                     smoothedInt = (if smoothedInt > 100 then 100 else smoothedInt);
                     b = b\<lparr>y_percent := battery_level c chargingPinLow smoothedInt (y_percent b),
                           y_charging := chargingPinLow\<rparr>
                 in if now 0 - y_lastLog b > 60000 then b\<lparr>y_lastLog := now 1\<rparr> else b)
      in b\<lparr>y_lastCheck := now 2\<rparr>)"

definition isBatteryLow :: "'f battery_cfg \<Rightarrow> 'f battery \<Rightarrow> bool" where
  "isBatteryLow c b \<longleftrightarrow> y_percent b \<le> LOW_BATTERY_PERCENT c \<and> \<not> y_charging b"

definition isBatteryCritical :: "'f battery_cfg \<Rightarrow> 'f battery \<Rightarrow> bool" where
  "isBatteryCritical c b \<longleftrightarrow>
     (if y_percent b = 0 then False
      else y_percent b \<le> CRITICAL_BATTERY_PERCENT c \<and> \<not> y_charging b)"

definition checkChargingStatus :: "bool \<Rightarrow> bool" where
  "checkChargingStatus chargingPinLow = chargingPinLow"

section \<open>The table of voltages\<close>

text \<open>
  A usable table: voltages fall strictly, levels do not rise, levels are percentages and
  voltages fit into 16 bits.
\<close>

fun ocv_ok :: "ocv_table \<Rightarrow> bool" where
  "ocv_ok ((hv, hp) # (lv, lp) # rest) \<longleftrightarrow>
     lv < hv \<and> lp \<le> hp \<and> hp \<le> 100 \<and> hv < 65536 \<and> ocv_ok ((lv, lp) # rest)"
| "ocv_ok [(v, p)] \<longleftrightarrow> p \<le> 100 \<and> v < 65536"
| "ocv_ok [] \<longleftrightarrow> False"

text \<open>Linear interpolation on natural numbers, rounded down.\<close>

fun interpolate :: "nat \<Rightarrow> (nat \<times> nat) list \<Rightarrow> nat" where
  "interpolate v ((hv, hp) # (lv, lp) # rest) =
     (if v > lv then lp + (hp - lp) * (v - lv) div (hv - lv) else interpolate v ((lv, lp) # rest))"
| "interpolate v t = 0"

definition nat_table :: "ocv_table \<Rightarrow> (nat \<times> nat) list" where
  "nat_table = map (\<lambda>(v, p). (unat v, unat p))"

lemma unat_minus: "b \<le> a \<Longrightarrow> unat (a - b) = unat a - unat b" for a b :: "'a::len word"
  by (simp add: unat_sub)

lemma interpolation_step:
  fixes v hv lv :: u32 and hp lp :: u8
  assumes "lv < v" "v < hv" "hv < 65536" "lp \<le> hp" "hp \<le> 100"
  defines "r \<equiv> (ucast lp + ((ucast hp - ucast lp) * (v - lv)) div (hv - lv) :: u32)"
  shows "unat r = unat lp + (unat hp - unat lp) * (unat v - unat lv) div (unat hv - unat lv)"
    and "r \<le> 100"
proof -
  let ?P = "unat hp - unat lp" and ?V = "unat v - unat lv" and ?R = "unat hv - unat lv"
  have n: "unat lv < unat v" "unat v < unat hv" "unat hv < 65536" "unat lp \<le> unat hp" "unat hp \<le> 100"
    using assms by (simp_all add: word_less_nat_alt word_le_nat_alt)
  have p: "unat (ucast hp - ucast lp :: u32) = ?P"
    using n by (subst unat_minus) (simp_all add: word_le_nat_alt unat_ucast_mod)
  have v: "unat (v - lv) = ?V" and R: "unat (hv - lv) = ?R"
    using n by (simp_all add: unat_minus word_le_nat_alt)
  have "?P * ?V \<le> 100 * 65536"
    by (rule mult_mono) (use n in auto)
  then have m: "unat ((ucast hp - ucast lp) * (v - lv) :: u32) = ?P * ?V"
    by (simp add: unat_word_ariths p v)
  have q: "unat (((ucast hp - ucast lp) * (v - lv)) div (hv - lv) :: u32) = ?P * ?V div ?R"
    by (simp add: unat_div m R)
  have le: "?P * ?V div ?R \<le> ?P"
  proof -
    have "?P * ?V div ?R \<le> ?P * ?R div ?R" by (intro div_le_mono mult_le_mono2 diff_le_mono) (use n in simp)
    then show ?thesis using n by simp
  qed
  then have *: "unat lp + ?P * ?V div ?R \<le> 100" using n by linarith
  show "unat r = unat lp + ?P * ?V div ?R"
    unfolding r_def using * by (subst unat_plus_less) (simp_all add: q unat_ucast_mod)
  with * show "r \<le> 100" by (simp add: word_le_nat_alt)
qed

lemma ocv_okD: "ocv_ok ((hv, hp) # t) \<Longrightarrow> hp \<le> 100 \<and> hv < 65536"
  by (cases t) auto

lemma ocv_loop_interpolate:
  assumes "ocv_ok t" "v < fst (hd t)" "fst (last t) < v"
  shows "unat (ocv_loop v t) = interpolate (unat v) (nat_table t) \<and> ocv_loop v t \<le> 100"
  using assms
proof (induction v t rule: ocv_loop.induct)
  case (1 v hv hp lv lp rest)
  note ok = 1(2)
  have lt: "lv < hv" "lp \<le> hp" "hp \<le> 100" "hv < 65536" "ocv_ok ((lv, lp) # rest)"
    using ok by simp_all
  show ?case
  proof (cases "lv < v")
    case True
    have hv: "v < hv" using 1(3) by simp
    note st = interpolation_step [OF True hv lt(4,2,3)]
    let ?r = "(ucast lp + ((ucast hp - ucast lp) * (v - lv)) div (hv - lv) :: u32)"
    have "hv - lv \<noteq> 0" using lt(1) by auto
    then have e: "ocv_loop v ((hv, hp) # (lv, lp) # rest) = ucast ?r"
      using True hv st(2) by (simp add: Let_def leD linorder_not_le [symmetric])
    have "unat (ucast ?r :: u8) = unat ?r"
      using st(2) by (simp add: word_le_nat_alt unat_ucast_mod)
    with e st True show ?thesis
      by (simp add: nat_table_def word_less_nat_alt word_le_nat_alt)
  next
    case False
    show ?thesis
    proof (cases "v = lv")
      case True
      show ?thesis
      proof (cases rest)
        case Nil
        then show ?thesis using 1(4) True by simp
      next
        case (Cons e rest')
        obtain mv mp where e: "e = (mv, mp)" by (cases e)
        have m: "mv < lv" "mp \<le> lp" "lp \<le> 100" "mv < 65536"
          using lt(5) Cons e ocv_okD by (auto simp: ocv_okD)
        have "unat mp \<le> unat lp" "unat mv < unat lv"
          using m by (simp_all add: word_le_nat_alt word_less_nat_alt)
        then have "unat lp = unat mp + (unat lp - unat mp) * (unat lv - unat mv) div (unat lv - unat mv)"
          by simp
        then show ?thesis
          using False True m Cons e by (simp add: nat_table_def word_less_nat_alt)
      qed
    next
      case neq: False
      then have "v < fst (hd ((lv, lp) # rest))" using False by simp
      then have "unat (ocv_loop v ((lv, lp) # rest)) = interpolate (unat v) (nat_table ((lv, lp) # rest))
          \<and> ocv_loop v ((lv, lp) # rest) \<le> 100"
        using 1(1) False lt(5) 1(4) by simp
      then show ?thesis using False by (simp add: nat_table_def word_less_nat_alt)
    qed
  qed
qed auto

text \<open>
  C32: On a usable table the optimised 32-bit search and interpolation of \<open>voltageToPercent\<close> computes,
  for every voltage, the exact linear interpolation on natural numbers: it never
  overflows, its cap at 100 is never needed, and it is 100 from the first and 0 up to the
  last entry.
\<close>

theorem voltage_interpolation:
  assumes "ocv_ok t"
  shows "unat (voltageToPercent t v) =
    (if v \<ge> fst (hd t) then 100 else if v \<le> fst (last t) then 0
     else interpolate (unat v) (nat_table t))"
  using ocv_loop_interpolate [OF assms, of v] by (simp add: voltageToPercent_def)

lemma voltage_interpolation_witness:
  "unat (voltageToPercent [(4200, 100), (3700, 50), (3300, 0)] 3900) = 70"
  using voltage_interpolation [of "[(4200, 100), (3700, 50), (3300, 0)]" 3900]
  by (simp add: nat_table_def)

section \<open>Monotonicity and bounds\<close>

fun desc_table :: "(nat \<times> nat) list \<Rightarrow> bool" where
  "desc_table ((hv, hp) # (lv, lp) # rest) \<longleftrightarrow> lv < hv \<and> lp \<le> hp \<and> desc_table ((lv, lp) # rest)"
| "desc_table t \<longleftrightarrow> True"

lemma desc_nat_table: "ocv_ok t \<Longrightarrow> desc_table (nat_table t)"
  by (induction t rule: ocv_ok.induct)
    (auto simp: nat_table_def word_less_nat_alt word_le_nat_alt)

lemma interpolate_le_first:
  "desc_table ((hv, hp) # t) \<Longrightarrow> v \<le> hv \<Longrightarrow> interpolate v ((hv, hp) # t) \<le> hp"
proof (induction t arbitrary: hv hp)
  case (Cons e t)
  obtain lv lp where e: "e = (lv, lp)" by (cases e)
  have d: "lv < hv" "lp \<le> hp" "desc_table ((lv, lp) # t)" using Cons.prems e by auto
  show ?case
  proof (cases "lv < v")
    case True
    have "(hp - lp) * (v - lv) div (hv - lv) \<le> (hp - lp) * (hv - lv) div (hv - lv)"
      by (intro div_le_mono mult_le_mono2 diff_le_mono) (use Cons.prems in simp)
    then show ?thesis using True d e by simp
  next
    case False
    then show ?thesis using Cons.IH [OF d(3)] d e by simp
  qed
qed simp

lemma interpolate_mono:
  "desc_table t \<Longrightarrow> v \<le> w \<Longrightarrow> t \<noteq> [] \<Longrightarrow> w \<le> fst (hd t) \<Longrightarrow> interpolate v t \<le> interpolate w t"
proof (induction w t arbitrary: v rule: interpolate.induct)
  case (1 w hv hp lv lp rest)
  have d: "lv < hv" "lp \<le> hp" "desc_table ((lv, lp) # rest)" using "1.prems" by auto
  show ?case
  proof (cases "lv < w")
    case wl: True
    show ?thesis
    proof (cases "lv < v")
      case True
      then show ?thesis using wl "1.prems"
        by (simp add: div_le_mono mult_le_mono2 diff_le_mono)
    next
      case False
      then have "interpolate v ((lv, lp) # rest) \<le> lp"
        by (intro interpolate_le_first d(3)) simp
      then show ?thesis using False wl by simp
    qed
  next
    case False
    then show ?thesis using 1 d by simp
  qed
qed auto

lemma voltageToPercent_le: "ocv_ok t \<Longrightarrow> voltageToPercent t v \<le> 100"
  using ocv_loop_interpolate [of t v] by (simp add: voltageToPercent_def not_le)

lemma interpolate_bound:
  assumes "ocv_ok t" "\<not> fst (hd t) \<le> v" "\<not> v \<le> fst (last t)"
  shows "unat (voltageToPercent t v) = interpolate (unat v) (nat_table t)"
  using ocv_loop_interpolate [OF assms(1), of v] assms by (simp add: voltageToPercent_def)

text \<open>On a usable table the level never rises when the voltage falls, and stays within 0 and 100.\<close>

theorem voltage_monotone:
  assumes t: "ocv_ok t" and le: "v \<le> w"
  shows "voltageToPercent t v \<le> voltageToPercent t w \<and> voltageToPercent t w \<le> 100"
proof -
  consider "fst (hd t) \<le> w" | "\<not> fst (hd t) \<le> w" "v \<le> fst (last t)"
    | "\<not> fst (hd t) \<le> w" "\<not> v \<le> fst (last t)" by blast
  then have "voltageToPercent t v \<le> voltageToPercent t w"
  proof cases
    case 1
    then show ?thesis using voltageToPercent_le [OF t, of v] by (simp add: voltageToPercent_def)
  next
    case 2
    then have "voltageToPercent t v = 0" using le by (auto simp: voltageToPercent_def)
    then show ?thesis by simp
  next
    case 3
    have n: "nat_table t \<noteq> []" "unat w \<le> fst (hd (nat_table t))"
      using t 3(1) by (cases t; force simp: nat_table_def word_le_nat_alt)+
    have "unat (voltageToPercent t v) = interpolate (unat v) (nat_table t)"
      "unat (voltageToPercent t w) = interpolate (unat w) (nat_table t)"
      using 3 le by (auto intro!: interpolate_bound t)
    then show ?thesis
      using interpolate_mono [OF desc_nat_table [OF t] _ n, of "unat v"] le
      by (simp add: word_le_nat_alt)
  qed
  then show ?thesis using voltageToPercent_le [OF t] by simp
qed

lemma voltage_monotone_witness:
  "voltageToPercent [(4200, 100), (3700, 50), (3300, 0)] 3600 \<le>
   voltageToPercent [(4200, 100), (3700, 50), (3300, 0)] 4000"
  using voltage_monotone [of "[(4200, 100), (3700, 50), (3300, 0)]" 3600 4000] by simp

section \<open>The reported level\<close>

lemma battery_level_cases:
  "battery_level c charging new old = new \<or> battery_level c charging new old = old"
  by (simp add: battery_level_def Let_def)

lemma battery_level_le: "new \<le> 100 \<Longrightarrow> old \<le> 100 \<Longrightarrow> battery_level c charging new old \<le> 100"
  using battery_level_cases [of c charging new old] by auto

lemma battery_percent_le:
  "y_percent b \<le> 100 \<Longrightarrow> y_percent (updateBatteryStatus c adc low now b) \<le> 100"
  by (simp add: updateBatteryStatus_def Let_def battery_level_le not_less)

text \<open>
  A level that changes moves by at least the hysteresis, or upwards while charging.
\<close>

lemma battery_level_change:
  assumes "battery_level c charging new old \<noteq> old"
  shows "battery_level c charging new old = new \<and>
    (HYSTERESIS_PERCENT c \<le> (if sint (new - old) < 0 then old - new else new - old) \<or>
     charging \<and> old < new)"
  using assms by (auto simp: battery_level_def Let_def split: if_splits)

text \<open>A voltage below the threshold of external power, that of an empty cell too, is reported as 100.\<close>

lemma empty_reads_full:
  "readBatteryVoltage c adc < EXTERNAL_POWER_THRESHOLD_MV c \<Longrightarrow>
   y_percent (updateBatteryStatus c adc low now b) = 100 \<and>
   \<not> y_charging (updateBatteryStatus c adc low now b)"
  by (simp add: updateBatteryStatus_def Let_def)

end
