(* ===== verification/Fw_Power.thy ===== *)
theory Fw_Power
  imports Fw_Pump Fw_Led Fw_Battery
begin

text \<open>
  \<open>PowerManager\<close> (\<open>src/src/Services/PowerManager.cpp\<close>) on the whole system: the state of the
  device with its services, of the power manager, of the LED and of the sensor task's
  detection. This theory has the records, the power state machine with its timers and counters,
  and the handler of the BLE events in \<open>main.cpp\<close>, which drives it. \<open>Fw_Sleep\<close> has the descent
  into deep sleep.
\<close>

datatype power_state = BOOT | WAKE_MODE | ACTIVE | DETECTION_ACTIVE | SLEEP_PREP | DEEP_SLEEP

datatype wake_reason =
    WR_POWER_ON | WR_BUTTON | WR_SENSOR | WR_TIMER | WR_BROWNOUT | WR_SOFTWARE | WR_UNKNOWN

datatype wakeup_cause = WAKEUP_UNDEFINED | WAKEUP_EXT0 | WAKEUP_EXT1 | WAKEUP_TIMER | WAKEUP_OTHER

record 'f power =
  w_bleManager :: bool
  w_historyService :: bool
  w_protocolHandler :: bool
  w_otaManager :: bool
  w_state :: power_state
  w_previous :: power_state
  w_wakeReason :: wake_reason
  w_stateEntry :: u32
  w_sleepPrepStart :: u32
  w_battery :: "'f battery"
  w_initialized :: bool
  w_deferred :: bool
  w_brownout :: bool
  w_consecutive :: u8
  w_lastHit :: u32
  w_party :: bool
  w_cancelCount :: u8
  w_wokeFromSensor :: bool
  w_rollingAvg :: 'f
  w_rollingCount :: u16
  w_lastCancel :: u32
  w_lastActivity :: u32
  w_onBeforeSleep :: bool

text \<open>The constants of the removed \<open>Config.h\<close>, the flash interface and the LED's arithmetic.\<close>

record ('n, 'f) power_cfg =
  pc_battery :: "'f battery_cfg"
  pc_nvs :: "'n nvs_api"
  pc_led :: led_float
  SLEEP_PREP_TIME_MS :: u32
  MAX_SLEEP_CANCEL_COUNT :: u8
  FORCE_SLEEP_TIMEOUT_MS :: u32
  SLEEP_REREQUEST_DEBOUNCE_MS :: u32
  DISCONNECTED_SLEEP_TIMEOUT_MS :: u32
  SENSOR_WAKE_BONDED_TIMEOUT_MS :: u32
  SENSOR_WAKE_QUICK_SLEEP_TIMEOUT_MS :: u32
  CONNECTED_IDLE_TIMEOUT_MS :: u32
  BATTERY_CHECK_INTERVAL_MS :: u32
  FAILSAFE_WAKE_INTERVAL_US :: "64 word"
  EMERGENCY_WAKE_INTERVAL_US :: "64 word"
  DETECTION_THRESHOLD_DEFAULT :: u16
  SLEEP_CANCEL_THRESHOLD_MULTIPLIER :: 'f
  MIN_DEEP_SLEEP_THRESHOLD :: u16
  MAX_DEEP_SLEEP_THRESHOLD :: u16
  COLOR_PAIRING :: u32
  COLOR_ACTIVE :: u32
  COLOR_HIT :: u32
  COLOR_SLEEP_PREP :: u32
  COLOR_ERROR :: u32
  COLOR_OFF :: u32

record detection_state =
  dt_isDetecting :: bool
  dt_startTime :: u32
  dt_confirmed :: bool

record timing_state =
  tm_lastKeepalive :: u32
  tm_lastHeartbeat :: u32
  tm_connectionStart :: u32

text \<open>What the firmware asks of the chip: the sleep, its wake-up sources, and the ML services to stop.\<close>

datatype sys_act =
    SA_deepSleep | SA_wakeTimer "64 word" | SA_noWakeTimer | SA_wakeSources | SA_sensorForSleep
  | SA_stopML | SA_restart

record ('n, 'u, 'f) system =
  s_dev :: "('n, 'u) device"
  s_pow :: "'f power"
  s_led :: led
  s_detect :: detection_state
  s_timing :: timing_state
  s_acts :: "sys_act list"

text \<open>
  What the environment answers during one operation, by the number of the question: the clock
  and the locks (\<open>se_dev\<close>), the battery pin, the charging pin, whether the stack is
  advertising. \<open>se_linkLost\<close> is the disconnection that the stack reports while
  \<open>enterDeepSleep\<close> waits for it; the last three are the sensor's answers there.
\<close>

record sys_env =
  se_dev :: dev_env
  se_adc :: "nat \<Rightarrow> nat \<Rightarrow> u32"
  se_chargingLow :: "nat \<Rightarrow> bool"
  se_advertising :: "nat \<Rightarrow> bool"
  se_linkLost :: "(conn_desc option \<times> nat) option"
  se_junk :: bytes
  se_sensorReady :: bool
  se_proxBelow :: "u16 \<Rightarrow> bool"
  se_intLow :: bool

definition on_dev :: "(('n, 'u) device \<Rightarrow> ('n, 'u) device) \<Rightarrow> ('n, 'u, 'f) system \<Rightarrow> ('n, 'u, 'f) system" where
  "on_dev f s = s\<lparr>s_dev := f (s_dev s)\<rparr>"

definition on_pow :: "('f power \<Rightarrow> 'f power) \<Rightarrow> ('n, 'u, 'f) system \<Rightarrow> ('n, 'u, 'f) system" where
  "on_pow f s = s\<lparr>s_pow := f (s_pow s)\<rparr>"

definition on_led :: "(led \<Rightarrow> led) \<Rightarrow> ('n, 'u, 'f) system \<Rightarrow> ('n, 'u, 'f) system" where
  "on_led f s = s\<lparr>s_led := f (s_led s)\<rparr>"

definition act :: "sys_act list \<Rightarrow> ('n, 'u, 'f) system \<Rightarrow> ('n, 'u, 'f) system" where
  "act as s = s\<lparr>s_acts := s_acts s @ as\<rparr>"

definition sys_ms :: "sys_env \<Rightarrow> ('n, 'u, 'f) system \<Rightarrow> u32 \<times> ('n, 'u, 'f) system" where
  "sys_ms env s = (e_ms (se_dev env) (d_tick (s_dev s)), on_dev tick s)"

text \<open>LED calls read the clock once.\<close>

definition led_color :: "sys_env \<Rightarrow> u32 \<Rightarrow> ('n, 'u, 'f) system \<Rightarrow> ('n, 'u, 'f) system" where
  "led_color env color s = (let (t, s) = sys_ms env s in on_led (setColor t color) s)"

definition led_pattern :: "sys_env \<Rightarrow> u32 \<Rightarrow> blink_pattern \<Rightarrow> ('n, 'u, 'f) system \<Rightarrow> ('n, 'u, 'f) system" where
  "led_pattern env color pattern s = (let (t, s) = sys_ms env s in on_led (setPattern t color pattern) s)"

definition led_tick :: "('n, 'f) power_cfg \<Rightarrow> sys_env \<Rightarrow> ('n, 'u, 'f) system \<Rightarrow> ('n, 'u, 'f) system" where
  "led_tick pc env s = (let (t, s) = sys_ms env s in on_led (led_update (pc_led pc) t) s)"

section \<open>Start\<close>

definition power_new :: "('n, 'f) power_cfg \<Rightarrow> 'f power" where
  "power_new pc =
     \<lparr>w_bleManager = False, w_historyService = False, w_protocolHandler = False, w_otaManager = False,
      w_state = BOOT, w_previous = BOOT, w_wakeReason = WR_UNKNOWN, w_stateEntry = 0,
      w_sleepPrepStart = 0, w_battery = battery_new (pc_battery pc), w_initialized = False,
      w_deferred = False, w_brownout = False, w_consecutive = 0, w_lastHit = 0, w_party = False,
      w_cancelCount = 0, w_wokeFromSensor = False, w_rollingAvg = fo_lit (fl (pc_battery pc)) 0 1,
      w_rollingCount = 0, w_lastCancel = 0, w_lastActivity = 0, w_onBeforeSleep = False\<rparr>"

fun detectWakeReason :: "reset_reason \<Rightarrow> wakeup_cause \<Rightarrow> 'f power \<Rightarrow> wake_reason \<times> 'f power" where
  "detectWakeReason resetReason cause p =
     (if resetReason = ESP_RST_BROWNOUT then (WR_BROWNOUT, p\<lparr>w_brownout := True\<rparr>)
      else case cause of
        WAKEUP_EXT0 \<Rightarrow> (WR_BUTTON, p)
      | WAKEUP_EXT1 \<Rightarrow> (WR_SENSOR, p)
      | WAKEUP_TIMER \<Rightarrow> (WR_TIMER, p)
      | WAKEUP_UNDEFINED \<Rightarrow>
          if resetReason = ESP_RST_POWERON then (WR_POWER_ON, p)
          else if resetReason = ESP_RST_SW then (WR_SOFTWARE, p) else (WR_UNKNOWN, p)
      | WAKEUP_OTHER \<Rightarrow> (WR_UNKNOWN, p))"

definition power_battery :: "('n, 'f) power_cfg \<Rightarrow> sys_env \<Rightarrow> ('n, 'u, 'f) system \<Rightarrow> ('n, 'u, 'f) system" where
  "power_battery pc env s =
     (let k = d_tick (s_dev s);
          s = on_dev (tick \<circ> tick \<circ> tick) s
      in on_pow (\<lambda>p. p\<lparr>w_battery := updateBatteryStatus (pc_battery pc) (se_adc env k) (se_chargingLow env k)
           (\<lambda>i. e_ms (se_dev env) (k + i)) (w_battery p)\<rparr>) s)"

definition power_init ::
  "('n, 'f) power_cfg \<Rightarrow> sys_env \<Rightarrow> reset_reason \<Rightarrow> wakeup_cause \<Rightarrow> bool \<Rightarrow> bool \<Rightarrow> bool \<Rightarrow>
   ('n, 'u, 'f) system \<Rightarrow> ('n, 'u, 'f) system" where
  "power_init pc env resetReason cause ble history protocol s =
     (let s = on_pow (\<lambda>p. p\<lparr>w_bleManager := ble, w_historyService := history, w_protocolHandler := protocol\<rparr>) s;
          s = on_pow (\<lambda>p. let (r, p) = detectWakeReason resetReason cause p in p\<lparr>w_wakeReason := r\<rparr>) s;
          s = (if w_wakeReason (s_pow s) = WR_SENSOR then on_pow (\<lambda>p. p\<lparr>w_wokeFromSensor := True\<rparr>) s else s);
          s = power_battery pc env s;
          (t, s) = sys_ms env s
      in on_pow (\<lambda>p. p\<lparr>w_initialized := True, w_stateEntry := t\<rparr>) s)"

definition setOTAManager :: "bool \<Rightarrow> 'f power \<Rightarrow> 'f power" where
  "setOTAManager otaManager p = p\<lparr>w_otaManager := otaManager\<rparr>"

section \<open>The state machine\<close>

definition resetRollingProxAverage :: "('n, 'f) power_cfg \<Rightarrow> 'f power \<Rightarrow> 'f power" where
  "resetRollingProxAverage pc p = p\<lparr>w_rollingAvg := fo_lit (fl (pc_battery pc)) 0 1, w_rollingCount := 0\<rparr>"

text \<open>The third detection within the window switches party mode on.\<close>

definition count_hit :: "u32 \<Rightarrow> 'f power \<Rightarrow> 'f power" where
  "count_hit now p =
     (let p = p\<lparr>w_consecutive := (if now - w_lastHit p < 30000 then w_consecutive p + 1 else 1),
                w_lastHit := now\<rparr>
      in if w_consecutive p \<ge> 3 then p\<lparr>w_party := True\<rparr> else p)"

definition transitionTo ::
  "('n, 'f) power_cfg \<Rightarrow> sys_env \<Rightarrow> power_state \<Rightarrow> ('n, 'u, 'f) system \<Rightarrow> ('n, 'u, 'f) system" where
  "transitionTo pc env newState s =
     (if w_state (s_pow s) = newState then s
      else
        let s = (if (newState = SLEEP_PREP \<or> newState = DEEP_SLEEP) \<and> w_party (s_pow s)
                 then on_pow (\<lambda>p. p\<lparr>w_party := False, w_consecutive := 0\<rparr>) s else s);
            (t, s) = sys_ms env s;
            s = on_pow (\<lambda>p. p\<lparr>w_previous := w_state p, w_state := newState, w_stateEntry := t,
                             w_deferred := False\<rparr>) s
        in case newState of
             WAKE_MODE \<Rightarrow>
               (let advertising = (w_bleManager (s_pow s) \<and> se_advertising env (d_tick (s_dev s)));
                    s = (if advertising then led_pattern env (COLOR_PAIRING pc) SLOW_BLINK s
                         else led_color env (COLOR_PAIRING pc) s);
                    s = on_pow (resetRollingProxAverage pc) s;
                    (t, s) = sys_ms env s
                in on_pow (\<lambda>p. p\<lparr>w_lastActivity := t\<rparr>) s)
           | ACTIVE \<Rightarrow>
               (let s = led_color env (COLOR_ACTIVE pc) s;
                    s = on_pow (\<lambda>p. p\<lparr>w_cancelCount := 0, w_wokeFromSensor := False\<rparr>) s;
                    (t, s) = sys_ms env s
                in on_pow (\<lambda>p. p\<lparr>w_lastActivity := t\<rparr>) s)
           | DETECTION_ACTIVE \<Rightarrow>
               (let s = led_color env (COLOR_HIT pc) s;
                    (now, s) = sys_ms env s
                in on_pow (\<lambda>p. count_hit now (p\<lparr>w_wokeFromSensor := False\<rparr>)) s)
           | SLEEP_PREP \<Rightarrow>
               (let (t, s) = sys_ms env s;
                    s = on_pow (\<lambda>p. p\<lparr>w_sleepPrepStart := t\<rparr>) s
                in led_pattern env (COLOR_SLEEP_PREP pc) FAST_BLINK s)
           | DEEP_SLEEP \<Rightarrow> on_pow (\<lambda>p. p\<lparr>w_cancelCount := 0\<rparr>) s
           | BOOT \<Rightarrow> s)"

definition requestSleep :: "('n, 'f) power_cfg \<Rightarrow> sys_env \<Rightarrow> ('n, 'u, 'f) system \<Rightarrow> ('n, 'u, 'f) system" where
  "requestSleep pc env s =
     (if w_state (s_pow s) \<noteq> SLEEP_PREP then transitionTo pc env SLEEP_PREP s else s)"

definition cancelSleep :: "('n, 'f) power_cfg \<Rightarrow> sys_env \<Rightarrow> ('n, 'u, 'f) system \<Rightarrow> ('n, 'u, 'f) system" where
  "cancelSleep pc env s =
     (if w_state (s_pow s) = SLEEP_PREP then
        let (t, s) = sys_ms env s;
            s = on_pow (\<lambda>p. p\<lparr>w_lastCancel := t\<rparr>) s
        in if w_bleManager (s_pow s) \<and> b_deviceConnected (d_ble (s_dev s))
           then transitionTo pc env ACTIVE s else transitionTo pc env WAKE_MODE s
      else s)"

definition deferSleep :: "'f power \<Rightarrow> 'f power" where
  "deferSleep p = p\<lparr>w_deferred := True\<rparr>"

definition getTimeInState :: "u32 \<Rightarrow> 'f power \<Rightarrow> u32" where
  "getTimeInState now p = now - w_stateEntry p"

definition getSleepPrepRemaining :: "('n, 'f) power_cfg \<Rightarrow> u32 \<Rightarrow> 'f power \<Rightarrow> u32" where
  "getSleepPrepRemaining pc now p =
     (if w_state p \<noteq> SLEEP_PREP then 0
      else let elapsed = now - w_sleepPrepStart p
           in if elapsed \<ge> SLEEP_PREP_TIME_MS pc then 0 else SLEEP_PREP_TIME_MS pc - elapsed)"

definition shouldForceSleep :: "('n, 'f) power_cfg \<Rightarrow> u32 \<Rightarrow> bool \<Rightarrow> 'f power \<Rightarrow> bool" where
  "shouldForceSleep pc now connected p \<longleftrightarrow>
     (if w_cancelCount p \<ge> MAX_SLEEP_CANCEL_COUNT pc then True
      else if (w_state p = WAKE_MODE \<or> w_state p = SLEEP_PREP) \<and> w_bleManager p \<and> \<not> connected \<and>
              getTimeInState now p \<ge> FORCE_SLEEP_TIMEOUT_MS pc then True
      else False)"

definition incrementSleepCancelCount :: "('n, 'f) power_cfg \<Rightarrow> 'f power \<Rightarrow> bool \<times> 'f power" where
  "incrementSleepCancelCount pc p =
     (let p = p\<lparr>w_cancelCount := w_cancelCount p + 1\<rparr>
      in (w_cancelCount p \<ge> MAX_SLEEP_CANCEL_COUNT pc, p))"

definition clearSensorWakeFlag :: "'f power \<Rightarrow> 'f power" where
  "clearSensorWakeFlag p = (if w_wokeFromSensor p then p\<lparr>w_wokeFromSensor := False\<rparr> else p)"

text \<open>A mean of the first ten samples, then exponential smoothing.\<close>

definition updateRollingProxAverage :: "('n, 'f) power_cfg \<Rightarrow> u16 \<Rightarrow> 'f power \<Rightarrow> 'f power" where
  "updateRollingProxAverage pc proximity p =
     (let ops = fl (pc_battery pc)
      in if w_rollingCount p < 10 then
           p\<lparr>w_rollingAvg := fo_div ops
               (fo_add ops (fo_mul ops (w_rollingAvg p) (fo_of ops (ucast (w_rollingCount p))))
                  (fo_of ops (ucast proximity)))
               (fo_of ops (ucast (w_rollingCount p) + 1)),
             w_rollingCount := w_rollingCount p + 1\<rparr>
         else
           p\<lparr>w_rollingAvg := fo_add ops (fo_mul ops (fo_lit ops 1 10) (fo_of ops (ucast proximity)))
               (fo_mul ops (fo_sub ops (fo_lit ops 1 1) (fo_lit ops 1 10)) (w_rollingAvg p))\<rparr>)"

definition getDynamicSleepCancelThreshold :: "('n, 'f) power_cfg \<Rightarrow> 'f power \<Rightarrow> u16" where
  "getDynamicSleepCancelThreshold pc p =
     (let ops = fl (pc_battery pc);
          dynamicThreshold = fo_u16 ops (fo_mul ops (w_rollingAvg p) (SLEEP_CANCEL_THRESHOLD_MULTIPLIER pc));
          floorThreshold = fo_u16 ops (fo_mul ops (fo_of ops (ucast (DETECTION_THRESHOLD_DEFAULT pc)))
            (SLEEP_CANCEL_THRESHOLD_MULTIPLIER pc))
      in if dynamicThreshold < floorThreshold then floorThreshold else dynamicThreshold)"

definition checkIdleTimeout :: "('n, 'f) power_cfg \<Rightarrow> sys_env \<Rightarrow> ('n, 'u, 'f) system \<Rightarrow> ('n, 'u, 'f) system" where
  "checkIdleTimeout pc env s =
     (if w_state (s_pow s) \<noteq> WAKE_MODE then s
      else if w_bleManager (s_pow s) \<and> b_deviceConnected (d_ble (s_dev s)) then s
      else
        let (now, s) = sys_ms env s
        in if now - w_lastCancel (s_pow s) < SLEEP_REREQUEST_DEBOUNCE_MS pc then s
           else
             let idleTime = now - w_lastActivity (s_pow s);
                 bondCount = (if w_bleManager (s_pow s) then d_bonds (s_dev s) else 0);
                 timeout = (if w_wokeFromSensor (s_pow s)
                            then (if bondCount > 0 then SENSOR_WAKE_BONDED_TIMEOUT_MS pc
                                  else SENSOR_WAKE_QUICK_SLEEP_TIMEOUT_MS pc)
                            else DISCONNECTED_SLEEP_TIMEOUT_MS pc)
             in if idleTime \<ge> timeout then requestSleep pc env s else s)"

definition notifyActivity :: "('n, 'f) power_cfg \<Rightarrow> sys_env \<Rightarrow> ('n, 'u, 'f) system \<Rightarrow> ('n, 'u, 'f) system" where
  "notifyActivity pc env s =
     (let (t, s) = sys_ms env s;
          s = on_pow (\<lambda>p. p\<lparr>w_lastActivity := t\<rparr>) s
      in if w_state (s_pow s) = SLEEP_PREP then cancelSleep pc env s else s)"

definition getTimeSinceActivity :: "u32 \<Rightarrow> 'f power \<Rightarrow> u32" where
  "getTimeSinceActivity now p = (if w_lastActivity p = 0 then 0 else now - w_lastActivity p)"

definition checkBrownout :: "('n, 'f) power_cfg \<Rightarrow> 'f power \<Rightarrow> bool" where
  "checkBrownout pc p \<longleftrightarrow>
     (if w_brownout p then True else if isBatteryCritical (pc_battery pc) (w_battery p) then True else False)"

section \<open>The BLE event handler of the main program\<close>

definition onBLEConnect ::
  "('n, 'u) dev_cfg \<Rightarrow> ('n, 'f) power_cfg \<Rightarrow> sys_env \<Rightarrow> ('n, 'u, 'f) system \<Rightarrow> ('n, 'u, 'f) system" where
  "onBLEConnect c pc env s =
     (let (t1, s) = sys_ms env s;
          (t2, s) = sys_ms env s;
          s = s\<lparr>s_timing := (s_timing s)\<lparr>tm_connectionStart := t1, tm_lastHeartbeat := t2\<rparr>\<rparr>;
          s = on_dev (resetForNewConnection (se_dev env)) s;
          s = transitionTo pc env ACTIVE s;
          (t3, s) = sys_ms env s
      in on_dev (\<lambda>d. d\<lparr>d_hist := setBleConnected (v_hist c) True t3 (e_qsend (se_dev env) (d_tick d)) (d_hist d)\<rparr>) s)"

definition onBLEDisconnect ::
  "('n, 'u) dev_cfg \<Rightarrow> ('n, 'f) power_cfg \<Rightarrow> sys_env \<Rightarrow> ('n, 'u, 'f) system \<Rightarrow> ('n, 'u, 'f) system" where
  "onBLEDisconnect c pc env s =
     (let s = on_dev (clearAllPending (se_dev env)) s;
          (t, s) = sys_ms env s;
          s = on_dev (\<lambda>d. d\<lparr>d_hist := setBleConnected (v_hist c) False t (e_qsend (se_dev env) (d_tick d)) (d_hist d)\<rparr>) s;
          s = (if w_state (s_pow s) \<noteq> SLEEP_PREP then transitionTo pc env WAKE_MODE s else s)
      in s\<lparr>s_detect := (s_detect s)\<lparr>dt_isDetecting := False, dt_startTime := 0, dt_confirmed := False\<rparr>\<rparr>)"

definition onBLEDataReceived ::
  "('n, 'u) dev_cfg \<Rightarrow> sys_env \<Rightarrow> bytes \<Rightarrow> ('n, 'u, 'f) system \<Rightarrow> ('n, 'u, 'f) system option" where
  "onBLEDataReceived c env data s =
     (let (t, s) = sys_ms env s;
          s = s\<lparr>s_timing := (s_timing s)\<lparr>tm_lastHeartbeat := t\<rparr>\<rparr>
      in map_option (\<lambda>d. s\<lparr>s_dev := d\<rparr>) (processReceived c (se_dev env) data (s_dev s)))"

section \<open>What the operations leave alone\<close>

lemma on_simps [simp]:
  "s_dev (on_dev f s) = f (s_dev s)" "s_pow (on_dev f s) = s_pow s" "s_led (on_dev f s) = s_led s"
  "s_acts (on_dev f s) = s_acts s" "s_detect (on_dev f s) = s_detect s" "s_timing (on_dev f s) = s_timing s"
  "s_dev (on_pow g s) = s_dev s" "s_pow (on_pow g s) = g (s_pow s)" "s_led (on_pow g s) = s_led s"
  "s_acts (on_pow g s) = s_acts s" "s_detect (on_pow g s) = s_detect s" "s_timing (on_pow g s) = s_timing s"
  "s_dev (on_led k s) = s_dev s" "s_pow (on_led k s) = s_pow s" "s_led (on_led k s) = k (s_led s)"
  "s_acts (on_led k s) = s_acts s" "s_detect (on_led k s) = s_detect s" "s_timing (on_led k s) = s_timing s"
  "s_dev (act as s) = s_dev s" "s_pow (act as s) = s_pow s" "s_led (act as s) = s_led s"
  "s_acts (act as s) = s_acts s @ as" "s_detect (act as s) = s_detect s" "s_timing (act as s) = s_timing s"
  by (simp_all add: on_dev_def on_pow_def on_led_def act_def)

lemma sys_ms_simps [simp]:
  "snd (sys_ms env s) = on_dev tick s" "fst (sys_ms env s) = e_ms (se_dev env) (d_tick (s_dev s))"
  by (simp_all add: sys_ms_def)

text \<open>The links and flags of the power manager that are set once.\<close>

definition links :: "'f power \<Rightarrow> bool list" where
  "links p = [w_bleManager p, w_historyService p, w_protocolHandler p, w_otaManager p, w_initialized p,
     w_onBeforeSleep p]"

text \<open>The parts of the system that only the services change.\<close>

definition unchanged :: "('n, 'u, 'f) system \<Rightarrow> ('n, 'u, 'f) system \<Rightarrow> bool" where
  "unchanged s' s \<longleftrightarrow> services (s_dev s') = services (s_dev s) \<and> d_proto (s_dev s') = d_proto (s_dev s) \<and>
     d_out (s_dev s') = d_out (s_dev s) \<and> d_bonds (s_dev s') = d_bonds (s_dev s) \<and> s_acts s' = s_acts s \<and>
     s_detect s' = s_detect s \<and> s_timing s' = s_timing s \<and> links (s_pow s') = links (s_pow s) \<and>
     l_initialized (s_led s') = l_initialized (s_led s)"

lemma unchanged_refl [simp]: "unchanged s s"
  by (simp add: unchanged_def)

lemma unchanged_trans: "unchanged s2 s1 \<Longrightarrow> unchanged s1 s \<Longrightarrow> unchanged s2 s"
  by (simp add: unchanged_def)

lemma unchanged_tick [simp]: "unchanged (on_dev tick s) s' \<longleftrightarrow> unchanged s s'"
  by (simp add: unchanged_def tick_def services_def)

lemma unchanged_pow: "links (g (s_pow s)) = links (s_pow s) \<Longrightarrow> unchanged (on_pow g s) s' \<longleftrightarrow> unchanged s s'"
  by (auto simp: unchanged_def)

lemma links_simps [simp]:
  "links (p\<lparr>w_state := st\<rparr>) = links p" "links (p\<lparr>w_previous := st\<rparr>) = links p"
  "links (p\<lparr>w_stateEntry := t\<rparr>) = links p" "links (p\<lparr>w_deferred := b\<rparr>) = links p"
  "links (p\<lparr>w_party := b\<rparr>) = links p" "links (p\<lparr>w_consecutive := k\<rparr>) = links p"
  "links (p\<lparr>w_lastActivity := t\<rparr>) = links p" "links (p\<lparr>w_cancelCount := k\<rparr>) = links p"
  "links (p\<lparr>w_wokeFromSensor := b\<rparr>) = links p" "links (p\<lparr>w_sleepPrepStart := t\<rparr>) = links p"
  "links (p\<lparr>w_lastCancel := t\<rparr>) = links p" "links (p\<lparr>w_battery := b'\<rparr>) = links p"
  "links (resetRollingProxAverage pc p) = links p" "links (count_hit t p) = links p"
  by (simp_all add: links_def resetRollingProxAverage_def count_hit_def Let_def)

lemma led_calls_simps [simp]:
  "s_pow (led_color env c s) = s_pow s" "s_pow (led_pattern env c pat s) = s_pow s" "s_pow (led_tick pc env s) = s_pow s"
  "unchanged (led_color env c s) s' \<longleftrightarrow> unchanged s s'" "unchanged (led_pattern env c pat s) s' \<longleftrightarrow> unchanged s s'"
  "unchanged (led_tick pc env s) s' \<longleftrightarrow> unchanged s s'"
  by (simp_all add: led_color_def led_pattern_def led_tick_def Let_def split_def unchanged_def
      setColor_def setPattern_def writeColor_def led_show_def led_update_def blink_to_def
      split: blink_pattern.split)

lemma count_hit_state [simp]: "w_state (count_hit t p) = w_state p"
  by (simp add: count_hit_def Let_def)

lemma resetRolling_state [simp]: "w_state (resetRollingProxAverage pc p) = w_state p"
  by (simp add: resetRollingProxAverage_def)

lemma transitionTo_state [simp]: "w_state (s_pow (transitionTo pc env st s)) = st"
  by (simp add: transitionTo_def Let_def split_def split: power_state.split)

lemma transitionTo_unchanged [simp]: "unchanged (transitionTo pc env st s) s"
  by (simp add: transitionTo_def Let_def split_def unchanged_pow split: power_state.split)

lemma requestSleep_simps [simp]:
  "w_state (s_pow (requestSleep pc env s)) = SLEEP_PREP" "unchanged (requestSleep pc env s) s"
  by (simp_all add: requestSleep_def)

lemma unchangedD:
  assumes "unchanged s' s"
  shows "d_ble (s_dev s') = d_ble (s_dev s)" "d_hist (s_dev s') = d_hist (s_dev s)"
    "d_cfg (s_dev s') = d_cfg (s_dev s)" "d_ota (s_dev s') = d_ota (s_dev s)"
    "d_nvs (s_dev s') = d_nvs (s_dev s)" "d_upd (s_dev s') = d_upd (s_dev s)"
    "d_calls (s_dev s') = d_calls (s_dev s)" "d_proto (s_dev s') = d_proto (s_dev s)"
    "d_out (s_dev s') = d_out (s_dev s)" "d_bonds (s_dev s') = d_bonds (s_dev s)" "s_acts s' = s_acts s"
    "s_detect s' = s_detect s" "s_timing s' = s_timing s"
    "w_bleManager (s_pow s') = w_bleManager (s_pow s)" "w_historyService (s_pow s') = w_historyService (s_pow s)"
    "w_protocolHandler (s_pow s') = w_protocolHandler (s_pow s)" "w_otaManager (s_pow s') = w_otaManager (s_pow s)"
    "w_initialized (s_pow s') = w_initialized (s_pow s)" "w_onBeforeSleep (s_pow s') = w_onBeforeSleep (s_pow s)"
    "l_initialized (s_led s') = l_initialized (s_led s)"
  using assms services_eqD [of "s_dev s'" "s_dev s"] by (simp_all add: unchanged_def links_def)

lemmas transitionTo_keeps [simp] = unchangedD [OF transitionTo_unchanged]
lemmas requestSleep_keeps [simp] = unchangedD [OF requestSleep_simps(2)]

lemma power_battery_unchanged [simp]: "unchanged (power_battery pc env s) s"
  by (simp add: power_battery_def Let_def unchanged_pow) (simp add: unchanged_def tick_def services_def)

lemma power_battery_state [simp]:
  "w_state (s_pow (power_battery pc env s)) = w_state (s_pow s)"
  "w_lastActivity (s_pow (power_battery pc env s)) = w_lastActivity (s_pow s)"
  by (simp_all add: power_battery_def Let_def)

lemmas power_battery_keeps [simp] = unchangedD [OF power_battery_unchanged]

lemma cancelSleep_unchanged [simp]: "unchanged (cancelSleep pc env s) s"
  by (simp add: cancelSleep_def Let_def split_def)
    (auto intro!: unchanged_trans [OF transitionTo_unchanged] simp: unchanged_pow)

end
