(* ===== verification/Fw_Sleep.thy ===== *)
theory Fw_Sleep
  imports Fw_Power Fw_HistoryRun
begin

text \<open>
  The descent into deep sleep: \<open>canSafelyEnterSleep\<close>, \<open>enterDeepSleep\<close> and \<open>update\<close> of
  \<open>PowerManager\<close> (\<open>src/src/Services/PowerManager.cpp\<close>) on the whole system. \<open>enterDeepSleep\<close> shuts
  the services down in the order of the code and then either puts the chip to
  sleep or returns, because the sensor is still triggered; the outcome says which. No result stands
  for a scan of the log that never ends.
\<close>

datatype sleep_outcome = Slept | Aborted_proximity | Aborted_interrupt

definition sys_flush :: "('n, 'f) power_cfg \<Rightarrow> bool \<Rightarrow> ('n, 'u, 'f) system \<Rightarrow> flush_env" where
  "sys_flush pc lock s =
     \<lparr>fe_batteryCritical = isBatteryCritical (pc_battery pc) (w_battery (s_pow s)),
      fe_charging = y_charging (w_battery (s_pow s)),
      fe_pairing = b_pairingModeEnabled (d_ble (s_dev s)), fe_lock = lock\<rparr>"

definition sys_lock :: "sys_env \<Rightarrow> ('n, 'u, 'f) system \<Rightarrow> bool \<times> ('n, 'u, 'f) system" where
  "sys_lock env s = (e_lock (se_dev env) (d_tick (s_dev s)), on_dev tick s)"

text \<open>The log is asked for unsynced events for a log message; the answer does not matter.\<close>

definition canSafelyEnterSleep ::
  "('n, 'u) dev_cfg \<Rightarrow> sys_env \<Rightarrow> ('n, 'u, 'f) system \<Rightarrow> (bool \<times> ('n, 'u, 'f) system) option" where
  "canSafelyEnterSleep c env s =
     (let blockReasons = 0 :: u8;
          blockReasons = (if w_protocolHandler (s_pow s) \<and> getPendingCount_p (d_proto (s_dev s)) > 0
            then blockReasons OR 0x01 else blockReasons);
          blockReasons = (if w_otaManager (s_pow s) \<and> o_state (d_ota (s_dev s)) = OTA_RECEIVING
            then blockReasons OR 0x02 else blockReasons)
      in if w_historyService (s_pow s) then
           (let (lock, s) = sys_lock env s
            in case hasPendingData (v_hist c) lock (d_hist (s_dev s)) of
                 None \<Rightarrow> None
               | Some _ \<Rightarrow> Some (blockReasons = 0, s))
         else Some (blockReasons = 0, s))"

section \<open>Shutting the services down\<close>

definition sleep_config :: "('n, 'f) power_cfg \<Rightarrow> sys_env \<Rightarrow> ('n, 'u, 'f) system \<Rightarrow> ('n, 'u, 'f) system" where
  "sleep_config pc env s =
     (if isDirty (d_cfg (s_dev s)) then
        (let (lock, s) = sys_lock env s;
             (_, cfg, n) = config_forceFlush (pc_nvs pc) lock (d_cfg (s_dev s)) (d_nvs (s_dev s))
         in on_dev (\<lambda>d. d\<lparr>d_cfg := cfg, d_nvs := n\<rparr>) s)
      else s)"

definition sleep_worker ::
  "('n, 'u) dev_cfg \<Rightarrow> ('n, 'f) power_cfg \<Rightarrow> sys_env \<Rightarrow> ('n, 'u, 'f) system \<Rightarrow> ('n, 'u, 'f) system" where
  "sleep_worker c pc env s =
     (if w_historyService (s_pow s) then
        (let (lock, s) = sys_lock env s;
             (h, n) = stopStorageWorker (v_hist c) (v_prefs c) (se_junk env) (sys_flush pc lock s)
               (d_hist (s_dev s)) (d_nvs (s_dev s))
         in on_dev (\<lambda>d. d\<lparr>d_hist := h, d_nvs := n\<rparr>) s)
      else s)"

definition sleep_history ::
  "('n, 'u) dev_cfg \<Rightarrow> ('n, 'f) power_cfg \<Rightarrow> sys_env \<Rightarrow> ('n, 'u, 'f) system \<Rightarrow> ('n, 'u, 'f) system option" where
  "sleep_history c pc env s =
     (if w_historyService (s_pow s) then
        (let (lock, s) = sys_lock env s
         in case hasPendingData (v_hist c) lock (d_hist (s_dev s)) of
              None \<Rightarrow> None
            | Some False \<Rightarrow> Some s
            | Some True \<Rightarrow>
                (let (lock, s) = sys_lock env s;
                     (h, n) = forceNvsSync (v_prefs c) (sys_flush pc lock s) (d_hist (s_dev s)) (d_nvs (s_dev s))
                 in Some (on_dev (\<lambda>d. d\<lparr>d_hist := h, d_nvs := n\<rparr>) s)))
      else Some s)"

text \<open>While the code waits for the disconnection, the stack may report it.\<close>

definition sleep_ble ::
  "('n, 'u) dev_cfg \<Rightarrow> ('n, 'f) power_cfg \<Rightarrow> sys_env \<Rightarrow> ('n, 'u, 'f) system \<Rightarrow> ('n, 'u, 'f) system" where
  "sleep_ble c pc env s =
     (if w_bleManager (s_pow s) then
        (let s = (if b_deviceConnected (d_ble (s_dev s)) then
                    (let s = on_dev (\<lambda>d. emit (ble_disconnect 1 (d_ble d)) d) s
                     in case se_linkLost env of
                          None \<Rightarrow> s
                        | Some (desc, reason) \<Rightarrow>
                            (let (b, outs) = onDisconnectInternal desc reason (d_ble (s_dev s));
                                 s = on_dev (\<lambda>d. emit outs (d\<lparr>d_ble := b\<rparr>)) s
                             in if b_eventHandler b then onBLEDisconnect c pc env s else s))
                  else s)
         in on_dev (\<lambda>d. emit (stopAdvertising (d_ble d)) d) s)
      else s)"

definition sleep_wakeups :: "('n, 'f) power_cfg \<Rightarrow> sys_env \<Rightarrow> ('n, 'u, 'f) system \<Rightarrow> ('n, 'u, 'f) system" where
  "sleep_wakeups pc env s =
     (let s = act [SA_sensorForSleep, SA_wakeSources] s
      in if se_sensorReady env then act [SA_wakeTimer (FAILSAFE_WAKE_INTERVAL_US pc)] s
         else
           let s = act [SA_wakeTimer (EMERGENCY_WAKE_INTERVAL_US pc)] s;
               blink = led_color env (COLOR_OFF pc) \<circ> led_color env (COLOR_ERROR pc)
           in on_led prepareForSleep (blink (blink (blink s))))"

definition deepSleepThreshold :: "('n, 'f) power_cfg \<Rightarrow> u16" where
  "deepSleepThreshold pc =
     (let t = 0 :: u16
      in if t < MIN_DEEP_SLEEP_THRESHOLD pc then MIN_DEEP_SLEEP_THRESHOLD pc
         else if t > MAX_DEEP_SLEEP_THRESHOLD pc then MAX_DEEP_SLEEP_THRESHOLD pc else t)"

text \<open>The last checks, after which the chip sleeps or the sleep is given up.\<close>

definition sleep_abort ::
  "('n, 'f) power_cfg \<Rightarrow> sys_env \<Rightarrow> power_state \<Rightarrow> ('n, 'u, 'f) system \<Rightarrow> ('n, 'u, 'f) system" where
  "sleep_abort pc env state s =
     (let s = act [SA_noWakeTimer] s;
          s = transitionTo pc env state s;
          (t, s) = sys_ms env s
      in on_pow (\<lambda>p. p\<lparr>w_lastActivity := t\<rparr>) s)"

definition sleep_decide ::
  "('n, 'f) power_cfg \<Rightarrow> sys_env \<Rightarrow> ('n, 'u, 'f) system \<Rightarrow> sleep_outcome \<times> ('n, 'u, 'f) system" where
  "sleep_decide pc env s =
     (if \<not> se_proxBelow env (deepSleepThreshold pc)
      then (Aborted_proximity, sleep_abort pc env WAKE_MODE s)
      else if se_intLow env then (Aborted_interrupt, sleep_abort pc env DETECTION_ACTIVE s)
      else (Slept, act [SA_deepSleep] s))"

definition sleep_notify :: "sys_env \<Rightarrow> ('n, 'u, 'f) system \<Rightarrow> ('n, 'u, 'f) system" where
  "sleep_notify env s =
     (let s = (if w_bleManager (s_pow s)
               then on_dev (\<lambda>d. d\<lparr>d_ble := incrementGhostBondCounter (d_bonds d) (d_ble d)\<rparr>) s else s);
          s = (if w_onBeforeSleep (s_pow s) then act [SA_stopML] s else s)
      in if w_protocolHandler (s_pow s) \<and> w_bleManager (s_pow s) \<and> b_deviceConnected (d_ble (s_dev s))
         then on_dev (snd \<circ> sendSleepNotification (se_dev env)) s else s)"

definition enterDeepSleep ::
  "('n, 'u) dev_cfg \<Rightarrow> ('n, 'f) power_cfg \<Rightarrow> sys_env \<Rightarrow> ('n, 'u, 'f) system \<Rightarrow>
   (sleep_outcome \<times> ('n, 'u, 'f) system) option" where
  "enterDeepSleep c pc env s =
     (let s = sleep_notify env s;
          s = sleep_config pc env s;
          s = sleep_worker c pc env s
      in case sleep_history c pc env s of
           None \<Rightarrow> None
         | Some s \<Rightarrow>
             (let s = sleep_ble c pc env s;
                  s = on_led prepareForSleep (led_pattern env (COLOR_SLEEP_PREP pc) FAST_BLINK s);
                  s = sleep_wakeups pc env s;
                  s = power_battery pc env s
              in Some (sleep_decide pc env s)))"

section \<open>The poll of the main loop\<close>

definition wake_mode_led :: "('n, 'f) power_cfg \<Rightarrow> sys_env \<Rightarrow> ('n, 'u, 'f) system \<Rightarrow> ('n, 'u, 'f) system" where
  "wake_mode_led pc env s =
     (let advertising = (w_bleManager (s_pow s) \<and> se_advertising env (d_tick (s_dev s)));
          pairingMode = (w_bleManager (s_pow s) \<and> b_pairingModeEnabled (d_ble (s_dev s)));
          pattern = l_pattern (s_led s);
          color = l_color (s_led s);
          s = (if advertising \<and> pairingMode then
                 (if pattern \<noteq> SLOW_BLINK \<or> color \<noteq> COLOR_PAIRING pc
                  then led_pattern env (COLOR_PAIRING pc) SLOW_BLINK s else s)
               else
                 (if pattern \<noteq> SOLID \<or> color \<noteq> COLOR_PAIRING pc
                  then led_color env (COLOR_PAIRING pc) s else s))
      in led_tick pc env s)"

definition sleep_prep_step ::
  "('n, 'u) dev_cfg \<Rightarrow> ('n, 'f) power_cfg \<Rightarrow> sys_env \<Rightarrow> ('n, 'u, 'f) system \<Rightarrow>
   (sleep_outcome option \<times> ('n, 'u, 'f) system) option" where
  "sleep_prep_step c pc env s =
     (let s = led_tick pc env s;
          (t1, s) = sys_ms env s;
          sleepPrepElapsed = (getSleepPrepRemaining pc t1 (s_pow s) = 0);
          (t2, s) = sys_ms env s;
          forcesSleepReady = shouldForceSleep pc t2 (b_deviceConnected (d_ble (s_dev s))) (s_pow s)
      in if sleepPrepElapsed \<or> forcesSleepReady then
           (case canSafelyEnterSleep c env s of
              None \<Rightarrow> None
            | Some (canSleepNow, s) \<Rightarrow>
                if canSleepNow \<or> forcesSleepReady then
                  map_option (\<lambda>(out, s). (Some out, s))
                    (enterDeepSleep c pc env (transitionTo pc env DEEP_SLEEP s))
                else
                  let (t3, s) = sys_ms env s
                  in Some (None, on_pow (\<lambda>p. p\<lparr>w_deferred := True, w_sleepPrepStart := t3\<rparr>) s))
         else Some (None, s))"

definition battery_poll :: "('n, 'f) power_cfg \<Rightarrow> sys_env \<Rightarrow> u32 \<Rightarrow> ('n, 'u, 'f) system \<Rightarrow> ('n, 'u, 'f) system" where
  "battery_poll pc env now s =
     (if now - y_lastCheck (w_battery (s_pow s)) \<ge> BATTERY_CHECK_INTERVAL_MS pc
      then power_battery pc env s else s)"

definition power_update ::
  "('n, 'u) dev_cfg \<Rightarrow> ('n, 'f) power_cfg \<Rightarrow> sys_env \<Rightarrow> ('n, 'u, 'f) system \<Rightarrow>
   (sleep_outcome option \<times> ('n, 'u, 'f) system) option" where
  "power_update c pc env s =
     (if \<not> w_initialized (s_pow s) then Some (None, s)
      else
        let (now, s) = sys_ms env s;
            s = battery_poll pc env now s
        in case w_state (s_pow s) of
             WAKE_MODE \<Rightarrow> Some (None, checkIdleTimeout pc env (wake_mode_led pc env s))
           | ACTIVE \<Rightarrow>
               Some (None,
                 if w_otaManager (s_pow s) \<and> o_state (d_ota (s_dev s)) = OTA_RECEIVING
                 then on_pow (\<lambda>p. p\<lparr>w_lastActivity := now\<rparr>) s
                 else if w_historyService (s_pow s) \<and> h_flushPending (d_hist (s_dev s))
                 then on_pow (\<lambda>p. p\<lparr>w_lastActivity := now\<rparr>) s
                 else if w_lastActivity (s_pow s) > 0 then
                   (let idleTime = now - w_lastActivity (s_pow s)
                    in if idleTime \<ge> CONNECTED_IDLE_TIMEOUT_MS pc then requestSleep pc env s else s)
                 else s)
           | SLEEP_PREP \<Rightarrow> sleep_prep_step c pc env s
           | _ \<Rightarrow> Some (None, s))"

section \<open>The battery check changes nothing else\<close>

lemma battery_poll_simps [simp]:
  "unchanged (battery_poll pc env now s) s' \<longleftrightarrow> unchanged s s'"
  "w_state (s_pow (battery_poll pc env now s)) = w_state (s_pow s)"
  "w_stateEntry (s_pow (battery_poll pc env now s)) = w_stateEntry (s_pow s)"
  "w_sleepPrepStart (s_pow (battery_poll pc env now s)) = w_sleepPrepStart (s_pow s)"
  "w_cancelCount (s_pow (battery_poll pc env now s)) = w_cancelCount (s_pow s)"
  "w_wokeFromSensor (s_pow (battery_poll pc env now s)) = w_wokeFromSensor (s_pow s)"
  "w_lastCancel (s_pow (battery_poll pc env now s)) = w_lastCancel (s_pow s)"
  "w_lastActivity (s_pow (battery_poll pc env now s)) = w_lastActivity (s_pow s)"
  by (simp_all add: battery_poll_def)
    (use power_battery_unchanged [of pc env s] in \<open>auto simp: unchanged_def power_battery_def Let_def\<close>)

lemmas battery_poll_keeps [simp] = unchangedD [OF battery_poll_simps(1) [THEN iffD2, OF unchanged_refl]]

section \<open>When the chip is put to sleep\<close>

lemma sleep_prep_step_enters:
  assumes "sleep_prep_step c pc env s = Some (Some out, s')"
  shows "((w_protocolHandler (s_pow s) \<longrightarrow> getPendingCount_p (d_proto (s_dev s)) = 0) \<and>
      (w_otaManager (s_pow s) \<longrightarrow> o_state (d_ota (s_dev s)) \<noteq> OTA_RECEIVING)) \<or>
    (\<exists>k. shouldForceSleep pc (e_ms (se_dev env) k) (b_deviceConnected (d_ble (s_dev s))) (s_pow s))"
proof -
  let ?s = "led_tick pc env s"
  have u: "unchanged ?s s" "s_pow ?s = s_pow s" by simp_all
  note d = unchangedD [OF u(1)]
  show ?thesis
    using assms d
    by (auto simp: sleep_prep_step_def Let_def split_def canSafelyEnterSleep_def sys_lock_def u(2)
        split: if_splits option.splits)
qed


section \<open>A sleep that is given up\<close>

text \<open>The worker of the storage queue is gone; with a request pending nothing clears the request.\<close>

definition worker_gone :: "history \<Rightarrow> bool" where
  "worker_gone h \<longleftrightarrow> \<not> h_workerRunning h \<and> \<not> h_storageTask h"

lemma flushToNvs_worker [simp]:
  "h_workerRunning (fst (snd (flushToNvs api env h n))) = h_workerRunning h"
  "h_storageTask (fst (snd (flushToNvs api env h n))) = h_storageTask h"
  "h_flushPending (fst (snd (flushToNvs api env h n))) = h_flushPending h"
  by (simp_all add: flushToNvs_def Let_def split_def)

lemma queue_worker [simp]:
  "h_workerRunning (snd (queueStorageCommand cmd i q h)) = h_workerRunning h"
  "h_storageTask (snd (queueStorageCommand cmd i q h)) = h_storageTask h"
  "h_flushPending (snd (queueStorageCommand cmd i q h)) = h_flushPending h"
  "h_workerRunning (queueFlush i q h) = h_workerRunning h"
  "h_storageTask (queueFlush i q h) = h_storageTask h"
  by (simp_all add: queueStorageCommand_def queueFlush_def Let_def split_def split: option.split)

lemma hist_step_gone:
  assumes "hist_step c api x y" "worker_gone (fst x)"
  shows "worker_gone (fst y) \<and> (h_flushPending (fst x) \<longrightarrow> h_flushPending (fst y))"
  using assms
proof (induction rule: hist_step.induct)
  case (S_log h dur env i ep h' n)
  then show ?case
    by (auto simp: worker_gone_def logDetection_def Let_def split: if_splits option.splits)
next
  case (S_mark i lock h b h' n)
  then show ?case by (auto simp: worker_gone_def markAsSynced_def split: if_splits)
next
  case (S_marks ids lock h k h' n)
  then show ?case
    by (auto simp: worker_gone_def markMultipleAsSynced_def Let_def split: if_splits option.splits)
next
  case (S_time epoch tenv h tv h' n)
  then show ?case by (auto simp: worker_gone_def applyTimeSync_def Let_def split: if_splits option.splits)
qed (auto simp: worker_gone_def setBleConnected_def fastForwardEventId_def forceNvsSync_def
    storageWorker_step_def stopStorageWorker_def clear_def Let_def split_def split: if_splits)

lemma hist_run_gone:
  assumes "(hist_step c api)\<^sup>*\<^sup>* x y" "worker_gone (fst x)"
  shows "worker_gone (fst y) \<and> (h_flushPending (fst x) \<longrightarrow> h_flushPending (fst y))"
  using assms by (induction rule: rtranclp_induct) (auto dest: hist_step_gone)

definition led_dark :: "led \<Rightarrow> bool" where
  "led_dark l \<longleftrightarrow> l_initialized l \<and> l_hold l \<and> l_visible l = 0"

lemma led_dark_calls [simp]:
  "led_dark l \<Longrightarrow> led_dark (setColor t c l)" "led_dark l \<Longrightarrow> led_dark (setPattern t c p l)"
  "l_initialized l \<Longrightarrow> led_dark (prepareForSleep l)"
  using led_react_held [of l _ "LO_color t c"] led_react_held [of l _ "LO_pattern t c p"]
  by (simp_all add: led_dark_def) (simp add: prepareForSleep_def led_show_def Let_def)

lemma led_dark_again [simp]: "led_dark l \<Longrightarrow> led_dark (prepareForSleep l)"
  by (simp add: led_dark_def prepareForSleep_def led_show_def Let_def)

lemma led_dark_sys [simp]:
  "led_dark (s_led s) \<Longrightarrow> led_dark (s_led (led_color env c s))"
  "led_dark (s_led s) \<Longrightarrow> led_dark (s_led (led_pattern env c p s))"
  by (simp_all add: led_color_def led_pattern_def Let_def split_def)

lemma transitionTo_dark [simp]: "led_dark (s_led s) \<Longrightarrow> led_dark (s_led (transitionTo pc env st s))"
  by (simp add: transitionTo_def Let_def split_def split: power_state.split)

lemma sleep_notify_keeps [simp]:
  "s_pow (sleep_notify env s) = s_pow s" "s_led (sleep_notify env s) = s_led s"
  "d_hist (s_dev (sleep_notify env s)) = d_hist (s_dev s)" "d_cfg (s_dev (sleep_notify env s)) = d_cfg (s_dev s)"
  "d_nvs (s_dev (sleep_notify env s)) = d_nvs (s_dev s)"
  "b_initialized (d_ble (s_dev (sleep_notify env s))) = b_initialized (d_ble (s_dev s))"
  "b_pairingModeEnabled (d_ble (s_dev (sleep_notify env s))) = b_pairingModeEnabled (d_ble (s_dev s))"
  by (simp_all add: sleep_notify_def Let_def sendSleepNotification_def
      services_eqD [OF sendMessage_services] incrementGhostBondCounter_def)

lemma sleep_config_keeps [simp]:
  "s_pow (sleep_config pc env s) = s_pow s" "s_led (sleep_config pc env s) = s_led s"
  "d_hist (s_dev (sleep_config pc env s)) = d_hist (s_dev s)" "d_ble (s_dev (sleep_config pc env s)) = d_ble (s_dev s)"
  by (simp_all add: sleep_config_def sys_lock_def Let_def split_def)

lemma sleep_worker_keeps [simp]:
  "s_pow (sleep_worker c pc env s) = s_pow s" "s_led (sleep_worker c pc env s) = s_led s"
  "d_cfg (s_dev (sleep_worker c pc env s)) = d_cfg (s_dev s)" "d_ble (s_dev (sleep_worker c pc env s)) = d_ble (s_dev s)"
  by (simp_all add: sleep_worker_def sys_lock_def Let_def split_def)

lemma sleep_history_keeps:
  assumes "sleep_history c pc env s = Some s'"
  shows "s_pow s' = s_pow s" "s_led s' = s_led s" "d_cfg (s_dev s') = d_cfg (s_dev s)" "d_ble (s_dev s') = d_ble (s_dev s)"
    "worker_gone (d_hist (s_dev s)) \<Longrightarrow> worker_gone (d_hist (s_dev s'))"
    "h_state (d_hist (s_dev s')) = h_state (d_hist (s_dev s))"
  using assms
  by (auto simp: sleep_history_def sys_lock_def Let_def split_def forceNvsSync_def worker_gone_def
      split: if_splits option.splits bool.splits)

lemma setBleConnected_worker [simp]:
  "h_workerRunning (setBleConnected c b t q h) = h_workerRunning h"
  "h_storageTask (setBleConnected c b t q h) = h_storageTask h"
  "h_state (setBleConnected c b t q h) = h_state h"
  by (simp_all add: setBleConnected_def queueFlush_def queueStorageCommand_def Let_def split_def split: option.split)

lemma transitionTo_links [simp]: "links (s_pow (transitionTo pc env st s)) = links (s_pow s)"
  using transitionTo_unchanged [of pc env st s] by (simp add: unchanged_def)

lemma transitionTo_battery [simp]: "w_battery (s_pow (transitionTo pc env st s)) = w_battery (s_pow s)"
  by (simp add: transitionTo_def Let_def split_def resetRollingProxAverage_def count_hit_def
      split: power_state.split)

lemma onBLEDisconnect_keeps [simp]:
  "links (s_pow (onBLEDisconnect c pc env s)) = links (s_pow s)"
  "l_initialized (s_led (onBLEDisconnect c pc env s)) = l_initialized (s_led s)"
  "d_cfg (s_dev (onBLEDisconnect c pc env s)) = d_cfg (s_dev s)"
  "d_nvs (s_dev (onBLEDisconnect c pc env s)) = d_nvs (s_dev s)"
  "d_ble (s_dev (onBLEDisconnect c pc env s)) = d_ble (s_dev s)"
  "h_state (d_hist (s_dev (onBLEDisconnect c pc env s))) = h_state (d_hist (s_dev s))"
  "worker_gone (d_hist (s_dev s)) \<Longrightarrow> worker_gone (d_hist (s_dev (onBLEDisconnect c pc env s)))"
  "w_battery (s_pow (onBLEDisconnect c pc env s)) = w_battery (s_pow s)"
  by (simp_all add: onBLEDisconnect_def Let_def split_def clearAllPending_def worker_gone_def)

lemma sleep_ble_keeps [simp]:
  "links (s_pow (sleep_ble c pc env s)) = links (s_pow s)"
  "l_initialized (s_led (sleep_ble c pc env s)) = l_initialized (s_led s)"
  "d_cfg (s_dev (sleep_ble c pc env s)) = d_cfg (s_dev s)"
  "d_nvs (s_dev (sleep_ble c pc env s)) = d_nvs (s_dev s)"
  "h_state (d_hist (s_dev (sleep_ble c pc env s))) = h_state (d_hist (s_dev s))"
  "worker_gone (d_hist (s_dev s)) \<Longrightarrow> worker_gone (d_hist (s_dev (sleep_ble c pc env s)))"
  by (simp_all add: sleep_ble_def Let_def split_def split: option.split)

lemma sleep_ble_quiet:
  assumes "w_bleManager (s_pow s)" "b_initialized (d_ble (s_dev s))"
  shows "\<exists>outs. d_out (s_dev (sleep_ble c pc env s)) = outs @ [ST_adv_stop]"
  using assms
  by (simp add: sleep_ble_def Let_def split_def stopAdvertising_def onDisconnectInternal_def
      split: option.split)

lemma processAll_worker [simp]: "h_workerRunning (fst (processAll c api junk fenv q h n)) = h_workerRunning h"
  by (induction q arbitrary: h n)
    (simp_all add: processStorageCommand_def restoreFromNvs_def Let_def split_def split: storage_cmd.split)

lemma worker_gone_stop: "worker_gone (fst (stopStorageWorker c api junk fenv h n))"
  by (auto simp: worker_gone_def stopStorageWorker_def Let_def split_def split: option.split)

text \<open>What remains after the services have been shut down, whatever the outcome.\<close>

lemma enterDeepSleep_shutdown:
  assumes e: "enterDeepSleep c pc env s = Some (out, s')"
    and l: "w_historyService (s_pow s)" "w_bleManager (s_pow s)" "b_initialized (d_ble (s_dev s))"
      "l_initialized (s_led s)"
  obtains s1 s2 where "sleep_history c pc env (sleep_worker c pc env (sleep_config pc env (sleep_notify env s))) = Some s1"
    "sleep_decide pc env s2 = (out, s')" "services (s_dev s2) = services (s_dev (sleep_ble c pc env s1))"
    "worker_gone (d_hist (s_dev s2))" "\<exists>outs. d_out (s_dev s2) = outs @ [ST_adv_stop]" "led_dark (s_led s2)"
    "links (s_pow s2) = links (s_pow s)"
proof -
  let ?s0 = "sleep_worker c pc env (sleep_config pc env (sleep_notify env s))"
  obtain s1 where s1: "sleep_history c pc env ?s0 = Some s1"
    using e by (auto simp: enterDeepSleep_def Let_def split: option.splits)
  note k = sleep_history_keeps [OF s1]
  let ?b = "sleep_ble c pc env s1"
  let ?l = "on_led prepareForSleep (led_pattern env (COLOR_SLEEP_PREP pc) FAST_BLINK ?b)"
  let ?w = "sleep_wakeups pc env ?l"
  let ?s2 = "power_battery pc env ?w"
  have dec: "sleep_decide pc env ?s2 = (out, s')"
    using e s1 by (simp add: enterDeepSleep_def Let_def)
  have li: "l_initialized (s_led s1)" using l(4) k(2) by simp
  have lk: "links (s_pow s1) = links (s_pow s)" using k(1) by simp
  have bm: "w_bleManager (s_pow s1)" "b_initialized (d_ble (s_dev s1))"
    using k(1,4) l(2,3) by simp_all
  have dark: "led_dark (s_led ?l)"
    using li by (simp add: led_pattern_def Let_def split_def)
      (simp add: setPattern_def writeColor_def led_show_def Let_def)
  have dev: "services (s_dev ?w) = services (s_dev ?b)" "d_out (s_dev ?w) = d_out (s_dev ?b)" "s_pow ?w = s_pow ?b"
    by (simp_all add: sleep_wakeups_def led_color_def led_pattern_def Let_def split_def)
  have dark2: "led_dark (s_led ?w)"
    using dark by (simp add: sleep_wakeups_def Let_def)
  have gone: "worker_gone (d_hist (s_dev s1))"
    using k(5) l(1) by (simp add: sleep_worker_def sys_lock_def Let_def split_def worker_gone_stop)
  show thesis
  proof (rule that [OF s1 dec])
    have u: "services (s_dev ?s2) = services (s_dev ?w)" "d_out (s_dev ?s2) = d_out (s_dev ?w)"
      "links (s_pow ?s2) = links (s_pow ?w)"
      using power_battery_unchanged [of pc env ?w] by (simp_all add: unchanged_def)
    then show sv: "services (s_dev ?s2) = services (s_dev ?b)" using dev by simp
    show "worker_gone (d_hist (s_dev ?s2))" using services_eqD(2) [OF sv] gone by simp
    show "\<exists>outs. d_out (s_dev ?s2) = outs @ [ST_adv_stop]"
      using sleep_ble_quiet [OF bm, of c pc env] u dev by simp
    show "led_dark (s_led ?s2)" using dark2 by (simp add: power_battery_def Let_def)
    show "links (s_pow ?s2) = links (s_pow s)" using u dev lk by simp
  qed
qed

text \<open>
  What a sleep that is given up leaves behind. When \<open>enterDeepSleep\<close> returns because the sensor
  is still triggered, the chip has not been put to sleep and the power state is
  \<open>WAKE_MODE\<close> or \<open>DETECTION_ACTIVE\<close> as the code says, but the shutdown is not undone: the storage
  worker is gone, the last thing the stack was told is to stop advertising, and the LED is dark with
  its pin held.
\<close>

theorem aborted_sleep_state:
  assumes "enterDeepSleep c pc env s = Some (out, s')" "out \<noteq> Slept"
    and "w_historyService (s_pow s)" "w_bleManager (s_pow s)" "b_initialized (d_ble (s_dev s))"
    and "l_initialized (s_led s)"
  shows "w_state (s_pow s') = (if out = Aborted_proximity then WAKE_MODE else DETECTION_ACTIVE) \<and>
    (\<exists>acts. s_acts s' = acts @ [SA_noWakeTimer]) \<and> worker_gone (d_hist (s_dev s')) \<and>
    (\<exists>outs. d_out (s_dev s') = outs @ [ST_adv_stop]) \<and> l_hold (s_led s') \<and> l_visible (s_led s') = 0"
proof (rule enterDeepSleep_shutdown [OF assms(1,3-6)])
  fix s1 s2
  assume d: "sleep_decide pc env s2 = (out, s')" "worker_gone (d_hist (s_dev s2))"
    "\<exists>outs. d_out (s_dev s2) = outs @ [ST_adv_stop]" "led_dark (s_led s2)"
  obtain st where s': "s' = sleep_abort pc env st s2" "st = (if out = Aborted_proximity then WAKE_MODE else DETECTION_ACTIVE)"
    using d(1) assms(2) by (auto simp: sleep_decide_def split: if_splits)
  have "led_dark (s_led s')" using d(4) by (simp add: s' sleep_abort_def Let_def split_def)
  moreover have "w_state (s_pow s') = st" "s_acts s' = s_acts s2 @ [SA_noWakeTimer]"
    "d_hist (s_dev s') = d_hist (s_dev s2)" "d_out (s_dev s') = d_out (s_dev s2)"
    by (simp_all add: s'(1) sleep_abort_def Let_def split_def)
  ultimately show ?thesis using d(2,3) s'(2) by (simp add: led_dark_def)
qed

section \<open>After a sleep that was given up\<close>

text \<open>A poll in \<open>ACTIVE\<close> with a flush pending restarts the idle timer and stays.\<close>

lemma update_active_flushing:
  assumes "w_initialized (s_pow s)" "w_state (s_pow s) = ACTIVE" "w_historyService (s_pow s)"
    "h_flushPending (d_hist (s_dev s))"
  obtains s' where "power_update c pc env s = Some (None, s')" "w_state (s_pow s') = ACTIVE"
    "w_lastActivity (s_pow s') = e_ms (se_dev env) (d_tick (s_dev s))" "d_hist (s_dev s') = d_hist (s_dev s)"
proof -
  let ?t = "e_ms (se_dev env) (d_tick (s_dev s))"
  let ?s' = "on_pow (\<lambda>p. p\<lparr>w_lastActivity := ?t\<rparr>) (battery_poll pc env ?t (on_dev tick s))"
  have "power_update c pc env s = Some (None, ?s')"
    using assms by (simp add: power_update_def Let_def split_def)
  then show thesis using assms by (intro that [of ?s']) simp_all
qed


section \<open>An idle device goes to sleep\<close>

lemma hasPendingData_valid:
  "h_valid c h \<Longrightarrow> hasPendingData c lock h = Some (lock \<and> (\<exists>e\<in>set (h_stored c h). \<not> isSynced e))"
  using h_validD [of c h] by (simp add: hasPendingData_def h_ready_def scan_any_stored)

lemma sleep_history_valid:
  "h_valid (v_hist c) (d_hist (s_dev s)) \<Longrightarrow> \<exists>s'. sleep_history c pc env s = Some s'"
  by (simp add: sleep_history_def sys_lock_def Let_def split_def hasPendingData_valid split: bool.split)

text \<open>A shutdown over a valid log always completes.\<close>

lemma enterDeepSleep_total:
  assumes "hist_inv (v_hist c) (d_hist (s_dev s))"
  shows "\<exists>out s'. enterDeepSleep c pc env s = Some (out, s') \<and>
    (out = Slept \<longleftrightarrow> se_proxBelow env (deepSleepThreshold pc) \<and> \<not> se_intLow env)"
proof -
  let ?s0 = "sleep_worker c pc env (sleep_config pc env (sleep_notify env s))"
  have "hist_inv (v_hist c) (d_hist (s_dev ?s0))"
    using assms inv_stop [OF assms, where api = "v_prefs c"] by (simp add: sleep_worker_def sys_lock_def Let_def split_def)
  then have v: "h_valid (v_hist c) (d_hist (s_dev ?s0))" by (simp add: hist_inv_def)
  obtain s1 where s1: "sleep_history c pc env ?s0 = Some s1"
    using sleep_history_valid [OF v] by blast
  show ?thesis
    by (simp add: enterDeepSleep_def Let_def s1 sleep_decide_def)
qed

definition idle_timeout :: "('n, 'f) power_cfg \<Rightarrow> ('n, 'u, 'f) system \<Rightarrow> u32" where
  "idle_timeout pc s =
     (if w_wokeFromSensor (s_pow s)
      then (if w_bleManager (s_pow s) \<and> d_bonds (s_dev s) > 0 then SENSOR_WAKE_BONDED_TIMEOUT_MS pc
            else SENSOR_WAKE_QUICK_SLEEP_TIMEOUT_MS pc)
      else DISCONNECTED_SLEEP_TIMEOUT_MS pc)"

lemma checkIdleTimeout_timeout:
  "checkIdleTimeout pc env s =
     (if w_state (s_pow s) \<noteq> WAKE_MODE then s
      else if w_bleManager (s_pow s) \<and> b_deviceConnected (d_ble (s_dev s)) then s
      else
        let now = e_ms (se_dev env) (d_tick (s_dev s))
        in if now - w_lastCancel (s_pow s) < SLEEP_REREQUEST_DEBOUNCE_MS pc then on_dev tick s
           else if now - w_lastActivity (s_pow s) \<ge> idle_timeout pc s
           then requestSleep pc env (on_dev tick s) else on_dev tick s)"
  by (simp add: checkIdleTimeout_def idle_timeout_def Let_def split_def)

text \<open>The poll that starts the preparation of an idle, unconnected device.\<close>

lemma update_idle:
  assumes s: "w_initialized (s_pow s)" "w_state (s_pow s) = WAKE_MODE" "\<not> b_deviceConnected (d_ble (s_dev s))"
    and t: "\<And>k. e_ms (se_dev env) k = t" "SLEEP_REREQUEST_DEBOUNCE_MS pc \<le> t - w_lastCancel (s_pow s)"
      "idle_timeout pc s \<le> t - w_lastActivity (s_pow s)"
  obtains s' where "power_update c pc env s = Some (None, s')" "w_state (s_pow s') = SLEEP_PREP"
    "w_sleepPrepStart (s_pow s') = t" "unchanged s' s"
proof -
  define b where "b = battery_poll pc env (e_ms (se_dev env) (d_tick (s_dev s))) (on_dev tick s)"
  have b: "unchanged b s" "w_state (s_pow b) = WAKE_MODE" "w_lastCancel (s_pow b) = w_lastCancel (s_pow s)"
    "w_lastActivity (s_pow b) = w_lastActivity (s_pow s)" "w_wokeFromSensor (s_pow b) = w_wokeFromSensor (s_pow s)"
    using s(2) by (simp_all add: b_def)
  define l where "l = wake_mode_led pc env b"
  have l: "s_pow l = s_pow b" "unchanged l s"
    using b(1) by (simp_all add: l_def wake_mode_led_def Let_def)
  note u = unchangedD [OF l(2)]
  have "idle_timeout pc l = idle_timeout pc s"
    using u(10,14) l(1) b(5) by (simp add: idle_timeout_def)
  let ?r = "requestSleep pc env (on_dev tick l)"
  have "checkIdleTimeout pc env l = ?r"
    unfolding checkIdleTimeout_timeout \<open>idle_timeout pc l = idle_timeout pc s\<close>
    using l(1) b(2-4) u(1) s(3) t by (simp add: not_less)
  then have "power_update c pc env s = Some (None, ?r)"
    using s(1,2) by (simp add: power_update_def Let_def split_def b_def l_def)
  moreover have "w_sleepPrepStart (s_pow ?r) = t"
    using l(1) b(2) t(1) by (simp add: requestSleep_def transitionTo_def Let_def split_def)
  moreover have "unchanged ?r s" using l(2) by (intro unchanged_trans [OF requestSleep_simps(2)]) simp
  ultimately show thesis by (intro that [of ?r]) simp_all
qed

text \<open>The poll that ends the preparation with nothing outstanding.\<close>

lemma update_prepared:
  assumes "w_initialized (s_pow s)" "w_state (s_pow s) = SLEEP_PREP" "w_sleepPrepStart (s_pow s) = t1"
    and t2: "\<And>k. e_ms (se_dev env) k = t2" "SLEEP_PREP_TIME_MS pc \<le> t2 - t1"
    and "getPendingCount_p (d_proto (s_dev s)) = 0" "o_state (d_ota (s_dev s)) \<noteq> OTA_RECEIVING"
    and inv: "hist_inv (v_hist c) (d_hist (s_dev s))"
  shows "\<exists>out s'. power_update c pc env s = Some (Some out, s') \<and>
    (out = Slept \<longleftrightarrow> se_proxBelow env (deepSleepThreshold pc) \<and> \<not> se_intLow env)"
proof -
  define b where "b = battery_poll pc env (e_ms (se_dev env) (d_tick (s_dev s))) (on_dev tick s)"
  have b: "w_state (s_pow b) = SLEEP_PREP" "w_sleepPrepStart (s_pow b) = t1" "unchanged b s"
    using assms(2,3) by (simp_all add: b_def)
  define l where "l = on_dev tick (on_dev tick (led_tick pc env b))"
  have l: "s_pow l = s_pow b" "unchanged l s" using b(3) by (simp_all add: l_def)
  note ul = unchangedD [OF l(2)]
  have hv: "h_valid (v_hist c) (d_hist (s_dev l))" using inv ul(2) by (simp add: hist_inv_def)
  obtain s2 where safe: "canSafelyEnterSleep c env l = Some (True, s2)" "unchanged s2 s" "s_pow s2 = s_pow b"
    using ul(4,8) assms(6,7) l hv
    by (cases "w_historyService (s_pow b)")
      (simp_all add: canSafelyEnterSleep_def sys_lock_def Let_def hasPendingData_valid)
  obtain out s3 where e: "enterDeepSleep c pc env (transitionTo pc env DEEP_SLEEP s2) = Some (out, s3)"
    "out = Slept \<longleftrightarrow> se_proxBelow env (deepSleepThreshold pc) \<and> \<not> se_intLow env"
    using enterDeepSleep_total [of c "transitionTo pc env DEEP_SLEEP s2" pc env] inv unchangedD(2) [OF safe(2)]
    by auto
  have "getSleepPrepRemaining pc t2 (s_pow b) = 0"
    using b t2(2) by (simp add: getSleepPrepRemaining_def)
  then have "sleep_prep_step c pc env b = Some (Some out, s3)"
    using safe(1) e(1) t2(1) by (simp add: sleep_prep_step_def Let_def split_def l_def)
  then have "power_update c pc env s = Some (Some out, s3)"
    using assms(1,2) by (simp add: power_update_def Let_def split_def b_def)
  then show ?thesis using e(2) by blast
qed


section \<open>What is in flash when the chip sleeps\<close>

lemma namespaces_differ [simp]: "CONFIG_NAMESPACE \<noteq> NVS_NAMESPACE" "NVS_NAMESPACE \<noteq> CONFIG_NAMESPACE"
  by (simp_all add: CONFIG_NAMESPACE_def NVS_NAMESPACE_def)

lemma put_other:
  assumes "prefs_ok api view" "ns \<noteq> ns'"
  shows "view (snd (p_putULong api n ns' k v)) (ns, j) = view n (ns, j)"
    "view (snd (p_putUShort api n ns' k w)) (ns, j) = view n (ns, j)"
    "view (snd (p_putBytes api n ns' k b)) (ns, j) = view n (ns, j)"
    "view (snd (put_retry api ns' k b m x n)) (ns, j) = view n (ns, j)"
proof -
  show p: "view (snd (p_putULong api n ns' k v)) (ns, j) = view n (ns, j)"
    "view (snd (p_putUShort api n ns' k w)) (ns, j) = view n (ns, j)"
    "view (snd (p_putBytes api n ns' k b)) (ns, j) = view n (ns, j)" for n k v w b
    using prefs_okD(2) [OF assms(1), of n ns' k v] prefs_okD(3) [OF assms(1), of n ns' k w]
      prefs_okD(4) [OF assms(1), of n ns' k b] assms(2)
    by (auto simp: put_ok_def)
  show "view (snd (put_retry api ns' k b m x n)) (ns, j) = view n (ns, j)"
    by (induction m arbitrary: x n) (simp_all add: Let_def split_def p(3))
qed

lemma flush_other:
  "prefs_ok api view \<Longrightarrow> ns \<noteq> NVS_NAMESPACE \<Longrightarrow>
   view (snd (snd (flushToNvs api env h n))) (ns, j) = view n (ns, j)"
  by (simp add: flushToNvs_def Let_def split_def put_other del: put_retry.simps)

lemma processAll_flush:
  assumes "prefs_ok api view"
  shows "\<forall>m\<in>set q. sm_cmd m = SAVE_HIT \<or> sm_cmd m = FORCE_FLUSH \<Longrightarrow>
    h_state (fst (processAll c api junk env q h n)) = h_state h \<and>
    view (snd (processAll c api junk env q h n)) (CONFIG_NAMESPACE, j) = view n (CONFIG_NAMESPACE, j)"
  by (induction q arbitrary: h n)
    (auto simp: processStorageCommand_def Let_def split_def flush_other [OF assms])

lemma stop_flush:
  assumes "prefs_ok api view" "flush_only h"
  shows "h_state (fst (stopStorageWorker c api junk env h n)) = h_state h"
    "view (snd (stopStorageWorker c api junk env h n)) (CONFIG_NAMESPACE, j) = view n (CONFIG_NAMESPACE, j)"
  using processAll_flush [OF assms(1)] assms(2)
  by (simp_all add: stopStorageWorker_def flush_only_def Let_def split_def split: option.splits)

lemma forceFlush_reliable:
  assumes "nvs_reliable api view" "config_inv view s n"
    and "config_forceFlush api True s n = (r, s', n')"
  shows "persisted view s' n'" "uc_sensitivity (c_config s') = uc_sensitivity (c_config s)"
proof -
  define s0 where "s0 = (if c_commitTimer s = Some True then s\<lparr>c_commitTimer := Some False\<rparr> else s)"
  have s0: "c_config s0 = c_config s" "c_dirty s0 = c_dirty s" by (simp_all add: s0_def)
  have "persisted view s' n' \<and> uc_sensitivity (c_config s') = uc_sensitivity (c_config s)"
  proof (cases "c_dirty s")
    case False
    then have "s' = s0" "n' = n" using assms(3) by (auto simp: config_forceFlush_def Let_def s0_def split: if_splits)
    then show ?thesis using False assms(2) s0 by (simp add: config_inv_def persisted_def)
  next
    case True
    then have w: "writeToNvs api True s0 n = (True, s', n')"
      using assms(3) s0 write_reliable [OF assms(1), of s0 n]
      by (auto simp: config_forceFlush_def Let_def s0_def)
    note r = write_result [OF nvs_reliableD(1) [OF assms(1)] w]
    have "uc_sensitivity (c_config s') = uc_sensitivity (c_config s)"
      by (simp add: r(1) with_crc_def s0)
    with r(2) show ?thesis by blast
  qed
  then show "persisted view s' n'" "uc_sensitivity (c_config s') = uc_sensitivity (c_config s)" by blast+
qed

lemma sleep_config_persists:
  assumes "nvs_reliable (pc_nvs pc) view" "all_locks (se_dev env)"
    and "config_inv view (d_cfg (s_dev s)) (d_nvs (s_dev s))"
  shows "persisted view (d_cfg (s_dev (sleep_config pc env s))) (d_nvs (s_dev (sleep_config pc env s)))"
    "uc_sensitivity (c_config (d_cfg (s_dev (sleep_config pc env s)))) = uc_sensitivity (c_config (d_cfg (s_dev s)))"
proof -
  obtain r cfg n where f: "config_forceFlush (pc_nvs pc) True (d_cfg (s_dev s)) (d_nvs (s_dev s)) = (r, cfg, n)"
    by (cases "config_forceFlush (pc_nvs pc) True (d_cfg (s_dev s)) (d_nvs (s_dev s))")
  note k = forceFlush_reliable [OF assms(1,3) f]
  show "persisted view (d_cfg (s_dev (sleep_config pc env s))) (d_nvs (s_dev (sleep_config pc env s)))"
    "uc_sensitivity (c_config (d_cfg (s_dev (sleep_config pc env s)))) = uc_sensitivity (c_config (d_cfg (s_dev s)))"
    using k f assms(2,3)
    by (auto simp: sleep_config_def sys_lock_def Let_def isDirty_def config_inv_def)
qed

lemma sleep_history_flush:
  fixes b :: "('n, 'u, 'f) system" and c :: "('n, 'u) dev_cfg" and pc :: "('n, 'f) power_cfg"
  defines "x \<equiv> on_dev tick (on_dev tick b)"
  defines "f \<equiv> flushToNvs (v_prefs c) (sys_flush pc True x) (d_hist (s_dev b)) (d_nvs (s_dev b))"
  assumes "all_locks (se_dev env)" "w_historyService (s_pow b)" "h_valid (v_hist c) (d_hist (s_dev b))"
    and "\<exists>e\<in>set (h_stored (v_hist c) (d_hist (s_dev b))). \<not> isSynced e"
  shows "sleep_history c pc env b = Some (on_dev (\<lambda>d. d\<lparr>d_hist := fst (snd f), d_nvs := snd (snd f)\<rparr>) x)"
  using assms(3-6)
  by (simp add: sleep_history_def sys_lock_def Let_def split_def hasPendingData_valid forceNvsSync_def
      f_def x_def)

text \<open>
  C19: nothing is lost in deep sleep, even if the power fails during it. On flash that works and
  with the locks free, when \<open>enterDeepSleep\<close> is run on a device with unsynced detections whose
  battery is not critical and that is not pairing, then a later power-on, whatever RTC
  memory holds by then, restores exactly the log and the event counter that the device had, and
  the settings in flash are the current ones, pending changes included.
\<close>

theorem sleep_survives_power_loss:
  assumes api: "prefs_reliable (v_prefs c) view" "nvs_reliable (pc_nvs pc) view" "all_locks (se_dev env)"
    and inv: "hist_inv (v_hist c) (d_hist (s_dev s))" "config_inv view (d_cfg (s_dev s)) (d_nvs (s_dev s))"
    and l: "w_historyService (s_pow s)" "w_bleManager (s_pow s)" "b_initialized (d_ble (s_dev s))"
      "l_initialized (s_led s)"
    and ok: "isBatteryCritical (pc_battery pc) (w_battery (s_pow s)) \<longrightarrow> y_charging (w_battery (s_pow s))"
      "\<not> b_pairingModeEnabled (d_ble (s_dev s))"
    and some: "\<exists>e\<in>set (h_stored (v_hist c) (d_hist (s_dev s))). \<not> isSynced e"
      "length (h_stored (v_hist c) (d_hist (s_dev s))) mod 256 \<noteq> 0"
    and e: "enterDeepSleep c pc env s = Some (out, s')"
    and boot: "ie_resetReason ienv = ESP_RST_POWERON" "ie_lock ienv" "h_stateMutex h0 \<or> ie_mutexOk ienv"
    and h': "h' = history_init (v_hist c) (v_prefs c) junk ienv h0 (d_nvs (s_dev s'))"
  shows "h_valid (v_hist c) h' \<and> h_stored (v_hist c) h' = h_stored (v_hist c) (d_hist (s_dev s)) \<and>
    rs_globalEventId (h_state h') = rs_globalEventId (h_state (d_hist (s_dev s))) \<and>
    persisted view (d_cfg (s_dev s')) (d_nvs (s_dev s')) \<and>
    uc_sensitivity (c_config (d_cfg (s_dev s'))) = uc_sensitivity (c_config (d_cfg (s_dev s)))"
proof (rule enterDeepSleep_shutdown [OF e l])
  fix s1 s2
  let ?a = "sleep_config pc env (sleep_notify env s)"
  let ?b = "sleep_worker c pc env ?a"
  assume s1: "sleep_history c pc env ?b = Some s1" and dec: "sleep_decide pc env s2 = (out, s')"
    and sv: "services (s_dev s2) = services (s_dev (sleep_ble c pc env s1))"
  note ok1 = prefs_reliableD(1) [OF api(1)]
  have cfg: "persisted view (d_cfg (s_dev ?a)) (d_nvs (s_dev ?a))"
    "uc_sensitivity (c_config (d_cfg (s_dev ?a))) = uc_sensitivity (c_config (d_cfg (s_dev s)))"
    using sleep_config_persists [OF api(2,3), of "sleep_notify env s"] inv(2) by simp_all
  have fl: "flush_only (d_hist (s_dev ?a))" using inv(1) by (simp add: hist_inv_def)
  let ?r = "stopStorageWorker (v_hist c) (v_prefs c) (se_junk env)
      (sys_flush pc (e_lock (se_dev env) (d_tick (s_dev ?a))) (on_dev tick ?a)) (d_hist (s_dev ?a)) (d_nvs (s_dev ?a))"
  obtain h1 n1 where r: "?r = (h1, n1)" by (cases ?r)
  have b: "d_hist (s_dev ?b) = h1" "d_nvs (s_dev ?b) = n1"
    using l(1) r by (simp_all add: sleep_worker_def sys_lock_def Let_def split_def)
  have "h_state (fst ?r) = h_state (d_hist (s_dev ?a))" by (rule stop_flush(1) [OF ok1 fl])
  moreover have "view (snd ?r) (CONFIG_NAMESPACE, j) = view (d_nvs (s_dev ?a)) (CONFIG_NAMESPACE, j)" for j
    by (rule stop_flush(2) [OF ok1 fl])
  moreover have "hist_inv (v_hist c) (fst ?r)" by (rule inv_stop) (use inv(1) in simp)
  ultimately have st: "h_state h1 = h_state (d_hist (s_dev s))"
    "view n1 (CONFIG_NAMESPACE, j) = view (d_nvs (s_dev ?a)) (CONFIG_NAMESPACE, j)"
    and hv: "h_valid (v_hist c) h1" for j
    unfolding r by (simp_all add: hist_inv_def)
  define x where "x = on_dev tick (on_dev tick ?b)"
  have perm: "flush_permitted (sys_flush pc True x)"
    using ok by (simp add: flush_permitted_def sys_flush_def x_def)
  define n2 where "n2 = snd (snd (flushToNvs (v_prefs c) (sys_flush pc True x) h1 n1))"
  have n2: "d_nvs (s_dev s1) = n2"
  proof -
    have "\<exists>e\<in>set (h_stored (v_hist c) (d_hist (s_dev ?b))). \<not> isSynced e" using some(1) st(1) b by simp
    then have "sleep_history c pc env ?b = Some (on_dev (\<lambda>d. d\<lparr>
        d_hist := fst (snd (flushToNvs (v_prefs c) (sys_flush pc True x) h1 n1)), d_nvs := n2\<rparr>) x)"
      using sleep_history_flush [OF api(3), of ?b c pc] l(1) hv by (simp add: b x_def n2_def)
    with s1 have "s1 = on_dev (\<lambda>d. d\<lparr>
        d_hist := fst (snd (flushToNvs (v_prefs c) (sys_flush pc True x) h1 n1)), d_nvs := n2\<rparr>) x"
      by (metis option.inject)
    then show ?thesis by simp
  qed
  have "rs_buffer (h_state h1) \<noteq> []" using rtc_okD(2,4) [OF h_validD(3) [OF hv]] by auto
  then have bk: "backed_up (view n2) (h_state h1)"
    unfolding n2_def by (intro flush_backup [OF api(1) h_validD(1) [OF hv] perm])
  have sd: "services (s_dev s') = services (s_dev s2)"
    using dec transitionTo_unchanged [of pc env _ "act [SA_noWakeTimer] s2"]
    by (auto simp: sleep_decide_def sleep_abort_def Let_def split_def unchanged_def split: if_splits)
  have ns': "d_nvs (s_dev s') = n2" "d_cfg (s_dev s') = d_cfg (s_dev ?a)"
    using services_eqD(3,5) [OF sd] services_eqD(3,5) [OF sv] n2 sleep_history_keeps(3) [OF s1] by simp_all
  have "view n2 (CONFIG_NAMESPACE, CONFIG_KEY) = view (d_nvs (s_dev ?a)) (CONFIG_NAMESPACE, CONFIG_KEY)"
    using flush_other [OF ok1, of CONFIG_NAMESPACE] st(2) by (simp add: n2_def)
  then have "persisted view (d_cfg (s_dev s')) (d_nvs (s_dev s'))"
    using cfg(1) by (simp add: persisted_def ns')
  moreover have "h_valid (v_hist c) h' \<and> h_stored (v_hist c) h' = h_stored (v_hist c) h1 \<and>
    rs_globalEventId (h_state h') = rs_globalEventId (h_state h1) \<and>
    rs_bootCount (h_state h') = rs_bootCount (h_state h1) + 1"
  proof (rule recover_backup [OF api(1) hv bk boot])
    show "length (h_stored (v_hist c) h1) mod 256 \<noteq> 0" using some(2) st(1) by simp
    show "h' = history_init (v_hist c) (v_prefs c) junk ienv h0 n2" unfolding h' ns'(1) ..
  qed
  ultimately show ?thesis using cfg(2) ns'(2) st(1) by simp
qed

section \<open>A concrete system\<close>

text \<open>Natural numbers serve as the arithmetic of the concrete battery.\<close>

definition demo_float :: "nat float_ops" where
  "demo_float = \<lparr>fo_of = unat, fo_lit = (div), fo_add = (+), fo_sub = (-), fo_mul = (*), fo_div = (div),
     fo_u8 = word_of_nat, fo_u16 = word_of_nat\<rparr>"

definition demo_battery_cfg :: "nat battery_cfg" where
  "demo_battery_cfg = \<lparr>fl = demo_float, OCV_SOC_TABLE = [(4200, 100), (3700, 50), (3300, 0)],
     EXTERNAL_POWER_THRESHOLD_MV = 2500, MIN_SAMPLES_FOR_STABLE = 8, SMOOTHING_ALPHA = 0,
     HYSTERESIS_PERCENT = 2, LOW_BATTERY_PERCENT = 20, CRITICAL_BATTERY_PERCENT = 5, ADC_SAMPLES = 4\<rparr>"

definition demo_power_cfg :: "(nvs_view, nat) power_cfg" where
  "demo_power_cfg = \<lparr>pc_battery = demo_battery_cfg, pc_nvs = map_nvs,
     pc_led = \<lparr>lf_breathe = \<lambda>t c. c, lf_rainbow = \<lambda>t. 1\<rparr>, SLEEP_PREP_TIME_MS = 3000,
     MAX_SLEEP_CANCEL_COUNT = 3, FORCE_SLEEP_TIMEOUT_MS = 120000, SLEEP_REREQUEST_DEBOUNCE_MS = 2000,
     DISCONNECTED_SLEEP_TIMEOUT_MS = 30000, SENSOR_WAKE_BONDED_TIMEOUT_MS = 10000,
     SENSOR_WAKE_QUICK_SLEEP_TIMEOUT_MS = 5000, CONNECTED_IDLE_TIMEOUT_MS = 300000,
     BATTERY_CHECK_INTERVAL_MS = 10000, FAILSAFE_WAKE_INTERVAL_US = 7200000000,
     EMERGENCY_WAKE_INTERVAL_US = 30000000, DETECTION_THRESHOLD_DEFAULT = 100,
     SLEEP_CANCEL_THRESHOLD_MULTIPLIER = 2, MIN_DEEP_SLEEP_THRESHOLD = 50, MAX_DEEP_SLEEP_THRESHOLD = 500,
     COLOR_PAIRING = 0xFF, COLOR_ACTIVE = 0xFF00, COLOR_HIT = 0xFF0000, COLOR_SLEEP_PREP = 0xFFFF00,
     COLOR_ERROR = 0xFF0000, COLOR_OFF = 0\<rparr>"

definition demo_power :: "nat power" where
  "demo_power = (power_new demo_power_cfg)\<lparr>w_bleManager := True, w_historyService := True,
     w_protocolHandler := True, w_otaManager := True, w_initialized := True, w_state := WAKE_MODE\<rparr>"

definition demo_system :: "(nvs_view, bytes \<times> bool \<times> bytes option, nat) system" where
  "demo_system = \<lparr>s_dev = demo_device, s_pow = demo_power, s_led = led_init 0 (led_new False 0),
     s_detect = \<lparr>dt_isDetecting = False, dt_startTime = 0, dt_confirmed = False\<rparr>,
     s_timing = \<lparr>tm_lastKeepalive = 0, tm_lastHeartbeat = 0, tm_connectionStart = 0\<rparr>, s_acts = []\<rparr>"

definition demo_sys_env :: "u32 \<Rightarrow> bool \<Rightarrow> sys_env" where
  "demo_sys_env t below = \<lparr>se_dev = demo_clock t, se_adc = (\<lambda>_ _. 1950), se_chargingLow = (\<lambda>_. False),
     se_advertising = (\<lambda>_. True), se_linkLost = None, se_junk = [], se_sensorReady = True,
     se_proxBelow = (\<lambda>_. below), se_intLow = False\<rparr>"

lemma demo_system_simps [simp]:
  "s_dev demo_system = demo_device" "s_pow demo_system = demo_power" "l_initialized (s_led demo_system)"
  "w_initialized demo_power" "w_historyService demo_power" "w_bleManager demo_power" "w_state demo_power = WAKE_MODE"
  "w_lastCancel demo_power = 0" "w_lastActivity demo_power = 0" "\<not> w_wokeFromSensor demo_power"
  "w_protocolHandler demo_power" "w_cancelCount demo_power = 0" "w_sleepPrepStart demo_power = 0"
  "y_percent (w_battery demo_power) = 100"
  by (simp_all add: demo_system_def demo_power_def power_new_def led_init_def led_new_def led_show_def battery_new_def)

lemma demo_ble_simps [simp]:
  "b_initialized (d_ble demo_device)" "b_deviceConnected (d_ble demo_device)"
  "\<not> b_pairingModeEnabled (d_ble demo_device)" "o_state (d_ota demo_device) = OTA_IDLE" "d_bonds demo_device = 1"
  "d_nvs demo_device = Map.empty" "d_cfg demo_device = config_new 7"
  by (simp_all add: demo_device_def ble_new_def ota_new_def)

lemma demo_env_simps [simp]:
  "se_dev (demo_sys_env t b) = demo_clock t" "se_proxBelow (demo_sys_env t b) x = b" "\<not> se_intLow (demo_sys_env t b)"
  by (simp_all add: demo_sys_env_def)

lemmas demo_hist_inv [simp] = demo_inv

text \<open>The same system without a connection, idle or in the sleep preparation.\<close>

definition demo_quiet :: "(nvs_view, bytes \<times> bool \<times> bytes option, nat) system" where
  "demo_quiet = on_dev (\<lambda>d. d\<lparr>d_ble := (d_ble d)\<lparr>b_deviceConnected := False\<rparr>\<rparr>) demo_system"

definition demo_prep :: "(nvs_view, bytes \<times> bool \<times> bytes option, nat) system" where
  "demo_prep = on_pow (\<lambda>p. p\<lparr>w_state := SLEEP_PREP\<rparr>) demo_quiet"

lemma demo_clock_dev [simp]: "e_ms (se_dev (demo_sys_env t b)) k = t"
  by simp


lemma demo_sleep_aborts:
  obtains out s' where "enterDeepSleep demo_dev_cfg demo_power_cfg (demo_sys_env 60000 False) demo_system = Some (out, s')"
    "out \<noteq> Slept"
  using enterDeepSleep_total [of demo_dev_cfg demo_system demo_power_cfg "demo_sys_env 60000 False"] by auto

theorem aborted_sleep_state_witness:
  "\<exists>out s'. enterDeepSleep demo_dev_cfg demo_power_cfg (demo_sys_env 60000 False) demo_system = Some (out, s') \<and>
     worker_gone (d_hist (s_dev s')) \<and> l_visible (s_led s') = 0"
proof (rule demo_sleep_aborts)
  fix out s'
  assume e: "enterDeepSleep demo_dev_cfg demo_power_cfg (demo_sys_env 60000 False) demo_system = Some (out, s')" "out \<noteq> Slept"
  from aborted_sleep_state [OF e] e(1) show ?thesis by (auto simp del: not_None_eq)
qed


definition demo_pending :: "(nvs_view, bytes \<times> bool \<times> bytes option, nat) system" where
  "demo_pending = on_dev (\<lambda>d. d\<lparr>d_cfg := demo_config\<rparr>) demo_system"

theorem sleep_survives_power_loss_witness:
  "\<exists>out s'. enterDeepSleep demo_dev_cfg demo_power_cfg (demo_sys_env 60000 True) demo_pending = Some (out, s') \<and>
    h_stored demo_cfg (history_init demo_cfg map_prefs [] demo_init_env demo_garbage (d_nvs (s_dev s'))) =
      [demo_event1, demo_event2]"
proof -
  obtain out s' where e: "enterDeepSleep demo_dev_cfg demo_power_cfg (demo_sys_env 60000 True) demo_pending = Some (out, s')"
    using enterDeepSleep_total [of demo_dev_cfg demo_pending demo_power_cfg "demo_sys_env 60000 True"]
    by (auto simp: demo_pending_def)
  have i: "config_inv (\<lambda>n. n) demo_config Map.empty"
    by (simp add: config_inv_def demo_config_def config_new_def initUserConfigDefaults_def)
  have "h_stored demo_cfg (history_init demo_cfg map_prefs [] demo_init_env demo_garbage (d_nvs (s_dev s'))) =
      [demo_event1, demo_event2]"
    using sleep_survives_power_loss [OF _ _ _ _ _ _ _ _ _ _ _ _ _ e _ _ _ refl, of "\<lambda>n. n" demo_init_env demo_garbage "[]"]
      map_prefs_reliable map_nvs_reliable i
    by (simp add: demo_pending_def demo_power_cfg_def isBatteryCritical_def demo_battery_cfg_def demo_init_env_def)
  with e show ?thesis by blast
qed

text \<open>A request that is pending when a second sleep is tried stays pending through it.\<close>

definition gone_pending :: "history \<Rightarrow> bool" where
  "gone_pending h \<longleftrightarrow> worker_gone h \<and> h_flushPending h"

lemma gone_pending_ble: "gone_pending (d_hist (s_dev s)) \<Longrightarrow> gone_pending (d_hist (s_dev (sleep_ble c pc env s)))"
  by (simp add: sleep_ble_def onBLEDisconnect_def clearAllPending_def setBleConnected_def gone_pending_def
      worker_gone_def Let_def split_def split: option.split)

lemma enterDeepSleep_pending:
  assumes e: "enterDeepSleep c pc env s = Some (out, s')" and h: "gone_pending (d_hist (s_dev s))"
    and l: "w_historyService (s_pow s)" "w_bleManager (s_pow s)" "b_initialized (d_ble (s_dev s))"
      "l_initialized (s_led s)"
  shows "gone_pending (d_hist (s_dev s'))"
proof (rule enterDeepSleep_shutdown [OF e l])
  fix s1 s2
  let ?a = "sleep_config pc env (sleep_notify env s)"
  assume s1: "sleep_history c pc env (sleep_worker c pc env ?a) = Some s1"
    and dec: "sleep_decide pc env s2 = (out, s')"
    and sv: "services (s_dev s2) = services (s_dev (sleep_ble c pc env s1))"
  have "gone_pending (d_hist (s_dev (sleep_worker c pc env ?a)))"
    using h by (simp add: sleep_worker_def sys_lock_def stopStorageWorker_def gone_pending_def worker_gone_def
        Let_def split_def)
  then have "gone_pending (d_hist (s_dev s1))"
    using s1 by (auto simp: sleep_history_def sys_lock_def forceNvsSync_def gone_pending_def worker_gone_def
        Let_def split_def split: if_splits option.splits bool.splits)
  then have "gone_pending (d_hist (s_dev s2))"
    using services_eqD(2) [OF sv] by (simp add: gone_pending_ble)
  then show ?thesis
    using dec by (auto simp: sleep_decide_def sleep_abort_def Let_def split_def split: if_splits)
qed

definition demo_again :: "(nvs_view, bytes \<times> bool \<times> bytes option, nat) system" where
  "demo_again = on_dev (\<lambda>d. d\<lparr>d_hist := demo_history\<lparr>h_flushPending := True\<rparr>\<rparr>) demo_system"


end
