(* ===== verification/Fw_Boot.thy ===== *)
theory Fw_Boot
  imports Fw_Sleep
begin

text \<open>
  The start of the firmware: the crash counter with its emergency erase, the boot counter in
  flash (\<open>src/src/Services/BootRecoveryTracker.cpp\<close>), the decision for flasher mode and the
  brownout path of \<open>src/src/main.cpp\<close>, and \<open>StorageHAL\<close> (\<open>src/src/HAL/StorageHAL.cpp\<close>), which
  checks the partitions and opens the flash. \<open>boot_rtc\<close> holds the variables of RTC memory that
  survive a reset; after a power loss they are arbitrary.
\<close>

section \<open>The boot counter in flash\<close>

record tracker =
  bt_initialized :: bool
  bt_available :: bool
  bt_counter :: u32

definition BOOTREC_NAMESPACE :: string where "BOOTREC_NAMESPACE = ''bootrec''"
definition KEY_COUNTER :: string where "KEY_COUNTER = ''counter''"

definition tracker_new :: tracker where
  "tracker_new = \<lparr>bt_initialized = False, bt_available = False, bt_counter = 0\<rparr>"

definition tracker_init :: "'n nvs_api \<Rightarrow> tracker \<Rightarrow> 'n \<Rightarrow> bool \<times> tracker" where
  "tracker_init api t n =
     (if bt_initialized t then (bt_available t, t)
      else
        let t = t\<lparr>bt_initialized := True\<rparr>;
            err = n_flash_init api n
        in if err = ESP_ERR_NVS_NO_FREE_PAGES \<or> err = ESP_ERR_NVS_NEW_VERSION_FOUND then (False, t)
           else if err \<noteq> ESP_OK then (False, t)
           else if n_open api n BOOTREC_NAMESPACE True \<noteq> ESP_OK then (False, t)
           else
             let (err, v) = n_get_u32 api n BOOTREC_NAMESPACE KEY_COUNTER;
                 counter = (if err = ESP_ERR_NVS_NOT_FOUND then 0 else v)
             in if err \<noteq> ESP_ERR_NVS_NOT_FOUND \<and> err \<noteq> ESP_OK then (False, t)
                else (True, t\<lparr>bt_counter := counter, bt_available := True\<rparr>))"

definition shouldIncrement :: "reset_reason \<Rightarrow> bool" where
  "shouldIncrement reason \<longleftrightarrow> reason = ESP_RST_POWERON \<or> reason = ESP_RST_SW"

definition persistCounter :: "'n nvs_api \<Rightarrow> tracker \<Rightarrow> 'n \<Rightarrow> 'n" where
  "persistCounter api t n =
     (if \<not> bt_available t then n
      else
        let (err, n) = n_set_u32 api n BOOTREC_NAMESPACE KEY_COUNTER (bt_counter t)
        in if err \<noteq> ESP_OK then n else snd (n_commit api n))"

definition incrementIfEligible ::
  "'n nvs_api \<Rightarrow> reset_reason \<Rightarrow> tracker \<Rightarrow> 'n \<Rightarrow> u32 \<times> tracker \<times> 'n" where
  "incrementIfEligible api reason t n =
     (if \<not> bt_available t then (bt_counter t, t, n)
      else if \<not> shouldIncrement reason then (bt_counter t, t, n)
      else
        let t = t\<lparr>bt_counter := bt_counter t + 1\<rparr>
        in (bt_counter t, t, persistCounter api t n))"

definition resetCounter :: "'n nvs_api \<Rightarrow> tracker \<Rightarrow> 'n \<Rightarrow> tracker \<times> 'n" where
  "resetCounter api t n =
     (if \<not> bt_available t then (t\<lparr>bt_counter := 0\<rparr>, n)
      else if bt_counter t = 0 then (t, n)
      else let t = t\<lparr>bt_counter := 0\<rparr> in (t, persistCounter api t n))"

section \<open>Storage\<close>

datatype partition_error =
    PE_OK | NVS_MISSING | NVS_TOO_SMALL | OTADATA_MISSING | APP0_MISSING | APP1_MISSING
  | APP_SIZE_MISMATCH | NVS_INIT_FAILED | NVS_CORRUPTED

datatype hal_error =
    HAL_OK | NOT_INITIALIZED | INIT_FAILED | HAL_TIMEOUT | INVALID_PARAM | BUS_ERROR
  | DEVICE_NOT_FOUND | HAL_BUSY | HARDWARE_FAULT | RESOURCE_EXHAUSTED | INTEGRITY_ERROR

record storage_hal =
  sh_initialized :: bool
  sh_lastError :: partition_error
  sh_nvsRecovered :: bool
  sh_nvsSize :: u32
  sh_appSlotSize :: u32

definition MIN_NVS_SIZE :: u32 where "MIN_NVS_SIZE = 0x5000"

definition storage_new :: storage_hal where
  "storage_new = \<lparr>sh_initialized = False, sh_lastError = PE_OK, sh_nvsRecovered = False,
     sh_nvsSize = 0, sh_appSlotSize = 0\<rparr>"

text \<open>\<open>part\<close> gives the size of the partition with a label, if the table has it.\<close>

definition validatePartitions :: "(string \<Rightarrow> u32 option) \<Rightarrow> storage_hal \<Rightarrow> bool \<times> storage_hal" where
  "validatePartitions part s =
     (case part ''nvs'' of
        None \<Rightarrow> (False, s\<lparr>sh_lastError := NVS_MISSING\<rparr>)
      | Some nvs \<Rightarrow>
          let s = s\<lparr>sh_nvsSize := nvs\<rparr>
          in if nvs < MIN_NVS_SIZE then (False, s\<lparr>sh_lastError := NVS_TOO_SMALL\<rparr>)
             else if part ''otadata'' = None then (False, s\<lparr>sh_lastError := OTADATA_MISSING\<rparr>)
             else case part ''app0'' of
                 None \<Rightarrow> (False, s\<lparr>sh_lastError := APP0_MISSING\<rparr>)
               | Some app0 \<Rightarrow>
                   (case part ''app1'' of
                      None \<Rightarrow> (False, s\<lparr>sh_lastError := APP1_MISSING\<rparr>)
                    | Some app1 \<Rightarrow>
                        if app0 \<noteq> app1 then (False, s\<lparr>sh_lastError := APP_SIZE_MISMATCH\<rparr>)
                        else (True, s\<lparr>sh_appSlotSize := app0, sh_lastError := PE_OK,
                                    sh_initialized := True\<rparr>)))"

fun getErrorString :: "partition_error \<Rightarrow> string" where
  "getErrorString PE_OK = ''OK''"
| "getErrorString NVS_MISSING = ''NVS partition missing - reflash with correct partition table''"
| "getErrorString NVS_TOO_SMALL = ''NVS partition too small for bonding - increase to 24KB''"
| "getErrorString OTADATA_MISSING = ''OTA data partition missing - OTA updates will fail''"
| "getErrorString APP0_MISSING = ''App0 partition missing - invalid partition table''"
| "getErrorString APP1_MISSING = ''App1 partition missing - dual-bank OTA unavailable''"
| "getErrorString APP_SIZE_MISMATCH = ''App partitions different sizes - OTA will fail''"
| "getErrorString NVS_INIT_FAILED = ''NVS initialization failed after recovery attempt''"
| "getErrorString NVS_CORRUPTED = ''NVS was corrupted and has been reset''"

text \<open>\<open>erase\<close> is \<open>nvs_flash_erase\<close>.\<close>

definition initNvs ::
  "'n nvs_api \<Rightarrow> ('n \<Rightarrow> esp_err \<times> 'n) \<Rightarrow> storage_hal \<Rightarrow> 'n \<Rightarrow> hal_error \<times> storage_hal \<times> 'n" where
  "initNvs api erase s n =
     (let err = n_flash_init api n
      in if err = ESP_ERR_NVS_NO_FREE_PAGES \<or> err = ESP_ERR_NVS_NEW_VERSION_FOUND then
           (let (err, n) = erase n
            in if err \<noteq> ESP_OK then (INIT_FAILED, s\<lparr>sh_lastError := NVS_INIT_FAILED\<rparr>, n)
               else if n_flash_init api n \<noteq> ESP_OK
               then (INIT_FAILED, s\<lparr>sh_lastError := NVS_INIT_FAILED\<rparr>, n)
               else (HAL_OK, s\<lparr>sh_nvsRecovered := True, sh_lastError := NVS_CORRUPTED\<rparr>, n))
         else if err \<noteq> ESP_OK then (INIT_FAILED, s\<lparr>sh_lastError := NVS_INIT_FAILED\<rparr>, n)
         else (HAL_OK, s, n))"

definition eraseNvs ::
  "'n nvs_api \<Rightarrow> ('n \<Rightarrow> esp_err \<times> 'n) \<Rightarrow> 'n \<Rightarrow> hal_error \<times> 'n" where
  "eraseNvs api erase n =
     (let (err, n) = erase n
      in if err \<noteq> ESP_OK then (BUS_ERROR, n)
         else if n_flash_init api n \<noteq> ESP_OK then (INIT_FAILED, n)
         else (HAL_OK, n))"

section \<open>Crashes and flasher mode\<close>

record boot_rtc =
  g_crash_counter :: u32
  g_rtc_magic :: u32
  g_boot_mode :: u32
  g_stability_counter :: u32

record boot_cfg =
  BOOT_RTC_MAGIC_KEY :: u32
  BOOT_MODE_NORMAL :: u32
  BOOT_MODE_FLASHER :: u32
  RECOVERY_TRIGGER_COUNT :: u32
  STABILITY_WINDOW_MS :: u32

definition CRASH_RECOVERY_THRESHOLD :: u32 where "CRASH_RECOVERY_THRESHOLD = 3"

definition wasCrashReset :: "reset_reason \<Rightarrow> bool" where
  "wasCrashReset reason \<longleftrightarrow> reason = ESP_RST_PANIC \<or> reason = ESP_RST_INT_WDT \<or>
     reason = ESP_RST_TASK_WDT \<or> reason = ESP_RST_WDT"

text \<open>\<open>pendingVerify\<close>: the running image is a new one that has not been confirmed.\<close>

definition performCrashRecoveryCheck ::
  "('n \<Rightarrow> esp_err \<times> 'n) \<Rightarrow> bool \<Rightarrow> reset_reason \<Rightarrow> boot_rtc \<Rightarrow> 'n \<Rightarrow> boot_rtc \<times> 'n" where
  "performCrashRecoveryCheck erase pendingVerify reason r n =
     (if pendingVerify then (r, n)
      else if reason = ESP_RST_POWERON \<or> reason = ESP_RST_BROWNOUT then (r\<lparr>g_crash_counter := 0\<rparr>, n)
      else
        let r = (if wasCrashReset reason then r\<lparr>g_crash_counter := g_crash_counter r + 1\<rparr> else r)
        in if g_crash_counter r \<ge> CRASH_RECOVERY_THRESHOLD then
             (let (err, n) = erase n
              in if err = ESP_OK then (r\<lparr>g_crash_counter := 0\<rparr>, n) else (r, n))
           else (r, n))"

text \<open>The block of \<open>setup\<close> that decides on flasher mode; the boolean says that it is entered.\<close>

definition flasherEntry ::
  "boot_cfg \<Rightarrow> 'n nvs_api \<Rightarrow> reset_reason \<Rightarrow> boot_rtc \<Rightarrow> tracker \<Rightarrow> 'n \<Rightarrow>
   bool \<times> boot_rtc \<times> tracker \<times> 'n" where
  "flasherEntry c api reason r t n =
     (let r = (if g_rtc_magic r \<noteq> BOOT_RTC_MAGIC_KEY c
               then r\<lparr>g_rtc_magic := BOOT_RTC_MAGIC_KEY c, g_boot_mode := BOOT_MODE_NORMAL c,
                      g_stability_counter := if bt_available t then bt_counter t else 0\<rparr>
               else r);
          (r, t, n) =
            (if reason = ESP_RST_POWERON \<or> reason = ESP_RST_SW then
               (if bt_available t then
                  (let (k, t, n) = incrementIfEligible api reason t n
                   in (r\<lparr>g_stability_counter := k\<rparr>, t, n))
                else (r\<lparr>g_stability_counter := g_stability_counter r + 1\<rparr>, t, n))
             else (r, t, n));
          (enter, r) =
            (if g_boot_mode r = BOOT_MODE_FLASHER c
             then (True, r\<lparr>g_boot_mode := BOOT_MODE_NORMAL c\<rparr>) else (False, r));
          (enter, r, t, n) =
            (if g_stability_counter r \<ge> RECOVERY_TRIGGER_COUNT c
             then (let (t, n) = resetCounter api t n in (True, r\<lparr>g_stability_counter := 0\<rparr>, t, n))
             else (enter, r, t, n))
      in if enter then (let (t, n) = resetCounter api t n in (True, r, t, n))
         else (False, r, t, n))"

text \<open>The start of \<open>setup\<close> up to that decision, on a tracker that the reset has made new.\<close>

definition boot_entry ::
  "boot_cfg \<Rightarrow> 'n nvs_api \<Rightarrow> ('n \<Rightarrow> esp_err \<times> 'n) \<Rightarrow> bool \<Rightarrow> reset_reason \<Rightarrow> boot_rtc \<Rightarrow> 'n \<Rightarrow>
   bool \<times> boot_rtc \<times> tracker \<times> 'n" where
  "boot_entry c api erase pendingVerify reason r n =
     (let (r, n) = performCrashRecoveryCheck erase pendingVerify reason r n;
          (_, t) = tracker_init api tracker_new n
      in flasherEntry c api reason r t n)"

text \<open>The first lines of \<open>loop\<close>.\<close>

definition stabilityCheck ::
  "boot_cfg \<Rightarrow> 'n nvs_api \<Rightarrow> u32 \<Rightarrow> boot_rtc \<Rightarrow> tracker \<Rightarrow> 'n \<Rightarrow> boot_rtc \<times> tracker \<times> 'n" where
  "stabilityCheck c api now r t n =
     (if g_stability_counter r > 0 \<and> now > STABILITY_WINDOW_MS c
      then (let (t, n) = resetCounter api t n in (r\<lparr>g_stability_counter := 0\<rparr>, t, n))
      else (r, t, n))"

section \<open>A start after a brownout\<close>

text \<open>
  The power manager has not been initialised when this runs: its level is the 100 of the
  constructor, and no pairing is active. No result stands for a scan that never ends.
\<close>

definition handleBrownoutRecovery ::
  "history_cfg \<Rightarrow> 'n prefs_api \<Rightarrow> bytes \<Rightarrow> init_env \<Rightarrow> bool \<Rightarrow> history \<Rightarrow> 'n \<Rightarrow>
   (bool \<times> history \<times> 'n) option" where
  "handleBrownoutRecovery c api junk env lock h n =
     (if ie_resetReason env \<noteq> ESP_RST_BROWNOUT then Some (False, h, n)
      else
        let h = history_init c api junk env h n
        in case hasPendingData c lock h of
             None \<Rightarrow> None
           | Some False \<Rightarrow> Some (True, h, n)
           | Some True \<Rightarrow>
               (let (h, n) = forceNvsSync api \<lparr>fe_batteryCritical = False, fe_charging = False,
                      fe_pairing = False, fe_lock = lock\<rparr> h n
                in Some (True, h, n)))"

section \<open>Power cycles\<close>

text \<open>Flash that works: it opens, and every write of a counter succeeds.\<close>

definition flash_works :: "'n nvs_api \<Rightarrow> ('n \<Rightarrow> nvs_view) \<Rightarrow> bool" where
  "flash_works api view \<longleftrightarrow> nvs_ok api view \<and> (\<forall>n. n_flash_init api n = ESP_OK) \<and>
     (\<forall>n ns rw. n_open api n ns rw = ESP_OK) \<and> (\<forall>n ns k v. fst (n_set_u32 api n ns k v) = ESP_OK)"

lemma map_flash_works: "flash_works map_nvs (\<lambda>n. n)"
  using map_nvs_ok by (simp add: flash_works_def) (simp add: map_nvs_def)

text \<open>The counter that the flash holds; an unwritten one counts as 0.\<close>

definition holds_counter :: "('n \<Rightarrow> nvs_view) \<Rightarrow> 'n \<Rightarrow> u32 \<Rightarrow> bool" where
  "holds_counter view n k \<longleftrightarrow> view n (BOOTREC_NAMESPACE, KEY_COUNTER) = Some (VU32 k) \<or>
     k = 0 \<and> view n (BOOTREC_NAMESPACE, KEY_COUNTER) = None"

lemma tracker_init_works:
  assumes "flash_works api view" "holds_counter view n k"
  shows "tracker_init api tracker_new n =
    (True, \<lparr>bt_initialized = True, bt_available = True, bt_counter = k\<rparr>)"
proof -
  have ok: "nvs_ok api view" using assms(1) by (simp add: flash_works_def)
  show ?thesis
    using assms nvs_okD(1,2) [OF ok, of n BOOTREC_NAMESPACE KEY_COUNTER]
    by (auto simp: tracker_init_def tracker_new_def flash_works_def holds_counter_def Let_def split_def)
qed

lemma persist_works:
  assumes "flash_works api view" "bt_available t"
  shows "holds_counter view (persistCounter api t n) (bt_counter t)"
proof -
  have ok: "nvs_ok api view" using assms(1) by (simp add: flash_works_def)
  show ?thesis
    using assms nvs_okD(5) [OF ok, of n BOOTREC_NAMESPACE KEY_COUNTER "bt_counter t"] nvs_okD(7) [OF ok]
    by (simp add: persistCounter_def flash_works_def holds_counter_def set_ok_def Let_def split_def)
qed

lemma reset_works:
  assumes "flash_works api view" "bt_available t" "holds_counter view n (bt_counter t)"
  shows "holds_counter view (snd (resetCounter api t n)) 0"
    "bt_available (fst (resetCounter api t n))" "bt_counter (fst (resetCounter api t n)) = 0"
  using persist_works [OF assms(1), of "t\<lparr>bt_counter := 0\<rparr>" n] assms(2,3)
  by (auto simp: resetCounter_def Let_def)

text \<open>One start of a device whose request for flasher mode, if any, did not survive.\<close>

definition no_request :: "boot_cfg \<Rightarrow> boot_rtc \<Rightarrow> bool" where
  "no_request c r \<longleftrightarrow> g_rtc_magic r \<noteq> BOOT_RTC_MAGIC_KEY c \<or> g_boot_mode r \<noteq> BOOT_MODE_FLASHER c"

lemma boot_entry_counts:
  assumes w: "flash_works api view" and k: "holds_counter view n k"
    and c: "BOOT_MODE_NORMAL c \<noteq> BOOT_MODE_FLASHER c" "no_request c r"
  obtains r' t' n' where "boot_entry c api erase False ESP_RST_POWERON r n =
      (RECOVERY_TRIGGER_COUNT c \<le> k + 1, r', t', n')" "bt_available t'"
    "holds_counter view n' (if RECOVERY_TRIGGER_COUNT c \<le> k + 1 then 0 else k + 1)"
    "bt_counter t' = (if RECOVERY_TRIGGER_COUNT c \<le> k + 1 then 0 else k + 1)"
    "g_stability_counter r' = (if RECOVERY_TRIGGER_COUNT c \<le> k + 1 then 0 else k + 1)"
proof -
  let ?t = "\<lparr>bt_initialized = True, bt_available = True, bt_counter = k + 1\<rparr>"
  let ?n = "persistCounter api ?t n"
  have p: "holds_counter view ?n (k + 1)" using persist_works [OF w, of ?t n] by simp
  have q: "holds_counter view (snd (resetCounter api ?t ?n)) 0" "bt_available (fst (resetCounter api ?t ?n))"
    "bt_counter (fst (resetCounter api ?t ?n)) = 0"
    using reset_works [OF w, of ?t ?n] p by simp_all
  have again: "resetCounter api (fst (resetCounter api ?t ?n)) m = (fst (resetCounter api ?t ?n), m)" for m
    using q by (simp add: resetCounter_def)
  let ?B = "boot_entry c api erase False ESP_RST_POWERON r n"
  note defs = boot_entry_def performCrashRecoveryCheck_def tracker_init_works [OF w k] flasherEntry_def
    incrementIfEligible_def shouldIncrement_def no_request_def Let_def split_def
  have b: "fst ?B \<longleftrightarrow> RECOVERY_TRIGGER_COUNT c \<le> k + 1"
    "fst (snd (snd ?B)) = (if RECOVERY_TRIGGER_COUNT c \<le> k + 1 then fst (resetCounter api ?t ?n) else ?t)"
    "snd (snd (snd ?B)) = (if RECOVERY_TRIGGER_COUNT c \<le> k + 1 then snd (resetCounter api ?t ?n) else ?n)"
    "g_stability_counter (fst (snd ?B)) = (if RECOVERY_TRIGGER_COUNT c \<le> k + 1 then 0 else k + 1)"
    using c by (cases "g_rtc_magic r = BOOT_RTC_MAGIC_KEY c"; simp add: defs again)+
  show thesis
    by (rule that [of "fst (snd ?B)" "fst (snd (snd ?B))" "snd (snd (snd ?B))"])
      (use b p q in \<open>auto simp: prod_eq_iff\<close>)
qed

text \<open>
  Power cycles that each end before the stability window, with what RTC memory holds at each
  start; the result says which starts enter flasher mode.
\<close>

fun power_cycles ::
  "boot_cfg \<Rightarrow> 'n nvs_api \<Rightarrow> ('n \<Rightarrow> esp_err \<times> 'n) \<Rightarrow> boot_rtc list \<Rightarrow> 'n \<Rightarrow> bool list" where
  "power_cycles c api erase [] n = []"
| "power_cycles c api erase (r # rs) n =
     (let (enter, _, _, n) = boot_entry c api erase False ESP_RST_POWERON r n
      in enter # power_cycles c api erase rs n)"

text \<open>
  C29: the recovery pattern. With flash that works, of any number of quick power cycles exactly
  every \<open>N\<close>th enters flasher mode, \<open>N\<close> being the trigger count, whether RTC memory survives
  a cycle or is lost.
\<close>

theorem recovery_every_nth:
  assumes "flash_works api view" "holds_counter view n k" "unat k < N"
    and "N = unat (RECOVERY_TRIGGER_COUNT c)" "BOOT_MODE_NORMAL c \<noteq> BOOT_MODE_FLASHER c"
    and "\<forall>r\<in>set rs. no_request c r"
  shows "power_cycles c api erase rs n = map (\<lambda>i. (unat k + i + 1) mod N = 0) [0..<length rs]"
  using assms
proof (induction rs arbitrary: n k)
  case (Cons r rs)
  let ?R = "RECOVERY_TRIGGER_COUNT c"
  obtain r' t' n' where b: "boot_entry c api erase False ESP_RST_POWERON r n = (?R \<le> k + 1, r', t', n')"
    "holds_counter view n' (if ?R \<le> k + 1 then 0 else k + 1)"
    by (rule boot_entry_counts [OF Cons.prems(1,2,5), of r]) (use Cons.prems(6) in auto)
  have "unat ?R < 2 ^ 32" using unsigned_less [of ?R, where 'a = nat] by simp
  then have lt: "unat k + 1 < 2 ^ 32" using Cons.prems(3,4) by linarith
  then have u: "unat (k + 1) = unat k + 1" by (simp add: unat_word_ariths)
  have iff: "?R \<le> k + 1 \<longleftrightarrow> unat k + 1 = N"
    using Cons.prems(3,4) by (auto simp: word_le_nat_alt u)
  have first: "(?R \<le> k + 1) = ((unat k + 0 + 1) mod N = 0)"
    using iff Cons.prems(3) by (auto simp: mod_eq_0_iff_dvd dest: dvd_imp_le)
  let ?k = "if ?R \<le> k + 1 then 0 else k + 1"
  have less: "unat ?k < N" using Cons.prems(3) iff u by (cases "unat k + 1 = N") auto
  have shift: "(unat ?k + i + 1) mod N = (unat k + Suc i + 1) mod N" for i
  proof (cases "?R \<le> k + 1")
    case True
    have "unat k + Suc i + 1 = N + (i + 1)" using iff True by simp
    then show ?thesis using True by (simp only: if_True unat_0 mod_add_self1) simp
  next
    case False
    then show ?thesis using u by simp
  qed
  have "power_cycles c api erase rs n' = map (\<lambda>i. (unat ?k + i + 1) mod N = 0) [0..<length rs]"
    using Cons.prems b(2) less by (intro Cons.IH) auto
  then have "power_cycles c api erase (r # rs) n =
      ((unat k + 0 + 1) mod N = 0) # map (\<lambda>i. (unat k + Suc i + 1) mod N = 0) [0..<length rs]"
    using b(1) first shift by (simp add: Let_def)
  also have "\<dots> = map (\<lambda>i. (unat k + i + 1) mod N = 0) [0..<length (r # rs)]"
    by (simp add: upt_conv_Cons map_Suc_upt [symmetric] comp_def del: upt_Suc)
  finally show ?case .
qed simp

definition demo_boot_cfg :: boot_cfg where
  "demo_boot_cfg = \<lparr>BOOT_RTC_MAGIC_KEY = 1, BOOT_MODE_NORMAL = 1, BOOT_MODE_FLASHER = 2,
     RECOVERY_TRIGGER_COUNT = 3, STABILITY_WINDOW_MS = 10000\<rparr>"

definition demo_boot_rtc :: boot_rtc where
  "demo_boot_rtc = \<lparr>g_crash_counter = 0, g_rtc_magic = 0xDEAD, g_boot_mode = 2, g_stability_counter = 77\<rparr>"

lemma demo_boot [simp]:
  "RECOVERY_TRIGGER_COUNT demo_boot_cfg = 3" "BOOT_MODE_NORMAL demo_boot_cfg = 1"
  "BOOT_MODE_FLASHER demo_boot_cfg = 2" "BOOT_RTC_MAGIC_KEY demo_boot_cfg = 1"
  "STABILITY_WINDOW_MS demo_boot_cfg = 10000" "no_request demo_boot_cfg demo_boot_rtc"
  by (simp_all add: demo_boot_cfg_def demo_boot_rtc_def no_request_def)

theorem recovery_every_nth_witness:
  "power_cycles demo_boot_cfg map_nvs (\<lambda>n. (ESP_OK, Map.empty)) (replicate 4 demo_boot_rtc) Map.empty =
    [False, False, True, False]"
proof -
  have a: "flash_works map_nvs (\<lambda>n. n)" "holds_counter (\<lambda>n. n) Map.empty 0" "unat (0 :: u32) < 3"
    "3 = unat (RECOVERY_TRIGGER_COUNT demo_boot_cfg)" "BOOT_MODE_NORMAL demo_boot_cfg \<noteq> BOOT_MODE_FLASHER demo_boot_cfg"
    "\<forall>r\<in>set (replicate 4 demo_boot_rtc). no_request demo_boot_cfg r"
    by (simp_all add: map_flash_works holds_counter_def)
  have "map (\<lambda>i. (i + 1) mod 3 = 0) [0..<4] = [False, False, True, False]" by code_simp
  then show ?thesis
    using recovery_every_nth [OF a, of "\<lambda>n. (ESP_OK, Map.empty)"] by (simp only: length_replicate unat_0 add_0)
qed

text \<open>
  A start that stays up resets the pattern. With flash that works, a start that reaches
  \<open>loop\<close> keeps its count in flash up to the end of the stability window, and the first pass
  after the window clears it there.
\<close>

theorem stable_start_forgotten:
  assumes "flash_works api view" "holds_counter view n k" "k + 1 < RECOVERY_TRIGGER_COUNT c"
    and "k + 1 \<noteq> 0" "BOOT_MODE_NORMAL c \<noteq> BOOT_MODE_FLASHER c" "no_request c r"
    and "boot_entry c api erase False ESP_RST_POWERON r n = (enter, r1, t1, n1)"
    and "stabilityCheck c api now r1 t1 n1 = (r2, t2, n2)"
  shows "\<not> enter \<and> holds_counter view n2 (if now > STABILITY_WINDOW_MS c then 0 else k + 1)"
proof -
  obtain r' t' n' where b: "boot_entry c api erase False ESP_RST_POWERON r n =
      (RECOVERY_TRIGGER_COUNT c \<le> k + 1, r', t', n')" "bt_available t'"
    "holds_counter view n' (k + 1)" "bt_counter t' = k + 1" "g_stability_counter r' = k + 1"
    by (rule boot_entry_counts [OF assms(1,2,5,6), of erase]) (use assms(3) in \<open>simp add: not_le [symmetric]\<close>)
  have eq: "enter = (RECOVERY_TRIGGER_COUNT c \<le> k + 1)" "r1 = r'" "t1 = t'" "n1 = n'"
    using b(1) assms(7) by simp_all
  have "holds_counter view (snd (resetCounter api t1 n1)) 0"
    using reset_works(1) [OF assms(1) b(2)] b(3,4) by (simp add: eq)
  then show ?thesis
    using assms(3,4,8) b(3,5) by (auto simp: eq stabilityCheck_def Let_def split_def word_gt_0 split: if_splits)
qed

theorem stable_start_forgotten_witness:
  "\<exists>r1 t1 n1 r2 t2 n2. boot_entry demo_boot_cfg map_nvs (\<lambda>n. (ESP_OK, Map.empty)) False ESP_RST_POWERON
      demo_boot_rtc [(BOOTREC_NAMESPACE, KEY_COUNTER) \<mapsto> VU32 1] = (False, r1, t1, n1) \<and>
    stabilityCheck demo_boot_cfg map_nvs 10001 r1 t1 n1 = (r2, t2, n2) \<and> holds_counter (\<lambda>n. n) n2 0"
proof -
  let ?n = "[(BOOTREC_NAMESPACE, KEY_COUNTER) \<mapsto> VU32 1]"
  obtain enter r1 t1 n1 where b: "boot_entry demo_boot_cfg map_nvs (\<lambda>n. (ESP_OK, Map.empty)) False
      ESP_RST_POWERON demo_boot_rtc ?n = (enter, r1, t1, n1)" by (metis prod.collapse)
  obtain r2 t2 n2 where s: "stabilityCheck demo_boot_cfg map_nvs 10001 r1 t1 n1 = (r2, t2, n2)"
    by (metis prod.collapse)
  have "\<not> enter \<and> holds_counter (\<lambda>n. n) n2 0"
    using stable_start_forgotten [OF map_flash_works _ _ _ _ _ b s, of 1] by (simp add: holds_counter_def)
  then show ?thesis using b s by auto
qed

section \<open>Crash loops\<close>

text \<open>A sequence of starts by their reset reasons, each of which ends before \<open>setup\<close> does.\<close>

fun crash_starts ::
  "('n \<Rightarrow> esp_err \<times> 'n) \<Rightarrow> bool \<Rightarrow> reset_reason list \<Rightarrow> boot_rtc \<times> 'n \<Rightarrow> boot_rtc \<times> 'n" where
  "crash_starts erase pv [] s = s"
| "crash_starts erase pv (q # qs) s =
     crash_starts erase pv qs (performCrashRecoveryCheck erase pv q (fst s) (snd s))"

lemma crash_starts_pending: "crash_starts erase True qs s = s"
  by (induction qs arbitrary: s) (simp_all add: performCrashRecoveryCheck_def)

text \<open>
  The emergency erase. While the running image awaits confirmation, no sequence of starts
  erases the flash. Otherwise starts without a power loss among them erase it once per
  three crashes, watchdog resets included and software resets not counted: here the flash
  is the number of erases.
\<close>

theorem crash_loop_erases:
  assumes "\<forall>q\<in>set qs. q \<noteq> ESP_RST_POWERON \<and> q \<noteq> ESP_RST_BROWNOUT" "g_crash_counter r < 3"
  shows "crash_starts erase True qs (r, n) = (r, n) \<and>
    snd (crash_starts (\<lambda>n. (ESP_OK, n + 1)) False qs (r, 0)) =
      (unat (g_crash_counter r) + length (filter wasCrashReset qs)) div 3"
proof -
  have "snd (crash_starts (\<lambda>n. (ESP_OK, n + 1)) False qs (r, m)) =
      m + (unat (g_crash_counter r) + length (filter wasCrashReset qs)) div 3" for m :: nat
    using assms
  proof (induction qs arbitrary: r m)
    case Nil
    then show ?case by (simp add: word_less_nat_alt)
  next
    case (Cons q qs)
    let ?k = "g_crash_counter r"
    have small: "unat ?k < 3" using Cons.prems(2) by (simp add: word_less_nat_alt)
    then have u: "unat (?k + 1) = unat ?k + 1" by (simp add: unat_word_ariths)
    have third: "?k + 1 \<ge> CRASH_RECOVERY_THRESHOLD \<longleftrightarrow> unat ?k = 2" "?k \<ge> CRASH_RECOVERY_THRESHOLD \<longleftrightarrow> False"
      using small by (auto simp: CRASH_RECOVERY_THRESHOLD_def word_le_nat_alt u)
    have step: "performCrashRecoveryCheck (\<lambda>n. (ESP_OK, n + 1)) False q r m =
        (if wasCrashReset q then if unat ?k = 2 then (r\<lparr>g_crash_counter := 0\<rparr>, m + 1)
           else (r\<lparr>g_crash_counter := ?k + 1\<rparr>, m) else (r, m))"
      using Cons.prems(1) third by (simp add: performCrashRecoveryCheck_def)
    show ?case
    proof (cases "wasCrashReset q \<and> unat ?k \<noteq> 2")
      case True
      then have "?k + 1 < 3" using small u by (simp add: word_less_nat_alt)
      then show ?thesis
        using True Cons.prems(1) Cons.IH [of "r\<lparr>g_crash_counter := ?k + 1\<rparr>" m] by (simp add: step [simplified] u)
    next
      case False
      then show ?thesis
        using Cons.prems Cons.IH [of "r\<lparr>g_crash_counter := 0\<rparr>" "m + 1"] Cons.IH [of r m]
        by (auto simp: step [simplified])
    qed
  qed
  from this [of 0] show ?thesis by (simp add: crash_starts_pending)
qed

theorem crash_loop_erases_witness:
  "snd (crash_starts (\<lambda>n. (ESP_OK, n + 1)) False
     [ESP_RST_PANIC, ESP_RST_SW, ESP_RST_TASK_WDT, ESP_RST_PANIC, ESP_RST_INT_WDT]
     (demo_boot_rtc, 0)) = (1 :: nat)"
  using crash_loop_erases [of "[ESP_RST_PANIC, ESP_RST_SW, ESP_RST_TASK_WDT, ESP_RST_PANIC, ESP_RST_INT_WDT]"
      demo_boot_rtc "\<lambda>n. (ESP_OK, n)" "0 :: nat"]
  by (simp add: demo_boot_rtc_def wasCrashReset_def)

section \<open>Flasher mode on request\<close>

lemma sendAck_boot_words [simp]:
  "d_rtcMagic (call cs d) = d_rtcMagic d" "d_bootMode (call cs d) = d_bootMode d"
  by (simp_all add: call_def)

text \<open>
  C34: the request for flasher mode survives the restart and is honoured once. An accepted
  MSG_ENTER_OTA_MODE frame asks for a restart, the start after it enters the flasher, and the
  start after the flasher's own restart is a normal one, with flash that works and a trigger
  count above one.
\<close>

theorem enter_ota_reaches_flasher:
  assumes "processReceived c env (frame_bytes MSG_ENTER_OTA_MODE s []) d = Some d'" "p_initialized (d_proto d)"
    and "flash_works api view" "holds_counter view n k" "1 < RECOVERY_TRIGGER_COUNT b"
    and "BOOT_RTC_MAGIC_KEY b = RTC_MAGIC_KEY c" "BOOT_MODE_FLASHER b = MODE_FLASHER c"
    and "BOOT_MODE_NORMAL b \<noteq> BOOT_MODE_FLASHER b"
    and "boot_entry b api erase pv ESP_RST_SW
      \<lparr>g_crash_counter = 0, g_rtc_magic = d_rtcMagic d', g_boot_mode = d_bootMode d', g_stability_counter = j\<rparr> n =
      (enter1, r1, t1, n1)"
    and "boot_entry b api erase pv ESP_RST_SW r1 n1 = (enter2, r2, t2, n2)"
  shows "DC_restart \<in> set (d_calls d') \<and> enter1 \<and> \<not> enter2"
proof -
  have words: "d_rtcMagic d' = RTC_MAGIC_KEY c" "d_bootMode d' = MODE_FLASHER c" "DC_restart \<in> set (d_calls d')"
    using assms(1,2) by (auto simp: processReceived_frame MAX_PAYLOAD_SIZE_def dispatchMessage_def
        handleEnterOtaMode_def msg_code_def msg_of_code_def listed_types_def Let_def)
  let ?r = "\<lparr>g_crash_counter = 0, g_rtc_magic = RTC_MAGIC_KEY c, g_boot_mode = MODE_FLASHER c,
    g_stability_counter = j\<rparr>"
  have crash: "performCrashRecoveryCheck erase pv ESP_RST_SW r m = (r, m)" if "g_crash_counter r = 0" for r m
    using that by (simp add: performCrashRecoveryCheck_def wasCrashReset_def CRASH_RECOVERY_THRESHOLD_def)
  let ?t = "\<lparr>bt_initialized = True, bt_available = True, bt_counter = k + 1\<rparr>"
  let ?n = "persistCounter api ?t n"
  have p: "holds_counter view ?n (k + 1)" using persist_works [OF assms(3), of ?t n] by simp
  note q = reset_works [OF assms(3), of ?t ?n, simplified, OF p]
  have again: "resetCounter api (fst (resetCounter api ?t ?n)) m = (fst (resetCounter api ?t ?n), m)" for m
    using q by (simp add: resetCounter_def)
  note defs = boot_entry_def flasherEntry_def incrementIfEligible_def shouldIncrement_def Let_def split_def
  have "boot_entry b api erase pv ESP_RST_SW ?r n =
      (True, ?r\<lparr>g_boot_mode := BOOT_MODE_NORMAL b, g_stability_counter :=
        if RECOVERY_TRIGGER_COUNT b \<le> k + 1 then 0 else k + 1\<rparr>, resetCounter api ?t ?n)"
    using assms(6,7) by (simp add: defs crash tracker_init_works [OF assms(3,4)] again)
  then have 1: "enter1" "g_crash_counter r1 = 0" "g_rtc_magic r1 = BOOT_RTC_MAGIC_KEY b"
    "g_boot_mode r1 = BOOT_MODE_NORMAL b" "n1 = snd (resetCounter api ?t ?n)"
    using assms(6,9) by (auto simp: words)
  have "holds_counter view n1 0" using q(1) 1(5) by simp
  then have "\<not> enter2"
    using assms(5,8,10) 1(2-4) by (auto simp: defs crash tracker_init_works [OF assms(3)] not_le split: if_splits)
  then show ?thesis using words(3) 1(1) by simp
qed

theorem enter_ota_reaches_flasher_witness:
  "\<exists>d' r1 t1 n1. processReceived demo_dev_cfg demo_dev_env (frame_bytes MSG_ENTER_OTA_MODE 3 []) demo_device = Some d' \<and>
    boot_entry (demo_boot_cfg\<lparr>BOOT_MODE_FLASHER := MODE_FLASHER demo_dev_cfg\<rparr>) map_nvs (\<lambda>n. (ESP_OK, Map.empty)) False
      ESP_RST_SW \<lparr>g_crash_counter = 0, g_rtc_magic = d_rtcMagic d', g_boot_mode = d_bootMode d',
        g_stability_counter = 9\<rparr> Map.empty = (True, r1, t1, n1)"
proof -
  let ?b = "demo_boot_cfg\<lparr>BOOT_MODE_FLASHER := MODE_FLASHER demo_dev_cfg\<rparr>"
  obtain d' where d': "processReceived demo_dev_cfg demo_dev_env (frame_bytes MSG_ENTER_OTA_MODE 3 []) demo_device = Some d'"
    by (simp add: processReceived_frame MAX_PAYLOAD_SIZE_def dispatchMessage_def msg_code_def
        msg_of_code_def listed_types_def Let_def)
  obtain enter1 r1 t1 n1 where e1: "boot_entry ?b map_nvs (\<lambda>n. (ESP_OK, Map.empty)) False
      ESP_RST_SW \<lparr>g_crash_counter = 0, g_rtc_magic = d_rtcMagic d', g_boot_mode = d_bootMode d',
        g_stability_counter = 9\<rparr> Map.empty = (enter1, r1, t1, n1)" by (metis prod.collapse)
  obtain enter2 r2 t2 n2 where e2: "boot_entry ?b map_nvs (\<lambda>n. (ESP_OK, Map.empty)) False
      ESP_RST_SW r1 n1 = (enter2, r2, t2, n2)" by (metis prod.collapse)
  have b: "holds_counter (\<lambda>n. n) Map.empty 0" "1 < RECOVERY_TRIGGER_COUNT ?b"
    "BOOT_RTC_MAGIC_KEY ?b = RTC_MAGIC_KEY demo_dev_cfg" "BOOT_MODE_FLASHER ?b = MODE_FLASHER demo_dev_cfg"
    "BOOT_MODE_NORMAL ?b \<noteq> BOOT_MODE_FLASHER ?b" "p_initialized (d_proto demo_device)"
    by (simp_all add: holds_counter_def demo_boot_cfg_def demo_dev_cfg_def)
  show ?thesis
    using enter_ota_reaches_flasher [OF d' b(6) map_flash_works b(1-5) e1 e2] d' e1 by auto
qed

section \<open>Brownout and partitions\<close>

lemma restore_forgets:
  assumes "R = (\<lambda>x. restoreFromNvs c api junk lock (h\<lparr>h_state := x\<rparr>) n)" "rs_reserved st = rs_reserved st'"
  shows "fst (R st) = fst (R st')" "fst (R st) > 0 \<Longrightarrow> snd (R st) = snd (R st')"
    "(snd (R st))\<lparr>h_state := y\<rparr> = (snd (R st'))\<lparr>h_state := y\<rparr>"
proof -
  have all: "updateCRC (st\<lparr>rs_bootCount := b, rs_globalEventId := g, rs_head := i, rs_tail := j, rs_buffer := l,
      rs_magicNumber := m\<rparr>) = updateCRC (st'\<lparr>rs_bootCount := b, rs_globalEventId := g, rs_head := i,
      rs_tail := j, rs_buffer := l, rs_magicNumber := m\<rparr>)" for b g i j l m
    using assms(2) by (cases st; cases st') (simp add: updateCRC_def calculateBufferCRC_def)
  note defs = assms(1) restoreFromNvs_def Let_def
  show "fst (R st) = fst (R st')" "fst (R st) > 0 \<Longrightarrow> snd (R st) = snd (R st')"
    "(snd (R st))\<lparr>h_state := y\<rparr> = (snd (R st'))\<lparr>h_state := y\<rparr>"
    by (simp_all add: defs all split: if_splits)
qed

lemma cold_init:
  assumes "ie_resetReason env = ESP_RST_BROWNOUT"
  shows "history_init c api junk env h n =
    (let (k, h) = restoreFromNvs c api junk (ie_lock env) (init_primitives env h) n;
         h = h\<lparr>h_state := updateCRC (if k > 0 then (h_state h)\<lparr>rs_bootCount := rs_bootCount (h_state h) + 1\<rparr>
               else (resetState c)\<lparr>rs_bootCount := 1\<rparr>)\<rparr>
     in snd (startStorageWorker (ie_taskOk env)
          (h\<lparr>h_lastNvsFlushId := rs_globalEventId (h_state h), h_eventsSinceFlush := 0, h_initialized := True\<rparr>)))"
  using assms by (simp add: history_init_def init_primitives_def Let_def split_def)

text \<open>
  The brownout path saves nothing that flash did not hold. Its result, the flash included,
  is the same whatever RTC memory holds (the unused bytes of its record aside): \<open>history_init\<close> takes a brownout for a cold boot and
  restores the backup over the log before the pending events are counted and saved.
\<close>

theorem brownout_drops_rtc_log:
  assumes "ie_resetReason env = ESP_RST_BROWNOUT" "rs_reserved st = rs_reserved st'"
  shows "handleBrownoutRecovery c api junk env lock (h\<lparr>h_state := st\<rparr>) n =
    handleBrownoutRecovery c api junk env lock (h\<lparr>h_state := st'\<rparr>) n"
proof -
  have p: "init_primitives env (h\<lparr>h_state := x\<rparr>) = (init_primitives env h)\<lparr>h_state := x\<rparr>" for x
    by (simp add: init_primitives_def Let_def)
  define R where "R = (\<lambda>x. restoreFromNvs c api junk (ie_lock env) ((init_primitives env h)\<lparr>h_state := x\<rparr>) n)"
  note f = restore_forgets [OF R_def assms(2)]
  have "history_init c api junk env (h\<lparr>h_state := st\<rparr>) n = history_init c api junk env (h\<lparr>h_state := st'\<rparr>) n"
  proof (cases "fst (R st) > 0")
    case True
    then have "R st = R st'" by (intro prod_eqI f)
    then show ?thesis by (simp only: cold_init [OF assms(1)] p R_def [THEN fun_cong, symmetric])
  next
    case False
    then have z: "fst (R st) = 0" "fst (R st') = 0" using f(1) by (simp_all add: word_gt_0)
    show ?thesis
      using f(3) [of "updateCRC ((resetState c)\<lparr>rs_bootCount := 1\<rparr>)"]
      by (simp only: cold_init [OF assms(1)] p split_def Let_def R_def [THEN fun_cong, symmetric] z less_irrefl if_False)
  qed
  then show ?thesis using assms by (simp add: handleBrownoutRecovery_def)
qed

theorem brownout_drops_rtc_log_witness:
  "handleBrownoutRecovery demo_cfg map_prefs [] (demo_init_env\<lparr>ie_resetReason := ESP_RST_BROWNOUT\<rparr>) True
     (demo_history\<lparr>h_state := h_state demo_history\<rparr>) Map.empty =
   handleBrownoutRecovery demo_cfg map_prefs [] (demo_init_env\<lparr>ie_resetReason := ESP_RST_BROWNOUT\<rparr>) True
     (demo_history\<lparr>h_state := (h_state demo_history)\<lparr>rs_head := 0, rs_tail := 0\<rparr>\<rparr>) Map.empty"
  by (rule brownout_drops_rtc_log) simp_all

text \<open>
  The partition check passes exactly for a table with an \<open>nvs\<close> partition of at least 20 KiB,
  \<open>otadata\<close> and two application slots of one size, and otherwise reports the first defect in
  that order. The size of the slots is not compared with \<open>MIN_APP_SIZE\<close>.
\<close>

theorem validatePartitions_spec:
  "(fst (validatePartitions part s) \<longleftrightarrow>
     (\<exists>nvs app. part ''nvs'' = Some nvs \<and> 0x5000 \<le> nvs \<and> part ''otadata'' \<noteq> None \<and>
        part ''app0'' = Some app \<and> part ''app1'' = Some app)) \<and>
   (fst (validatePartitions part s) \<longleftrightarrow> sh_lastError (snd (validatePartitions part s)) = PE_OK)"
  by (auto simp: validatePartitions_def MIN_NVS_SIZE_def Let_def not_less split: option.splits)

text \<open>
  \<open>initNvs\<close> succeeds exactly if the flash opens, at once or after an erase, and it erases
  only flash that is full or of another version.
\<close>

theorem initNvs_erases_only_unusable:
  "(fst (initNvs api erase s n) = HAL_OK \<longleftrightarrow>
     (let err = n_flash_init api n
      in err = ESP_OK \<or> (err \<in> {ESP_ERR_NVS_NO_FREE_PAGES, ESP_ERR_NVS_NEW_VERSION_FOUND} \<and>
           fst (erase n) = ESP_OK \<and> n_flash_init api (snd (erase n)) = ESP_OK))) \<and>
   snd (snd (initNvs api erase s n)) =
     (if n_flash_init api n \<in> {ESP_ERR_NVS_NO_FREE_PAGES, ESP_ERR_NVS_NEW_VERSION_FOUND}
      then snd (erase n) else n)"
  by (auto simp: initNvs_def Let_def split_def)

end
