(* ===== verification/Fw_Wifi.thy ===== *)
theory Fw_Wifi
  imports Fw_Nvs
begin

text \<open>
  \<open>WifiService\<close> (\<open>src/src/Services/WifiService.cpp\<close>): the credentials and the states of a
  connection attempt. Every operation gives back the calls it makes in order: those of the
  Wi-Fi library and those of the two callbacks, which \<open>main\<close> binds to other services. The
  library's answers and the clock are a \<open>wifi_env\<close>; a second clock read in one call is
  \<open>we_later\<close>. The key-value store for strings is a parameter (\<open>creds_api\<close>).
\<close>

section \<open>State\<close>

datatype wifi_state = WIFI_DISABLED | DISCONNECTED | CONNECTING | CONNECTED | WIFI_ERROR

datatype wl_status = WL_IDLE_STATUS | WL_NO_SSID_AVAIL | WL_SCAN_COMPLETED | WL_CONNECTED
  | WL_CONNECT_FAILED | WL_CONNECTION_LOST | WL_DISCONNECTED | WL_NO_SHIELD

record wifi =
  w_state :: wifi_state
  w_ssid :: string
  w_password :: string
  w_lastConnectionAttempt :: u32
  w_connectionStartTime :: u32
  w_retryCount :: u8
  w_initialized :: bool
  w_lastDisconnectReason :: u8
  w_onConnectionChange :: bool
  w_onStatusChange :: bool

record wifi_env =
  we_now :: u32
  we_later :: u32
  we_modeNull :: bool
  we_status :: wl_status
  we_rssi :: u8
  we_ip :: u32

datatype wifi_act =
    W_mode_sta | W_mode_off | W_autoReconnect bool | W_hostname string | W_power_save
  | W_begin string string | W_disconnect bool
  | W_status u8 u8 u8 u32 | W_connection bool

record 'n creds_api =
  cr_begin :: "'n \<Rightarrow> string \<Rightarrow> bool \<Rightarrow> bool"
  cr_getString :: "'n \<Rightarrow> string \<Rightarrow> string \<Rightarrow> string"
  cr_putString :: "'n \<Rightarrow> string \<Rightarrow> string \<Rightarrow> string \<Rightarrow> nat \<times> 'n"
  cr_clear :: "'n \<Rightarrow> string \<Rightarrow> 'n"

definition CONNECT_TIMEOUT_MS :: u32 where "CONNECT_TIMEOUT_MS = 15000"
definition RETRY_INTERVAL_MS :: u32 where "RETRY_INTERVAL_MS = 60000"
definition MAX_RETRIES :: u8 where "MAX_RETRIES = 5"
definition LONG_BACKOFF_MS :: u32 where "LONG_BACKOFF_MS = 300000"
definition WIFI_NVS_NAMESPACE :: string where "WIFI_NVS_NAMESPACE = ''wifi_creds''"
definition NVS_KEY_SSID :: string where "NVS_KEY_SSID = ''ssid''"
definition NVS_KEY_PASS :: string where "NVS_KEY_PASS = ''pass''"
definition SSID_MAX_LENGTH :: nat where "SSID_MAX_LENGTH = 32"
definition PASS_MAX_LENGTH :: nat where "PASS_MAX_LENGTH = 64"
definition WIFI_REASON_4WAY_HANDSHAKE_TIMEOUT :: u8 where "WIFI_REASON_4WAY_HANDSHAKE_TIMEOUT = 15"
definition WIFI_REASON_NO_AP_FOUND :: u8 where "WIFI_REASON_NO_AP_FOUND = 201"
definition WIFI_REASON_AUTH_FAIL :: u8 where "WIFI_REASON_AUTH_FAIL = 202"

fun wifi_state_code :: "wifi_state \<Rightarrow> u8" where
  "wifi_state_code WIFI_DISABLED = 0"
| "wifi_state_code DISCONNECTED = 1"
| "wifi_state_code CONNECTING = 2"
| "wifi_state_code CONNECTED = 3"
| "wifi_state_code WIFI_ERROR = 4"

definition wifi_new :: wifi where
  "wifi_new = \<lparr>w_state = WIFI_DISABLED, w_ssid = '''', w_password = '''', w_lastConnectionAttempt = 0,
     w_connectionStartTime = 0, w_retryCount = 0, w_initialized = False, w_lastDisconnectReason = 0,
     w_onConnectionChange = False, w_onStatusChange = False\<rparr>"

section \<open>Operations\<close>

definition hasCredentials :: "wifi \<Rightarrow> bool" where
  "hasCredentials s \<longleftrightarrow> length (w_ssid s) > 0"

definition wifi_init :: "'n creds_api \<Rightarrow> 'n \<Rightarrow> wifi \<Rightarrow> wifi" where
  "wifi_init api n s =
     (if w_initialized s then s
      else
        let s = (if cr_begin api n WIFI_NVS_NAMESPACE True
                 then s\<lparr>w_ssid := cr_getString api n WIFI_NVS_NAMESPACE NVS_KEY_SSID,
                        w_password := cr_getString api n WIFI_NVS_NAMESPACE NVS_KEY_PASS\<rparr>
                 else s)
        in s\<lparr>w_initialized := True,
             w_state := if length (w_ssid s) > 0 then DISCONNECTED else WIFI_DISABLED\<rparr>)"

definition notifyStatus :: "wifi_env \<Rightarrow> wifi \<Rightarrow> wifi_act list" where
  "notifyStatus env s =
     (if \<not> w_onStatusChange s then []
      else
        let (rssi, ip) = (if w_state s = CONNECTED then (we_rssi env, we_ip env) else (0, 0));
            wifiReason = w_lastDisconnectReason s;
            reason = (if w_state s = WIFI_ERROR then
                        (if wifiReason = WIFI_REASON_AUTH_FAIL \<or>
                            wifiReason = WIFI_REASON_4WAY_HANDSHAKE_TIMEOUT \<or> wifiReason = 15 then 1
                         else if wifiReason = WIFI_REASON_NO_AP_FOUND \<or> wifiReason = 201 then 2
                         else 255)
                      else 0)
        in [W_status (wifi_state_code (w_state s)) reason rssi ip])"

definition notifyConnection :: "bool \<Rightarrow> wifi \<Rightarrow> wifi_act list" where
  "notifyConnection up s = (if w_onConnectionChange s then [W_connection up] else [])"

definition wifi_connect :: "wifi_env \<Rightarrow> wifi \<Rightarrow> wifi_act list \<times> wifi" where
  "wifi_connect env s =
     (if length (w_ssid s) = 0 then ([], s\<lparr>w_state := WIFI_DISABLED\<rparr>)
      else
        let s = s\<lparr>w_state := CONNECTING, w_connectionStartTime := we_now env,
                  w_lastConnectionAttempt := we_later env, w_retryCount := 0\<rparr>
        in ([W_mode_sta, W_autoReconnect False, W_hostname ''SensorDevice'', W_power_save]
              @ notifyStatus env s @ [W_begin (w_ssid s) (w_password s)], s))"

definition handleConnectionTimeout :: "wifi_env \<Rightarrow> wifi \<Rightarrow> wifi_act list \<times> wifi" where
  "handleConnectionTimeout env s =
     (let s = s\<lparr>w_state := WIFI_ERROR, w_lastConnectionAttempt := we_later env\<rparr>
      in ([W_disconnect False] @ notifyStatus env s @ notifyConnection False s, s))"

definition handleConnected :: "wifi_env \<Rightarrow> wifi \<Rightarrow> wifi_act list \<times> wifi" where
  "handleConnected env s =
     (let s = s\<lparr>w_state := CONNECTED, w_retryCount := 0\<rparr>
      in (notifyStatus env s @ notifyConnection True s, s))"

definition handleDisconnected :: "wifi_env \<Rightarrow> wifi \<Rightarrow> wifi_act list \<times> wifi" where
  "handleDisconnected env s =
     (let s = s\<lparr>w_state := WIFI_ERROR, w_lastConnectionAttempt := we_later env\<rparr>
      in (notifyStatus env s @ notifyConnection False s, s))"

definition wifi_update :: "wifi_env \<Rightarrow> wifi \<Rightarrow> wifi_act list \<times> wifi" where
  "wifi_update env s =
     (if \<not> w_initialized s then ([], s)
      else if (w_state s = DISCONNECTED \<or> w_state s = WIFI_DISABLED) \<and> we_modeNull env then ([], s)
      else case w_state s of
          CONNECTING \<Rightarrow>
            if we_status env = WL_CONNECTED then handleConnected env s
            else if we_now env - w_connectionStartTime s > CONNECT_TIMEOUT_MS
            then handleConnectionTimeout env s
            else if we_status env = WL_CONNECT_FAILED \<or> we_status env = WL_NO_SSID_AVAIL
            then handleDisconnected env s
            else ([], s)
        | DISCONNECTED \<Rightarrow> if we_status env = WL_CONNECTED then handleConnected env s else ([], s)
        | CONNECTED \<Rightarrow> if we_status env \<noteq> WL_CONNECTED then handleDisconnected env s else ([], s)
        | _ \<Rightarrow> ([], s))"

definition wifi_shutdown :: "wifi \<Rightarrow> wifi_act list \<times> wifi" where
  "wifi_shutdown s =
     (let drop = (if w_state s = CONNECTED \<or> w_state s = CONNECTING then [W_disconnect True] else []);
          s = s\<lparr>w_state := if length (w_ssid s) > 0 then DISCONNECTED else WIFI_DISABLED,
                w_retryCount := 0\<rparr>
      in (drop @ [W_mode_off] @ notifyConnection False s, s))"

definition setCredentials ::
  "'n creds_api \<Rightarrow> wifi_env \<Rightarrow> string \<Rightarrow> string \<Rightarrow> wifi \<Rightarrow> 'n \<Rightarrow>
   bool \<times> wifi_act list \<times> wifi \<times> 'n" where
  "setCredentials api env ssid password s n =
     (if length ssid = 0 then (False, [], s, n)
      else if length ssid > SSID_MAX_LENGTH then (False, [], s, n)
      else if length password > PASS_MAX_LENGTH then (False, [], s, n)
      else if \<not> cr_begin api n WIFI_NVS_NAMESPACE False then (False, [], s, n)
      else
        let success = True;
            (k, n) = cr_putString api n WIFI_NVS_NAMESPACE NVS_KEY_SSID ssid;
            success = and_assign success k;
            (k, n) = cr_putString api n WIFI_NVS_NAMESPACE NVS_KEY_PASS password;
            success = and_assign success k
        in if \<not> success then (False, [], s, n)
           else
             let s = s\<lparr>w_ssid := ssid, w_password := password, w_retryCount := 0\<rparr>;
                 drop = (if w_state s = CONNECTED \<or> w_state s = CONNECTING then [W_disconnect False] else []);
                 (acts, s) = wifi_connect env (s\<lparr>w_state := DISCONNECTED\<rparr>)
             in (True, drop @ acts, s, n))"

definition clearCredentials :: "'n creds_api \<Rightarrow> wifi \<Rightarrow> 'n \<Rightarrow> wifi_act list \<times> wifi \<times> 'n" where
  "clearCredentials api s n =
     (let n = (if cr_begin api n WIFI_NVS_NAMESPACE False then cr_clear api n WIFI_NVS_NAMESPACE else n);
          s = s\<lparr>w_ssid := '''', w_password := '''', w_retryCount := 0, w_state := WIFI_DISABLED\<rparr>
      in ([W_disconnect True] @ notifyConnection False s, s, n))"

definition startConnection :: "wifi_env \<Rightarrow> wifi \<Rightarrow> bool \<times> wifi_act list \<times> wifi" where
  "startConnection env s =
     (if \<not> w_initialized s then (False, [], s)
      else if \<not> hasCredentials s then (False, [], s)
      else if w_state s = CONNECTED then (True, [], s)
      else if w_state s = CONNECTING then (True, [], s)
      else
        let (acts, s) = wifi_connect env (s\<lparr>w_state := DISCONNECTED, w_retryCount := 0\<rparr>)
        in (True, acts, s))"

definition calculateRetryDelay :: "wifi \<Rightarrow> u32" where
  "calculateRetryDelay s = (if w_retryCount s \<ge> MAX_RETRIES then LONG_BACKOFF_MS else RETRY_INTERVAL_MS)"

definition setConnectionCallback :: "bool \<Rightarrow> wifi \<Rightarrow> wifi" where
  "setConnectionCallback cb s = s\<lparr>w_onConnectionChange := cb\<rparr>"

definition setStatusCallback :: "bool \<Rightarrow> wifi \<Rightarrow> wifi" where
  "setStatusCallback cb s = s\<lparr>w_onStatusChange := cb\<rparr>"

definition getRSSI :: "wifi_env \<Rightarrow> wifi \<Rightarrow> u8" where
  "getRSSI env s = (if w_state s = CONNECTED then we_rssi env else 0)"

fun wifi_state_name :: "wifi_state \<Rightarrow> string" where
  "wifi_state_name WIFI_DISABLED = ''DISABLED''"
| "wifi_state_name DISCONNECTED = ''DISCONNECTED''"
| "wifi_state_name CONNECTING = ''CONNECTING''"
| "wifi_state_name CONNECTED = ''CONNECTED''"
| "wifi_state_name WIFI_ERROR = ''ERROR''"

section \<open>Steps of the service\<close>

text \<open>Any call of a public operation, with the calls it makes in turn.\<close>

inductive wifi_step :: "'n creds_api \<Rightarrow> wifi \<times> 'n \<Rightarrow> wifi_act list \<Rightarrow> wifi \<times> 'n \<Rightarrow> bool" for api where
  ws_update: "wifi_update env s = (acts, s') \<Longrightarrow> wifi_step api (s, n) acts (s', n)"
| ws_shutdown: "wifi_shutdown s = (acts, s') \<Longrightarrow> wifi_step api (s, n) acts (s', n)"
| ws_set: "setCredentials api env ssid pass s n = (r, acts, s', n') \<Longrightarrow> wifi_step api (s, n) acts (s', n')"
| ws_clear: "clearCredentials api s n = (acts, s', n') \<Longrightarrow> wifi_step api (s, n) acts (s', n')"
| ws_start: "startConnection env s = (r, acts, s') \<Longrightarrow> wifi_step api (s, n) acts (s', n)"

inductive wifi_run :: "'n creds_api \<Rightarrow> wifi \<times> 'n \<Rightarrow> wifi_act list \<Rightarrow> wifi \<times> 'n \<Rightarrow> bool" for api where
  wr_nil: "wifi_run api s [] s"
| wr_step: "wifi_run api s acts s' \<Longrightarrow> wifi_step api s' acts' s'' \<Longrightarrow> wifi_run api s (acts @ acts') s''"

inductive_cases wifi_stepE: "wifi_step api s acts s'"

text \<open>
  What holds between operations: away from \<open>WIFI_DISABLED\<close> there is an SSID, nothing counts
  a retry and nothing records why a connection ended.
\<close>

definition wifi_ok :: "wifi \<Rightarrow> bool" where
  "wifi_ok s \<longleftrightarrow> (w_state s \<noteq> WIFI_DISABLED \<longrightarrow> w_ssid s \<noteq> '''') \<and> w_retryCount s = 0 \<and>
     w_lastDisconnectReason s = 0"

text \<open>Every status report of a list gives no reason, or the code for an unknown one.\<close>

definition reasons_unknown :: "wifi_act list \<Rightarrow> bool" where
  "reasons_unknown acts \<longleftrightarrow>
     (\<forall>a\<in>set acts. case a of W_status st reason rssi ip \<Rightarrow> reason = 0 \<or> reason = 255 | _ \<Rightarrow> True)"

lemma reasons_unknown_simps [simp]:
  "reasons_unknown []" "reasons_unknown (a @ b) \<longleftrightarrow> reasons_unknown a \<and> reasons_unknown b"
  "reasons_unknown (W_begin p q # a) = reasons_unknown a" "reasons_unknown (W_disconnect d # a) = reasons_unknown a"
  "reasons_unknown (W_mode_sta # a) = reasons_unknown a" "reasons_unknown (W_mode_off # a) = reasons_unknown a"
  "reasons_unknown (W_autoReconnect d # a) = reasons_unknown a" "reasons_unknown (W_hostname p # a) = reasons_unknown a"
  "reasons_unknown (W_power_save # a) = reasons_unknown a" "reasons_unknown (notifyConnection d s)"
  by (auto simp: reasons_unknown_def notifyConnection_def)

lemma notify_unknown [simp]: "w_lastDisconnectReason s = 0 \<Longrightarrow> reasons_unknown (notifyStatus env s)"
  by (auto simp: reasons_unknown_def notifyStatus_def WIFI_REASON_AUTH_FAIL_def WIFI_REASON_NO_AP_FOUND_def
      WIFI_REASON_4WAY_HANDSHAKE_TIMEOUT_def split_def)

lemma connect_ok:
  "wifi_ok (s\<lparr>w_state := WIFI_DISABLED\<rparr>) \<Longrightarrow>
   wifi_ok (snd (wifi_connect env s)) \<and> reasons_unknown (fst (wifi_connect env s))"
  by (simp add: wifi_connect_def wifi_ok_def Let_def)

lemma wifi_step_ok:
  assumes "wifi_step api s acts s'" "wifi_ok (fst s)"
  shows "wifi_ok (fst s') \<and> reasons_unknown acts"
  using assms(1)
proof cases
  case (ws_update env s0 s1 n)
  then show ?thesis
    using assms(2)
    by (auto simp: wifi_update_def handleConnected_def handleDisconnected_def handleConnectionTimeout_def
        wifi_ok_def Let_def split: if_splits wifi_state.splits)
next
  case (ws_shutdown s0 s1 n)
  then show ?thesis using assms(2) by (auto simp: wifi_shutdown_def wifi_ok_def Let_def)
next
  case (ws_set env ssid pass s0 n r s1 n')
  let ?s = "s0\<lparr>w_ssid := ssid, w_password := pass, w_retryCount := 0, w_state := DISCONNECTED\<rparr>"
  have "wifi_ok (?s\<lparr>w_state := WIFI_DISABLED\<rparr>)" using assms(2) ws_set by (simp add: wifi_ok_def)
  from connect_ok [OF this, of env] show ?thesis
    using assms(2) ws_set by (auto simp: setCredentials_def Let_def split_def split: if_splits)
next
  case (ws_clear s0 s1 n n')
  then show ?thesis using assms(2) by (auto simp: clearCredentials_def wifi_ok_def Let_def)
next
  case (ws_start env s0 r s1 n)
  have "wifi_ok (s0\<lparr>w_state := DISCONNECTED, w_retryCount := 0, w_state := WIFI_DISABLED\<rparr>)"
    using assms(2) ws_start by (simp add: wifi_ok_def)
  from connect_ok [OF this, of env] show ?thesis
    using assms(2) ws_start by (auto simp: startConnection_def Let_def split_def split: if_splits)
qed

lemma init_wifi_ok: "wifi_ok (wifi_init api n wifi_new)"
  by (simp add: wifi_init_def wifi_new_def wifi_ok_def Let_def)

text \<open>The store as a map; a put returns the length of the string.\<close>

definition map_creds :: "(string \<times> string \<Rightarrow> string option) creds_api" where
  "map_creds = \<lparr>cr_begin = (\<lambda>n ns ro. True),
     cr_getString = (\<lambda>n ns k. case n (ns, k) of None \<Rightarrow> '''' | Some v \<Rightarrow> v),
     cr_putString = (\<lambda>n ns k v. (length v, n((ns, k) \<mapsto> v))),
     cr_clear = (\<lambda>n ns kk. if fst kk = ns then None else n kk)\<rparr>"

definition creds_ok :: "'n creds_api \<Rightarrow> ('n \<Rightarrow> string \<times> string \<Rightarrow> string option) \<Rightarrow> bool" where
  "creds_ok api view \<longleftrightarrow> (\<forall>n ns ro. cr_begin api n ns ro) \<and>
     (\<forall>n ns k. cr_getString api n ns k = (case view n (ns, k) of None \<Rightarrow> '''' | Some v \<Rightarrow> v)) \<and>
     (\<forall>n ns k v. fst (cr_putString api n ns k v) = length v \<and>
        view (snd (cr_putString api n ns k v)) = (view n)((ns, k) \<mapsto> v))"

lemma map_creds_ok: "creds_ok map_creds (\<lambda>n. n)"
  by (simp add: creds_ok_def map_creds_def)

section \<open>Properties\<close>

text \<open>
  Whether new credentials are accepted depends on the parity of their lengths. With a
  store that never fails, \<open>setCredentials\<close> reports success exactly if the lengths of SSID and
  password are both odd (and within bounds); in the other cases it keeps the old credentials
  in use, yet both new strings are in flash and the next boot takes them.
\<close>

theorem setCredentials_parity:
  assumes "creds_ok api view" "0 < length ssid" "length ssid \<le> 32" "length pass \<le> 64"
    and "setCredentials api env ssid pass s n = (r, acts, s', n')"
  shows "(r \<longleftrightarrow> odd (length ssid) \<and> odd (length pass)) \<and> (\<not> r \<longrightarrow> s' = s \<and> acts = []) \<and>
    w_ssid (wifi_init api n' wifi_new) = ssid \<and> w_password (wifi_init api n' wifi_new) = pass"
proof -
  obtain k1 n1 k2 n2 where p: "cr_putString api n WIFI_NVS_NAMESPACE NVS_KEY_SSID ssid = (k1, n1)"
    "cr_putString api n1 WIFI_NVS_NAMESPACE NVS_KEY_PASS pass = (k2, n2)" by (metis prod.collapse)
  have b: "cr_begin api m ns ro" and g: "cr_getString api m ns k = (case view m (ns, k) of None \<Rightarrow> '''' | Some v \<Rightarrow> v)"
    for m ns ro k using assms(1) by (simp_all add: creds_ok_def)
  have v: "k1 = length ssid" "view n1 = (view n)((WIFI_NVS_NAMESPACE, NVS_KEY_SSID) \<mapsto> ssid)"
    "k2 = length pass" "view n2 = (view n1)((WIFI_NVS_NAMESPACE, NVS_KEY_PASS) \<mapsto> pass)"
    using assms(1) p unfolding creds_ok_def by (metis fst_conv snd_conv)+
  have "n' = n2" "r \<longleftrightarrow> odd (length ssid) \<and> odd (length pass)" "\<not> r \<longrightarrow> s' = s \<and> acts = []"
    using assms(2-5) b by (auto simp: setCredentials_def p v(1,3) and_assign_iff Let_def split_def SSID_MAX_LENGTH_def
        PASS_MAX_LENGTH_def split: if_splits)
  then show ?thesis
    using v(2,4) by (simp add: wifi_init_def wifi_new_def b g NVS_KEY_SSID_def NVS_KEY_PASS_def Let_def)
qed

definition demo_wifi_env :: wifi_env where
  "demo_wifi_env = \<lparr>we_now = 100, we_later = 101, we_modeNull = False, we_status = WL_DISCONNECTED,
     we_rssi = 0, we_ip = 0\<rparr>"

theorem setCredentials_parity_witness:
  "\<exists>acts s' n'. setCredentials map_creds demo_wifi_env ''home'' ''secret1'' wifi_new Map.empty = (False, acts, s', n') \<and>
    s' = wifi_new \<and> w_ssid (wifi_init map_creds n' wifi_new) = ''home''"
proof -
  obtain r acts s' n' where e: "setCredentials map_creds demo_wifi_env ''home'' ''secret1'' wifi_new Map.empty =
      (r, acts, s', n')" by (metis prod.collapse)
  show ?thesis using setCredentials_parity [OF map_creds_ok _ _ _ e] e by simp
qed

text \<open>
  Over every sequence of calls the service is sound: away from \<open>WIFI_DISABLED\<close> it has an
  SSID, so an attempt always has a target. The same invariant shows two mechanisms dead: no
  call ever counts a retry, so the delay is always the short one, and none ever records why a
  connection ended, so a status report never tells a wrong password or a missing network from
  any other failure.
\<close>

theorem wifi_runs_sound:
  assumes "wifi_run api (wifi_init api n wifi_new\<lparr>w_onConnectionChange := a, w_onStatusChange := b\<rparr>, n) acts (s, n')"
  shows "(w_state s = WIFI_DISABLED \<or> hasCredentials s) \<and> calculateRetryDelay s = RETRY_INTERVAL_MS \<and>
    (\<forall>x\<in>set acts. case x of W_status st reason rssi ip \<Rightarrow> reason \<in> {0, 255} | _ \<Rightarrow> True)"
proof -
  have "wifi_ok s \<and> reasons_unknown acts"
    if "wifi_run api s0 acts s1" "wifi_ok (fst s0)" "s1 = (s, n')" for s0 s1
    using that
  proof (induction arbitrary: s n' rule: wifi_run.induct)
    case (wr_step s acts s' acts' s'')
    then show ?case using wifi_step_ok [of api s' acts' s''] by (cases s') auto
  qed auto
  from this [OF assms] have "wifi_ok s" "reasons_unknown acts"
    using init_wifi_ok [of api n] by (simp_all add: wifi_ok_def)
  then show ?thesis
    by (auto simp: wifi_ok_def hasCredentials_def calculateRetryDelay_def MAX_RETRIES_def reasons_unknown_def
        split: wifi_act.splits)
qed

theorem wifi_runs_sound_witness:
  "w_state (snd (wifi_shutdown (wifi_init map_creds Map.empty wifi_new))) = WIFI_DISABLED \<or>
   hasCredentials (snd (wifi_shutdown (wifi_init map_creds Map.empty wifi_new)))"
proof -
  let ?s = "wifi_init map_creds Map.empty wifi_new\<lparr>w_onConnectionChange := False, w_onStatusChange := False\<rparr>"
  have e: "?s = wifi_init map_creds Map.empty wifi_new" by (simp add: wifi_init_def wifi_new_def Let_def)
  obtain acts s' where s': "wifi_shutdown ?s = (acts, s')" by (metis prod.collapse)
  have "wifi_run map_creds (?s, Map.empty) ([] @ acts) (s', Map.empty)"
    by (rule wr_step [OF wr_nil ws_shutdown [OF s']])
  from wifi_runs_sound [OF this] show ?thesis using s' by (simp add: e)
qed

text \<open>
  A connection attempt ends. Any update later than the time limit after its start leaves
  \<open>CONNECTING\<close>: the service is connected if the library is, and otherwise failed with the
  failure passed on.
\<close>

theorem attempt_ends:
  assumes "w_initialized s" "w_state s = CONNECTING" "we_now env - w_connectionStartTime s > 15000"
    and "w_onConnectionChange s" "wifi_update env s = (acts, s')"
  shows "w_state s' = (if we_status env = WL_CONNECTED then CONNECTED else WIFI_ERROR) \<and>
    W_connection (we_status env = WL_CONNECTED) \<in> set acts"
  using assms by (auto simp: wifi_update_def handleConnected_def handleConnectionTimeout_def
      notifyConnection_def CONNECT_TIMEOUT_MS_def Let_def)

theorem attempt_ends_witness:
  "\<exists>acts s'. wifi_update (demo_wifi_env\<lparr>we_now := 15200\<rparr>) (wifi_new\<lparr>w_initialized := True, w_state := CONNECTING,
      w_connectionStartTime := 100, w_onConnectionChange := True\<rparr>) = (acts, s') \<and> w_state s' = WIFI_ERROR"
proof -
  let ?s = "wifi_new\<lparr>w_initialized := True, w_state := CONNECTING, w_connectionStartTime := 100,
    w_onConnectionChange := True\<rparr>" and ?e = "demo_wifi_env\<lparr>we_now := 15200\<rparr>"
  obtain acts s' where u: "wifi_update ?e ?s = (acts, s')" by (metis prod.collapse)
  show ?thesis using attempt_ends [OF _ _ _ _ u] u by (simp add: demo_wifi_env_def)
qed

end
