(* ===== verification/Fw_Time.thy ===== *)
theory Fw_Time
  imports Fw_Wifi Fw_Delivery
begin

text \<open>
  \<open>TimeService\<close> (\<open>src/src/Services/TimeService.cpp\<close>) and its wiring with \<open>WifiService\<close>, the
  protocol handler and the history in \<open>src/src/main.cpp\<close>. A \<open>net\<close> is the device with the two
  services and the log of what they ask of the radio, of SNTP and of the time callback.
  \<open>ck_time\<close> is what \<open>time\<close> returns, \<open>ck_time2\<close> what a second call returns.
\<close>

section \<open>State\<close>

datatype clock_state = UNSYNCED | SYNCING | VALID

record sync_timer =
  tm_period :: u32
  tm_started :: "u32 option"

record time_service =
  ts_state :: clock_state
  ts_initialized :: bool
  ts_sntpStarted :: bool
  ts_callbackFired :: bool
  ts_lastTimeCheck :: u32
  ts_syncStartTime :: u32
  ts_onTimeSync :: bool
  ts_timer :: "sync_timer option"
  ts_oneShotSyncActive :: bool
  ts_bootReason :: reset_reason

datatype net_act = N_radio wifi_act | N_sntp_init | N_sntp_stop | N_sync u32

record ('n, 'u) net =
  nt_dev :: "('n, 'u) device"
  nt_wifi :: wifi
  nt_time :: time_service
  nt_log :: "net_act list"

record net_env =
  ck_dev :: dev_env
  ck_wifi :: wifi_env
  ck_now :: u32
  ck_time :: int
  ck_time2 :: int
  ck_timerOk :: bool

definition SYNC_MIN_VALID_EPOCH :: int where "SYNC_MIN_VALID_EPOCH = 1577836800"
definition TIME_CHECK_INTERVAL_MS :: u32 where "TIME_CHECK_INTERVAL_MS = 1000"
definition ONE_SHOT_SYNC_TIMEOUT_MS :: u32 where "ONE_SHOT_SYNC_TIMEOUT_MS = 20000"
definition PROVISIONING_TIMEOUT_MS :: u32 where "PROVISIONING_TIMEOUT_MS = 300000"

definition time_new :: time_service where
  "time_new = \<lparr>ts_state = UNSYNCED, ts_initialized = False, ts_sntpStarted = False,
     ts_callbackFired = False, ts_lastTimeCheck = 0, ts_syncStartTime = 0, ts_onTimeSync = False,
     ts_timer = None, ts_oneShotSyncActive = False, ts_bootReason = ESP_RST_UNKNOWN\<rparr>"

definition on_time :: "(time_service \<Rightarrow> time_service) \<Rightarrow> ('n, 'u) net \<Rightarrow> ('n, 'u) net" where
  "on_time f s = s\<lparr>nt_time := f (nt_time s)\<rparr>"

definition note_net :: "net_act list \<Rightarrow> ('n, 'u) net \<Rightarrow> ('n, 'u) net" where
  "note_net as s = s\<lparr>nt_log := nt_log s @ as\<rparr>"

section \<open>Operations of the time service\<close>

definition time_init :: "reset_reason \<Rightarrow> bool \<Rightarrow> time_service \<Rightarrow> time_service" where
  "time_init reason timerOk s =
     (if ts_initialized s then s
      else s\<lparr>ts_bootReason := reason,
             ts_timer := if timerOk then Some \<lparr>tm_period = ONE_SHOT_SYNC_TIMEOUT_MS, tm_started = None\<rparr> else None,
             ts_initialized := True, ts_state := UNSYNCED\<rparr>)"

definition checkTimeValidity :: "int \<Rightarrow> bool" where
  "checkTimeValidity now \<longleftrightarrow> now \<ge> SYNC_MIN_VALID_EPOCH"

definition getEpoch :: "int \<Rightarrow> u32" where
  "getEpoch now = (if now < SYNC_MIN_VALID_EPOCH then 0 else word_of_int now)"

text \<open>\<open>main\<close> binds the time callback to \<open>HistoryService::onSystemTimeSynced\<close>.\<close>

definition fire_sync ::
  "('n, 'u) dev_cfg \<Rightarrow> net_env \<Rightarrow> u32 \<Rightarrow> ('n, 'u) net \<Rightarrow> ('n, 'u) net option" where
  "fire_sync c env epoch s =
     (let d = nt_dev s;
          (ms, d) = ask_ms (ck_dev env) d;
          (lock, d) = ask_lock (ck_dev env) d;
          tenv = \<lparr>te_millis = ms, te_uptime = e_uptime (ck_dev env) (d_tick d), te_lock = lock,
                  te_qsend = e_qsend (ck_dev env) (d_tick d)\<rparr>;
          d = tick d
      in case onSystemTimeSynced (v_hist c) epoch tenv (d_hist d) of
           None \<Rightarrow> None
         | Some (tv, h) \<Rightarrow>
             Some (note_net [N_sync epoch]
               (s\<lparr>nt_dev := call (case tv of Some (t, us) \<Rightarrow> [DC_settime t us] | None \<Rightarrow> [])
                    (d\<lparr>d_hist := h\<rparr>)\<rparr>)))"

definition time_callback ::
  "('n, 'u) dev_cfg \<Rightarrow> net_env \<Rightarrow> u32 \<Rightarrow> ('n, 'u) net \<Rightarrow> ('n, 'u) net option" where
  "time_callback c env epoch s =
     (if ts_onTimeSync (nt_time s) \<and> \<not> ts_callbackFired (nt_time s)
      then fire_sync c env epoch (on_time (\<lambda>t. t\<lparr>ts_callbackFired := True\<rparr>) s)
      else Some s)"

definition initSNTP :: "('n, 'u) net \<Rightarrow> ('n, 'u) net" where
  "initSNTP s =
     (let s = (if ts_sntpStarted (nt_time s)
               then on_time (\<lambda>t. t\<lparr>ts_sntpStarted := False\<rparr>) (note_net [N_sntp_stop] s) else s)
      in on_time (\<lambda>t. t\<lparr>ts_sntpStarted := True\<rparr>) (note_net [N_sntp_init] s))"

definition stopSync :: "('n, 'u) net \<Rightarrow> ('n, 'u) net" where
  "stopSync s =
     (if \<not> ts_sntpStarted (nt_time s) then s
      else on_time (\<lambda>t. t\<lparr>ts_sntpStarted := False\<rparr>) (note_net [N_sntp_stop] s))"

definition startSync :: "('n, 'u) dev_cfg \<Rightarrow> net_env \<Rightarrow> ('n, 'u) net \<Rightarrow> ('n, 'u) net option" where
  "startSync c env s =
     (if \<not> ts_initialized (nt_time s) then Some s
      else if checkTimeValidity (ck_time env) then
        time_callback c env (getEpoch (ck_time2 env)) (on_time (\<lambda>t. t\<lparr>ts_state := VALID\<rparr>) s)
      else
        Some (initSNTP (on_time (\<lambda>t. t\<lparr>ts_state := SYNCING, ts_syncStartTime := ck_now env\<rparr>) s)))"

section \<open>The callbacks of the Wi-Fi service\<close>

text \<open>
  \<open>main\<close> binds the connection callback to \<open>startSync\<close> (a loss is only logged) and the status
  callback to \<open>sendWifiStatus\<close>.
\<close>

fun wifi_call ::
  "('n, 'u) dev_cfg \<Rightarrow> net_env \<Rightarrow> wifi_act \<Rightarrow> ('n, 'u) net \<Rightarrow> ('n, 'u) net option" where
  "wifi_call c env (W_connection up) s = (if up then startSync c env s else Some s)"
| "wifi_call c env (W_status st reason rssi ip) s =
     Some (s\<lparr>nt_dev := snd (sendWifiStatus (ck_dev env) st reason rssi ip (nt_dev s))\<rparr>)"
| "wifi_call c env a s = Some (note_net [N_radio a] s)"

fun wifi_calls ::
  "('n, 'u) dev_cfg \<Rightarrow> net_env \<Rightarrow> wifi_act list \<Rightarrow> ('n, 'u) net \<Rightarrow> ('n, 'u) net option" where
  "wifi_calls c env [] s = Some s"
| "wifi_calls c env (a # as) s =
     (case wifi_call c env a s of None \<Rightarrow> None | Some s \<Rightarrow> wifi_calls c env as s)"

definition with_wifi ::
  "('n, 'u) dev_cfg \<Rightarrow> net_env \<Rightarrow> (wifi \<Rightarrow> wifi_act list \<times> wifi) \<Rightarrow> ('n, 'u) net \<Rightarrow> ('n, 'u) net option" where
  "with_wifi c env f s = (let (as, w) = f (nt_wifi s) in wifi_calls c env as (s\<lparr>nt_wifi := w\<rparr>))"

section \<open>The end of a one-shot sync\<close>

definition handleSyncSuccess ::
  "('n, 'u) dev_cfg \<Rightarrow> net_env \<Rightarrow> ('n, 'u) net \<Rightarrow> ('n, 'u) net option" where
  "handleSyncSuccess c env s =
     (let s = on_time (\<lambda>t. t\<lparr>ts_timer := map_option (\<lambda>m. m\<lparr>tm_started := None\<rparr>) (ts_timer t),
                              ts_oneShotSyncActive := False\<rparr>) s
      in case with_wifi c env wifi_shutdown s of None \<Rightarrow> None | Some s \<Rightarrow> Some (stopSync s))"

definition handleSyncTimeout ::
  "('n, 'u) dev_cfg \<Rightarrow> net_env \<Rightarrow> ('n, 'u) net \<Rightarrow> ('n, 'u) net option" where
  "handleSyncTimeout c env s =
     (let s = on_time (\<lambda>t. t\<lparr>ts_oneShotSyncActive := False\<rparr>) s
      in case with_wifi c env wifi_shutdown s of None \<Rightarrow> None | Some s \<Rightarrow> Some (stopSync s))"

text \<open>The timer is a one-shot timer; its callback finds the service in the timer's identifier.\<close>

definition syncTimeoutCallback ::
  "('n, 'u) dev_cfg \<Rightarrow> net_env \<Rightarrow> ('n, 'u) net \<Rightarrow> ('n, 'u) net option" where
  "syncTimeoutCallback c env s =
     handleSyncTimeout c env
       (on_time (\<lambda>t. t\<lparr>ts_timer := map_option (\<lambda>m. m\<lparr>tm_started := None\<rparr>) (ts_timer t)\<rparr>) s)"

definition timer_due :: "u32 \<Rightarrow> time_service \<Rightarrow> bool" where
  "timer_due now t = (case ts_timer t of None \<Rightarrow> False
     | Some m \<Rightarrow> (case tm_started m of None \<Rightarrow> False | Some t0 \<Rightarrow> now - t0 \<ge> tm_period m))"

definition time_update ::
  "('n, 'u) dev_cfg \<Rightarrow> net_env \<Rightarrow> ('n, 'u) net \<Rightarrow> ('n, 'u) net option" where
  "time_update c env s =
     (if \<not> ts_initialized (nt_time s) then Some s
      else if ck_now env - ts_lastTimeCheck (nt_time s) < TIME_CHECK_INTERVAL_MS then Some s
      else
        let s = on_time (\<lambda>t. t\<lparr>ts_lastTimeCheck := ck_now env\<rparr>) s
        in case ts_state (nt_time s) of
             UNSYNCED \<Rightarrow> Some s
           | SYNCING \<Rightarrow>
               if checkTimeValidity (ck_time env) then
                 (case time_callback c env (getEpoch (ck_time2 env)) (on_time (\<lambda>t. t\<lparr>ts_state := VALID\<rparr>) s) of
                    None \<Rightarrow> None
                  | Some s \<Rightarrow>
                      if ts_oneShotSyncActive (nt_time s) then handleSyncSuccess c env s else Some s)
               else Some s
           | VALID \<Rightarrow>
               if \<not> checkTimeValidity (ck_time env)
               then Some (on_time (\<lambda>t. t\<lparr>ts_state := UNSYNCED\<rparr>) s) else Some s)"

text \<open>
  The policy function logs that Wi-Fi is disabled and returns; the statements after its
  \<open>return\<close> are never reached.
\<close>

definition evaluateBootSyncPolicy :: "('n, 'u) net \<Rightarrow> ('n, 'u) net" where
  "evaluateBootSyncPolicy s = s"

definition startProvisioningMode :: "net_env \<Rightarrow> ('n, 'u) net \<Rightarrow> ('n, 'u) net" where
  "startProvisioningMode env s =
     on_time (\<lambda>t. t\<lparr>ts_oneShotSyncActive := True, ts_syncStartTime := ck_now env,
        ts_timer := map_option (\<lambda>m. if ck_timerOk env
          then m\<lparr>tm_period := PROVISIONING_TIMEOUT_MS, tm_started := Some (ck_now env)\<rparr> else m) (ts_timer t)\<rparr>) s"

definition setTimeSyncCallback :: "bool \<Rightarrow> time_service \<Rightarrow> time_service" where
  "setTimeSyncCallback cb t = t\<lparr>ts_onTimeSync := cb\<rparr>"

definition isTimeValid_ts :: "time_service \<Rightarrow> bool" where
  "isTimeValid_ts t \<longleftrightarrow> ts_state t = VALID"

fun clock_state_name :: "clock_state \<Rightarrow> string" where
  "clock_state_name UNSYNCED = ''UNSYNCED''"
| "clock_state_name SYNCING = ''SYNCING''"
| "clock_state_name VALID = ''VALID''"

fun getResetReasonString :: "reset_reason \<Rightarrow> string" where
  "getResetReasonString ESP_RST_UNKNOWN = ''UNKNOWN''"
| "getResetReasonString ESP_RST_POWERON = ''POWER_ON''"
| "getResetReasonString ESP_RST_EXT = ''EXTERNAL''"
| "getResetReasonString ESP_RST_SW = ''SOFTWARE''"
| "getResetReasonString ESP_RST_PANIC = ''PANIC''"
| "getResetReasonString ESP_RST_INT_WDT = ''INTERRUPT_WDT''"
| "getResetReasonString ESP_RST_TASK_WDT = ''TASK_WDT''"
| "getResetReasonString ESP_RST_WDT = ''OTHER_WDT''"
| "getResetReasonString ESP_RST_DEEPSLEEP = ''DEEP_SLEEP''"
| "getResetReasonString ESP_RST_BROWNOUT = ''BROWNOUT''"
| "getResetReasonString ESP_RST_SDIO = ''SDIO''"

section \<open>Set-up and loop\<close>

text \<open>The part of \<open>setup\<close> that starts the two services and binds their callbacks.\<close>

definition net_setup ::
  "'m creds_api \<Rightarrow> 'm \<Rightarrow> reset_reason \<Rightarrow> bool \<Rightarrow> ('n, 'u) device \<Rightarrow> ('n, 'u) net" where
  "net_setup api creds reason timerOk d =
     (let w = setStatusCallback True (setConnectionCallback True (wifi_init api creds wifi_new));
          t = setTimeSyncCallback True (time_init reason timerOk time_new)
      in evaluateBootSyncPolicy \<lparr>nt_dev = d, nt_wifi = w, nt_time = t, nt_log = []\<rparr>)"

text \<open>The two calls that \<open>loop\<close> makes in every pass.\<close>

definition net_loop :: "('n, 'u) dev_cfg \<Rightarrow> net_env \<Rightarrow> ('n, 'u) net \<Rightarrow> ('n, 'u) net option" where
  "net_loop c env s =
     (case with_wifi c env (wifi_update (ck_wifi env)) s of None \<Rightarrow> None
      | Some s \<Rightarrow> time_update c env s)"

fun net_loops :: "('n, 'u) dev_cfg \<Rightarrow> net_env list \<Rightarrow> ('n, 'u) net \<Rightarrow> ('n, 'u) net option" where
  "net_loops c [] s = Some s"
| "net_loops c (env # envs) s =
     (case net_loop c env s of None \<Rightarrow> None | Some s \<Rightarrow> net_loops c envs s)"

section \<open>Effects of the operations\<close>

lemma on_time_simps [simp]:
  "nt_time (on_time f s) = f (nt_time s)" "nt_dev (on_time f s) = nt_dev s"
  "nt_wifi (on_time f s) = nt_wifi s" "nt_log (on_time f s) = nt_log s"
  by (simp_all add: on_time_def)

lemma note_net_simps [simp]:
  "nt_time (note_net as s) = nt_time s" "nt_dev (note_net as s) = nt_dev s"
  "nt_wifi (note_net as s) = nt_wifi s" "nt_log (note_net as s) = nt_log s @ as"
  by (simp_all add: note_net_def)

lemma stopSync_simps [simp]:
  "nt_dev (stopSync s) = nt_dev s" "nt_wifi (stopSync s) = nt_wifi s"
  "\<not> ts_sntpStarted (nt_time (stopSync s))" "set (nt_log s) \<subseteq> set (nt_log (stopSync s))"
  "ts_state (nt_time (stopSync s)) = ts_state (nt_time s)"
  "ts_oneShotSyncActive (nt_time (stopSync s)) = ts_oneShotSyncActive (nt_time s)"
  "ts_timer (nt_time (stopSync s)) = ts_timer (nt_time s)"
  "ts_callbackFired (nt_time (stopSync s)) = ts_callbackFired (nt_time s)"
  by (auto simp: stopSync_def)

text \<open>Switching the radio off always completes: the only callback it makes just logs.\<close>

lemma shutdown_radio:
  "with_wifi c env wifi_shutdown s =
     Some (note_net ((if w_state (nt_wifi s) = CONNECTED \<or> w_state (nt_wifi s) = CONNECTING
         then [N_radio (W_disconnect True)] else []) @ [N_radio W_mode_off])
       (s\<lparr>nt_wifi := snd (wifi_shutdown (nt_wifi s))\<rparr>))"
  by (simp add: with_wifi_def wifi_shutdown_def notifyConnection_def note_net_def Let_def)

lemma shutdown_state:
  "w_state (snd (wifi_shutdown w)) = (if hasCredentials w then DISCONNECTED else WIFI_DISABLED)"
  by (simp add: wifi_shutdown_def hasCredentials_def Let_def)

section \<open>Properties\<close>

text \<open>
  The time-out of a one-shot sync always ends it: the callback completes whatever the state,
  the radio is switched off, SNTP stops, and no sync is active.
\<close>

theorem timeout_turns_radio_off:
  "\<exists>s'. syncTimeoutCallback c env s = Some s' \<and> N_radio W_mode_off \<in> set (drop (length (nt_log s)) (nt_log s')) \<and>
     \<not> ts_oneShotSyncActive (nt_time s') \<and> \<not> ts_sntpStarted (nt_time s') \<and>
     w_state (nt_wifi s') \<in> {DISCONNECTED, WIFI_DISABLED} \<and> nt_dev s' = nt_dev s"
  by (simp add: syncTimeoutCallback_def handleSyncTimeout_def shutdown_radio shutdown_state Let_def)
    (auto simp: stopSync_def)

text \<open>
  The firmware never switches Wi-Fi on. As long as the library reports a radio that is off,
  any number of passes of the loop after \<open>setup\<close> makes no call of the radio or of SNTP, fires
  no time callback and leaves the device as it was, with stored credentials or without: the
  boot policy returns at once and nothing else starts a connection.
\<close>

theorem wifi_stays_off:
  assumes "\<forall>env\<in>set envs. we_modeNull (ck_wifi env)"
  shows "\<exists>s. net_loops c envs (net_setup api creds reason timerOk d) = Some s \<and> nt_log s = [] \<and>
    nt_dev s = d \<and> ts_state (nt_time s) = UNSYNCED"
proof -
  have "\<exists>s'. net_loops c envs s = Some s' \<and> nt_log s' = nt_log s \<and> nt_dev s' = nt_dev s \<and>
      ts_state (nt_time s') = UNSYNCED"
    if "w_state (nt_wifi s) \<in> {DISCONNECTED, WIFI_DISABLED}" "ts_state (nt_time s) = UNSYNCED" for s
    using assms that
  proof (induction envs arbitrary: s)
    case (Cons env envs)
    have "\<exists>s1. net_loop c env s = Some s1 \<and> nt_wifi s1 = nt_wifi s \<and> nt_log s1 = nt_log s \<and>
        nt_dev s1 = nt_dev s \<and> ts_state (nt_time s1) = UNSYNCED"
      using Cons.prems by (auto simp: net_loop_def with_wifi_def wifi_update_def time_update_def)
    then obtain s1 where "net_loop c env s = Some s1" "nt_wifi s1 = nt_wifi s" "nt_log s1 = nt_log s"
      "nt_dev s1 = nt_dev s" "ts_state (nt_time s1) = UNSYNCED" by blast
    then show ?case using Cons.IH [of s1] Cons.prems by simp
  qed simp
  from this [of "net_setup api creds reason timerOk d"] show ?thesis
    by (simp add: net_setup_def evaluateBootSyncPolicy_def setStatusCallback_def setConnectionCallback_def
        setTimeSyncCallback_def wifi_init_def wifi_new_def time_init_def time_new_def Let_def)
qed

definition demo_net_env :: net_env where
  "demo_net_env = \<lparr>ck_dev = demo_dev_env, ck_wifi = demo_wifi_env, ck_now = 5000, ck_time = 1700000000,
     ck_time2 = 1700000001, ck_timerOk = True\<rparr>"

theorem wifi_stays_off_witness:
  "\<exists>s. net_loops demo_dev_cfg (replicate 3 (demo_net_env\<lparr>ck_wifi := demo_wifi_env\<lparr>we_modeNull := True\<rparr>\<rparr>))
      (net_setup map_creds [(WIFI_NVS_NAMESPACE, NVS_KEY_SSID) \<mapsto> ''home''] ESP_RST_POWERON True demo_device) = Some s \<and>
    nt_log s = []"
  using wifi_stays_off [of "replicate 3 (demo_net_env\<lparr>ck_wifi := demo_wifi_env\<lparr>we_modeNull := True\<rparr>\<rparr>)" demo_dev_cfg
      map_creds "[(WIFI_NVS_NAMESPACE, NVS_KEY_SSID) \<mapsto> ''home'']" ESP_RST_POWERON True demo_device]
  by (auto simp del: net_loops.simps)

text \<open>
  C31: a completed one-shot sync. The check that finds the clock set passes the epoch to the
  history, which gives a timestamp to every detection of this boot that has none; then the
  radio is off, SNTP is stopped, the timer no longer runs and the clock counts as valid.
\<close>

theorem ntp_sync_backfills:
  assumes "ts_initialized (nt_time s)" "ts_state (nt_time s) = SYNCING" "ts_oneShotSyncActive (nt_time s)"
    and "ts_onTimeSync (nt_time s)" "\<not> ts_callbackFired (nt_time s)"
    and "ck_now env - ts_lastTimeCheck (nt_time s) \<ge> 1000" "ck_time env \<ge> 1577836800" "ck_time2 env \<ge> 1577836800"
    and "h_valid (v_hist c) (d_hist (nt_dev s))" "all_locks (ck_dev env)"
  shows "\<exists>s' upt. time_update c env s = Some s' \<and>
    h_stored (v_hist c) (d_hist (nt_dev s')) =
      map (backfill_event (rs_bootCount (h_state (d_hist (nt_dev s)))) (word_of_int (ck_time2 env)) upt)
        (h_stored (v_hist c) (d_hist (nt_dev s))) \<and>
    N_radio W_mode_off \<in> set (nt_log s') \<and> \<not> ts_sntpStarted (nt_time s') \<and>
    \<not> timer_due now (nt_time s') \<and> \<not> ts_oneShotSyncActive (nt_time s') \<and> isTimeValid_ts (nt_time s')"
proof -
  let ?d = "nt_dev s" and ?epoch = "word_of_int (ck_time2 env) :: u32"
  define tenv where "tenv = \<lparr>te_millis = e_ms (ck_dev env) (d_tick ?d), te_uptime = e_uptime (ck_dev env) (d_tick ?d + 2),
    te_lock = True, te_qsend = e_qsend (ck_dev env) (d_tick ?d + 2)\<rparr>"
  obtain tv h where h: "applyTimeSync (v_hist c) ?epoch tenv (d_hist ?d) = Some (Some tv, h)"
    "h_stored (v_hist c) h = map (backfill_event (rs_bootCount (h_state (d_hist ?d))) ?epoch (te_uptime tenv))
      (h_stored (v_hist c) (d_hist ?d))"
    by (rule applyTimeSync_stored [OF assms(9), of tenv ?epoch]) (simp add: tenv_def)
  have epoch: "getEpoch (ck_time2 env) = ?epoch" "checkTimeValidity (ck_time env)"
    using assms(7,8) by (simp_all add: getEpoch_def checkTimeValidity_def SYNC_MIN_VALID_EPOCH_def)
  let ?s = "on_time (\<lambda>t. t\<lparr>ts_lastTimeCheck := ck_now env, ts_state := VALID, ts_callbackFired := True\<rparr>) s"
  obtain s1 where f: "fire_sync c env ?epoch ?s = Some s1" "d_hist (nt_dev s1) = h"
    "nt_time s1 = nt_time ?s" "nt_wifi s1 = nt_wifi s"
    using h(1) assms(10)
    by (auto simp: fire_sync_def tenv_def onSystemTimeSynced_def numeral_2_eq_2 split_def Let_def
        call_def [of _ "_ :: ('a, 'b) device"] note_net_def on_time_def)
  have "\<not> ck_now env - ts_lastTimeCheck (nt_time s) < TIME_CHECK_INTERVAL_MS"
    using assms(6) by (simp add: TIME_CHECK_INTERVAL_MS_def not_less)
  then have u: "time_update c env s = handleSyncSuccess c env s1"
    using assms(1-5) f epoch by (simp add: time_update_def time_callback_def on_time_def)
  obtain s2 where s2: "handleSyncSuccess c env s1 = Some (stopSync s2)" "nt_dev s2 = nt_dev s1"
    "N_radio W_mode_off \<in> set (nt_log s2)" "nt_time s2 = nt_time (on_time (\<lambda>t. t\<lparr>ts_timer :=
      map_option (\<lambda>m. m\<lparr>tm_started := None\<rparr>) (ts_timer t), ts_oneShotSyncActive := False\<rparr>) s1)"
    by (simp add: handleSyncSuccess_def shutdown_radio Let_def)
  have "\<not> timer_due now (nt_time (stopSync s2))"
    by (auto simp: timer_due_def s2(4) split: option.splits)
  then show ?thesis
    using f(2,3) h(2) s2(2-4) subsetD [OF stopSync_simps(4) s2(3)]
    by (intro exI [of _ "stopSync s2"] exI [of _ "te_uptime tenv"]) (simp add: u s2(1) isTimeValid_ts_def)
qed

definition demo_net :: "(nvs_view, bytes \<times> bool \<times> bytes option) net" where
  "demo_net = \<lparr>nt_dev = demo_device,
     nt_wifi = wifi_new\<lparr>w_initialized := True, w_state := CONNECTED, w_ssid := ''home'', w_onConnectionChange := True\<rparr>,
     nt_time = time_new\<lparr>ts_initialized := True, ts_state := SYNCING, ts_sntpStarted := True,
       ts_onTimeSync := True, ts_oneShotSyncActive := True,
       ts_timer := Some \<lparr>tm_period = 300000, tm_started = Some 100\<rparr>\<rparr>, nt_log = []\<rparr>"

lemma demo_net_simps [simp]:
  "nt_dev demo_net = demo_device" "w_state (nt_wifi demo_net) = CONNECTED" "w_initialized (nt_wifi demo_net)"
  "ts_initialized (nt_time demo_net)" "ts_state (nt_time demo_net) = SYNCING" "ts_onTimeSync (nt_time demo_net)"
  "ts_oneShotSyncActive (nt_time demo_net)" "\<not> ts_callbackFired (nt_time demo_net)"
  "ts_lastTimeCheck (nt_time demo_net) = 0" "w_onConnectionChange (nt_wifi demo_net)" "nt_log demo_net = []"
  by (simp_all add: demo_net_def time_new_def wifi_new_def)

lemma demo_net_env_simps [simp]:
  "ck_dev demo_net_env = demo_dev_env" "ck_now demo_net_env = 5000" "ck_time demo_net_env = 1700000000"
  "ck_time2 demo_net_env = 1700000001" "ck_wifi demo_net_env = demo_wifi_env"
  by (simp_all add: demo_net_env_def)

theorem ntp_sync_backfills_witness:
  "\<exists>s'. time_update demo_dev_cfg demo_net_env demo_net = Some s' \<and> N_radio W_mode_off \<in> set (nt_log s') \<and>
    \<not> timer_due 400000 (nt_time s') \<and> length (h_stored demo_cfg (d_hist (nt_dev s'))) = 2"
  using ntp_sync_backfills [of demo_net demo_net_env demo_dev_cfg 400000] demo_valid
  by (auto simp: demo_net_env_def)

text \<open>
  A clock that is already valid keeps the radio on. If the clock is valid when Wi-Fi connects
  during a one-shot sync, \<open>startSync\<close> returns early, and no later pass of the loop ends the
  sync: the radio stays on until the timer expires, five minutes in provisioning mode,
  although the time is known from the first second.
\<close>

theorem valid_clock_keeps_radio_on:
  assumes "ts_initialized (nt_time s)" "ts_oneShotSyncActive (nt_time s)" "ts_callbackFired (nt_time s)"
    and "w_initialized (nt_wifi s)" "w_state (nt_wifi s) = CONNECTING" "w_onConnectionChange (nt_wifi s)"
    and "envs \<noteq> []" "\<forall>env\<in>set envs. we_status (ck_wifi env) = WL_CONNECTED \<and> ck_time env \<ge> 1577836800"
  shows "\<exists>s'. net_loops c envs s = Some s' \<and> nt_log s' = nt_log s \<and> w_state (nt_wifi s') = CONNECTED \<and>
    isTimeValid_ts (nt_time s') \<and> ts_oneShotSyncActive (nt_time s') \<and> ts_timer (nt_time s') = ts_timer (nt_time s)"
proof -
  let ?P = "\<lambda>s s'. nt_log s' = nt_log s \<and> w_initialized (nt_wifi s') \<and> w_state (nt_wifi s') = CONNECTED \<and>
    ts_initialized (nt_time s') \<and> ts_state (nt_time s') = VALID \<and> ts_oneShotSyncActive (nt_time s') \<and>
    ts_timer (nt_time s') = ts_timer (nt_time s)"
  have valid: "checkTimeValidity (ck_time env)" if "env \<in> set envs" for env
    using assms(8) that by (simp add: checkTimeValidity_def SYNC_MIN_VALID_EPOCH_def)
  obtain env rest where e: "envs = env # rest" using assms(7) by (cases envs) auto
  have first: "\<exists>s1. net_loop c env s = Some s1 \<and> ?P s s1"
    using assms(1-6,8) valid [of env]
    by (simp add: e net_loop_def with_wifi_def wifi_update_def handleConnected_def notifyConnection_def
        notifyStatus_def startSync_def time_callback_def time_update_def Let_def)
  have step: "\<exists>s'. net_loop c env s1 = Some s' \<and> ?P s s'" if "env \<in> set rest" "?P s s1" for env s1
    using that assms(8) valid [of env] by (simp add: e net_loop_def with_wifi_def wifi_update_def time_update_def)
  have loops: "\<exists>s'. net_loops c es s1 = Some s' \<and> ?P s s'" if "set es \<subseteq> set rest" "?P s s1" for es s1
    using that
  proof (induction es arbitrary: s1)
    case (Cons x xs)
    then obtain s2 where "net_loop c x s1 = Some s2" "?P s s2" using step [of x s1] by auto
    then show ?case using Cons by simp
  qed simp
  obtain s1 where "net_loop c env s = Some s1" "?P s s1" using first by blast
  then show ?thesis using loops [of rest s1] by (auto simp: e isTimeValid_ts_def)
qed

theorem valid_clock_keeps_radio_on_witness:
  "\<exists>s'. net_loops demo_dev_cfg (replicate 9 (demo_net_env\<lparr>ck_wifi := demo_wifi_env\<lparr>we_status := WL_CONNECTED\<rparr>\<rparr>))
      (demo_net\<lparr>nt_wifi := (nt_wifi demo_net)\<lparr>w_state := CONNECTING\<rparr>,
         nt_time := (nt_time demo_net)\<lparr>ts_state := VALID, ts_callbackFired := True\<rparr>\<rparr>) = Some s' \<and>
    w_state (nt_wifi s') = CONNECTED \<and> ts_oneShotSyncActive (nt_time s')"
  using valid_clock_keeps_radio_on [of "demo_net\<lparr>nt_wifi := (nt_wifi demo_net)\<lparr>w_state := CONNECTING\<rparr>,
      nt_time := (nt_time demo_net)\<lparr>ts_state := VALID, ts_callbackFired := True\<rparr>\<rparr>"
      "replicate 9 (demo_net_env\<lparr>ck_wifi := demo_wifi_env\<lparr>we_status := WL_CONNECTED\<rparr>\<rparr>)" demo_dev_cfg]
  by (auto simp del: net_loops.simps)

section \<open>One notice per boot\<close>

definition sync_count :: "('n, 'u) net \<Rightarrow> nat" where
  "sync_count s = length (filter (\<lambda>a. case a of N_sync _ \<Rightarrow> True | _ \<Rightarrow> False) (nt_log s))"

definition noted_once :: "('n, 'u) net \<Rightarrow> bool" where
  "noted_once s \<longleftrightarrow> sync_count s = (if ts_callbackFired (nt_time s) then 1 else 0)"

inductive net_step :: "('n, 'u) dev_cfg \<Rightarrow> 'm creds_api \<Rightarrow> ('n, 'u) net \<Rightarrow> ('n, 'u) net \<Rightarrow> bool" for c api where
  ns_loop: "net_loop c env s = Some s' \<Longrightarrow> net_step c api s s'"
| ns_provision: "net_step c api s (startProvisioningMode env s)"
| ns_timer: "syncTimeoutCallback c env s = Some s' \<Longrightarrow> net_step c api s s'"
| ns_set: "with_wifi c env (\<lambda>w. (fst (snd (setCredentials api (ck_wifi env) ssid pass w n)),
      fst (snd (snd (setCredentials api (ck_wifi env) ssid pass w n))))) s = Some s' \<Longrightarrow> net_step c api s s'"
| ns_clear: "with_wifi c env (\<lambda>w. (fst (clearCredentials api w n), fst (snd (clearCredentials api w n)))) s = Some s' \<Longrightarrow>
    net_step c api s s'"
| ns_start: "with_wifi c env (\<lambda>w. snd (startConnection (ck_wifi env) w)) s = Some s' \<Longrightarrow> net_step c api s s'"
| ns_device: "net_step c api s (s\<lparr>nt_dev := d\<rparr>)"

lemma noted_once_simps [simp]:
  "noted_once (note_net [N_radio a] s) = noted_once s" "noted_once (note_net [N_sntp_init] s) = noted_once s"
  "noted_once (note_net [N_sntp_stop] s) = noted_once s" "noted_once (s\<lparr>nt_wifi := w\<rparr>) = noted_once s"
  "noted_once (s\<lparr>nt_dev := d\<rparr>) = noted_once s"
  by (simp_all add: noted_once_def sync_count_def)

lemma noted_once_time [simp]:
  "(\<And>t. ts_callbackFired (f t) = ts_callbackFired t) \<Longrightarrow> noted_once (on_time f s) = noted_once s"
  by (simp add: noted_once_def sync_count_def)

lemma time_callback_once: "time_callback c env e s = Some s' \<Longrightarrow> noted_once s \<Longrightarrow> noted_once s'"
  by (auto simp: time_callback_def fire_sync_def noted_once_def sync_count_def Let_def split_def
      split: if_splits option.splits)

lemma sntp_once [simp]: "noted_once (initSNTP s) = noted_once s" "noted_once (stopSync s) = noted_once s"
  by (simp_all add: initSNTP_def stopSync_def Let_def)

lemma startSync_once: "startSync c env s = Some s' \<Longrightarrow> noted_once s \<Longrightarrow> noted_once s'"
  by (auto simp: startSync_def split: if_splits elim!: time_callback_once)

lemma wifi_calls_once: "wifi_calls c env as s = Some s' \<Longrightarrow> noted_once s \<Longrightarrow> noted_once s'"
proof (induction as arbitrary: s)
  case (Cons a as)
  then obtain s1 where s1: "wifi_call c env a s = Some s1" "wifi_calls c env as s1 = Some s'"
    by (auto split: option.splits)
  have "noted_once s1" using s1(1) Cons.prems(2) by (cases a) (auto split: if_splits dest: startSync_once)
  then show ?case using Cons.IH s1(2) by blast
qed simp

lemma with_wifi_once: "with_wifi c env f s = Some s' \<Longrightarrow> noted_once s \<Longrightarrow> noted_once s'"
  using wifi_calls_once [of c env "fst (f (nt_wifi s))" "s\<lparr>nt_wifi := snd (f (nt_wifi s))\<rparr>" s']
  by (simp add: with_wifi_def split_def Let_def)

lemma sync_end_once:
  "handleSyncSuccess c env s = Some s' \<Longrightarrow> noted_once s \<Longrightarrow> noted_once s'"
  "handleSyncTimeout c env s = Some s' \<Longrightarrow> noted_once s \<Longrightarrow> noted_once s'"
  by (auto simp: handleSyncSuccess_def handleSyncTimeout_def Let_def split: option.splits dest!: with_wifi_once)

lemma time_update_once: "time_update c env s = Some s' \<Longrightarrow> noted_once s \<Longrightarrow> noted_once s'"
  by (auto simp: time_update_def Let_def split: if_splits clock_state.splits option.splits
      dest!: time_callback_once sync_end_once)

lemma net_step_once: "net_step c api s s' \<Longrightarrow> noted_once s \<Longrightarrow> noted_once s'"
  by (induction rule: net_step.induct)
    (auto simp: net_loop_def startProvisioningMode_def syncTimeoutCallback_def split: option.splits
      dest!: sync_end_once time_update_once dest: with_wifi_once)

text \<open>
  The history is told the time at most once per boot, whatever the order of loop passes,
  provisioning, time-outs, changes of credentials, connections and anything the rest of the
  device does.
\<close>

theorem time_sync_once:
  assumes "(net_step c api)\<^sup>*\<^sup>* (net_setup api creds reason timerOk d) s"
  shows "sync_count s \<le> 1"
proof -
  have "noted_once s"
    using assms
  proof (induction rule: rtranclp_induct)
    case base
    then show ?case
      by (simp add: noted_once_def sync_count_def net_setup_def evaluateBootSyncPolicy_def time_init_def
          setTimeSyncCallback_def time_new_def Let_def)
  qed (rule net_step_once)
  then show ?thesis by (simp add: noted_once_def)
qed

theorem time_sync_once_witness:
  "sync_count (startProvisioningMode demo_net_env
     (net_setup map_creds Map.empty ESP_RST_POWERON True demo_device)) \<le> 1"
  by (rule time_sync_once [of demo_dev_cfg map_creds Map.empty ESP_RST_POWERON True demo_device])
    (rule r_into_rtranclp, rule ns_provision)

end
