(* ===== verification/Fw_Text.thy ===== *)
theory Fw_Text
  imports Fw_Prelude
begin

text \<open>
  Text as the C library reads and writes it: decimal numbers (\<open>strtoul\<close>, \<open>atoi\<close>, the formats of
  \<open>snprintf\<close>) and comparison without regard to case. The lemmas say that a number printed in
  decimal, padded or not, is read back as it was.
\<close>

section \<open>Numbers in text\<close>

text \<open>\<open>strtoul(s, NULL, 10)\<close> and \<open>atoi\<close> of the C library, and the number formats of \<open>snprintf\<close>.\<close>

definition is_space :: "char \<Rightarrow> bool" where
  "is_space ch \<longleftrightarrow> of_char ch \<in> {9, 10, 11, 12, 13, 32 :: nat}"

definition is_digit :: "char \<Rightarrow> bool" where
  "is_digit ch \<longleftrightarrow> (48 :: nat) \<le> of_char ch \<and> of_char ch \<le> (57 :: nat)"

definition digits_value :: "string \<Rightarrow> nat" where
  "digits_value = foldl (\<lambda>v ch. 10 * v + (of_char ch - 48)) 0"

definition split_sign :: "string \<Rightarrow> bool \<times> string" where
  "split_sign s = (case s of [] \<Rightarrow> (False, [])
     | ch # r \<Rightarrow> if ch = CHR ''-'' then (True, r) else if ch = CHR ''+'' then (False, r) else (False, s))"

definition strtoul10 :: "string \<Rightarrow> u32" where
  "strtoul10 s =
     (let (neg, r) = split_sign (dropWhile is_space s);
          v = digits_value (takeWhile is_digit r)
      in if v \<ge> 2 ^ 32 then 0xFFFFFFFF else if neg then - word_of_nat v else word_of_nat v)"

definition atoi :: "string \<Rightarrow> int" where
  "atoi s =
     (let (neg, r) = split_sign (dropWhile is_space s);
          v = int (digits_value (takeWhile is_digit r));
          v = (if neg then - v else v)
      in max (- (2 ^ 31)) (min (2 ^ 31 - 1) v))"

fun dec :: "nat \<Rightarrow> string" where
  "dec n = (if n < 10 then [char_of (48 + n)] else dec (n div 10) @ [char_of (48 + n mod 10)])"

declare dec.simps [simp del]

definition dec_int :: "int \<Rightarrow> string" where
  "dec_int i = (if i < 0 then ''-'' @ dec (nat (- i)) else dec (nat i))"

text \<open>\<open>%0wu\<close> pads with zeros to the width \<open>w\<close>, \<open>strcasecmp\<close> compares in lower case.\<close>

definition dec_pad :: "nat \<Rightarrow> nat \<Rightarrow> string" where
  "dec_pad w n = replicate (w - length (dec n)) (CHR ''0'') @ dec n"

definition to_lower :: "char \<Rightarrow> char" where
  "to_lower ch = (let k = of_char ch :: nat in if 65 \<le> k \<and> k \<le> 90 then char_of (k + 32) else ch)"

definition strcaseeq :: "string \<Rightarrow> string \<Rightarrow> bool" where
  "strcaseeq s t \<longleftrightarrow> map to_lower s = map to_lower t"

definition text_bytes :: "string \<Rightarrow> bytes" where
  "text_bytes s = map (\<lambda>ch. word_of_nat (of_char ch)) s"

section \<open>Printing and reading\<close>

lemma of_char_digit: "n < 10 \<Longrightarrow> (of_char (char_of (48 + n) :: char) :: nat) = 48 + n"
  by (simp add: of_char_of)

lemma is_digit_char_of [simp]: "n < 10 \<Longrightarrow> is_digit (char_of (48 + n :: nat))"
  using of_char_digit [of n] by (simp add: is_digit_def)

lemma dec_digits: "list_all is_digit (dec n)"
proof (induction n rule: dec.induct)
  case (1 n)
  then show ?case by (subst dec.simps) simp
qed

lemma digits_value_snoc: "digits_value (s @ [ch]) = 10 * digits_value s + (of_char ch - 48)"
  by (simp add: digits_value_def)

lemma digits_value_dec [simp]: "digits_value (dec n) = n"
proof (induction n rule: dec.induct)
  case (1 n)
  show ?case
  proof (cases "n < 10")
    case True
    then show ?thesis using of_char_digit [of n] by (subst dec.simps) (simp add: digits_value_def)
  next
    case False
    then show ?thesis using 1 of_char_digit [of "n mod 10"]
      by (subst dec.simps) (simp add: digits_value_snoc)
  qed
qed

lemma digits_value_zeros: "digits_value (replicate k (CHR ''0'') @ s) = digits_value s"
  by (induction k) (simp_all add: digits_value_def)

lemma dec_pad_digits: "list_all is_digit (dec_pad w n)"
  using dec_digits [of n] by (auto simp: dec_pad_def list_all_iff is_digit_def)

lemma digits_value_dec_pad [simp]: "digits_value (dec_pad w n) = n"
  by (simp add: dec_pad_def digits_value_zeros)

lemma dec_not_Nil [simp]: "dec n \<noteq> []"
  by (subst dec.simps) simp

lemma dec_pad_not_Nil [simp]: "dec_pad w n \<noteq> []"
  by (simp add: dec_pad_def)

text \<open>A run of digits that is followed by something else is read up to its end.\<close>

lemma atoi_digits:
  assumes "list_all is_digit s" "s \<noteq> []" "r = [] \<or> \<not> is_digit (hd r)" "digits_value s < 2 ^ 31"
  shows "atoi (s @ r) = int (digits_value s)"
proof -
  have hd: "is_digit (hd s)" "\<not> is_space (hd s)" "hd s \<noteq> CHR ''-''" "hd s \<noteq> CHR ''+''"
    using assms(1,2) by (cases s; auto simp: is_digit_def is_space_def)+
  have "dropWhile is_space (s @ r) = s @ r" using hd(2) assms(2) by (cases s) auto
  moreover have "split_sign (s @ r) = (False, s @ r)"
    using hd(3,4) assms(2) by (cases s) (auto simp: split_sign_def)
  moreover have "takeWhile is_digit (s @ r) = s"
    using assms(1,3) by (cases r) (auto simp: takeWhile_append2 list_all_iff takeWhile_append)
  ultimately show ?thesis using assms(4) by (simp add: atoi_def)
qed

lemma atoi_dec_pad:
  assumes "n < 2 ^ 31" "r = [] \<or> \<not> is_digit (hd r)"
  shows "atoi (dec_pad w n @ r) = int n"
  using atoi_digits [OF dec_pad_digits dec_pad_not_Nil assms(2)] assms(1) by simp

end
