(* ===== verification/Fw_Flasher.thy ===== *)
theory Fw_Flasher
  imports Fw_Ota Fw_Text
begin

text \<open>
  Flasher mode (\<open>src/src/Services/FlasherService.cpp\<close>): a Wi-Fi access point with an HTTP server
  that takes a firmware image in chunks or as one stream. The web server library is the
  environment: in one pass of the loop it serves at most one request, whose upload callbacks it
  makes in order (\<open>upload_event\<close>) before the handler. The \<open>Update\<close> library is the parameter
  \<open>flash_api\<close>. What the service does to the outside, responses, LED colours and restarts, is
  the log \<open>f_out\<close>; a restart ends the run.
\<close>

section \<open>State\<close>

datatype flasher_phase = FP_INIT | FP_BATTERY_CHECK | FP_WIFI_START | FP_READY | FP_ERASING
  | FP_RECEIVING | FP_VERIFYING | FP_COMPLETE | FP_SUCCESS | FP_ERROR

datatype flasher_action = FA_NONE | ABORT_RESET | START_SESSION | REBOOT_SUCCESS

datatype chunk_state = CB_IDLE | CB_RECEIVING | CB_QUEUED | CB_WRITING | CB_ERROR

datatype flasher_error = FE_NONE | FE_LOW_BATTERY_IDLE | FE_LOW_BATTERY_LOAD | FE_WIFI_FAILED
  | FE_NO_CONTENT_LENGTH | FE_SIZE_TOO_LARGE | FE_FLASH_BEGIN_FAILED | FE_FLASH_WRITE_FAILED
  | FE_FLASH_END_FAILED | FE_SESSION_MISMATCH | FE_INVALID_CHUNK | FE_TIMEOUT_IDLE
  | FE_TIMEOUT_PROGRESS | FE_USER_ABORT

datatype flasher_out = FO_send nat string | FO_led u32 | FO_led_off | FO_ap bool | FO_restart

record pending_chunk =
  pc_state :: chunk_state
  pc_sessionId :: u32
  pc_chunkIndex :: int
  pc_totalChunks :: int
  pc_expectedSize :: nat
  pc_receivedSize :: nat
  pc_startMs :: u32
  pc_data :: bytes

record 'u flasher =
  f_phase :: flasher_phase
  f_sessionId :: u32
  f_written :: u32
  f_total :: u32
  f_lastChunkIndex :: int
  f_lastActivityMs :: u32
  f_lastProgressMs :: u32
  f_httpCode :: nat
  f_error :: flasher_error
  f_message :: string
  f_vIdle :: u32
  f_vLoad :: u32
  f_uploadStarted :: bool
  f_chunk :: pending_chunk
  f_action :: flasher_action
  f_pendingSessionId :: u32
  f_pendingTotalSize :: u32
  f_responseCode :: nat
  f_responseMsg :: string
  f_lastBattCheck :: u32
  f_server :: bool
  f_upd :: 'u
  f_out :: "flasher_out list"

record 'u flash_api = "'u update_api" +
  u_isRunning :: "'u \<Rightarrow> bool"
  u_hasError :: "'u \<Rightarrow> bool"
  u_clearError :: "'u \<Rightarrow> 'u"
  u_getError :: "'u \<Rightarrow> nat"

text \<open>
  The constants of the removed \<open>Config.h\<close>; \<open>fc_divide\<close> is the multiplication by the divider
  ratio, and \<open>fc_help\<close> the text of the start page, which depends on the build.
\<close>

record flasher_cfg =
  MAX_CHUNK_SIZE :: nat
  MIN_VOLTAGE_IDLE_MV :: u32
  MIN_VOLTAGE_LOAD_MV :: u32
  MAX_VOLTAGE_SAG_MV :: u32
  IDLE_TIMEOUT_MS :: u32
  PROGRESS_TIMEOUT_MS :: u32
  CHUNK_RECEIVE_TIMEOUT_MS :: u32
  CHUNK_WRITE_TIMEOUT_MS :: u32
  fc_divide :: "u32 \<Rightarrow> u32"
  fc_code :: "flasher_error \<Rightarrow> u8"
  fc_help :: string

datatype upload_event = U_start | U_write "bytes option" nat | U_end | U_aborted

text \<open>\<open>headers\<close> gives the value of a header, the empty string for an absent one.\<close>

type_synonym headers = "string \<Rightarrow> string"

text \<open>For the two uploads the boolean says whether the library reaches the handler.\<close>

datatype http_req = R_status | R_start headers | R_abort | R_root
  | R_chunk headers "upload_event list" bool | R_update headers "upload_event list" bool | R_other

record flash_env =
  fe_req :: "http_req option"
  fe_ms :: u32
  fe_actMs :: u32
  fe_writeMs :: u32
  fe_now :: u32
  fe_adc :: u32
  fe_nextPart :: "u32 option"

fun flasherPhaseToString :: "flasher_phase \<Rightarrow> string" where
  "flasherPhaseToString FP_INIT = ''INIT''"
| "flasherPhaseToString FP_BATTERY_CHECK = ''BATTERY_CHECK''"
| "flasherPhaseToString FP_WIFI_START = ''WIFI_START''"
| "flasherPhaseToString FP_READY = ''READY''"
| "flasherPhaseToString FP_ERASING = ''ERASING''"
| "flasherPhaseToString FP_VERIFYING = ''VERIFYING''"
| "flasherPhaseToString FP_COMPLETE = ''COMPLETE''"
| "flasherPhaseToString FP_SUCCESS = ''SUCCESS''"
| "flasherPhaseToString FP_ERROR = ''ERROR''"
| "flasherPhaseToString _ = ''UNKNOWN''"

fun chunkBufferStateToString :: "chunk_state \<Rightarrow> string" where
  "chunkBufferStateToString CB_IDLE = ''IDLE''"
| "chunkBufferStateToString CB_RECEIVING = ''RECEIVING''"
| "chunkBufferStateToString CB_QUEUED = ''QUEUED''"
| "chunkBufferStateToString CB_WRITING = ''WRITING''"
| "chunkBufferStateToString CB_ERROR = ''ERROR''"

definition flasher_new :: "flasher_cfg \<Rightarrow> 'u \<Rightarrow> 'u flasher" where
  "flasher_new c u =
     \<lparr>f_phase = FP_INIT, f_sessionId = 0, f_written = 0, f_total = 0, f_lastChunkIndex = - 1,
      f_lastActivityMs = 0, f_lastProgressMs = 0, f_httpCode = 200, f_error = FE_NONE, f_message = [],
      f_vIdle = 0, f_vLoad = 0, f_uploadStarted = False,
      f_chunk = \<lparr>pc_state = CB_IDLE, pc_sessionId = 0, pc_chunkIndex = - 1, pc_totalChunks = 0,
        pc_expectedSize = 0, pc_receivedSize = 0, pc_startMs = 0, pc_data = replicate (MAX_CHUNK_SIZE c) 0\<rparr>,
      f_action = FA_NONE, f_pendingSessionId = 0, f_pendingTotalSize = 0, f_responseCode = 200,
      f_responseMsg = ''Chunk queued'', f_lastBattCheck = 0, f_server = False, f_upd = u, f_out = []\<rparr>"

section \<open>Helpers\<close>

definition put :: "flasher_out list \<Rightarrow> 'u flasher \<Rightarrow> 'u flasher" where
  "put os f = f\<lparr>f_out := f_out f @ os\<rparr>"

definition on_chunk :: "(pending_chunk \<Rightarrow> pending_chunk) \<Rightarrow> 'u flasher \<Rightarrow> 'u flasher" where
  "on_chunk g f = f\<lparr>f_chunk := g (f_chunk f)\<rparr>"

text \<open>\<open>strncpy\<close> into the 64 bytes of a message, with the terminator.\<close>

definition msg64 :: "string \<Rightarrow> string" where
  "msg64 = take 63"

definition setChunkResponse :: "nat \<Rightarrow> string \<Rightarrow> 'u flasher \<Rightarrow> 'u flasher" where
  "setChunkResponse code message f = f\<lparr>f_responseCode := code, f_responseMsg := msg64 message\<rparr>"

definition resetPendingChunk :: "'u flasher \<Rightarrow> 'u flasher" where
  "resetPendingChunk =
     on_chunk (\<lambda>p. p\<lparr>pc_state := CB_IDLE, pc_sessionId := 0, pc_chunkIndex := - 1, pc_totalChunks := 0,
       pc_expectedSize := 0, pc_receivedSize := 0, pc_startMs := 0\<rparr>)"

definition isTransitionAllowed :: "flasher_phase \<Rightarrow> flasher_phase \<Rightarrow> bool" where
  "isTransitionAllowed a b =
     (if b = FP_ERROR then True
      else case a of
          FP_INIT \<Rightarrow> b = FP_BATTERY_CHECK
        | FP_BATTERY_CHECK \<Rightarrow> b = FP_WIFI_START
        | FP_WIFI_START \<Rightarrow> b = FP_READY
        | FP_READY \<Rightarrow> b = FP_ERASING
        | FP_ERASING \<Rightarrow> b = FP_RECEIVING
        | FP_RECEIVING \<Rightarrow> b = FP_VERIFYING \<or> b = FP_COMPLETE
        | FP_VERIFYING \<Rightarrow> b = FP_COMPLETE
        | _ \<Rightarrow> False)"

definition transitionPhase :: "flasher_phase \<Rightarrow> 'u flasher \<Rightarrow> 'u flasher" where
  "transitionPhase next f =
     (if f_phase f = next then f
      else if \<not> isTransitionAllowed (f_phase f) next then f
      else f\<lparr>f_phase := next\<rparr>)"

definition forcePhase :: "flasher_phase \<Rightarrow> 'u flasher \<Rightarrow> 'u flasher" where
  "forcePhase next f = f\<lparr>f_phase := next\<rparr>"

definition setErrorState :: "flasher_error \<Rightarrow> string \<Rightarrow> nat \<Rightarrow> 'u flasher \<Rightarrow> 'u flasher" where
  "setErrorState e message code f =
     f\<lparr>f_httpCode := code, f_error := e, f_message := msg64 message, f_phase := FP_ERROR\<rparr>"

definition readBatteryVoltageInternal :: "flasher_cfg \<Rightarrow> u32 \<Rightarrow> u32" where
  "readBatteryVoltageInternal c adcMv =
     (let batteryMv = fc_divide c adcMv in if batteryMv < 1500 then 4200 else batteryMv)"

definition update_abort :: "('u, 'm) update_api_scheme \<Rightarrow> 'u flasher \<Rightarrow> 'u flasher" where
  "update_abort api f = f\<lparr>f_upd := u_abort api (f_upd f)\<rparr>"

section \<open>The chunk buffer\<close>

definition processPendingChunk ::
  "'u flash_api \<Rightarrow> u32 \<Rightarrow> 'u flasher \<Rightarrow> 'u flasher" where
  "processPendingChunk api ms f =
     (if pc_state (f_chunk f) \<noteq> CB_QUEUED then f
      else if f_phase f \<noteq> FP_RECEIVING then resetPendingChunk f
      else
        let f = on_chunk (\<lambda>p. p\<lparr>pc_state := CB_WRITING\<rparr>) f;
            p = f_chunk f;
            (bytesWritten, u) = u_write api (f_upd f) (take (pc_receivedSize p) (pc_data p));
            f = f\<lparr>f_upd := u\<rparr>
        in if bytesWritten \<noteq> pc_receivedSize p then
             on_chunk (\<lambda>p. p\<lparr>pc_state := CB_ERROR\<rparr>)
               (update_abort api (setErrorState FE_FLASH_WRITE_FAILED ''Flash write failed'' 500 f))
           else
             let f = f\<lparr>f_written := f_written f + word_of_nat bytesWritten,
                       f_lastChunkIndex := pc_chunkIndex p, f_lastProgressMs := ms\<rparr>;
                 f = (if pc_totalChunks p > 0 \<and> pc_chunkIndex p = pc_totalChunks p - 1 then
                        (let f = transitionPhase FP_VERIFYING f;
                             (ended, u) = u_end api (f_upd f);
                             f = f\<lparr>f_upd := u\<rparr>
                         in if ended then
                              (transitionPhase FP_COMPLETE (f\<lparr>f_message := ''Success. Rebooting.''\<rparr>))
                                \<lparr>f_action := REBOOT_SUCCESS\<rparr>
                            else setErrorState FE_FLASH_END_FAILED ''Verify failed'' 500 f)
                      else f)
             in if pc_state (f_chunk f) \<noteq> CB_ERROR then resetPendingChunk f else f)"

definition resetFlasherState :: "'u flash_api \<Rightarrow> u32 \<Rightarrow> 'u flasher \<Rightarrow> 'u flasher" where
  "resetFlasherState api ms f =
     (let f = (if u_isRunning api (f_upd f) then update_abort api f else f);
          f = f\<lparr>f_upd := u_clearError api (f_upd f)\<rparr>;
          f = (forcePhase FP_READY f)\<lparr>f_sessionId := 0, f_written := 0, f_total := 0,
                 f_lastChunkIndex := - 1, f_lastActivityMs := ms, f_lastProgressMs := 0, f_httpCode := 200,
                 f_error := FE_NONE, f_message := ''Ready'', f_uploadStarted := False\<rparr>
      in (setChunkResponse 200 ''Ready'' (resetPendingChunk f))
           \<lparr>f_action := FA_NONE, f_pendingSessionId := 0, f_pendingTotalSize := 0\<rparr>)"

section \<open>Requests\<close>

definition quoted :: "string \<Rightarrow> string" where
  "quoted s = CHR 0x22 # s @ [CHR 0x22]"

definition json :: "(string \<times> string) list \<Rightarrow> string" where
  "json kvs = ''{'' @ concat (map (\<lambda>(i, k, v). (if i = 0 then [] else '','') @ quoted k @ '':'' @ v)
     (zip [0..<length kvs] kvs)) @ ''}''"

text \<open>The body fits the 512 bytes of its buffer, which cuts it otherwise.\<close>

definition handle_status :: "flasher_cfg \<Rightarrow> flash_env \<Rightarrow> 'u flasher \<Rightarrow> 'u flasher" where
  "handle_status c env f =
     (let batt = readBatteryVoltageInternal c (fe_adc env);
          idleSec = (fe_ms env - f_lastActivityMs f) div 1000;
          p = f_chunk f;
          num = (\<lambda>w :: u32. dec (unat w));
          body = take 511 (json
            [(''session'', num (f_sessionId f)), (''phase'', quoted (flasherPhaseToString (f_phase f))),
             (''written'', num (f_written f)), (''total'', num (f_total f)),
             (''code'', dec (f_httpCode f)), (''err'', dec (unat (fc_code c (f_error f)))),
             (''msg'', quoted (f_message f)), (''v_batt'', num batt), (''v_idle'', num (f_vIdle f)),
             (''v_load'', num (f_vLoad f)), (''idle'', num idleSec),
             (''lastChunk'', dec_int (f_lastChunkIndex f)),
             (''chunkState'', quoted (chunkBufferStateToString (pc_state p))),
             (''pendingChunk'', dec_int (pc_chunkIndex p)), (''pendingSize'', dec (pc_receivedSize p))])
      in (put [FO_send 200 body] f)\<lparr>f_lastActivityMs := fe_ms env\<rparr>)"

definition handle_start :: "flash_env \<Rightarrow> headers \<Rightarrow> 'u flasher \<Rightarrow> 'u flasher" where
  "handle_start env hs f =
     (let f = f\<lparr>f_lastActivityMs := fe_ms env\<rparr>
      in if f_phase f \<noteq> FP_READY then
           put [FO_send 409 (if f_phase f = FP_ERASING then ''Erase in progress - poll /status''
             else if f_phase f = FP_RECEIVING then ''Session active - send chunks or /abort''
             else ''Device busy'')] f
         else if hs ''X-Session-ID'' = [] \<or> hs ''X-Total-Size'' = [] then
           put [FO_send 400 ''Missing X-Session-ID or X-Total-Size headers''] f
         else
           let reqSessionId = strtoul10 (hs ''X-Session-ID'');
               reqTotalSize = strtoul10 (hs ''X-Total-Size'')
           in if reqSessionId = 0 then put [FO_send 400 ''Invalid X-Session-ID (cannot be 0)''] f
              else if reqTotalSize < 1024 then put [FO_send 400 ''X-Total-Size too small (< 1KB)''] f
              else case fe_nextPart env of
                  None \<Rightarrow> put [FO_send 500 ''No OTA partition available''] f
                | Some sz \<Rightarrow>
                    if reqTotalSize > sz then
                      put [FO_send 413 (msg64 (''Firmware too large ('' @ dec (unat reqTotalSize) @ '' > '' @
                        dec (unat sz) @ '' bytes)''))] f
                    else
                      put [FO_send 200 ''Session started - erasing flash...'']
                        (f\<lparr>f_pendingSessionId := reqSessionId, f_pendingTotalSize := reqTotalSize,
                           f_action := START_SESSION\<rparr>))"

definition handle_abort :: "'u flasher \<Rightarrow> 'u flasher" where
  "handle_abort f = put [FO_send 200 ''ABORTED''] (f\<lparr>f_action := ABORT_RESET\<rparr>)"

definition handle_root :: "flasher_cfg \<Rightarrow> 'u flasher \<Rightarrow> 'u flasher" where
  "handle_root c f = put [FO_send 200 (fc_help c)] f"

definition chunk_handler :: "flash_env \<Rightarrow> 'u flasher \<Rightarrow> 'u flasher" where
  "chunk_handler env f =
     (let f = f\<lparr>f_lastActivityMs := fe_ms env\<rparr>
      in if f_phase f = FP_ERROR
         then put [FO_send (if f_httpCode f \<ge> 400 then f_httpCode f else 500) (f_message f)] f
         else put [FO_send (f_responseCode f) (f_responseMsg f)] f)"

definition chunk_fail :: "flasher_error \<Rightarrow> string \<Rightarrow> nat \<Rightarrow> 'u flasher \<Rightarrow> 'u flasher" where
  "chunk_fail e message code f =
     on_chunk (\<lambda>p. p\<lparr>pc_state := CB_ERROR\<rparr>) (setChunkResponse code message (setErrorState e message code f))"

fun chunk_event :: "flasher_cfg \<Rightarrow> flash_env \<Rightarrow> headers \<Rightarrow> upload_event \<Rightarrow> 'u flasher \<Rightarrow> 'u flasher" where
  "chunk_event c env hs U_start f =
     (let f = setChunkResponse 202 ''Chunk queued'' (f\<lparr>f_lastActivityMs := fe_ms env\<rparr>)
      in if f_phase f \<noteq> FP_RECEIVING then setChunkResponse 409 ''Not ready for chunks'' f
         else if pc_state (f_chunk f) \<noteq> CB_IDLE then setChunkResponse 409 ''Chunk buffer busy'' f
         else if hs ''X-Session-ID'' = [] \<or> hs ''X-Chunk-Index'' = [] \<or> hs ''X-Total-Chunks'' = []
         then chunk_fail FE_NO_CONTENT_LENGTH ''Missing headers'' 400 f
         else
           let reqSessionId = strtoul10 (hs ''X-Session-ID'');
               chunkIndex = atoi (hs ''X-Chunk-Index'');
               totalChunks = atoi (hs ''X-Total-Chunks'')
           in if f_sessionId f \<noteq> reqSessionId then chunk_fail FE_SESSION_MISMATCH ''Session mismatch'' 409 f
              else if chunkIndex \<le> f_lastChunkIndex f then setChunkResponse 200 ''Duplicate chunk'' f
              else
                let expectedSize = (if hs ''X-Chunk-Size'' \<noteq> [] then nat (atoi (hs ''X-Chunk-Size'') mod 2 ^ 32)
                      else if hs ''Content-Length'' \<noteq> [] then nat (atoi (hs ''Content-Length'') mod 2 ^ 32)
                      else 0)
                in if expectedSize = 0 \<or> expectedSize > MAX_CHUNK_SIZE c
                   then chunk_fail FE_INVALID_CHUNK ''Invalid chunk size'' 413 f
                   else on_chunk (\<lambda>p. p\<lparr>pc_state := CB_RECEIVING, pc_sessionId := reqSessionId,
                          pc_chunkIndex := chunkIndex, pc_totalChunks := totalChunks,
                          pc_expectedSize := expectedSize, pc_receivedSize := 0, pc_startMs := fe_ms env\<rparr>) f)"
| "chunk_event c env hs (U_write buf currentSize) f =
     (if pc_state (f_chunk f) \<noteq> CB_RECEIVING then f
      else if buf = None \<and> currentSize > 0 then chunk_fail FE_INVALID_CHUNK ''Null upload buffer'' 500 f
      else if currentSize = 0 then f
      else
        let nextSize = pc_receivedSize (f_chunk f) + currentSize
        in if nextSize > pc_expectedSize (f_chunk f) \<or> nextSize > MAX_CHUNK_SIZE c
           then chunk_fail FE_INVALID_CHUNK ''Chunk overflow'' 400 f
           else on_chunk (\<lambda>p. p\<lparr>pc_data := blit (pc_data p) (pc_receivedSize p) (take currentSize (the buf)),
                  pc_receivedSize := nextSize\<rparr>) f)"
| "chunk_event c env hs U_end f =
     (if pc_state (f_chunk f) \<noteq> CB_RECEIVING then f
      else if pc_receivedSize (f_chunk f) \<noteq> pc_expectedSize (f_chunk f)
      then chunk_fail FE_INVALID_CHUNK ''Chunk size mismatch'' 400 f
      else (on_chunk (\<lambda>p. p\<lparr>pc_state := CB_QUEUED, pc_startMs := fe_ms env\<rparr>) f)\<lparr>f_message := ''Chunk queued''\<rparr>)"
| "chunk_event c env hs U_aborted f = resetPendingChunk (setChunkResponse 499 ''Client aborted'' f)"

definition update_fail :: "flasher_error \<Rightarrow> string \<Rightarrow> nat \<Rightarrow> 'u flasher \<Rightarrow> 'u flasher" where
  "update_fail e message code f =
     f\<lparr>f_httpCode := code, f_error := e, f_message := msg64 message, f_phase := FP_ERROR\<rparr>"

definition update_handler :: "'u flash_api \<Rightarrow> 'u flasher \<Rightarrow> 'u flasher" where
  "update_handler api f =
     (if u_hasError api (f_upd f) \<or> f_phase f = FP_ERROR
      then put [FO_send (if f_httpCode f \<ge> 400 then f_httpCode f else 500) (f_message f), FO_led 0xFF0000] f
      else put [FO_send 200 ''OK - Rebooting...'', FO_led 0x00FF00]
        (f\<lparr>f_phase := FP_COMPLETE, f_message := ''Success. Rebooting.'', f_action := REBOOT_SUCCESS\<rparr>))"

fun update_event ::
  "'u flash_api \<Rightarrow> flash_env \<Rightarrow> headers \<Rightarrow> upload_event \<Rightarrow> 'u flasher \<Rightarrow> 'u flasher" where
  "update_event api env hs U_start f =
     (let f = f\<lparr>f_lastActivityMs := fe_ms env\<rparr>;
          f = (if f_phase f \<noteq> FP_READY then
                 (if u_isRunning api (f_upd f) then update_abort api f else f)
                   \<lparr>f_written := 0, f_total := 0, f_error := FE_NONE, f_httpCode := 200\<rparr>
               else f);
          f = put [FO_led 0x0000FF] (f\<lparr>f_phase := FP_RECEIVING\<rparr>)
      in if hs ''Content-Length'' = [] then update_fail FE_NO_CONTENT_LENGTH ''Missing Content-Length'' 411 f
         else
           let f = f\<lparr>f_total := word_of_int (atoi (hs ''Content-Length''))\<rparr>
           in case fe_nextPart env of
                None \<Rightarrow> update_fail FE_SIZE_TOO_LARGE ''Firmware too large'' 413 f
              | Some sz \<Rightarrow>
                  if f_total f > sz then update_fail FE_SIZE_TOO_LARGE ''Firmware too large'' 413 f
                  else
                    let (began, u) = u_begin api (f_upd f) (f_total f);
                        f = f\<lparr>f_upd := u\<rparr>
                    in if \<not> began
                       then update_fail FE_FLASH_BEGIN_FAILED (''Begin failed: '' @ dec (u_getError api u)) 500 f
                       else f\<lparr>f_written := 0, f_lastProgressMs := fe_ms env, f_uploadStarted := True,
                              f_sessionId := fe_ms env\<rparr>)"
| "update_event api env hs (U_write buf currentSize) f =
     (let f = f\<lparr>f_lastActivityMs := fe_ms env\<rparr>
      in if f_phase f = FP_ERROR then f
         else if currentSize = 0 then f
         else
           let (bytesWritten, u) = u_write api (f_upd f) (take currentSize (the buf));
               f = f\<lparr>f_upd := u\<rparr>
           in if bytesWritten \<noteq> currentSize
              then update_abort api
                (update_fail FE_FLASH_WRITE_FAILED (''Write failed: '' @ dec (u_getError api u)) 500 f)
              else f\<lparr>f_written := f_written f + word_of_nat bytesWritten, f_lastProgressMs := fe_ms env\<rparr>)"
| "update_event api env hs U_end f =
     (let f = f\<lparr>f_lastActivityMs := fe_ms env\<rparr>
      in if f_phase f = FP_ERROR then f
         else
           let f = f\<lparr>f_phase := FP_VERIFYING\<rparr>
           in if f_written f \<noteq> f_total f
              then update_abort api (update_fail FE_SIZE_TOO_LARGE
                (''Incomplete: '' @ dec (unat (f_written f)) @ ''/'' @ dec (unat (f_total f))) 400 f)
              else
                let (ended, u) = u_end api (f_upd f);
                    f = f\<lparr>f_upd := u\<rparr>
                in if \<not> ended
                   then update_fail FE_FLASH_END_FAILED (''Commit failed: '' @ dec (u_getError api u)) 500 f
                   else f\<lparr>f_message := ''Verified''\<rparr>)"
| "update_event api env hs U_aborted f =
     update_abort api (update_fail FE_USER_ABORT ''Client aborted'' 499 (f\<lparr>f_lastActivityMs := fe_ms env\<rparr>))"

text \<open>\<open>handleClient\<close>: at most one request, its upload callbacks before its handler.\<close>

definition handleClient ::
  "flasher_cfg \<Rightarrow> 'u flash_api \<Rightarrow> flash_env \<Rightarrow> 'u flasher \<Rightarrow> 'u flasher" where
  "handleClient c api env f =
     (case fe_req env of
        None \<Rightarrow> f
      | Some R_status \<Rightarrow> handle_status c env f
      | Some (R_start hs) \<Rightarrow> handle_start env hs f
      | Some R_abort \<Rightarrow> handle_abort f
      | Some R_root \<Rightarrow> handle_root c f
      | Some (R_chunk hs es reached) \<Rightarrow>
          (let f = fold (chunk_event c env hs) es f in if reached then chunk_handler env f else f)
      | Some (R_update hs es reached) \<Rightarrow>
          (let f = fold (update_event api env hs) es f in if reached then update_handler api f else f)
      | Some R_other \<Rightarrow> put [FO_send 404 ''Not Found''] f)"

section \<open>Start and loop\<close>

definition flashLed :: "nat \<Rightarrow> u32 \<Rightarrow> 'u flasher \<Rightarrow> 'u flasher" where
  "flashLed count color f = put (concat (replicate count [FO_led color, FO_led_off])) f"

definition errorAndReboot :: "flasher_cfg \<Rightarrow> flasher_error \<Rightarrow> string \<Rightarrow> 'u flasher \<Rightarrow> 'u flasher" where
  "errorAndReboot c e message f =
     (let f = f\<lparr>f_phase := FP_ERROR, f_error := e, f_message := msg64 message\<rparr>;
          errorCode = fc_code c e;
          flashCount = (if errorCode > 0 \<and> errorCode \<le> 10 then unat errorCode else 5)
      in put [FO_restart] (flashLed flashCount 0xFF0000 f))"

record setup_flash_env =
  sf_ms :: u32
  sf_adcIdle :: u32
  sf_adcLoad :: u32
  sf_apStarted :: bool

text \<open>
  \<open>run\<close> up to its loop. A restart does not return, so the boolean, which says that the loop is
  reached, ends the start at each of them.
\<close>

definition flasher_start ::
  "flasher_cfg \<Rightarrow> 'u flash_api \<Rightarrow> setup_flash_env \<Rightarrow> 'u flasher \<Rightarrow> bool \<times> 'u flasher" where
  "flasher_start c api env f =
     (let f = (forcePhase FP_INIT f)\<lparr>f_action := FA_NONE, f_pendingSessionId := 0, f_pendingTotalSize := 0\<rparr>;
          f = (put [FO_led 0xFFA500] f)\<lparr>f_lastActivityMs := sf_ms env\<rparr>;
          f = transitionPhase FP_BATTERY_CHECK f;
          f = f\<lparr>f_vIdle := readBatteryVoltageInternal c (sf_adcIdle env)\<rparr>
      in if f_vIdle f < MIN_VOLTAGE_IDLE_MV c then
           (False, errorAndReboot c FE_LOW_BATTERY_IDLE (''Battery too low at idle: '' @ dec (unat (f_vIdle f)) @
             ''mV < '' @ dec (unat (MIN_VOLTAGE_IDLE_MV c)) @ ''mV'') f)
         else
           let f = put [FO_ap (sf_apStarted env)] (transitionPhase FP_WIFI_START f)
           in if \<not> sf_apStarted env
              then (False, errorAndReboot c FE_WIFI_FAILED ''Failed to start Wi-Fi AP'' f)
              else
                let f = f\<lparr>f_vLoad := readBatteryVoltageInternal c (sf_adcLoad env)\<rparr>;
                    sag = f_vIdle f - f_vLoad f;
                    voltageFail = (f_vLoad f < MIN_VOLTAGE_LOAD_MV c);
                    sagFail = (sint sag > sint (MAX_VOLTAGE_SAG_MV c))
                in if voltageFail \<or> sagFail then
                     (False, errorAndReboot c FE_LOW_BATTERY_LOAD (''Power FAIL: Load='' @ dec (unat (f_vLoad f)) @
                       ''mV, Sag='' @ dec_int (sint sag) @ ''mV'') (put [FO_ap False] f))
                   else (True, resetFlasherState api (sf_ms env) (f\<lparr>f_server := True\<rparr>)))"

text \<open>The deferred action of one pass; the boolean says that the chip restarts.\<close>

definition perform_action ::
  "'u flash_api \<Rightarrow> flash_env \<Rightarrow> 'u flasher \<Rightarrow> bool \<times> 'u flasher" where
  "perform_action api env f =
     (let action = f_action f; f = f\<lparr>f_action := FA_NONE\<rparr>
      in case action of
           FA_NONE \<Rightarrow> (False, f)
         | ABORT_RESET \<Rightarrow> (False, put [FO_led 0xFFA500] (resetFlasherState api (fe_actMs env) f))
         | START_SESSION \<Rightarrow>
             (let f = (transitionPhase FP_ERASING f)\<lparr>f_message := ''Erasing flash...''\<rparr>;
                  f = (put [FO_led 0x800080] f)\<lparr>f_sessionId := f_pendingSessionId f,
                         f_total := f_pendingTotalSize f, f_written := 0, f_lastChunkIndex := - 1,
                         f_lastActivityMs := fe_actMs env, f_lastProgressMs := 0\<rparr>;
                  f = (resetPendingChunk f)\<lparr>f_pendingSessionId := 0, f_pendingTotalSize := 0\<rparr>;
                  (began, u) = u_begin api (f_upd f) (f_total f);
                  f = f\<lparr>f_upd := u\<rparr>
              in if began then
                   (False, put [FO_led 0x0000FF] ((transitionPhase FP_RECEIVING f)\<lparr>f_uploadStarted := True,
                      f_message := ''Ready for chunks'', f_lastProgressMs := fe_actMs env\<rparr>))
                 else
                   (False, (put [FO_led 0xFF0000] ((setErrorState FE_FLASH_BEGIN_FAILED ''Erase failed'' 500 f)
                      \<lparr>f_message := msg64 (''Erase failed: '' @ dec (u_getError api u))\<rparr>))
                        \<lparr>f_sessionId := 0, f_total := 0\<rparr>))
         | REBOOT_SUCCESS \<Rightarrow> (True, put [FO_restart] f))"

definition watchdog_fail :: "'u flash_api \<Rightarrow> flasher_error \<Rightarrow> string \<Rightarrow> 'u flasher \<Rightarrow> 'u flasher" where
  "watchdog_fail api e message f = resetPendingChunk (update_abort api (setErrorState e message 408 f))"

definition session_watchdog :: "'u flash_api \<Rightarrow> u32 \<Rightarrow> 'u flasher \<Rightarrow> 'u flasher" where
  "session_watchdog api now f =
     (if (f_phase f = FP_RECEIVING \<or> f_phase f = FP_ERASING) \<and> now - f_lastActivityMs f > 30000
      then watchdog_fail api FE_TIMEOUT_IDLE ''Session timed out'' f else f)"

definition idle_expired :: "flasher_cfg \<Rightarrow> u32 \<Rightarrow> 'u flasher \<Rightarrow> bool" where
  "idle_expired c now f \<longleftrightarrow> f_phase f = FP_READY \<and> now - f_lastActivityMs f > IDLE_TIMEOUT_MS c"

definition transfer_watchdogs :: "flasher_cfg \<Rightarrow> 'u flash_api \<Rightarrow> u32 \<Rightarrow> 'u flasher \<Rightarrow> 'u flasher" where
  "transfer_watchdogs c api now f =
     (let f = (if f_phase f = FP_RECEIVING \<and> f_uploadStarted f \<and> f_lastProgressMs f > 0 \<and>
                  now - f_lastProgressMs f > PROGRESS_TIMEOUT_MS c
               then watchdog_fail api FE_TIMEOUT_PROGRESS ''Upload stalled'' f else f);
          f = (if f_phase f = FP_RECEIVING \<and> pc_state (f_chunk f) = CB_RECEIVING \<and>
                  pc_startMs (f_chunk f) > 0 \<and> now - pc_startMs (f_chunk f) > CHUNK_RECEIVE_TIMEOUT_MS c
               then watchdog_fail api FE_TIMEOUT_PROGRESS ''Chunk receive timeout'' f else f)
      in if f_phase f = FP_RECEIVING \<and> pc_state (f_chunk f) = CB_QUEUED \<and>
            pc_startMs (f_chunk f) > 0 \<and> now - pc_startMs (f_chunk f) > CHUNK_WRITE_TIMEOUT_MS c
         then watchdog_fail api FE_TIMEOUT_PROGRESS ''Chunk write timeout'' f else f)"

definition battery_watchdog :: "flasher_cfg \<Rightarrow> 'u flash_api \<Rightarrow> u32 \<Rightarrow> u32 \<Rightarrow> 'u flasher \<Rightarrow> 'u flasher" where
  "battery_watchdog c api adc now f =
     (if now - f_lastBattCheck f > 10000 then
        (let f = f\<lparr>f_lastBattCheck := now\<rparr>;
             currentBatt = readBatteryVoltageInternal c adc
         in if f_uploadStarted f \<and> f_phase f = FP_RECEIVING \<and> currentBatt < MIN_VOLTAGE_LOAD_MV c then
              put [FO_led 0xFF0000]
                ((setErrorState FE_LOW_BATTERY_LOAD ''Battery dropped'' 500 (update_abort api f))
                   \<lparr>f_message := msg64 (''Battery dropped: '' @ dec (unat currentBatt) @ ''mV'')\<rparr>)
            else f)
      else f)"

definition flasher_pass ::
  "flasher_cfg \<Rightarrow> 'u flash_api \<Rightarrow> flash_env \<Rightarrow> 'u flasher \<Rightarrow> bool \<times> 'u flasher" where
  "flasher_pass c api env f =
     (let f = (if f_server f then handleClient c api env f else f);
          (restarted, f) = perform_action api env f
      in if restarted then (True, f)
         else
           let f = session_watchdog api (fe_now env) (processPendingChunk api (fe_writeMs env) f)
           in if idle_expired c (fe_now env) f then (True, put [FO_restart] f)
              else (False, battery_watchdog c api (fe_adc env) (fe_now env)
                      (transfer_watchdogs c api (fe_now env) f)))"

fun flasher_run ::
  "flasher_cfg \<Rightarrow> 'u flash_api \<Rightarrow> flash_env list \<Rightarrow> 'u flasher \<Rightarrow> bool \<times> 'u flasher" where
  "flasher_run c api [] f = (False, f)"
| "flasher_run c api (env # envs) f =
     (let (restarted, f) = flasher_pass c api env f
      in if restarted then (True, f) else flasher_run c api envs f)"

end
