(* ===== verification/Fw_FlasherRun.thy ===== *)
theory Fw_FlasherRun
  imports Fw_Flasher
begin

text \<open>
  What flasher mode does over its passes: a transfer in chunks, with retransmissions and polls
  in between, ends with exactly the chunks' concatenation committed; the chunk buffer is never
  overrun; the error phase, the idle time-out and the shortcuts that end a session early.
\<close>

section \<open>The library\<close>

definition flash_ok ::
  "'u flash_api \<Rightarrow> ('u \<Rightarrow> bytes) \<Rightarrow> ('u \<Rightarrow> bool) \<Rightarrow> ('u \<Rightarrow> bytes option) \<Rightarrow> bool" where
  "flash_ok api staged broken committed \<longleftrightarrow>
     update_ok (update_api.truncate api) staged broken committed \<and>
     update_reliable (update_api.truncate api) staged broken"

lemma truncate_simps [simp]:
  "u_begin (update_api.truncate api) = u_begin api" "u_write (update_api.truncate api) = u_write api"
  "u_end (update_api.truncate api) = u_end api" "u_abort (update_api.truncate api) = u_abort api"
  by (simp_all add: update_api.truncate_def)

lemma flash_okD:
  assumes "flash_ok api staged broken committed"
  shows "\<exists>u'. u_begin api u n = (True, u') \<and> staged u' = [] \<and> \<not> broken u' \<and> committed u' = committed u"
    and "\<not> broken u \<Longrightarrow> \<exists>u'. u_write api u bs = (length bs, u') \<and> staged u' = staged u @ bs \<and> \<not> broken u' \<and>
      committed u' = committed u"
    and "\<not> broken u \<Longrightarrow> \<exists>u'. u_end api u = (True, u') \<and> committed u' = Some (staged u)"
proof -
  have ok: "update_ok (update_api.truncate api) staged broken committed"
    and rel: "update_reliable (update_api.truncate api) staged broken"
    using assms by (simp_all add: flash_ok_def)
  show "\<exists>u'. u_begin api u n = (True, u') \<and> staged u' = [] \<and> \<not> broken u' \<and> committed u' = committed u"
    using update_okD(1,2) [OF ok, of u n] rel by (cases "u_begin api u n") (simp add: update_reliable_def, metis fst_conv snd_conv)
  show "\<exists>u'. u_write api u bs = (length bs, u') \<and> staged u' = staged u @ bs \<and> \<not> broken u' \<and>
      committed u' = committed u" if "\<not> broken u"
    using update_okD(6) [OF ok, of u bs] rel that
    by (cases "u_write api u bs") (simp add: update_reliable_def, metis fst_conv snd_conv)
  show "\<exists>u'. u_end api u = (True, u') \<and> committed u' = Some (staged u)" if "\<not> broken u"
    using update_okD(7) [OF ok, of u] rel that
    by (cases "u_end api u") (simp add: update_reliable_def, metis fst_conv snd_conv)
qed

definition list_flash :: "(bytes \<times> bool \<times> bytes option) flash_api" where
  "list_flash = \<lparr>u_begin = u_begin list_update_api, u_write = u_write list_update_api,
     u_end = u_end list_update_api, u_abort = u_abort list_update_api,
     u_isRunning = (\<lambda>(st, br, c). st \<noteq> []), u_hasError = (\<lambda>(st, br, c). br),
     u_clearError = (\<lambda>(st, br, c). (st, False, c)), u_getError = (\<lambda>u. 0)\<rparr>"

lemma list_flash_ok: "flash_ok list_flash (\<lambda>u. fst u) (\<lambda>u. fst (snd u)) (\<lambda>u. snd (snd u))"
proof -
  have "update_api.truncate list_flash = list_update_api"
    by (simp add: list_flash_def update_api.truncate_def)
  then show ?thesis
    using list_update_ok list_update_reliable by (simp only: flash_ok_def)
qed

section \<open>Effects of the helpers\<close>

lemma put_simps [simp]:
  "f_phase (put os f) = f_phase f" "f_chunk (put os f) = f_chunk f" "f_upd (put os f) = f_upd f"
  "f_action (put os f) = f_action f" "f_sessionId (put os f) = f_sessionId f" "f_server (put os f) = f_server f"
  "f_lastChunkIndex (put os f) = f_lastChunkIndex f" "f_lastActivityMs (put os f) = f_lastActivityMs f"
  "f_lastProgressMs (put os f) = f_lastProgressMs f" "f_out (put os f) = f_out f @ os" "f_total (put os f) = f_total f"
  "f_uploadStarted (put os f) = f_uploadStarted f" "f_message (put os f) = f_message f"
  by (simp_all add: put_def)

lemma on_chunk_simps [simp]:
  "f_phase (on_chunk g f) = f_phase f" "f_chunk (on_chunk g f) = g (f_chunk f)" "f_upd (on_chunk g f) = f_upd f"
  "f_action (on_chunk g f) = f_action f" "f_sessionId (on_chunk g f) = f_sessionId f" "f_server (on_chunk g f) = f_server f"
  "f_lastChunkIndex (on_chunk g f) = f_lastChunkIndex f" "f_lastActivityMs (on_chunk g f) = f_lastActivityMs f"
  "f_lastProgressMs (on_chunk g f) = f_lastProgressMs f" "f_out (on_chunk g f) = f_out f"
  "f_uploadStarted (on_chunk g f) = f_uploadStarted f" "f_total (on_chunk g f) = f_total f"
  by (simp_all add: on_chunk_def)

lemma response_simps [simp]:
  "f_phase (setChunkResponse k m f) = f_phase f" "f_chunk (setChunkResponse k m f) = f_chunk f"
  "f_upd (setChunkResponse k m f) = f_upd f" "f_action (setChunkResponse k m f) = f_action f"
  "f_sessionId (setChunkResponse k m f) = f_sessionId f" "f_server (setChunkResponse k m f) = f_server f"
  "f_lastChunkIndex (setChunkResponse k m f) = f_lastChunkIndex f" "f_total (setChunkResponse k m f) = f_total f"
  "f_lastActivityMs (setChunkResponse k m f) = f_lastActivityMs f"
  "f_lastProgressMs (setChunkResponse k m f) = f_lastProgressMs f"
  "f_out (setChunkResponse k m f) = f_out f" "f_uploadStarted (setChunkResponse k m f) = f_uploadStarted f"
  by (simp_all add: setChunkResponse_def)

lemma reset_simps [simp]:
  "f_phase (resetPendingChunk f) = f_phase f" "f_upd (resetPendingChunk f) = f_upd f"
  "f_action (resetPendingChunk f) = f_action f" "f_sessionId (resetPendingChunk f) = f_sessionId f"
  "f_server (resetPendingChunk f) = f_server f" "f_lastChunkIndex (resetPendingChunk f) = f_lastChunkIndex f"
  "f_lastActivityMs (resetPendingChunk f) = f_lastActivityMs f" "f_out (resetPendingChunk f) = f_out f"
  "f_lastProgressMs (resetPendingChunk f) = f_lastProgressMs f" "f_total (resetPendingChunk f) = f_total f"
  "f_uploadStarted (resetPendingChunk f) = f_uploadStarted f" "pc_state (f_chunk (resetPendingChunk f)) = CB_IDLE"
  "pc_data (f_chunk (resetPendingChunk f)) = pc_data (f_chunk f)"
  by (simp_all add: resetPendingChunk_def)

lemma phase_simps [simp]:
  "f_chunk (transitionPhase p f) = f_chunk f" "f_upd (transitionPhase p f) = f_upd f"
  "f_action (transitionPhase p f) = f_action f" "f_server (transitionPhase p f) = f_server f"
  "f_lastChunkIndex (transitionPhase p f) = f_lastChunkIndex f" "f_total (transitionPhase p f) = f_total f"
  "f_lastActivityMs (transitionPhase p f) = f_lastActivityMs f" "f_out (transitionPhase p f) = f_out f"
  "f_lastProgressMs (transitionPhase p f) = f_lastProgressMs f" "f_sessionId (transitionPhase p f) = f_sessionId f"
  "f_pendingSessionId (transitionPhase p f) = f_pendingSessionId f"
  "f_pendingTotalSize (transitionPhase p f) = f_pendingTotalSize f"
  by (simp_all add: transitionPhase_def)

section \<open>The chunk buffer\<close>

text \<open>The library passes a buffer of the length it gives.\<close>

fun event_ok :: "upload_event \<Rightarrow> bool" where
  "event_ok (U_write (Some bs) n) = (length bs = n)"
| "event_ok _ = True"

fun request_ok :: "http_req \<Rightarrow> bool" where
  "request_ok (R_chunk hs es reached) = list_all event_ok es"
| "request_ok (R_update hs es reached) = list_all event_ok es"
| "request_ok _ = True"

definition buffer_ok :: "flasher_cfg \<Rightarrow> pending_chunk \<Rightarrow> bool" where
  "buffer_ok c p \<longleftrightarrow> length (pc_data p) = MAX_CHUNK_SIZE c \<and>
     (pc_state p \<in> {CB_RECEIVING, CB_QUEUED, CB_WRITING} \<longrightarrow>
        pc_receivedSize p \<le> pc_expectedSize p \<and> pc_expectedSize p \<le> MAX_CHUNK_SIZE c)"

lemma buffer_ok_state: "buffer_ok c p \<Longrightarrow> s \<in> {CB_IDLE, CB_ERROR} \<Longrightarrow> buffer_ok c (p\<lparr>pc_state := s\<rparr>)"
  by (auto simp: buffer_ok_def)

lemma buffer_ok_reset [simp]: "buffer_ok c (f_chunk (resetPendingChunk f)) \<longleftrightarrow> length (pc_data (f_chunk f)) = MAX_CHUNK_SIZE c"
  by (simp add: buffer_ok_def resetPendingChunk_def)

lemma chunk_fail_chunk [simp]: "f_chunk (chunk_fail e m k f) = (f_chunk f)\<lparr>pc_state := CB_ERROR\<rparr>"
  by (simp add: chunk_fail_def setErrorState_def)

lemma if_chunk: "f_chunk (if b then f else g) = (if b then f_chunk f else f_chunk g)"
  by simp

lemma if_buffer: "(b \<Longrightarrow> buffer_ok c p) \<Longrightarrow> (\<not> b \<Longrightarrow> buffer_ok c q) \<Longrightarrow> buffer_ok c (if b then p else q)"
  by simp

lemma chunk_event_buffer:
  assumes "buffer_ok c (f_chunk f)" "event_ok e"
  shows "buffer_ok c (f_chunk (chunk_event c env hs e f))"
proof (cases e)
  case U_start
  have f: "f_chunk (f\<lparr>f_lastActivityMs := t\<rparr>) = f_chunk f" for t by simp
  show ?thesis
    unfolding U_start chunk_event.simps Let_def if_chunk chunk_fail_chunk response_simps on_chunk_simps f
    by (intro if_buffer) (use assms(1) in \<open>simp_all only: buffer_ok_state insertI1 insertI2\<close>,
        use assms(1) in \<open>simp_all add: buffer_ok_def\<close>)
next
  case (U_write buf n)
  show ?thesis
    unfolding U_write chunk_event.simps Let_def if_chunk chunk_fail_chunk on_chunk_simps
    by (intro if_buffer) (use assms U_write in \<open>cases buf; simp add: buffer_ok_def\<close>)+
next
  case U_end
  then show ?thesis using assms by (simp add: buffer_ok_def)
next
  case U_aborted
  then show ?thesis using assms by (simp add: buffer_ok_def)
qed

lemma update_event_chunk [simp]: "f_chunk (update_event api env hs e f) = f_chunk f"
  by (cases e) (auto simp: Let_def update_fail_def update_abort_def split_def split: option.splits)

lemma fold_buffer:
  "buffer_ok c (f_chunk f) \<Longrightarrow> list_all event_ok es \<Longrightarrow> buffer_ok c (f_chunk (fold (chunk_event c env hs) es f))"
  by (induction es arbitrary: f) (auto intro: chunk_event_buffer)

lemma fold_update_chunk [simp]: "f_chunk (fold (update_event api env hs) es f) = f_chunk f"
  by (induction es arbitrary: f) simp_all

lemma handler_chunk [simp]:
  "f_chunk (handle_status c env f) = f_chunk f" "f_chunk (handle_start env hs f) = f_chunk f"
  "f_chunk (handle_abort f) = f_chunk f" "f_chunk (handle_root c f) = f_chunk f"
  "f_chunk (chunk_handler env f) = f_chunk f" "f_chunk (update_handler api f) = f_chunk f"
  by (simp_all add: handle_status_def handle_start_def handle_abort_def handle_root_def chunk_handler_def
      update_handler_def Let_def split: option.splits)

lemma handleClient_buffer:
  "buffer_ok c (f_chunk f) \<Longrightarrow> (\<And>r. fe_req env = Some r \<Longrightarrow> request_ok r) \<Longrightarrow>
   buffer_ok c (f_chunk (handleClient c api env f))"
  by (auto simp: handleClient_def Let_def intro: fold_buffer split: option.split http_req.split)

lemma action_buffer:
  "buffer_ok c (f_chunk f) \<Longrightarrow> buffer_ok c (f_chunk (snd (perform_action api env f)))"
  by (auto simp: perform_action_def resetFlasherState_def forcePhase_def update_abort_def setErrorState_def
      Let_def split_def buffer_ok_def split: flasher_action.split)

lemma process_buffer: "buffer_ok c (f_chunk f) \<Longrightarrow> buffer_ok c (f_chunk (processPendingChunk api ms f))"
  by (auto simp: processPendingChunk_def Let_def split_def update_abort_def setErrorState_def)
    (auto simp: buffer_ok_def)

lemma watchdog_buffer:
  "buffer_ok c (f_chunk f) \<Longrightarrow> buffer_ok c (f_chunk (session_watchdog api now f))"
  "buffer_ok c (f_chunk f) \<Longrightarrow> buffer_ok c (f_chunk (transfer_watchdogs c api now f))"
  "buffer_ok c (f_chunk f) \<Longrightarrow> buffer_ok c (f_chunk (battery_watchdog c api adc now f))"
  by (auto simp: session_watchdog_def transfer_watchdogs_def battery_watchdog_def watchdog_fail_def
      update_abort_def setErrorState_def Let_def) (auto simp: buffer_ok_def)

lemma pass_buffer:
  assumes "buffer_ok c (f_chunk f)" "\<And>r. fe_req env = Some r \<Longrightarrow> request_ok r"
  shows "buffer_ok c (f_chunk (snd (flasher_pass c api env f)))"
proof -
  let ?f = "if f_server f then handleClient c api env f else f"
  have "buffer_ok c (f_chunk ?f)" using assms by (simp add: handleClient_buffer)
  then have "buffer_ok c (f_chunk (snd (perform_action api env ?f)))" by (rule action_buffer)
  then show ?thesis
    by (simp add: flasher_pass_def Let_def split_def watchdog_buffer process_buffer)
qed

text \<open>
  C35: the chunk buffer is never overrun. Over every sequence of passes with any requests, whatever
  sizes their headers announce and however their bodies are cut, the buffer keeps its length,
  so every copy stays inside it, and the bytes it counts as received fit the size announced.
\<close>

theorem chunk_buffer_bounds:
  assumes "buffer_ok c (f_chunk f)" "\<forall>env\<in>set envs. \<forall>r. fe_req env = Some r \<longrightarrow> request_ok r"
    and "flasher_run c api envs f = (restarted, f')"
  shows "length (pc_data (f_chunk f')) = MAX_CHUNK_SIZE c \<and>
    (pc_state (f_chunk f') \<in> {CB_RECEIVING, CB_QUEUED} \<longrightarrow>
       pc_receivedSize (f_chunk f') \<le> pc_expectedSize (f_chunk f') \<and> pc_expectedSize (f_chunk f') \<le> MAX_CHUNK_SIZE c)"
proof -
  have "buffer_ok c (f_chunk f')"
    using assms
  proof (induction envs arbitrary: f)
    case (Cons env envs)
    have "buffer_ok c (f_chunk (snd (flasher_pass c api env f)))"
      using Cons.prems by (intro pass_buffer) auto
    then show ?case
      using Cons by (cases "flasher_pass c api env f") (auto split: if_splits)
  qed simp
  then show ?thesis by (simp add: buffer_ok_def)
qed

section \<open>One chunk\<close>

text \<open>The state between two chunks: \<open>k\<close> is the index of the last one, \<open>W\<close> what is staged.\<close>

definition receiving ::
  "flasher_cfg \<Rightarrow> ('u \<Rightarrow> bytes) \<Rightarrow> ('u \<Rightarrow> bool) \<Rightarrow> u32 \<Rightarrow> int \<Rightarrow> bytes \<Rightarrow> 'u flasher \<Rightarrow> bool" where
  "receiving c staged broken sid k W f \<longleftrightarrow> f_phase f = FP_RECEIVING \<and> f_sessionId f = sid \<and>
     f_lastChunkIndex f = k \<and> pc_state (f_chunk f) = CB_IDLE \<and> f_action f = FA_NONE \<and> f_server f \<and>
     length (pc_data (f_chunk f)) = MAX_CHUNK_SIZE c \<and> staged (f_upd f) = W \<and> \<not> broken (f_upd f)"

definition parts_events :: "bytes list \<Rightarrow> upload_event list" where
  "parts_events parts = map (\<lambda>p. U_write (Some p) (length p)) parts"

text \<open>A request that uploads the bytes as chunk \<open>j\<close> of \<open>T\<close>, cut into any parts.\<close>

definition chunk_request :: "u32 \<Rightarrow> int \<Rightarrow> int \<Rightarrow> bytes \<Rightarrow> http_req \<Rightarrow> bool" where
  "chunk_request sid T j bs r \<longleftrightarrow> (\<exists>hs parts. r = R_chunk hs (U_start # parts_events parts @ [U_end]) True \<and>
     concat parts = bs \<and> hs ''X-Session-ID'' \<noteq> [] \<and> hs ''X-Chunk-Index'' \<noteq> [] \<and> hs ''X-Total-Chunks'' \<noteq> [] \<and>
     hs ''X-Chunk-Size'' \<noteq> [] \<and> strtoul10 (hs ''X-Session-ID'') = sid \<and> atoi (hs ''X-Chunk-Index'') = j \<and>
     atoi (hs ''X-Total-Chunks'') = T \<and> atoi (hs ''X-Chunk-Size'') = int (length bs))"

text \<open>A pass whose clock reads agree, with the battery above its limit.\<close>

definition steady :: "flasher_cfg \<Rightarrow> u32 \<Rightarrow> flash_env \<Rightarrow> bool" where
  "steady c t env \<longleftrightarrow> fe_ms env = t \<and> fe_actMs env = t \<and> fe_writeMs env = t \<and> fe_now env = t \<and>
     MIN_VOLTAGE_LOAD_MV c \<le> readBatteryVoltageInternal c (fe_adc env)"

lemma parts_received:
  assumes "pc_state (f_chunk f) = CB_RECEIVING" "length (pc_data (f_chunk f)) = MAX_CHUNK_SIZE c"
    and "pc_receivedSize (f_chunk f) + length (concat parts) \<le> pc_expectedSize (f_chunk f)"
    and "pc_expectedSize (f_chunk f) \<le> MAX_CHUNK_SIZE c"
  obtains d where "fold (chunk_event c env hs) (parts_events parts) f =
      f\<lparr>f_chunk := (f_chunk f)\<lparr>pc_data := d, pc_receivedSize := pc_receivedSize (f_chunk f) + length (concat parts)\<rparr>\<rparr>"
    "length d = MAX_CHUNK_SIZE c"
    "take (pc_receivedSize (f_chunk f) + length (concat parts)) d =
       take (pc_receivedSize (f_chunk f)) (pc_data (f_chunk f)) @ concat parts"
proof -
  have "\<exists>d. fold (chunk_event c env hs) (parts_events parts) f =
      f\<lparr>f_chunk := (f_chunk f)\<lparr>pc_data := d, pc_receivedSize := pc_receivedSize (f_chunk f) + length (concat parts)\<rparr>\<rparr> \<and>
    length d = MAX_CHUNK_SIZE c \<and>
    take (pc_receivedSize (f_chunk f) + length (concat parts)) d =
       take (pc_receivedSize (f_chunk f)) (pc_data (f_chunk f)) @ concat parts"
    using assms
  proof (induction parts arbitrary: f)
    case Nil
    then show ?case by (intro exI [of _ "pc_data (f_chunk f)"]) (simp add: parts_events_def)
  next
    case (Cons p ps)
    let ?r = "pc_receivedSize (f_chunk f)"
    let ?f = "f\<lparr>f_chunk := (f_chunk f)\<lparr>pc_data := blit (pc_data (f_chunk f)) ?r p, pc_receivedSize := ?r + length p\<rparr>\<rparr>"
    have step: "chunk_event c env hs (U_write (Some p) (length p)) f = ?f"
      using Cons.prems by (cases "p = []") (auto simp: on_chunk_def blit_def Let_def)
    have l: "length (blit (pc_data (f_chunk f)) ?r p) = MAX_CHUNK_SIZE c" using Cons.prems by simp
    have t: "take (?r + length p) (blit (pc_data (f_chunk f)) ?r p) = take ?r (pc_data (f_chunk f)) @ p"
      using Cons.prems by (simp add: blit_def)
    obtain d where d: "fold (chunk_event c env hs) (parts_events ps) ?f = ?f\<lparr>f_chunk := (f_chunk ?f)\<lparr>pc_data := d,
        pc_receivedSize := ?r + length p + length (concat ps)\<rparr>\<rparr>" "length d = MAX_CHUNK_SIZE c"
      "take (?r + length p + length (concat ps)) d = take ?r (pc_data (f_chunk f)) @ p @ concat ps"
      using Cons.IH [of ?f] Cons.prems l t by (auto simp: add.assoc)
    then show ?case
      by (intro exI [of _ d]) (simp add: parts_events_def step [simplified] add.assoc)
  qed
  then show thesis using that by blast
qed

text \<open>After the upload of a new chunk the bytes wait in the buffer.\<close>

lemma upload_queued:
  assumes f: "receiving c staged broken sid k W f" and r: "chunk_request sid T j bs r"
    and j: "k < j" and bs: "bs \<noteq> []" "length bs \<le> MAX_CHUNK_SIZE c" "MAX_CHUNK_SIZE c < 2 ^ 31"
    and env: "fe_req env = Some r"
  obtains f' where "handleClient c api env f = f'"
    "f_phase f' = FP_RECEIVING" "f_sessionId f' = sid" "f_action f' = FA_NONE" "f_server f'"
    "f_upd f' = f_upd f" "f_lastActivityMs f' = fe_ms env" "f_out f' = f_out f @ [FO_send 202 ''Chunk queued'']"
    "pc_state (f_chunk f') = CB_QUEUED" "pc_receivedSize (f_chunk f') = length bs"
    "take (length bs) (pc_data (f_chunk f')) = bs" "length (pc_data (f_chunk f')) = MAX_CHUNK_SIZE c"
    "pc_chunkIndex (f_chunk f') = j" "pc_totalChunks (f_chunk f') = T" "f_total f' = f_total f"
proof -
  obtain hs parts where hs: "r = R_chunk hs (U_start # parts_events parts @ [U_end]) True" "concat parts = bs"
    "hs ''X-Session-ID'' \<noteq> []" "hs ''X-Chunk-Index'' \<noteq> []" "hs ''X-Total-Chunks'' \<noteq> []" "hs ''X-Chunk-Size'' \<noteq> []"
    "strtoul10 (hs ''X-Session-ID'') = sid" "atoi (hs ''X-Chunk-Index'') = j" "atoi (hs ''X-Total-Chunks'') = T"
    "atoi (hs ''X-Chunk-Size'') = int (length bs)"
    using r unfolding chunk_request_def by blast
  note fs = f [unfolded receiving_def]
  have n: "nat (int (length bs) mod 2 ^ 32) = length bs" using bs(2,3) by simp
  define f1 where "f1 = chunk_event c env hs U_start f"
  have f1: "f_phase f1 = FP_RECEIVING" "f_sessionId f1 = sid" "f_action f1 = FA_NONE" "f_server f1"
    "f_upd f1 = f_upd f" "f_out f1 = f_out f" "f_responseCode f1 = 202" "f_responseMsg f1 = ''Chunk queued''"
    "pc_state (f_chunk f1) = CB_RECEIVING" "pc_expectedSize (f_chunk f1) = length bs"
    "pc_receivedSize (f_chunk f1) = 0" "length (pc_data (f_chunk f1)) = MAX_CHUNK_SIZE c"
    "pc_chunkIndex (f_chunk f1) = j" "pc_totalChunks (f_chunk f1) = T" "f_total f1 = f_total f"
    using fs hs(3-) j bs n by (simp_all add: f1_def Let_def not_le not_less on_chunk_def setChunkResponse_def msg64_def)
  obtain d where d: "fold (chunk_event c env hs) (parts_events parts) f1 =
      f1\<lparr>f_chunk := (f_chunk f1)\<lparr>pc_data := d, pc_receivedSize := length bs\<rparr>\<rparr>" "length d = MAX_CHUNK_SIZE c"
      "take (length bs) d = bs"
    by (rule parts_received [of f1 c parts env hs]) (use f1 bs hs(2) in simp_all)
  define f2 where "f2 = chunk_event c env hs U_end (fold (chunk_event c env hs) (parts_events parts) f1)"
  have "handleClient c api env f = chunk_handler env f2"
    by (simp add: handleClient_def env hs(1) f2_def f1_def [symmetric] del: chunk_event.simps)
  moreover have "f2 = (on_chunk (\<lambda>p. p\<lparr>pc_state := CB_QUEUED, pc_startMs := fe_ms env\<rparr>)
      (f1\<lparr>f_chunk := (f_chunk f1)\<lparr>pc_data := d, pc_receivedSize := length bs\<rparr>\<rparr>))\<lparr>f_message := ''Chunk queued''\<rparr>"
    unfolding f2_def d(1) by (simp add: f1)
  ultimately show thesis
    using f1 d(2,3) by (intro that [OF refl]) (simp_all add: chunk_handler_def Let_def on_chunk_def put_def)
qed

lemma battery_watchdog_good:
  "MIN_VOLTAGE_LOAD_MV c \<le> readBatteryVoltageInternal c adc \<or> f_phase f \<noteq> FP_RECEIVING \<Longrightarrow>
   \<exists>b. battery_watchdog c api adc now f = f\<lparr>f_lastBattCheck := b\<rparr>"
proof (cases "now - f_lastBattCheck f > 10000")
  case True
  assume "MIN_VOLTAGE_LOAD_MV c \<le> readBatteryVoltageInternal c adc \<or> f_phase f \<noteq> FP_RECEIVING"
  then show ?thesis using True by (intro exI [of _ now]) (auto simp: battery_watchdog_def Let_def)
next
  case False
  then show ?thesis by (intro exI [of _ "f_lastBattCheck f"]) (simp add: battery_watchdog_def)
qed

lemma idle_watchdogs:
  assumes "f_phase f = FP_RECEIVING" "pc_state (f_chunk f) = CB_IDLE"
    and "now - f_lastActivityMs f \<le> 30000" "now - f_lastProgressMs f \<le> PROGRESS_TIMEOUT_MS c"
  shows "session_watchdog api now f = f \<and> \<not> idle_expired c now f \<and> transfer_watchdogs c api now f = f"
proof -
  have "\<not> now - f_lastActivityMs f > 30000" "\<not> now - f_lastProgressMs f > PROGRESS_TIMEOUT_MS c"
    using assms(3,4) by (simp_all add: not_less)
  then show ?thesis
    using assms(1,2) by (simp add: session_watchdog_def idle_expired_def transfer_watchdogs_def)
qed

lemma chunk_pass:
  assumes ok: "flash_ok api staged broken committed"
    and f: "receiving c staged broken sid k W f" and r: "chunk_request sid T j bs r"
    and j: "k < j" "j \<noteq> T - 1" and bs: "bs \<noteq> []" "length bs \<le> MAX_CHUNK_SIZE c" "MAX_CHUNK_SIZE c < 2 ^ 31"
    and env: "fe_req env = Some r" "steady c t env"
  obtains f' where "flasher_pass c api env f = (False, f')" "receiving c staged broken sid j (W @ bs) f'"
    "f_lastActivityMs f' = t" "f_lastProgressMs f' = t" "f_out f' = f_out f @ [FO_send 202 ''Chunk queued'']"
proof -
  have st: "fe_ms env = t" "fe_writeMs env = t" "fe_now env = t"
    "MIN_VOLTAGE_LOAD_MV c \<le> readBatteryVoltageInternal c (fe_adc env)" using env(2) by (simp_all add: steady_def)
  obtain f1 where h: "handleClient c api env f = f1" and f1: "f_phase f1 = FP_RECEIVING" "f_sessionId f1 = sid"
    "f_action f1 = FA_NONE" "f_server f1" "f_upd f1 = f_upd f" "f_lastActivityMs f1 = t"
    "f_out f1 = f_out f @ [FO_send 202 ''Chunk queued'']"
    "pc_state (f_chunk f1) = CB_QUEUED" "pc_receivedSize (f_chunk f1) = length bs"
    "take (length bs) (pc_data (f_chunk f1)) = bs" "length (pc_data (f_chunk f1)) = MAX_CHUNK_SIZE c"
    "pc_chunkIndex (f_chunk f1) = j" "pc_totalChunks (f_chunk f1) = T"
    by (rule upload_queued [OF f r j(1) bs env(1), of api]) (simp add: st(1))
  obtain u where u: "u_write api (f_upd f) bs = (length bs, u)" "staged u = W @ bs" "\<not> broken u"
    using flash_okD(2) [OF ok, of "f_upd f" bs] f by (auto simp: receiving_def)
  have act: "perform_action api env f1 = (False, f1)" using f1(3) by (simp add: perform_action_def)
  define f2 where "f2 = processPendingChunk api t f1"
  have f2: "f_phase f2 = FP_RECEIVING" "f_sessionId f2 = sid" "f_lastChunkIndex f2 = j"
    "pc_state (f_chunk f2) = CB_IDLE" "f_action f2 = FA_NONE" "f_server f2" "f_upd f2 = u"
    "length (pc_data (f_chunk f2)) = MAX_CHUNK_SIZE c" "f_lastActivityMs f2 = t" "f_lastProgressMs f2 = t"
    "f_out f2 = f_out f1"
    using f1 u(1) j(2) by (simp_all add: f2_def processPendingChunk_def Let_def on_chunk_def resetPendingChunk_def)
  have w: "session_watchdog api t f2 = f2 \<and> \<not> idle_expired c t f2 \<and> transfer_watchdogs c api t f2 = f2"
    by (rule idle_watchdogs) (simp_all add: f2)
  obtain b where b: "battery_watchdog c api (fe_adc env) t f2 = f2\<lparr>f_lastBattCheck := b\<rparr>"
    using battery_watchdog_good st(4) by blast
  have "flasher_pass c api env f = (False, f2\<lparr>f_lastBattCheck := b\<rparr>)"
    using f by (simp add: flasher_pass_def receiving_def h act st w b f2_def [symmetric])
  then show thesis
    using f2 u(2,3) f1(7) by (intro that [of "f2\<lparr>f_lastBattCheck := b\<rparr>"]) (simp_all add: receiving_def)
qed

text \<open>The chunk that its headers call the last one ends the session.\<close>

lemma final_chunk_pass:
  assumes ok: "flash_ok api staged broken committed"
    and f: "receiving c staged broken sid k W f" and r: "chunk_request sid T j bs r"
    and j: "k < j" "j = T - 1" "0 < T" and bs: "bs \<noteq> []" "length bs \<le> MAX_CHUNK_SIZE c" "MAX_CHUNK_SIZE c < 2 ^ 31"
    and env: "fe_req env = Some r"
  obtains f' where "flasher_pass c api env f = (False, f')" "committed (f_upd f') = Some (W @ bs)"
    "f_phase f' = FP_COMPLETE" "f_action f' = REBOOT_SUCCESS" "f_server f'" "f_total f' = f_total f"
    "f_out f' = f_out f @ [FO_send 202 ''Chunk queued'']"
proof -
  obtain f1 where h: "handleClient c api env f = f1" and f1: "f_phase f1 = FP_RECEIVING" "f_sessionId f1 = sid"
    "f_action f1 = FA_NONE" "f_server f1" "f_upd f1 = f_upd f"
    "f_out f1 = f_out f @ [FO_send 202 ''Chunk queued'']"
    "pc_state (f_chunk f1) = CB_QUEUED" "pc_receivedSize (f_chunk f1) = length bs"
    "take (length bs) (pc_data (f_chunk f1)) = bs" "pc_chunkIndex (f_chunk f1) = j" "pc_totalChunks (f_chunk f1) = T"
    "f_total f1 = f_total f"
    by (rule upload_queued [OF f r j(1) bs env, of api])
  obtain u where u: "u_write api (f_upd f) bs = (length bs, u)" "staged u = W @ bs" "\<not> broken u"
    using flash_okD(2) [OF ok, of "f_upd f" bs] f by (auto simp: receiving_def)
  obtain u' where u': "u_end api u = (True, u')" "committed u' = Some (W @ bs)"
    using flash_okD(3) [OF ok u(3)] u(2) by auto
  have act: "perform_action api env f1 = (False, f1)" using f1(3) by (simp add: perform_action_def)
  define f2 where "f2 = processPendingChunk api (fe_writeMs env) f1"
  have f2: "f_phase f2 = FP_COMPLETE" "f_action f2 = REBOOT_SUCCESS" "f_server f2" "f_upd f2 = u'" "f_out f2 = f_out f1"
    "f_total f2 = f_total f"
    using f1 u(1) u'(1) j(2,3)
    by (simp_all add: f2_def processPendingChunk_def Let_def on_chunk_def resetPendingChunk_def
        transitionPhase_def isTransitionAllowed_def)
  have w: "session_watchdog api now f2 = f2" "\<not> idle_expired c now f2" "transfer_watchdogs c api now f2 = f2" for now
    using f2(1) by (simp_all add: session_watchdog_def idle_expired_def transfer_watchdogs_def)
  obtain b where b: "battery_watchdog c api (fe_adc env) (fe_now env) f2 = f2\<lparr>f_lastBattCheck := b\<rparr>"
    using battery_watchdog_good [of c "fe_adc env" f2] f2(1) by auto
  have "flasher_pass c api env f = (False, f2\<lparr>f_lastBattCheck := b\<rparr>)"
    using f by (simp add: flasher_pass_def receiving_def h act w b f2_def [symmetric])
  then show thesis
    using f2 u'(2) f1(6) by (intro that [of "f2\<lparr>f_lastBattCheck := b\<rparr>"]) (simp_all)
qed

section \<open>A whole transfer\<close>

lemma flasher_run_append:
  "flasher_run c api (es @ fs) f =
     (let (restarted, f) = flasher_run c api es f in if restarted then (True, f) else flasher_run c api fs f)"
  by (induction es arbitrary: f) (auto simp: Let_def split_def)

text \<open>
  A pass that asks for nothing new: no request, a poll of the status, or a chunk up to index \<open>k\<close>
  sent again.
\<close>

definition quiet :: "u32 \<Rightarrow> int \<Rightarrow> http_req option \<Rightarrow> bool" where
  "quiet sid k r \<longleftrightarrow> r = None \<or> r = Some R_status \<or>
     (\<exists>T j bs q. r = Some q \<and> chunk_request sid T j bs q \<and> j \<le> k)"

text \<open>Quiet passes in order of time, none later than the time limits after \<open>t\<close>.\<close>

fun calm :: "flasher_cfg \<Rightarrow> u32 \<Rightarrow> int \<Rightarrow> u32 \<Rightarrow> u32 \<Rightarrow> flash_env list \<Rightarrow> bool" where
  "calm c sid k t d [] \<longleftrightarrow> True"
| "calm c sid k t d (e # es) \<longleftrightarrow> steady c (fe_now e) e \<and> quiet sid k (fe_req e) \<and> d \<le> fe_now e - t \<and>
     fe_now e - t \<le> 30000 \<and> fe_now e - t \<le> PROGRESS_TIMEOUT_MS c \<and> calm c sid k t (fe_now e - t) es"

lemma ignored_parts:
  "pc_state (f_chunk f) = CB_IDLE \<Longrightarrow> fold (chunk_event c env hs) (parts_events parts @ [U_end]) f = f"
  by (induction parts) (simp_all add: parts_events_def)

lemma quiet_request:
  assumes f: "receiving c staged broken sid k W f" and q: "quiet sid k (fe_req env)"
  obtains f' where "handleClient c api env f = f'" "receiving c staged broken sid k W f'"
    "f_lastProgressMs f' = f_lastProgressMs f" "f_lastActivityMs f' = f_lastActivityMs f \<or> f_lastActivityMs f' = fe_ms env"
proof -
  note fs = f [unfolded receiving_def]
  consider "fe_req env = None" | "fe_req env = Some R_status"
    | T j bs r where "fe_req env = Some r" "chunk_request sid T j bs r" "j \<le> k"
    using q unfolding quiet_def by (elim disjE exE conjE) metis+
  then show thesis
  proof cases
    case 1
    then show thesis using f by (intro that [OF refl]) (simp_all add: handleClient_def)
  next
    case 2
    then show thesis
      using fs by (intro that [OF refl]) (simp_all add: handleClient_def handle_status_def receiving_def Let_def)
  next
    case 3
    obtain hs parts where hs: "r = R_chunk hs (U_start # parts_events parts @ [U_end]) True"
      "hs ''X-Session-ID'' \<noteq> []" "hs ''X-Chunk-Index'' \<noteq> []" "hs ''X-Total-Chunks'' \<noteq> []"
      "strtoul10 (hs ''X-Session-ID'') = sid" "atoi (hs ''X-Chunk-Index'') = j"
      using 3(2) unfolding chunk_request_def by blast
    define f1 where "f1 = chunk_event c env hs U_start f"
    have f1: "f1 = setChunkResponse 200 ''Duplicate chunk'' (setChunkResponse 202 ''Chunk queued''
        (f\<lparr>f_lastActivityMs := fe_ms env\<rparr>))"
      using fs hs(2-) 3(3) by (simp add: f1_def Let_def)
    have "fold (chunk_event c env hs) (parts_events parts @ [U_end]) f1 = f1"
      by (rule ignored_parts) (use fs in \<open>simp add: f1\<close>)
    then have "handleClient c api env f = chunk_handler env f1"
      by (simp only: handleClient_def 3(1) hs(1) option.case http_req.case Let_def fold_Cons comp_apply
          f1_def [symmetric] if_True)
    then show thesis
      using fs by (intro that [OF refl]) (simp_all add: chunk_handler_def Let_def receiving_def f1)
  qed
qed

lemma quiet_pass:
  assumes f: "receiving c staged broken sid k W f" "f_lastProgressMs f = t" "f_lastActivityMs f = t + a" "a \<le> d"
    and e: "calm c sid k t d [env]"
  obtains f' a' where "flasher_pass c api env f = (False, f')" "receiving c staged broken sid k W f'"
    "f_lastProgressMs f' = t" "f_lastActivityMs f' = t + a'" "a' \<le> fe_now env - t"
proof -
  have st: "steady c (fe_now env) env" "quiet sid k (fe_req env)" "d \<le> fe_now env - t" "fe_now env - t \<le> 30000"
    "fe_now env - t \<le> PROGRESS_TIMEOUT_MS c" using e by simp_all
  have ms: "fe_ms env = fe_now env" "fe_writeMs env = fe_now env"
    "MIN_VOLTAGE_LOAD_MV c \<le> readBatteryVoltageInternal c (fe_adc env)" using st(1) by (simp_all add: steady_def)
  obtain f1 where h: "handleClient c api env f = f1" and f1: "receiving c staged broken sid k W f1"
    "f_lastProgressMs f1 = t" "f_lastActivityMs f1 = t + a \<or> f_lastActivityMs f1 = fe_now env"
    by (rule quiet_request [OF f(1) st(2), of api]) (simp add: f(2,3) ms)
  obtain a' where a': "f_lastActivityMs f1 = t + a'" "a' \<le> fe_now env - t"
  proof (cases "f_lastActivityMs f1 = fe_now env")
    case True
    then show thesis using that [of "fe_now env - t"] by simp
  next
    case False
    then show thesis using that [of a] f1(3) f(4) st(3) by auto
  qed
  note r = f1(1) [unfolded receiving_def]
  have "fe_now env - f_lastActivityMs f1 = (fe_now env - t) - a'" using a'(1) by simp
  also have "\<dots> \<le> fe_now env - t" using a'(2) by (simp add: word_sub_le)
  finally have w: "session_watchdog api (fe_now env) f1 = f1 \<and> \<not> idle_expired c (fe_now env) f1 \<and>
      transfer_watchdogs c api (fe_now env) f1 = f1"
    using r f1(2) st(4,5) by (intro idle_watchdogs) auto
  obtain b where b: "battery_watchdog c api (fe_adc env) (fe_now env) f1 = f1\<lparr>f_lastBattCheck := b\<rparr>"
    using battery_watchdog_good ms(3) by blast
  have "perform_action api env f1 = (False, f1)" "processPendingChunk api (fe_now env) f1 = f1"
    using r by (simp_all add: perform_action_def processPendingChunk_def)
  then have "flasher_pass c api env f = (False, f1\<lparr>f_lastBattCheck := b\<rparr>)"
    using f(1) by (simp add: flasher_pass_def receiving_def h ms w b)
  then show thesis
    using f1(1,2) a' by (intro that [of "f1\<lparr>f_lastBattCheck := b\<rparr>" a']) (simp_all add: receiving_def)
qed

lemma calm_run:
  "receiving c staged broken sid k W f \<Longrightarrow> f_lastProgressMs f = t \<Longrightarrow> f_lastActivityMs f = t + a \<Longrightarrow> a \<le> d \<Longrightarrow>
   calm c sid k t d es \<Longrightarrow> \<exists>f'. flasher_run c api es f = (False, f') \<and> receiving c staged broken sid k W f'"
proof (induction es arbitrary: f a d)
  case (Cons e es)
  obtain f' a' where "flasher_pass c api e f = (False, f')" "receiving c staged broken sid k W f'"
    "f_lastProgressMs f' = t" "f_lastActivityMs f' = t + a'" "a' \<le> fe_now e - t"
    by (rule quiet_pass [OF Cons.prems(1-4), of e api]) (use Cons.prems(5) in simp)
  then show ?case using Cons.IH [of f' a' "fe_now e - t"] Cons.prems(5) by simp
qed simp

text \<open>Rounds: a chunk with its pass and the quiet passes after it, numbered from \<open>j\<close>.\<close>

type_synonym round = "bytes \<times> flash_env \<times> flash_env list"

fun rounds_ok :: "flasher_cfg \<Rightarrow> u32 \<Rightarrow> int \<Rightarrow> int \<Rightarrow> round list \<Rightarrow> bool" where
  "rounds_ok c sid T j [] \<longleftrightarrow> True"
| "rounds_ok c sid T j ((bs, e, es) # rs) \<longleftrightarrow> bs \<noteq> [] \<and> length bs \<le> MAX_CHUNK_SIZE c \<and>
     (\<exists>q. fe_req e = Some q \<and> chunk_request sid T j bs q) \<and> steady c (fe_now e) e \<and>
     calm c sid j (fe_now e) 0 es \<and> rounds_ok c sid T (j + 1) rs"

definition round_envs :: "round list \<Rightarrow> flash_env list" where
  "round_envs rs = concat (map (\<lambda>(bs, e, es). e # es) rs)"

lemma rounds_run:
  assumes ok: "flash_ok api staged broken committed" and M: "MAX_CHUNK_SIZE c < 2 ^ 31"
  shows "receiving c staged broken sid (j - 1) W f \<Longrightarrow> rounds_ok c sid T j rs \<Longrightarrow> j + int (length rs) < T \<Longrightarrow>
    \<exists>f'. flasher_run c api (round_envs rs) f = (False, f') \<and>
      receiving c staged broken sid (j - 1 + int (length rs)) (W @ concat (map fst rs)) f'"
proof (induction rs arbitrary: f W j)
  case Nil
  then show ?case by (simp add: round_envs_def)
next
  case (Cons r rs)
  obtain bs e es where r: "r = (bs, e, es)" by (cases r)
  obtain q where q: "fe_req e = Some q" "chunk_request sid T j bs q" and b: "bs \<noteq> []" "length bs \<le> MAX_CHUNK_SIZE c"
    and st: "steady c (fe_now e) e" "calm c sid j (fe_now e) 0 es" "rounds_ok c sid T (j + 1) rs"
    using Cons.prems(2) by (auto simp: r)
  obtain f1 where f1: "flasher_pass c api e f = (False, f1)" "receiving c staged broken sid j (W @ bs) f1"
    "f_lastActivityMs f1 = fe_now e" "f_lastProgressMs f1 = fe_now e"
    by (rule chunk_pass [OF ok Cons.prems(1) q(2) _ _ b M q(1) st(1)]) (use Cons.prems(3) in simp_all)
  obtain f2 where f2: "flasher_run c api es f1 = (False, f2)" "receiving c staged broken sid j (W @ bs) f2"
    using calm_run [OF f1(2,4), of 0 0 es] f1(3) st(2) by auto
  obtain f3 where f3: "flasher_run c api (round_envs rs) f2 = (False, f3)"
    "receiving c staged broken sid (j + int (length rs)) ((W @ bs) @ concat (map fst rs)) f3"
    using Cons.IH [of "j + 1" "W @ bs" f2] f2(2) st(3) Cons.prems(3) by auto
  have "flasher_run c api (round_envs (r # rs)) f = flasher_run c api (es @ round_envs rs) f1"
    by (simp add: round_envs_def r f1(1))
  also have "\<dots> = (False, f3)" by (simp add: flasher_run_append f2(1) f3(1))
  finally show ?case using f3(2) by (intro exI [of _ f3]) (simp add: r add.assoc)
qed

lemma start_pass:
  assumes ok: "flash_ok api staged broken committed"
    and f: "f_phase f = FP_READY" "f_server f" "length (pc_data (f_chunk f)) = MAX_CHUNK_SIZE c"
    and e: "fe_req e = Some (R_start hs)" "steady c t e" "hs ''X-Session-ID'' \<noteq> []" "hs ''X-Total-Size'' \<noteq> []"
      "strtoul10 (hs ''X-Session-ID'') = sid" "sid \<noteq> 0" "1024 \<le> strtoul10 (hs ''X-Total-Size'')"
      "fe_nextPart e = Some sz" "strtoul10 (hs ''X-Total-Size'') \<le> sz"
  obtains f' where "flasher_pass c api e f = (False, f')" "receiving c staged broken sid (- 1) [] f'"
    "f_lastActivityMs f' = t" "f_lastProgressMs f' = t"
proof -
  have st: "fe_ms e = t" "fe_actMs e = t" "fe_writeMs e = t" "fe_now e = t"
    "MIN_VOLTAGE_LOAD_MV c \<le> readBatteryVoltageInternal c (fe_adc e)" using e(2) by (simp_all add: steady_def)
  define f1 where "f1 = handleClient c api e f"
  have f1: "f_action f1 = START_SESSION" "f_pendingSessionId f1 = sid" "f_phase f1 = FP_READY" "f_server f1"
    "f_chunk f1 = f_chunk f" "f_upd f1 = f_upd f"
    using f e(1,3-) by (simp_all add: f1_def handleClient_def handle_start_def Let_def not_less [symmetric] put_def)
  obtain u where u: "u_begin api (f_upd f) (f_pendingTotalSize f1) = (True, u)" "staged u = []" "\<not> broken u"
    using flash_okD(1) [OF ok] by blast
  define f2 where "f2 = snd (perform_action api e f1)"
  have f2: "\<not> fst (perform_action api e f1)" "receiving c staged broken sid (- 1) [] f2"
    "f_lastActivityMs f2 = t" "f_lastProgressMs f2 = t"
    using f1 f(3) u st(2)
    by (simp_all add: f2_def perform_action_def Let_def split_def receiving_def transitionPhase_def
        isTransitionAllowed_def put_def resetPendingChunk_def on_chunk_def)
  note r = f2(2) [unfolded receiving_def]
  have w: "session_watchdog api t f2 = f2 \<and> \<not> idle_expired c t f2 \<and> transfer_watchdogs c api t f2 = f2"
    using r f2(3,4) by (intro idle_watchdogs) auto
  obtain b where b: "battery_watchdog c api (fe_adc e) t f2 = f2\<lparr>f_lastBattCheck := b\<rparr>"
    using battery_watchdog_good st(5) by blast
  have "processPendingChunk api t f2 = f2" using r by (simp add: processPendingChunk_def)
  then have "flasher_pass c api e f = (False, f2\<lparr>f_lastBattCheck := b\<rparr>)"
    using f(2) f2(1) by (simp add: flasher_pass_def f1_def [symmetric] f2_def [symmetric] st w b split_def Let_def)
  then show thesis
    using f2 by (intro that [of "f2\<lparr>f_lastBattCheck := b\<rparr>"]) (simp_all add: receiving_def)
qed


definition demo_flasher_cfg :: flasher_cfg where
  "demo_flasher_cfg = \<lparr>MAX_CHUNK_SIZE = 8, MIN_VOLTAGE_IDLE_MV = 3600, MIN_VOLTAGE_LOAD_MV = 3400,
     MAX_VOLTAGE_SAG_MV = 400, IDLE_TIMEOUT_MS = 300000, PROGRESS_TIMEOUT_MS = 30000,
     CHUNK_RECEIVE_TIMEOUT_MS = 10000, CHUNK_WRITE_TIMEOUT_MS = 10000, fc_divide = (\<lambda>mv. 2 * mv),
     fc_code = (\<lambda>e. 1), fc_help = ''OTA Ready''\<rparr>"

definition demo_flasher :: "(bytes \<times> bool \<times> bytes option) flasher" where
  "demo_flasher = (flasher_new demo_flasher_cfg ([], False, None))\<lparr>f_phase := FP_READY, f_server := True\<rparr>"

definition demo_pass :: "http_req option \<Rightarrow> u32 \<Rightarrow> flash_env" where
  "demo_pass r t = \<lparr>fe_req = r, fe_ms = t, fe_actMs = t, fe_writeMs = t, fe_now = t, fe_adc = 2000,
     fe_nextPart = Some 100000\<rparr>"

definition demo_headers :: "string \<Rightarrow> headers" where
  "demo_headers j = (\<lambda>k. if k = ''X-Session-ID'' then ''7'' else if k = ''X-Total-Size'' then ''2048''
     else if k = ''X-Chunk-Index'' then j else if k = ''X-Total-Chunks'' then ''2''
     else if k = ''X-Chunk-Size'' then ''3'' else [])"

definition demo_chunk :: "string \<Rightarrow> bytes list \<Rightarrow> http_req" where
  "demo_chunk j parts = R_chunk (demo_headers j) (U_start # parts_events parts @ [U_end]) True"

lemma demo_flasher_cfg_simps [simp]:
  "MAX_CHUNK_SIZE demo_flasher_cfg = 8" "PROGRESS_TIMEOUT_MS demo_flasher_cfg = 30000"
  "IDLE_TIMEOUT_MS demo_flasher_cfg = 300000"
  by (simp_all add: demo_flasher_cfg_def)

lemma demo_flasher_simps [simp]:
  "f_phase demo_flasher = FP_READY" "f_server demo_flasher" "length (pc_data (f_chunk demo_flasher)) = 8"
  "f_action demo_flasher = FA_NONE" "f_upd demo_flasher = ([], False, None)" "pc_state (f_chunk demo_flasher) = CB_IDLE"
  "f_lastChunkIndex demo_flasher = - 1" "f_lastActivityMs demo_flasher = 0"
  by (simp_all add: demo_flasher_def flasher_new_def)

lemma demo_pass_simps [simp]:
  "fe_req (demo_pass r t) = r" "fe_now (demo_pass r t) = t" "fe_nextPart (demo_pass r t) = Some 100000"
  "steady demo_flasher_cfg t (demo_pass r t)" "fe_actMs (demo_pass r t) = t"
  by (simp_all add: demo_pass_def steady_def demo_flasher_cfg_def readBatteryVoltageInternal_def)

lemma demo_numbers [simp]:
  "strtoul10 ''7'' = 7" "strtoul10 ''2048'' = 2048" "atoi ''0'' = 0" "atoi ''1'' = 1" "atoi ''2'' = 2" "atoi ''3'' = 3"
  by (simp_all add: strtoul10_def atoi_def split_sign_def is_space_def is_digit_def digits_value_def)

lemma demo_headers_simps [simp]:
  "demo_headers j ''X-Session-ID'' = ''7''" "demo_headers j ''X-Total-Size'' = ''2048''"
  "demo_headers j ''X-Chunk-Index'' = j" "demo_headers j ''X-Total-Chunks'' = ''2''" "demo_headers j ''X-Chunk-Size'' = ''3''"
  by (simp_all add: demo_headers_def)

lemma demo_chunk_request [simp]:
  "j \<noteq> [] \<Longrightarrow> atoi j = i \<Longrightarrow> length (concat parts) = 3 \<Longrightarrow>
   chunk_request 7 2 i (concat parts) (demo_chunk j parts)"
  unfolding chunk_request_def demo_chunk_def by (intro exI conjI) (rule refl | simp)+


section \<open>Ends of a session\<close>

text \<open>
  The announced size decides nothing. In a session of any announced size, the first chunk whose
  headers call it the last one is committed as the whole image, whatever its index and however
  few bytes have arrived: the code ends the update on the client's chunk count alone and never
  compares what is written with the size of the session, and no checksum is involved.
\<close>

theorem lone_final_chunk_commits:
  assumes ok: "flash_ok api staged broken committed" and M: "MAX_CHUNK_SIZE c < 2 ^ 31"
    and f: "receiving c staged broken sid (- 1) [] f"
    and q: "fe_req env = Some q" "chunk_request sid T (T - 1) bs q" "0 < T" "bs \<noteq> []" "length bs \<le> MAX_CHUNK_SIZE c"
  shows "\<exists>f'. flasher_pass c api env f = (False, f') \<and> committed (f_upd f') = Some bs \<and>
    f_phase f' = FP_COMPLETE \<and> f_action f' = REBOOT_SUCCESS"
proof -
  obtain f' where "flasher_pass c api env f = (False, f')" "committed (f_upd f') = Some ([] @ bs)"
    "f_phase f' = FP_COMPLETE" "f_action f' = REBOOT_SUCCESS"
    by (rule final_chunk_pass [OF ok f q(2) _ refl q(3,4,5) M q(1)]) (use q(3) in simp_all)
  then show ?thesis by simp
qed

theorem lone_final_chunk_commits_witness:
  "\<exists>f'. flasher_pass demo_flasher_cfg list_flash (demo_pass (Some (demo_chunk ''1'' [[4, 5, 6]])) 9)
      (demo_flasher\<lparr>f_phase := FP_RECEIVING, f_sessionId := 7, f_total := 2048\<rparr>) = (False, f') \<and>
    snd (snd (f_upd f')) = Some [4, 5, 6] \<and> f_phase f' = FP_COMPLETE"
proof -
  have "chunk_request 7 2 (2 - 1) [4, 5, 6] (demo_chunk ''1'' [[4, 5, 6]])"
    using demo_chunk_request [of "''1''" 1 "[[4, 5, 6]]"] by simp
  moreover have "receiving demo_flasher_cfg (\<lambda>u. fst u) (\<lambda>u. fst (snd u)) 7 (- 1) []
      (demo_flasher\<lparr>f_phase := FP_RECEIVING, f_sessionId := 7, f_total := 2048\<rparr>)"
    by (simp add: receiving_def)
  ultimately have "\<exists>f'. flasher_pass demo_flasher_cfg list_flash (demo_pass (Some (demo_chunk ''1'' [[4, 5, 6]])) 9)
      (demo_flasher\<lparr>f_phase := FP_RECEIVING, f_sessionId := 7, f_total := 2048\<rparr>) = (False, f') \<and>
    snd (snd (f_upd f')) = Some [4, 5, 6] \<and> f_phase f' = FP_COMPLETE \<and> f_action f' = REBOOT_SUCCESS"
    by (intro lone_final_chunk_commits [OF list_flash_ok, where T = 2 and sid = 7 and q = "demo_chunk ''1'' [[4, 5, 6]]"]) simp_all
  then show ?thesis by blast
qed

lemma no_action: "f_action f = FA_NONE \<Longrightarrow> perform_action api env f = (False, f)"
  by (simp add: perform_action_def)

text \<open>A pass that ends outside a transfer and before the idle time-out.\<close>

lemma pass_at_rest:
  assumes "(if f_server f then handleClient c api env f else f) = f1" "perform_action api env f1 = (False, f2)"
    and "f_phase (processPendingChunk api (fe_writeMs env) f2) \<notin> {FP_RECEIVING, FP_ERASING}"
    and "\<not> idle_expired c (fe_now env) (processPendingChunk api (fe_writeMs env) f2)"
  shows "\<exists>b. flasher_pass c api env f = (False, (processPendingChunk api (fe_writeMs env) f2)\<lparr>f_lastBattCheck := b\<rparr>)"
proof -
  define h where "h = processPendingChunk api (fe_writeMs env) f2"
  have w: "session_watchdog api (fe_now env) h = h" "transfer_watchdogs c api (fe_now env) h = h"
    using assms(3) by (simp_all add: h_def [symmetric] session_watchdog_def transfer_watchdogs_def)
  obtain b where b: "battery_watchdog c api (fe_adc env) (fe_now env) h = h\<lparr>f_lastBattCheck := b\<rparr>"
    using battery_watchdog_good [of c "fe_adc env" h] assms(3) by (auto simp: h_def)
  show ?thesis
    using assms(4) by (intro exI [of _ b]) (simp add: flasher_pass_def assms(1,2) h_def [symmetric] w b)
qed

text \<open>
  An error is left by nobody but a client. In the error phase any number of passes without a
  request keeps the phase, with no restart and no time-out, so the access point stays on until
  the battery is empty; a request to abort makes the server ready again in its pass.
\<close>

theorem flasher_error_needs_abort:
  assumes "f_phase f = FP_ERROR" "f_action f = FA_NONE" "f_server f" "\<forall>env\<in>set envs. fe_req env = None"
    and "fe_req env = Some R_abort" "fe_now env = fe_actMs env"
  shows "\<exists>f' f''. flasher_run c api envs f = (False, f') \<and> f_phase f' = FP_ERROR \<and> f_out f' = f_out f \<and>
    flasher_pass c api env f' = (False, f'') \<and> f_phase f'' = FP_READY"
proof -
  have stay: "\<exists>f'. flasher_pass c api e g = (False, f') \<and> f_phase f' = FP_ERROR \<and> f_action f' = FA_NONE \<and>
      f_server f' \<and> f_out f' = f_out g"
    if "f_phase g = FP_ERROR" "f_action g = FA_NONE" "f_server g" "fe_req e = None" for g e
  proof -
    define h where "h = processPendingChunk api (fe_writeMs e) g"
    have h: "f_phase h = FP_ERROR" "f_action h = FA_NONE" "f_server h" "f_out h = f_out g"
      using that by (simp_all add: h_def processPendingChunk_def)
    have na: "perform_action api e g = (False, g)" using that(2) by (rule no_action)
    have "(if f_server g then handleClient c api e g else g) = g" "\<not> idle_expired c (fe_now e) h"
      "f_phase h \<notin> {FP_RECEIVING, FP_ERASING}"
      using that h(1) by (simp_all add: handleClient_def idle_expired_def)
    then obtain b where "flasher_pass c api e g = (False, h\<lparr>f_lastBattCheck := b\<rparr>)"
      using pass_at_rest [OF _ na] unfolding h_def by blast
    then show ?thesis using h by auto
  qed
  have "\<exists>f'. flasher_run c api envs f = (False, f') \<and> f_phase f' = FP_ERROR \<and> f_action f' = FA_NONE \<and>
      f_server f' \<and> f_out f' = f_out f"
    using assms(1-4)
  proof (induction envs arbitrary: f)
    case (Cons e es)
    obtain f1 where "flasher_pass c api e f = (False, f1)" "f_phase f1 = FP_ERROR" "f_action f1 = FA_NONE"
      "f_server f1" "f_out f1 = f_out f" using stay [of f e] Cons.prems by auto
    then show ?case using Cons.IH [of f1] Cons.prems(4) by simp
  qed simp
  then obtain f' where f': "flasher_run c api envs f = (False, f')" "f_phase f' = FP_ERROR" "f_server f'"
    "f_out f' = f_out f" by blast
  define h where "h = put [FO_led 0xFFA500] (resetFlasherState api (fe_actMs env)
    ((handle_abort f')\<lparr>f_action := FA_NONE\<rparr>))"
  have h: "f_phase h = FP_READY" "f_lastActivityMs h = fe_actMs env" "pc_state (f_chunk h) = CB_IDLE"
    by (simp_all add: h_def resetFlasherState_def forcePhase_def Let_def)
  have act: "perform_action api env (handle_abort f') = (False, h)"
    by (simp add: perform_action_def h_def) (simp add: handle_abort_def put_def Let_def)
  have "processPendingChunk api (fe_writeMs env) h = h" using h(3) by (simp add: processPendingChunk_def)
  moreover have "(if f_server f' then handleClient c api env f' else f') = handle_abort f'"
    using assms(5) f'(3) by (simp add: handleClient_def)
  moreover have "f_phase h \<notin> {FP_RECEIVING, FP_ERASING}" "\<not> idle_expired c (fe_now env) h"
    using h assms(6) by (simp_all add: idle_expired_def)
  ultimately obtain b where "flasher_pass c api env f' = (False, h\<lparr>f_lastBattCheck := b\<rparr>)"
    using pass_at_rest [OF _ act, where c = c] by auto
  then show ?thesis using f' h(1) by auto
qed

theorem flasher_error_needs_abort_witness:
  "\<exists>f'. flasher_run demo_flasher_cfg list_flash (replicate 5 (demo_pass None 4000000)) (demo_flasher\<lparr>f_phase := FP_ERROR\<rparr>) =
      (False, f') \<and> f_phase f' = FP_ERROR"
  using flasher_error_needs_abort [of "demo_flasher\<lparr>f_phase := FP_ERROR\<rparr>" "replicate 5 (demo_pass None 4000000)"
      "demo_pass (Some R_abort) 4000001" demo_flasher_cfg list_flash] by (auto simp del: flasher_run.simps)

text \<open>
  A ready server that nobody uses restarts the chip: the first pass without a request later
  than the idle time limit after the last activity restarts it.
\<close>

theorem ready_flasher_restarts:
  assumes "f_phase f = FP_READY" "f_action f = FA_NONE" "fe_req env = None"
    and "fe_now env - f_lastActivityMs f > IDLE_TIMEOUT_MS c"
  shows "\<exists>f'. flasher_pass c api env f = (True, f') \<and> FO_restart \<in> set (f_out f')"
proof -
  define g where "g = processPendingChunk api (fe_writeMs env) f"
  have g: "f_phase g = FP_READY" "f_lastActivityMs g = f_lastActivityMs f"
    using assms(1) by (simp_all add: g_def processPendingChunk_def)
  have h: "(if f_server f then handleClient c api env f else f) = f" using assms(3) by (simp add: handleClient_def)
  have "flasher_pass c api env f = (True, put [FO_restart] g)"
    using g assms(4)
    by (simp add: flasher_pass_def h no_action [OF assms(2)] g_def [symmetric] session_watchdog_def idle_expired_def)
  then show ?thesis by simp
qed

theorem ready_flasher_restarts_witness:
  "\<exists>f'. flasher_pass demo_flasher_cfg list_flash (demo_pass None 300001) demo_flasher = (True, f') \<and>
     FO_restart \<in> set (f_out f')"
  by (rule ready_flasher_restarts) simp_all

text \<open>
  The stream upload reports success for nothing. A \<open>POST /update\<close> that carries no file, in any
  phase but the error phase and with no error pending, is answered with the success text and restarts the
  chip, and the firmware stays the one it was.
\<close>

theorem empty_update_reports_success:
  assumes "f_phase f \<noteq> FP_ERROR" "\<not> u_hasError api (f_upd f)" "f_server f"
    and "fe_req env = Some (R_update hs [] True)"
  shows "\<exists>f'. flasher_pass c api env f = (True, f') \<and> f_upd f' = f_upd f \<and>
    FO_send 200 ''OK - Rebooting...'' \<in> set (f_out f')"
  using assms by (simp add: flasher_pass_def handleClient_def update_handler_def perform_action_def put_def Let_def)

theorem empty_update_reports_success_witness:
  "\<exists>f'. flasher_pass demo_flasher_cfg list_flash (demo_pass (Some (R_update (demo_headers []) [] True)) 7) demo_flasher =
     (True, f') \<and> snd (snd (f_upd f')) = None"
proof -
  have h: "\<not> u_hasError list_flash (f_upd demo_flasher)" by (simp add: list_flash_def)
  show ?thesis
    using empty_update_reports_success [of demo_flasher list_flash _ "demo_headers []" demo_flasher_cfg, OF _ h,
        of "demo_pass (Some (R_update (demo_headers []) [] True)) 7"] by auto
qed

text \<open>No phase is reported as \<open>RECEIVING\<close>, which the client is told to wait for.\<close>

lemma phase_never_reads_receiving: "flasherPhaseToString p \<noteq> ''RECEIVING''"
  by (cases p) simp_all

theorem chunk_buffer_bounds_witness:
  "length (pc_data (f_chunk (snd (flasher_run demo_flasher_cfg list_flash
     [demo_pass (Some (R_start (demo_headers ''0''))) 100,
      demo_pass (Some (demo_chunk ''0'' [[1, 2], [3, 4, 5, 6, 7, 8, 9]])) 200] demo_flasher)))) = 8"
proof -
  let ?es = "[demo_pass (Some (R_start (demo_headers ''0''))) 100,
    demo_pass (Some (demo_chunk ''0'' [[1, 2], [3, 4, 5, 6, 7, 8, 9]])) 200]"
  obtain r f' where run: "flasher_run demo_flasher_cfg list_flash ?es demo_flasher = (r, f')" by (metis prod.collapse)
  have "buffer_ok demo_flasher_cfg (f_chunk demo_flasher)" by (simp add: buffer_ok_def)
  from chunk_buffer_bounds [OF this _ run] show ?thesis
    unfolding run by (simp add: demo_chunk_def parts_events_def)
qed

end
