(* ===== verification/Fw_Sensor.thy ===== *)
theory Fw_Sensor
  imports Fw_Boot
begin

text \<open>
  The proximity sensor (\<open>src/src/HAL/Sensor_HAL.cpp\<close>): 16-bit registers behind an I2C bus that can
  fail at any byte, interrupt flag and debouncing, the thresholds with the environment back-off,
  suppression of detections, and the configuration for deep sleep with its check. The \<open>Wire\<close>
  library and the two bus pins are the parameter \<open>i2c_api\<close>. The statistics of the calibration and
  the sensitivity curve are removed from the published source: \<open>calibrate\<close> and
  \<open>recalculateThresholdsFromSensitivity\<close> do nothing there, and so they do here.
\<close>

section \<open>Registers\<close>

definition REG_PS_CONF1 :: u8 where "REG_PS_CONF1 = 0x03"
definition REG_PS_CONF3 :: u8 where "REG_PS_CONF3 = 0x04"
definition REG_PS_CANC :: u8 where "REG_PS_CANC = 0x05"
definition REG_PS_THDL :: u8 where "REG_PS_THDL = 0x06"
definition REG_PS_THDH :: u8 where "REG_PS_THDH = 0x07"
definition REG_PS_DATA :: u8 where "REG_PS_DATA = 0x08"
definition REG_INT_FLAG :: u8 where "REG_INT_FLAG = 0x0D"
definition REG_ID :: u8 where "REG_ID = 0x0E"

definition PS_SD_EN :: u16 where "PS_SD_EN = 0x0000"
definition PS_SD_DIS :: u16 where "PS_SD_DIS = 0x0001"
definition PS_INT_CLOSE :: u16 where "PS_INT_CLOSE = 0x0002"
definition PS_AF_AUTO :: u16 where "PS_AF_AUTO = 0x0000"
definition PS_AF_ACTIVE_FORCE :: u16 where "PS_AF_ACTIVE_FORCE = 0x0008"
definition PS_PERS_1 :: u16 where "PS_PERS_1 = 0x0000"
definition PS_PERS_2 :: u16 where "PS_PERS_2 = 0x0010"
definition PS_DUTY_1_40 :: u16 where "PS_DUTY_1_40 = 0x0000"
definition PS_DUTY_1_320 :: u16 where "PS_DUTY_1_320 = 0x00C0"
definition PS_HD_16BIT :: u16 where "PS_HD_16BIT = 0x0100"
definition PS_IT_8T :: u16 where "PS_IT_8T = 0x0E00"
definition PS_SC_EN :: u16 where "PS_SC_EN = 0x0001"
definition PS_TRIG :: u16 where "PS_TRIG = 0x0004"
definition PS_SMART_PERS :: u16 where "PS_SMART_PERS = 0x0010"
definition PS_LED_I_120MA :: u16 where "PS_LED_I_120MA = 0x0300"
definition PS_LED_I_200MA :: u16 where "PS_LED_I_200MA = 0x0700"
definition PS_NS_2STEP :: u16 where "PS_NS_2STEP = 0x1000"

lemmas ps_bits = PS_SD_EN_def PS_SD_DIS_def PS_INT_CLOSE_def PS_AF_AUTO_def PS_AF_ACTIVE_FORCE_def
  PS_PERS_1_def PS_PERS_2_def PS_DUTY_1_40_def PS_DUTY_1_320_def PS_HD_16BIT_def PS_IT_8T_def PS_SC_EN_def
  PS_TRIG_def PS_SMART_PERS_def PS_LED_I_120MA_def PS_LED_I_200MA_def PS_NS_2STEP_def

lemmas ps_regs = REG_PS_CONF1_def REG_PS_CONF3_def REG_PS_CANC_def REG_PS_THDL_def REG_PS_THDH_def
  REG_PS_DATA_def REG_INT_FLAG_def REG_ID_def

section \<open>The bus\<close>

text \<open>
  \<open>i_tx d bs stop\<close> is a transmission of \<open>bs\<close> to the address of the sensor with the code that
  \<open>endTransmission\<close> returns, \<open>i_req d n\<close> the bytes that \<open>requestFrom\<close> obtains.
\<close>

datatype pin_op = SDA_INPUT_PULLUP | SDA_OUTPUT | SDA_LOW | SDA_HIGH
  | SCL_INPUT_PULLUP | SCL_OUTPUT | SCL_LOW | SCL_HIGH

record 'd i2c_api =
  i_tx :: "'d \<Rightarrow> u8 list \<Rightarrow> bool \<Rightarrow> nat \<times> 'd"
  i_req :: "'d \<Rightarrow> nat \<Rightarrow> u8 list \<times> 'd"
  i_begin :: "'d \<Rightarrow> 'd"
  i_pin :: "'d \<Rightarrow> pin_op \<Rightarrow> 'd"
  i_sda :: "'d \<Rightarrow> bool"

record sensor_cfg =
  WAKE_THRESHOLD_DEFAULT :: u16
  DETECTION_THRESHOLD_DEFAULT :: u16
  CRITICAL_DETECTION_THRESHOLD_DEFAULT :: u16
  MIN_DEEP_SLEEP_THRESHOLD :: u16
  MAX_DEEP_SLEEP_THRESHOLD :: u16
  GPIO_WAKEUP_DEBOUNCE_MS :: u32

text \<open>The two statistics of the calibration are 32-bit floating-point patterns, \<open>0\<close> for \<open>0.0f\<close>.\<close>

record 'd sensor =
  sn_initialized :: bool
  sn_powerOn :: bool
  sn_i2cInitialized :: bool
  sn_wakeThreshold :: u16
  sn_detectionThreshold :: u16
  sn_criticalThreshold :: u16
  sn_userSensitivity :: u8
  sn_baseWake :: u16
  sn_baseDetection :: u16
  sn_baseCritical :: u16
  sn_environmentBackoff :: u16
  sn_lastReading :: u16
  sn_lastReadTime :: u32
  sn_interruptTriggered :: bool
  sn_lastInterruptTime :: u32
  sn_attached :: bool
  sn_hitsSuppressed :: bool
  sn_suppressEndTime :: u32
  sn_lastCalMean :: u32
  sn_lastCalSigma :: u32
  sn_dev :: 'd

definition sensor_new :: "sensor_cfg \<Rightarrow> 'd \<Rightarrow> 'd sensor" where
  "sensor_new c d = \<lparr>sn_initialized = False, sn_powerOn = False, sn_i2cInitialized = False,
     sn_wakeThreshold = WAKE_THRESHOLD_DEFAULT c, sn_detectionThreshold = DETECTION_THRESHOLD_DEFAULT c,
     sn_criticalThreshold = CRITICAL_DETECTION_THRESHOLD_DEFAULT c, sn_userSensitivity = 0,
     sn_baseWake = WAKE_THRESHOLD_DEFAULT c, sn_baseDetection = DETECTION_THRESHOLD_DEFAULT c,
     sn_baseCritical = CRITICAL_DETECTION_THRESHOLD_DEFAULT c, sn_environmentBackoff = 0,
     sn_lastReading = 0, sn_lastReadTime = 0, sn_interruptTriggered = False, sn_lastInterruptTime = 0,
     sn_attached = False, sn_hitsSuppressed = False, sn_suppressEndTime = 0, sn_lastCalMean = 0, sn_lastCalSigma = 0, sn_dev = d\<rparr>"

definition writeRegister :: "'d i2c_api \<Rightarrow> u8 \<Rightarrow> u16 \<Rightarrow> 'd sensor \<Rightarrow> bool \<times> 'd sensor" where
  "writeRegister api reg v s =
     (let (code, d) = i_tx api (sn_dev s) [reg, ucast (v AND 0xFF), ucast (drop_bit 8 v AND 0xFF)] True
      in (code = 0, s\<lparr>sn_dev := d\<rparr>))"

definition readRegister :: "'d i2c_api \<Rightarrow> u8 \<Rightarrow> 'd sensor \<Rightarrow> u16 option \<times> 'd sensor" where
  "readRegister api reg s =
     (let (code, d) = i_tx api (sn_dev s) [reg] False; s = s\<lparr>sn_dev := d\<rparr> in
      if code \<noteq> 0 then (None, s)
      else (let (bs, d) = i_req api (sn_dev s) 2; s = s\<lparr>sn_dev := d\<rparr>
            in if length bs \<noteq> 2 then (None, s)
               else (Some (push_bit 8 (ucast (bs ! 1)) OR ucast (bs ! 0)), s)))"

definition pins :: "'d i2c_api \<Rightarrow> pin_op list \<Rightarrow> 'd sensor \<Rightarrow> 'd sensor" where
  "pins api ops s = s\<lparr>sn_dev := foldl (i_pin api) (sn_dev s) ops\<rparr>"

fun clock_pulses :: "'d i2c_api \<Rightarrow> nat \<Rightarrow> 'd sensor \<Rightarrow> 'd sensor" where
  "clock_pulses api 0 s = s"
| "clock_pulses api (Suc n) s =
     (let s = pins api [SCL_LOW, SCL_HIGH] s
      in if i_sda api (sn_dev s) then s else clock_pulses api n s)"

definition recoverI2CBus :: "'d i2c_api \<Rightarrow> 'd sensor \<Rightarrow> 'd sensor" where
  "recoverI2CBus api s =
     (let s = pins api [SDA_INPUT_PULLUP, SCL_OUTPUT, SCL_HIGH] s;
          s = (if \<not> i_sda api (sn_dev s) then clock_pulses api 9 s else s)
      in pins api [SDA_OUTPUT, SDA_LOW, SCL_HIGH, SDA_HIGH, SDA_INPUT_PULLUP, SCL_INPUT_PULLUP] s)"

definition ensureI2CReady :: "'d i2c_api \<Rightarrow> 'd sensor \<Rightarrow> bool \<times> 'd sensor" where
  "ensureI2CReady api s =
     (if sn_i2cInitialized s then (True, s)
      else (let s = recoverI2CBus api s
            in (True, s\<lparr>sn_dev := i_begin api (sn_dev s), sn_i2cInitialized := True\<rparr>)))"

definition sensor_isPresent :: "'d i2c_api \<Rightarrow> 'd sensor \<Rightarrow> bool \<times> 'd sensor" where
  "sensor_isPresent api s =
     (let (ready, s) = (if sn_i2cInitialized s then (True, s) else ensureI2CReady api s)
      in if \<not> ready then (False, s)
         else (let (code, d) = i_tx api (sn_dev s) [] True in (code = 0, s\<lparr>sn_dev := d\<rparr>)))"

definition getSensorId :: "'d i2c_api \<Rightarrow> 'd sensor \<Rightarrow> u16 \<times> 'd sensor" where
  "getSensorId api s =
     (let (ready, s) = (if sn_i2cInitialized s then (True, s) else ensureI2CReady api s)
      in if \<not> ready then (0, s)
         else (let (v, s) = readRegister api REG_ID s in (case v of Some w \<Rightarrow> w | None \<Rightarrow> 0, s)))"

section \<open>Set-up and readings\<close>

definition CONF3_ACTIVE :: u16 where
  "CONF3_ACTIVE = PS_LED_I_200MA OR PS_NS_2STEP OR PS_SMART_PERS OR PS_SC_EN"

text \<open>The ten samples of the start-up baseline; a failed read counts as zero.\<close>

fun baseline_sum :: "'d i2c_api \<Rightarrow> nat \<Rightarrow> 'd sensor \<Rightarrow> u32 \<times> 'd sensor" where
  "baseline_sum api 0 s = (0, s)"
| "baseline_sum api (Suc n) s =
     (let s = snd (writeRegister api REG_PS_CONF3 (CONF3_ACTIVE OR PS_TRIG) s);
          (r, s) = readRegister api REG_PS_DATA s;
          (rest, s) = baseline_sum api n s
      in ((case r of Some v \<Rightarrow> ucast v | None \<Rightarrow> 0) + rest, s))"

definition initializeRegisters :: "'d i2c_api \<Rightarrow> 'd sensor \<Rightarrow> 'd sensor" where
  "initializeRegisters api s =
     (let conf1 = PS_SD_EN OR PS_AF_ACTIVE_FORCE OR PS_IT_8T OR PS_DUTY_1_40 OR PS_HD_16BIT OR PS_PERS_2 OR
            PS_INT_CLOSE;
          s = snd (writeRegister api REG_PS_CONF1 conf1 s);
          s = snd (writeRegister api REG_PS_CONF3 CONF3_ACTIVE s);
          s = snd (writeRegister api REG_PS_CANC 0 s);
          s = snd (writeRegister api REG_PS_CONF3 (CONF3_ACTIVE OR PS_TRIG) s);
          s = snd (readRegister api REG_PS_DATA s);
          (calibSum, s) = baseline_sum api 10 s;
          s = snd (writeRegister api REG_PS_CANC (ucast (calibSum div 10)) s);
          s = snd (writeRegister api REG_PS_THDH (sn_wakeThreshold s) s)
      in snd (writeRegister api REG_PS_THDL 0 s))"

definition sensor_init :: "'d i2c_api \<Rightarrow> 'd sensor \<Rightarrow> hal_error \<times> 'd sensor" where
  "sensor_init api s =
     (if sn_initialized s then (HAL_OK, s)
      else let (ready, s) = ensureI2CReady api s in
      if \<not> ready then (INIT_FAILED, s)
      else let (present, s) = sensor_isPresent api s in
      if \<not> present then (DEVICE_NOT_FOUND, s)
      else (let s = snd (getSensorId api s); s = initializeRegisters api s
            in (HAL_OK, s\<lparr>sn_initialized := True, sn_powerOn := True\<rparr>)))"

definition readProximity :: "'d i2c_api \<Rightarrow> u32 \<Rightarrow> 'd sensor \<Rightarrow> u16 \<times> 'd sensor" where
  "readProximity api now s =
     (if \<not> sn_initialized s \<or> \<not> sn_powerOn s \<or> \<not> sn_i2cInitialized s then (0, s)
      else let conf3 = PS_SC_EN OR PS_TRIG OR PS_SMART_PERS OR PS_LED_I_200MA OR PS_NS_2STEP;
               (ok, s) = writeRegister api REG_PS_CONF3 conf3 s in
      if \<not> ok then (sn_lastReading s, s)
      else (case readRegister api REG_PS_DATA s of
              (None, s) \<Rightarrow> (sn_lastReading s, s)
            | (Some v, s) \<Rightarrow> (v, s\<lparr>sn_lastReading := v, sn_lastReadTime := now\<rparr>)))"

definition isProximityBelowThreshold :: "'d i2c_api \<Rightarrow> u32 \<Rightarrow> u16 \<Rightarrow> 'd sensor \<Rightarrow> bool \<times> 'd sensor" where
  "isProximityBelowThreshold api now threshold s =
     (if \<not> sn_initialized s \<or> \<not> sn_powerOn s \<or> \<not> sn_i2cInitialized s then (True, s)
      else (let (currentProx, s) = readProximity api now s in (currentProx < threshold, s)))"

definition powerDown :: "'d i2c_api \<Rightarrow> 'd sensor \<Rightarrow> 'd sensor" where
  "powerDown api s =
     (if \<not> sn_initialized s then s
      else (let (conf1, s) = readRegister api REG_PS_CONF1 s;
                s = snd (writeRegister api REG_PS_CONF1
                      (case conf1 of Some v \<Rightarrow> v OR PS_SD_DIS | None \<Rightarrow> PS_SD_DIS) s)
            in s\<lparr>sn_powerOn := False\<rparr>))"

definition powerUp :: "'d i2c_api \<Rightarrow> 'd sensor \<Rightarrow> 'd sensor" where
  "powerUp api s =
     (if \<not> sn_initialized s then s else (initializeRegisters api s)\<lparr>sn_powerOn := True\<rparr>)"

section \<open>Thresholds\<close>

definition setWakeThreshold :: "u16 \<Rightarrow> 'd sensor \<Rightarrow> hal_error \<times> 'd sensor" where
  "setWakeThreshold t s =
     (if \<not> sn_initialized s then (NOT_INITIALIZED, s) else (HAL_OK, s\<lparr>sn_wakeThreshold := t\<rparr>))"

definition setDetectionThreshold :: "u16 \<Rightarrow> 'd sensor \<Rightarrow> hal_error \<times> 'd sensor" where
  "setDetectionThreshold t s =
     (if \<not> sn_initialized s then (NOT_INITIALIZED, s) else (HAL_OK, s\<lparr>sn_detectionThreshold := t\<rparr>))"

definition setCriticalDetectionThreshold :: "u16 \<Rightarrow> 'd sensor \<Rightarrow> hal_error \<times> 'd sensor" where
  "setCriticalDetectionThreshold t s =
     (if \<not> sn_initialized s then (NOT_INITIALIZED, s) else (HAL_OK, s\<lparr>sn_criticalThreshold := t\<rparr>))"

definition effective_threshold :: "u16 \<Rightarrow> u16 \<Rightarrow> u16" where
  "effective_threshold threshold backoff =
     (let effective = (ucast threshold :: 32 word) + scast backoff;
          effective = (if sint effective < 0 then 0 else effective);
          effective = (if 65535 < sint effective then 65535 else effective)
      in ucast effective)"

definition getDetectionThreshold :: "'d sensor \<Rightarrow> u16" where
  "getDetectionThreshold s = effective_threshold (sn_detectionThreshold s) (sn_environmentBackoff s)"

definition getCriticalDetectionThreshold :: "'d sensor \<Rightarrow> u16" where
  "getCriticalDetectionThreshold s = effective_threshold (sn_criticalThreshold s) (sn_environmentBackoff s)"

definition applyEnvironmentBackoff :: "u16 \<Rightarrow> 'd sensor \<Rightarrow> 'd sensor" where
  "applyEnvironmentBackoff offset s = s\<lparr>sn_environmentBackoff := offset\<rparr>"

definition clearEnvironmentBackoff :: "'d sensor \<Rightarrow> 'd sensor" where
  "clearEnvironmentBackoff s =
     (if sn_environmentBackoff s \<noteq> 0 then s\<lparr>sn_environmentBackoff := 0\<rparr> else s)"

definition recalculateThresholdsFromSensitivity :: "'d sensor \<Rightarrow> 'd sensor" where
  "recalculateThresholdsFromSensitivity s = s"

definition setUserSensitivity :: "u8 \<Rightarrow> 'd sensor \<Rightarrow> 'd sensor" where
  "setUserSensitivity sensitivity s =
     (let sensitivity = (if 100 < sensitivity then 100 else sensitivity)
      in if sn_userSensitivity s = sensitivity then s
         else recalculateThresholdsFromSensitivity (s\<lparr>sn_userSensitivity := sensitivity\<rparr>))"

definition setBaseThresholds :: "u16 \<Rightarrow> u16 \<Rightarrow> u16 \<Rightarrow> 'd sensor \<Rightarrow> 'd sensor" where
  "setBaseThresholds wake detection critical s =
     recalculateThresholdsFromSensitivity (s\<lparr>sn_baseWake := wake, sn_baseDetection := detection,
       sn_baseCritical := critical, sn_wakeThreshold := wake\<rparr>)"

definition sensor_calibrate :: "u32 \<Rightarrow> 'd sensor \<Rightarrow> hal_error" where
  "sensor_calibrate durationMs s = (if \<not> sn_initialized s then NOT_INITIALIZED else HAL_OK)"

definition configureForWakeMode :: "'d i2c_api \<Rightarrow> 'd sensor \<Rightarrow> 'd sensor" where
  "configureForWakeMode api s =
     (if \<not> sn_initialized s then s
      else snd (writeRegister api REG_PS_THDL 0 (snd (writeRegister api REG_PS_THDH (sn_wakeThreshold s) s))))"

definition configureForHitDetection :: "'d i2c_api \<Rightarrow> 'd sensor \<Rightarrow> 'd sensor" where
  "configureForHitDetection api s =
     (if \<not> sn_initialized s then s
      else snd (writeRegister api REG_PS_THDL 0 (snd (writeRegister api REG_PS_THDH (sn_detectionThreshold s) s))))"

section \<open>Interrupts and suppression\<close>

definition sensorInterruptHandler :: "'d sensor \<Rightarrow> 'd sensor" where
  "sensorInterruptHandler s = s\<lparr>sn_interruptTriggered := True\<rparr>"

definition enableInterrupt :: "'d sensor \<Rightarrow> hal_error \<times> 'd sensor" where
  "enableInterrupt s =
     (if \<not> sn_initialized s then (NOT_INITIALIZED, s)
      else (HAL_OK, s\<lparr>sn_interruptTriggered := False, sn_lastInterruptTime := 0, sn_attached := True\<rparr>))"

definition disableInterrupt :: "'d sensor \<Rightarrow> 'd sensor" where
  "disableInterrupt s = s\<lparr>sn_attached := False, sn_interruptTriggered := False\<rparr>"

text \<open>\<open>now\<close> is the time of the check, \<open>now2\<close> the one of the reading.\<close>

definition checkTrigger :: "'d i2c_api \<Rightarrow> sensor_cfg \<Rightarrow> u32 \<Rightarrow> u32 \<Rightarrow> 'd sensor \<Rightarrow> bool \<times> 'd sensor" where
  "checkTrigger api c now now2 s =
     (if \<not> sn_interruptTriggered s then (False, s)
      else if now - sn_lastInterruptTime s < GPIO_WAKEUP_DEBOUNCE_MS c
      then (False, s\<lparr>sn_interruptTriggered := False\<rparr>)
      else (let s = s\<lparr>sn_lastInterruptTime := now, sn_interruptTriggered := False\<rparr>;
                (proximity, s) = readProximity api now2 s
            in (sn_wakeThreshold s < proximity, s)))"

definition clearInterrupt :: "'d i2c_api \<Rightarrow> 'd sensor \<Rightarrow> 'd sensor" where
  "clearInterrupt api s = snd (readRegister api REG_INT_FLAG (s\<lparr>sn_interruptTriggered := False\<rparr>))"

definition suppressDetections :: "u32 \<Rightarrow> u32 \<Rightarrow> 'd sensor \<Rightarrow> 'd sensor" where
  "suppressDetections now durationMs s = s\<lparr>sn_suppressEndTime := now + durationMs, sn_hitsSuppressed := True\<rparr>"

definition areHitsSuppressed :: "u32 \<Rightarrow> 'd sensor \<Rightarrow> bool \<times> 'd sensor" where
  "areHitsSuppressed now s =
     (if \<not> sn_hitsSuppressed s then (False, s)
      else if sn_suppressEndTime s \<le> now then (False, s\<lparr>sn_hitsSuppressed := False\<rparr>)
      else (True, s))"

section \<open>Deep sleep\<close>

definition deep_sleep_threshold :: "sensor_cfg \<Rightarrow> u16" where
  "deep_sleep_threshold c =
     (let t = 0
      in if t < MIN_DEEP_SLEEP_THRESHOLD c then MIN_DEEP_SLEEP_THRESHOLD c
         else if MAX_DEEP_SLEEP_THRESHOLD c < t then MAX_DEEP_SLEEP_THRESHOLD c else t)"

definition CONF3_SLEEP :: u16 where "CONF3_SLEEP = PS_SC_EN OR PS_LED_I_120MA OR PS_NS_2STEP"

definition CONF1_SLEEP :: u16 where
  "CONF1_SLEEP = PS_SD_EN OR PS_AF_AUTO OR PS_INT_CLOSE OR PS_PERS_1 OR PS_DUTY_1_320 OR PS_IT_8T OR PS_HD_16BIT"

definition sleep_verified :: "u16 \<Rightarrow> bool" where
  "sleep_verified verifyConf1 \<longleftrightarrow> verifyConf1 AND PS_SD_DIS = 0 \<and> verifyConf1 AND PS_INT_CLOSE \<noteq> 0 \<and>
     verifyConf1 AND PS_AF_ACTIVE_FORCE = 0"

text \<open>One of the three attempts: whether it verified the configuration.\<close>

definition sleep_attempt :: "'d i2c_api \<Rightarrow> u16 \<Rightarrow> 'd sensor \<Rightarrow> bool \<times> 'd sensor" where
  "sleep_attempt api threshold s =
     (let (currentConf1, s) = readRegister api REG_PS_CONF1 s in
      case currentConf1 of None \<Rightarrow> (False, recoverI2CBus api s)
      | Some cur \<Rightarrow>
      let (ok, s) = writeRegister api REG_PS_CONF1 (cur OR PS_SD_DIS) s in
      if \<not> ok then (False, recoverI2CBus api s)
      else let (ok, s) = writeRegister api REG_PS_THDH threshold s in
      if \<not> ok then (False, s)
      else let (ok, s) = writeRegister api REG_PS_THDL 0 s in
      if \<not> ok then (False, s)
      else let (ok, s) = writeRegister api REG_PS_CONF3 CONF3_SLEEP s in
      if \<not> ok then (False, s)
      else let (ok, s) = writeRegister api REG_PS_CONF1 CONF1_SLEEP s in
      if \<not> ok then (False, s)
      else let (verify, s) = readRegister api REG_PS_CONF1 s in
      case verify of None \<Rightarrow> (False, recoverI2CBus api s)
      | Some verifyConf1 \<Rightarrow>
          if sleep_verified verifyConf1 then (True, clearInterrupt api s)
          else (False, recoverI2CBus api s))"

fun sleep_attempts :: "'d i2c_api \<Rightarrow> u16 \<Rightarrow> nat \<Rightarrow> 'd sensor \<Rightarrow> bool \<times> 'd sensor" where
  "sleep_attempts api t 0 s = (False, s)"
| "sleep_attempts api t (Suc n) s =
     (case sleep_attempt api t s of (True, s) \<Rightarrow> (True, s) | (False, s) \<Rightarrow> sleep_attempts api t n s)"

definition configureForDeepSleep :: "'d i2c_api \<Rightarrow> sensor_cfg \<Rightarrow> 'd sensor \<Rightarrow> bool \<times> 'd sensor" where
  "configureForDeepSleep api c s =
     (if \<not> sn_initialized s then (False, s) else sleep_attempts api (deep_sleep_threshold c) 3 s)"

section \<open>The device behind the bus\<close>

text \<open>
  What the properties assume of bus and sensor, through a view of the registers. An honest bus: a
  write touches no register but its own, and none when it is not acknowledged; selecting a
  register, recovering the bus and restarting it change none; reading may change the data and
  flag registers only, and delivers the selected register when it delivers two bytes. An honest
  bus may still lose a write that it acknowledged; \<open>i2c_ok\<close> excludes that.
\<close>

definition config_reg :: "u8 \<Rightarrow> bool" where
  "config_reg r \<longleftrightarrow> r \<in> {REG_PS_CONF1, REG_PS_CONF3, REG_PS_CANC, REG_PS_THDL, REG_PS_THDH}"

definition i2c_honest :: "'d i2c_api \<Rightarrow> ('d \<Rightarrow> u8 \<Rightarrow> u16) \<Rightarrow> bool" where
  "i2c_honest api view \<longleftrightarrow>
     (\<forall>d r lo hi code d'. i_tx api d [r, lo, hi] True = (code, d') \<longrightarrow>
        (\<forall>q. config_reg q \<and> (q \<noteq> r \<or> code \<noteq> 0) \<longrightarrow> view d' q = view d q)) \<and>
     (\<forall>d r code d'. i_tx api d [r] False = (code, d') \<longrightarrow>
        (\<forall>q. config_reg q \<longrightarrow> view d' q = view d q) \<and>
        (\<forall>bs d''. code = 0 \<and> i_req api d' 2 = (bs, d'') \<longrightarrow>
           (\<forall>q. config_reg q \<longrightarrow> view d'' q = view d q) \<and>
           (length bs = 2 \<and> config_reg r \<longrightarrow> bs = le16 (view d r)))) \<and>
     (\<forall>d op q. view (i_pin api d op) q = view d q) \<and> (\<forall>d q. view (i_begin api d) q = view d q)"

definition i2c_ok :: "'d i2c_api \<Rightarrow> ('d \<Rightarrow> u8 \<Rightarrow> u16) \<Rightarrow> bool" where
  "i2c_ok api view \<longleftrightarrow> i2c_honest api view \<and>
     (\<forall>d r lo hi d'. i_tx api d [r, lo, hi] True = (0, d') \<and> config_reg r \<longrightarrow> view d' r = rd_le16 lo hi)"

text \<open>A bus that works: every transmission is acknowledged and every read complete.\<close>

definition i2c_working :: "'d i2c_api \<Rightarrow> bool" where
  "i2c_working api \<longleftrightarrow> (\<forall>d bs stop. fst (i_tx api d bs stop) = 0) \<and> (\<forall>d n. length (fst (i_req api d n)) = n)"

text \<open>A concrete one: a register file and the selected register.\<close>

definition demo_i2c :: "((u8 \<Rightarrow> u16) \<times> u8) i2c_api" where
  "demo_i2c = \<lparr>
     i_tx = (\<lambda>(regs, sel) bs stop. (0, case bs of [r, lo, hi] \<Rightarrow> (regs(r := rd_le16 lo hi), r)
        | [r] \<Rightarrow> (regs, r) | _ \<Rightarrow> (regs, sel))),
     i_req = (\<lambda>(regs, sel) n. (take n (le16 (regs sel) @ replicate n 0), (regs, sel))),
     i_begin = (\<lambda>d. d), i_pin = (\<lambda>d op. d), i_sda = (\<lambda>d. True)\<rparr>"

lemma demo_i2c_ok: "i2c_ok demo_i2c fst"
  by (auto simp: i2c_ok_def i2c_honest_def demo_i2c_def le16_def)

lemma demo_i2c_working: "i2c_working demo_i2c"
  by (auto simp: i2c_working_def demo_i2c_def)

lemma i2c_honestD:
  assumes "i2c_honest api view" "config_reg q"
  shows "i_tx api d [r, lo, hi] True = (code, d') \<Longrightarrow> q \<noteq> r \<or> code \<noteq> 0 \<Longrightarrow> view d' q = view d q"
    and "i_tx api d [r] False = (code, d') \<Longrightarrow> view d' q = view d q"
    and "i_tx api d [r] False = (0, d') \<Longrightarrow> i_req api d' 2 = (bs, d'') \<Longrightarrow> view d'' q = view d q"
    and "i_tx api d [q] False = (0, d') \<Longrightarrow> i_req api d' 2 = (bs, d'') \<Longrightarrow> length bs = 2 \<Longrightarrow> bs = le16 (view d q)"
    and "view (i_pin api d op) q = view d q" and "view (i_begin api d) q = view d q"
  using assms unfolding i2c_honest_def by blast+

lemma rd_le16_split: "rd_le16 (ucast (v AND 0xFF)) (ucast (drop_bit 8 v AND 0xFF)) = v" for v :: u16
proof -
  have low: "ucast (w AND 0xFF) = (ucast w :: u8)" for w :: u16
  proof -
    have "w AND 0xFF = take_bit 8 w" by (simp add: take_bit_eq_mask mask_eq_exp_minus_1)
    then show ?thesis by (simp only:) (rule bit_word_eqI, simp add: bit_simps)
  qed
  show ?thesis by (simp add: low)
qed

lemma writeRegister_regs:
  assumes "i2c_honest api view" "writeRegister api r v s = (ok, s')" "config_reg q"
  shows "q \<noteq> r \<or> \<not> ok \<Longrightarrow> view (sn_dev s') q = view (sn_dev s) q"
    and "i2c_ok api view \<Longrightarrow> ok \<Longrightarrow> q = r \<Longrightarrow> view (sn_dev s') q = v"
proof -
  let ?bs = "[r, ucast (v AND 0xFF), ucast (drop_bit 8 v AND 0xFF)]"
  obtain code d where t: "i_tx api (sn_dev s) ?bs True = (code, d)" by fastforce
  then have w: "ok \<longleftrightarrow> code = 0" "s' = s\<lparr>sn_dev := d\<rparr>" using assms(2) by (auto simp: writeRegister_def)
  show "q \<noteq> r \<or> \<not> ok \<Longrightarrow> view (sn_dev s') q = view (sn_dev s) q"
    using i2c_honestD(1) [OF assms(1,3) t] w by auto
  assume "i2c_ok api view" "ok" "q = r"
  then have "view d r = rd_le16 (ucast (v AND 0xFF)) (ucast (drop_bit 8 v AND 0xFF))"
    using t w assms(3) unfolding i2c_ok_def by blast
  then show "view (sn_dev s') q = v" using w \<open>q = r\<close> by (simp add: rd_le16_split)
qed

lemma readRegister_regs:
  assumes "i2c_honest api view" "readRegister api r s = (x, s')" "config_reg q"
  shows "view (sn_dev s') q = view (sn_dev s) q"
    and "x = Some v \<Longrightarrow> q = r \<Longrightarrow> v = view (sn_dev s) q"
proof -
  obtain code d where t: "i_tx api (sn_dev s) [r] False = (code, d)" by fastforce
  obtain bs e where q: "i_req api d 2 = (bs, e)" by fastforce
  show "view (sn_dev s') q = view (sn_dev s) q"
    using assms(2) t q i2c_honestD(2,3) [OF assms(1,3)]
    by (auto simp: readRegister_def Let_def split: if_splits)
  assume x: "x = Some v" "q = r"
  then have c: "code = 0" "length bs = 2" "v = push_bit 8 (ucast (bs ! 1)) OR ucast (bs ! 0)"
    using assms(2) t q by (auto simp: readRegister_def Let_def split: if_splits)
  then have "bs = le16 (view (sn_dev s) q)" using i2c_honestD(4) [OF assms(1,3)] t q x by blast
  then show "v = view (sn_dev s) q" using c(3) rd_le16_of_bytes [of "view (sn_dev s) q"]
    by (simp add: le16_def rd_le16_def)
qed

lemma pins_regs: "i2c_honest api view \<Longrightarrow> config_reg q \<Longrightarrow> view (sn_dev (pins api ops s)) q = view (sn_dev s) q"
proof -
  assume a: "i2c_honest api view" "config_reg q"
  have "view (foldl (i_pin api) d ops) q = view d q" for d
    by (induction ops arbitrary: d) (simp_all add: i2c_honestD(5) [OF a])
  then show ?thesis by (simp add: pins_def)
qed

lemma clock_pulses_regs:
  "i2c_honest api view \<Longrightarrow> config_reg q \<Longrightarrow> view (sn_dev (clock_pulses api n s)) q = view (sn_dev s) q"
  by (induction n arbitrary: s) (simp_all add: pins_regs Let_def)

lemma recoverI2CBus_regs:
  "i2c_honest api view \<Longrightarrow> config_reg q \<Longrightarrow> view (sn_dev (recoverI2CBus api s)) q = view (sn_dev s) q"
  by (simp add: recoverI2CBus_def pins_regs clock_pulses_regs Let_def)

lemma clearInterrupt_regs:
  assumes "i2c_honest api view" "config_reg q"
  shows "view (sn_dev (clearInterrupt api s)) q = view (sn_dev s) q"
proof -
  obtain x t where "readRegister api REG_INT_FLAG (s\<lparr>sn_interruptTriggered := False\<rparr>) = (x, t)" by fastforce
  from readRegister_regs(1) [OF assms(1) this assms(2)] this show ?thesis by (simp add: clearInterrupt_def)
qed

text \<open>The chain of bus operations of an attempt that verified the configuration.\<close>

lemma sleep_attempt_chain:
  assumes "sleep_attempt api t s = (True, s')"
  obtains cur verify s1 s2 s3 s4 s5 s6 s7 where
    "readRegister api REG_PS_CONF1 s = (Some cur, s1)"
    "writeRegister api REG_PS_CONF1 (cur OR PS_SD_DIS) s1 = (True, s2)"
    "writeRegister api REG_PS_THDH t s2 = (True, s3)" "writeRegister api REG_PS_THDL 0 s3 = (True, s4)"
    "writeRegister api REG_PS_CONF3 CONF3_SLEEP s4 = (True, s5)"
    "writeRegister api REG_PS_CONF1 CONF1_SLEEP s5 = (True, s6)"
    "readRegister api REG_PS_CONF1 s6 = (Some verify, s7)" "sleep_verified verify" "s' = clearInterrupt api s7"
  using assms
  by (auto simp: sleep_attempt_def Let_def split: prod.splits option.splits if_splits)

lemma config_regs [simp]:
  "config_reg REG_PS_CONF1" "config_reg REG_PS_CONF3" "config_reg REG_PS_CANC" "config_reg REG_PS_THDL"
  "config_reg REG_PS_THDH"
  by (simp_all add: config_reg_def)

lemma sleep_attempt_verified:
  assumes "i2c_honest api view" "sleep_attempt api t s = (True, s')"
  shows "sleep_verified (view (sn_dev s') REG_PS_CONF1)"
    and "i2c_ok api view \<Longrightarrow> view (sn_dev s') REG_PS_THDH = t \<and> view (sn_dev s') REG_PS_THDL = 0 \<and>
      view (sn_dev s') REG_PS_CONF3 = CONF3_SLEEP \<and> view (sn_dev s') REG_PS_CONF1 = CONF1_SLEEP"
proof -
  from assms(2) obtain cur verify s1 s2 s3 s4 s5 s6 s7 where c:
    "readRegister api REG_PS_CONF1 s = (Some cur, s1)"
    "writeRegister api REG_PS_CONF1 (cur OR PS_SD_DIS) s1 = (True, s2)"
    "writeRegister api REG_PS_THDH t s2 = (True, s3)" "writeRegister api REG_PS_THDL 0 s3 = (True, s4)"
    "writeRegister api REG_PS_CONF3 CONF3_SLEEP s4 = (True, s5)"
    "writeRegister api REG_PS_CONF1 CONF1_SLEEP s5 = (True, s6)"
    "readRegister api REG_PS_CONF1 s6 = (Some verify, s7)" "sleep_verified verify" "s' = clearInterrupt api s7"
    by (rule sleep_attempt_chain)
  note w = writeRegister_regs [OF assms(1)]
  have last: "view (sn_dev s') q = view (sn_dev s6) q" if "config_reg q" for q
    using clearInterrupt_regs [OF assms(1) that] readRegister_regs(1) [OF assms(1) c(7) that] c(9) by simp
  show "sleep_verified (view (sn_dev s') REG_PS_CONF1)"
    using readRegister_regs(2) [OF assms(1) c(7) _ refl refl] c(8) last by simp
  assume ok: "i2c_ok api view"
  have "view (sn_dev s6) REG_PS_CONF1 = CONF1_SLEEP" using w(2) [OF c(6) _ ok] by simp
  moreover have "view (sn_dev s6) REG_PS_CONF3 = CONF3_SLEEP"
    using w(2) [OF c(5) _ ok] w(1) [OF c(6), of REG_PS_CONF3] by (simp add: ps_regs config_reg_def)
  moreover have "view (sn_dev s6) REG_PS_THDL = 0"
    using w(2) [OF c(4) _ ok] w(1) [OF c(5), of REG_PS_THDL] w(1) [OF c(6), of REG_PS_THDL] by (simp add: ps_regs config_reg_def)
  moreover have "view (sn_dev s6) REG_PS_THDH = t"
    using w(2) [OF c(3) _ ok] w(1) [OF c(4), of REG_PS_THDH] w(1) [OF c(5), of REG_PS_THDH]
      w(1) [OF c(6), of REG_PS_THDH] by (simp add: ps_regs config_reg_def)
  ultimately show "view (sn_dev s') REG_PS_THDH = t \<and> view (sn_dev s') REG_PS_THDL = 0 \<and>
      view (sn_dev s') REG_PS_CONF3 = CONF3_SLEEP \<and> view (sn_dev s') REG_PS_CONF1 = CONF1_SLEEP"
    by (simp add: last)
qed

lemma sleep_attempts_some:
  "sleep_attempts api t n s = (True, s') \<Longrightarrow> \<exists>u. sleep_attempt api t u = (True, s')"
  by (induction n arbitrary: s) (auto split: prod.splits bool.splits)

text \<open>
  C23: When the configuration for deep sleep reports success, the sensor was found powered, measuring
  on its own and with its interrupt enabled, on a bus that may lose any write and fail at any
  byte.
\<close>

theorem deep_sleep_config_verified:
  assumes "i2c_honest api view" "configureForDeepSleep api c s = (True, s')"
  shows "sleep_verified (view (sn_dev s') REG_PS_CONF1)"
proof -
  obtain u where "sleep_attempt api (deep_sleep_threshold c) u = (True, s')"
    using assms(2) sleep_attempts_some [of api "deep_sleep_threshold c" 3 s s']
    by (auto simp: configureForDeepSleep_def split: if_splits)
  then show ?thesis by (rule sleep_attempt_verified(1) [OF assms(1)])
qed

text \<open>
  On a bus that does not lose acknowledged writes all four registers hold the intended values; the
  wake threshold is the configured minimum, whatever the calibration said.
\<close>

theorem deep_sleep_config_exact:
  assumes "i2c_ok api view" "configureForDeepSleep api c s = (True, s')"
  shows "view (sn_dev s') REG_PS_THDH = MIN_DEEP_SLEEP_THRESHOLD c \<and> view (sn_dev s') REG_PS_THDL = 0 \<and>
    view (sn_dev s') REG_PS_CONF3 = CONF3_SLEEP \<and> view (sn_dev s') REG_PS_CONF1 = CONF1_SLEEP"
proof -
  obtain u where u: "sleep_attempt api (deep_sleep_threshold c) u = (True, s')"
    using assms(2) sleep_attempts_some [of api "deep_sleep_threshold c" 3 s s']
    by (auto simp: configureForDeepSleep_def split: if_splits)
  have "deep_sleep_threshold c = MIN_DEEP_SLEEP_THRESHOLD c"
    by (simp add: deep_sleep_threshold_def word_gt_0)
  then show ?thesis
    using sleep_attempt_verified(2) [OF _ u assms(1)] assms(1) i2c_ok_def by metis
qed

text \<open>A bus that works configures the sensor in the first attempt.\<close>

lemma writeRegister_works: "i2c_working api \<Longrightarrow> fst (writeRegister api r v s)"
  by (simp add: writeRegister_def i2c_working_def case_prod_beta Let_def)

lemma readRegister_works: "i2c_working api \<Longrightarrow> fst (readRegister api r s) \<noteq> None"
  by (simp add: readRegister_def i2c_working_def case_prod_beta Let_def)

lemma CONF1_SLEEP_verified: "sleep_verified CONF1_SLEEP"
  by (simp add: sleep_verified_def CONF1_SLEEP_def ps_bits)

lemma sleep_attempt_works:
  assumes "i2c_ok api view" "i2c_working api"
  shows "fst (sleep_attempt api t s)"
proof -
  note h = assms(1) [unfolded i2c_ok_def, THEN conjunct1]
  have wr: "\<exists>s'. writeRegister api r v s = (True, s')" for r v s
    using writeRegister_works [OF assms(2), of r v s] by (cases "writeRegister api r v s") auto
  have rd: "\<exists>w s'. readRegister api r s = (Some w, s')" for r s
    using readRegister_works [OF assms(2), of r s] by (cases "readRegister api r s") auto
  obtain cur s1 where 1: "readRegister api REG_PS_CONF1 s = (Some cur, s1)" using rd by blast
  obtain s2 where 2: "writeRegister api REG_PS_CONF1 (cur OR PS_SD_DIS) s1 = (True, s2)" using wr by blast
  obtain s3 where 3: "writeRegister api REG_PS_THDH t s2 = (True, s3)" using wr by blast
  obtain s4 where 4: "writeRegister api REG_PS_THDL 0 s3 = (True, s4)" using wr by blast
  obtain s5 where 5: "writeRegister api REG_PS_CONF3 CONF3_SLEEP s4 = (True, s5)" using wr by blast
  obtain s6 where 6: "writeRegister api REG_PS_CONF1 CONF1_SLEEP s5 = (True, s6)" using wr by blast
  obtain w s7 where 7: "readRegister api REG_PS_CONF1 s6 = (Some w, s7)" using rd by blast
  have "w = view (sn_dev s6) REG_PS_CONF1"
    by (rule readRegister_regs(2) [OF h 7 _ refl refl]) simp
  also have "\<dots> = CONF1_SLEEP" using writeRegister_regs(2) [OF h 6 _ assms(1)] by simp
  finally have "sleep_verified w" using CONF1_SLEEP_verified by simp
  then show ?thesis by (simp add: sleep_attempt_def 1 2 3 4 5 6 7)
qed

theorem deep_sleep_config_works:
  assumes "i2c_ok api view" "i2c_working api" "sn_initialized s"
  shows "fst (configureForDeepSleep api c s)"
  using sleep_attempt_works [OF assms(1,2), of "deep_sleep_threshold c" s] assms(3)
  by (cases "sleep_attempt api (deep_sleep_threshold c) s")
    (auto simp: configureForDeepSleep_def numeral_3_eq_3)

section \<open>Thresholds, suppression and a dead sensor\<close>

text \<open>
  C36: The effective thresholds are the stored ones plus the signed back-off, clamped to 16 bits; the
  32-bit sum never wraps.
\<close>

theorem effective_threshold_clamps:
  "int (unat (getDetectionThreshold s)) =
     max 0 (min 65535 (uint (sn_detectionThreshold s) + sint (sn_environmentBackoff s))) \<and>
   int (unat (getCriticalDetectionThreshold s)) =
     max 0 (min 65535 (uint (sn_criticalThreshold s) + sint (sn_environmentBackoff s)))"
proof -
  have "int (unat (effective_threshold t b)) = max 0 (min 65535 (uint t + sint b))" for t b :: u16
  proof -
    let ?x = "uint t + sint b"
    have "0 \<le> uint t" "uint t < 65536" "- 32768 \<le> sint b" "sint b < 32768"
      using uint_lt2p [of t] sint_greater_eq [of b] sint_less [of b] by simp_all
    then have x: "- 32768 \<le> ?x" "?x < 98304" by linarith+
    have e: "(ucast t :: 32 word) + scast b = word_of_int ?x"
      by (simp only: ucast_eq scast_eq wi_hom_add)
    have "sint (word_of_int y :: 32 word) = y" if "- 32768 \<le> y" "y < 98304" for y
      using that by (simp add: sint_sbintrunc' signed_take_bit_int_eq_self)
    then have s: "sint (word_of_int ?x :: 32 word) = ?x" using x by blast
    have u: "uint (ucast (word_of_int y :: 32 word) :: u16) = y" if "0 \<le> y" "y \<le> 65535" for y
      using that by (simp add: unsigned_ucast_eq take_bit_int_eq_self uint_word_of_int)
    have nat: "int (unat (effective_threshold t b)) = uint (effective_threshold t b)" by simp
    consider "?x < 0" | "0 \<le> ?x" "?x \<le> 65535" | "65535 < ?x" by linarith
    then show ?thesis
    proof cases
      case 1
      then have c: "(?x < 0) = True" by simp
      have "uint (effective_threshold t b) = 0"
        by (simp only: effective_threshold_def e s Let_def c if_True) simp
      then show ?thesis unfolding nat using 1 by linarith
    next
      case 2
      then have c: "(?x < 0) = False" "(65535 < ?x) = False" by simp_all
      have "uint (effective_threshold t b) = ?x"
        by (simp only: effective_threshold_def e s Let_def c if_False u [OF 2])
      then show ?thesis unfolding nat using 2 by linarith
    next
      case 3
      then have c: "(?x < 0) = False" "(65535 < ?x) = True" by simp_all
      have "uint (effective_threshold t b) = uint (ucast (65535 :: 32 word) :: u16)"
        by (simp only: effective_threshold_def e s Let_def c if_False if_True)
      then show ?thesis unfolding nat using 3 by simp
    qed
  qed
  then show ?thesis by (simp add: getDetectionThreshold_def getCriticalDetectionThreshold_def)
qed

text \<open>
  Detections are suppressed for the given time, as long as the 32-bit millisecond counter does not
  wrap around before its end; when it would, they are not suppressed at all.
\<close>

theorem suppression_window:
  assumes "now \<le> later"
  shows "fst (areHitsSuppressed later (suppressDetections now d s)) \<longleftrightarrow>
    unat now + unat d < 2 ^ 32 \<and> unat later < unat now + unat d"
proof -
  have "unat (now + d) = (if unat now + unat d < 2 ^ 32 then unat now + unat d else unat now + unat d - 2 ^ 32)"
    using unsigned_less [where 'a = nat, of now] unsigned_less [where 'a = nat, of d]
    by (auto simp: unat_word_ariths mod_if)
  moreover have "unat now \<le> unat later" "unat d < 2 ^ 32"
    using assms unsigned_less [where 'a = nat, of d] by (simp_all add: word_le_nat_alt)
  ultimately have "now + d \<le> later \<longleftrightarrow> \<not> (unat now + unat d < 2 ^ 32 \<and> unat later < unat now + unat d)"
    unfolding word_le_nat_alt by (auto split: if_splits)
  then show ?thesis by (simp add: areHitsSuppressed_def suppressDetections_def)
qed

text \<open>
  A sensor that no longer answers counts as one that sees nothing: a failed measurement returns
  the last reading, which is 0 until the first success, so the check before deep sleep passes at
  every threshold, as often as it is made.
\<close>

definition i2c_dead :: "'d i2c_api \<Rightarrow> bool" where
  "i2c_dead api \<longleftrightarrow> (\<forall>d bs stop. fst (i_tx api d bs stop) \<noteq> 0)"

lemma readProximity_dead:
  assumes "i2c_dead api"
  shows "fst (readProximity api now s) \<le> sn_lastReading s"
    "sn_lastReading (snd (readProximity api now s)) = sn_lastReading s"
  using assms by (simp_all add: readProximity_def writeRegister_def i2c_dead_def case_prod_beta Let_def)

lemma init_fields:
  "sn_lastReading (snd (writeRegister api r v s)) = sn_lastReading s"
  "sn_lastReading (snd (readRegister api r s)) = sn_lastReading s"
  "sn_lastReading (snd (baseline_sum api n s)) = sn_lastReading s"
  "sn_lastReading (recoverI2CBus api s) = sn_lastReading s"
proof -
  have p: "sn_lastReading (pins api ops t) = sn_lastReading t" for ops t by (simp add: pins_def)
  have c: "sn_lastReading (clock_pulses api n t) = sn_lastReading t" for n t
    by (induction n arbitrary: t) (simp_all add: p Let_def)
  show w: "sn_lastReading (snd (writeRegister api r v s)) = sn_lastReading s" for r v s
    by (simp add: writeRegister_def case_prod_beta)
  show r: "sn_lastReading (snd (readRegister api r s)) = sn_lastReading s" for r s
    by (simp add: readRegister_def case_prod_beta Let_def)
  show "sn_lastReading (snd (baseline_sum api n s)) = sn_lastReading s"
    by (induction n arbitrary: s) (simp_all add: w r case_prod_beta Let_def)
  show "sn_lastReading (recoverI2CBus api s) = sn_lastReading s"
    by (simp add: recoverI2CBus_def p c Let_def)
qed

lemma sensor_init_reading: "sn_lastReading (snd (sensor_init api s)) = sn_lastReading s"
  by (simp add: sensor_init_def ensureI2CReady_def sensor_isPresent_def getSensorId_def initializeRegisters_def
      init_fields case_prod_beta Let_def)

theorem dead_sensor_counts_as_clear:
  assumes "fst (sensor_init api (sensor_new c d)) = HAL_OK" "i2c_dead broken" "0 < threshold"
  shows "list_all (\<lambda>k. fst (isProximityBelowThreshold broken now threshold
      (((\<lambda>s. snd (isProximityBelowThreshold broken now threshold s)) ^^ k) (snd (sensor_init api (sensor_new c d))))))
    [0..<n]"
proof -
  let ?check = "\<lambda>s. snd (isProximityBelowThreshold broken now threshold s)"
  have keep: "sn_lastReading (?check s) = sn_lastReading s" for s :: "'a sensor"
    using readProximity_dead(2) [OF assms(2)] by (simp add: isProximityBelowThreshold_def case_prod_beta Let_def)
  have "sn_lastReading ((?check ^^ k) (snd (sensor_init api (sensor_new c d)))) = 0" for k
  proof (induction k)
    case 0
    show ?case by (simp add: sensor_init_reading) (simp add: sensor_new_def)
  next
    case (Suc k)
    then show ?case by (simp add: keep)
  qed
  moreover have "fst (isProximityBelowThreshold broken now threshold s)" if "sn_lastReading s = 0" for s :: "'a sensor"
    using readProximity_dead(1) [OF assms(2), of now s] assms(3) that
    by (simp add: isProximityBelowThreshold_def case_prod_beta Let_def)
  ultimately show ?thesis by (simp add: list_all_iff)
qed

definition demo_sensor_cfg :: sensor_cfg where
  "demo_sensor_cfg = \<lparr>WAKE_THRESHOLD_DEFAULT = 100, DETECTION_THRESHOLD_DEFAULT = 200,
     CRITICAL_DETECTION_THRESHOLD_DEFAULT = 300, MIN_DEEP_SLEEP_THRESHOLD = 50, MAX_DEEP_SLEEP_THRESHOLD = 5000,
     GPIO_WAKEUP_DEBOUNCE_MS = 20\<rparr>"

definition demo_sensor :: "((u8 \<Rightarrow> u16) \<times> u8) sensor" where
  "demo_sensor = (sensor_new demo_sensor_cfg (\<lambda>_. 0, 0))\<lparr>sn_initialized := True, sn_powerOn := True, sn_i2cInitialized := True\<rparr>"

lemma demo_sleep_config:
  "configureForDeepSleep demo_i2c demo_sensor_cfg demo_sensor =
     (True, snd (configureForDeepSleep demo_i2c demo_sensor_cfg demo_sensor))"
proof -
  have "sn_initialized demo_sensor" by (simp add: demo_sensor_def)
  then have "fst (sleep_attempt demo_i2c (deep_sleep_threshold demo_sensor_cfg) demo_sensor)"
    using sleep_attempt_works [OF demo_i2c_ok demo_i2c_working] by blast
  then have "fst (configureForDeepSleep demo_i2c demo_sensor_cfg demo_sensor)"
    by (cases "sleep_attempt demo_i2c (deep_sleep_threshold demo_sensor_cfg) demo_sensor")
      (auto simp: configureForDeepSleep_def numeral_3_eq_3 demo_sensor_def)
  then show ?thesis by (simp add: prod_eq_iff)
qed

theorem deep_sleep_config_verified_witness:
  "sleep_verified (fst (sn_dev (snd (configureForDeepSleep demo_i2c demo_sensor_cfg demo_sensor))) REG_PS_CONF1)"
  using deep_sleep_config_verified [OF _ demo_sleep_config, of fst] demo_i2c_ok by (simp add: i2c_ok_def)

theorem deep_sleep_config_exact_witness:
  "fst (sn_dev (snd (configureForDeepSleep demo_i2c demo_sensor_cfg demo_sensor))) REG_PS_THDH = 50"
  using deep_sleep_config_exact [OF demo_i2c_ok demo_sleep_config] by (simp add: demo_sensor_cfg_def)

theorem deep_sleep_config_works_witness:
  "fst (configureForDeepSleep demo_i2c demo_sensor_cfg demo_sensor)"
  by (rule deep_sleep_config_works [OF demo_i2c_ok demo_i2c_working]) (simp add: demo_sensor_def)

theorem suppression_window_witness:
  "\<not> fst (areHitsSuppressed 0xFFFFFFF0 (suppressDetections 0xFFFFFFF0 1000 demo_sensor)) \<and>
   fst (areHitsSuppressed 1500 (suppressDetections 1000 1000 demo_sensor))"
  using suppression_window [of "0xFFFFFFF0" "0xFFFFFFF0" 1000 demo_sensor]
    suppression_window [of 1000 1500 1000 demo_sensor] by simp

end
