(* ===== verification/Fw_Logger.thy ===== *)
theory Fw_Logger
  imports Fw_Crc Fw_Text
begin

text \<open>
  The recorder of sample windows (\<open>src/src/Services/DataLoggerService.cpp\<close> and
  \<open>src/src/Domain/SampleWindow.h\<close>): samples are collected into overlapping windows, a window that
  is complete during a recording session goes through a queue to the logger task, which appends
  it to the file of its session. SPIFFS is the parameter \<open>spiffs_api\<close>, the constants of the
  removed \<open>MLConfig\<close> are \<open>ml_cfg\<close>; clock, sensor and locks are the arguments of \<open>appendSample\<close>.
  This theory holds the model and the facts on labels, paths and window checksums; the theory
  of the runs is \<open>Fw_LoggerRun\<close>.
\<close>

section \<open>Labels\<close>

datatype gesture_label = GL_IDLE | GL_APPROACH | GL_HOVER | GL_QUICK_PASS | GL_COVER_HOLD
  | GL_CONFIRMED_EVENT | GL_SURFACE_REFLECTION | GL_NOISE | GL_UNKNOWN | GL_UNLABELED | GL_INVALID
  | GL_other u8

fun label_code :: "gesture_label \<Rightarrow> u8" where
  "label_code GL_IDLE = 0"
| "label_code GL_APPROACH = 1"
| "label_code GL_HOVER = 2"
| "label_code GL_QUICK_PASS = 3"
| "label_code GL_COVER_HOLD = 4"
| "label_code GL_CONFIRMED_EVENT = 5"
| "label_code GL_SURFACE_REFLECTION = 6"
| "label_code GL_NOISE = 7"
| "label_code GL_UNKNOWN = 8"
| "label_code GL_UNLABELED = 254"
| "label_code GL_INVALID = 255"
| "label_code (GL_other k) = k"

definition getLabel :: "u8 \<Rightarrow> gesture_label" where
  "getLabel k =
     (if k = 0 then GL_IDLE else if k = 1 then GL_APPROACH else if k = 2 then GL_HOVER
      else if k = 3 then GL_QUICK_PASS else if k = 4 then GL_COVER_HOLD
      else if k = 5 then GL_CONFIRMED_EVENT else if k = 6 then GL_SURFACE_REFLECTION
      else if k = 7 then GL_NOISE else if k = 8 then GL_UNKNOWN else if k = 254 then GL_UNLABELED
      else if k = 255 then GL_INVALID else GL_other k)"

fun gestureLabelToString :: "gesture_label \<Rightarrow> string" where
  "gestureLabelToString GL_IDLE = ''idle''"
| "gestureLabelToString GL_APPROACH = ''approach''"
| "gestureLabelToString GL_HOVER = ''hover''"
| "gestureLabelToString GL_QUICK_PASS = ''quick_pass''"
| "gestureLabelToString GL_COVER_HOLD = ''cover_hold''"
| "gestureLabelToString GL_CONFIRMED_EVENT = ''confirmed_event''"
| "gestureLabelToString GL_SURFACE_REFLECTION = ''surface_reflection''"
| "gestureLabelToString GL_NOISE = ''noise''"
| "gestureLabelToString GL_UNKNOWN = ''unknown''"
| "gestureLabelToString GL_UNLABELED = ''unlabeled''"
| "gestureLabelToString GL_INVALID = ''invalid''"
| "gestureLabelToString (GL_other k) = ''unrecognized''"

definition stringToGestureLabel :: "string option \<Rightarrow> gesture_label" where
  "stringToGestureLabel str =
     (case str of None \<Rightarrow> GL_INVALID
      | Some s \<Rightarrow>
          if strcaseeq s ''idle'' then GL_IDLE
          else if strcaseeq s ''approach'' then GL_APPROACH
          else if strcaseeq s ''hover'' then GL_HOVER
          else if strcaseeq s ''quick_pass'' then GL_QUICK_PASS
          else if strcaseeq s ''cover_hold'' then GL_COVER_HOLD
          else if strcaseeq s ''confirmed_event'' then GL_CONFIRMED_EVENT
          else if strcaseeq s ''surface_reflection'' then GL_SURFACE_REFLECTION
          else if strcaseeq s ''noise'' then GL_NOISE
          else if strcaseeq s ''unknown'' then GL_UNKNOWN
          else if strcaseeq s ''unlabeled'' then GL_UNLABELED
          else GL_INVALID)"

section \<open>Windows\<close>

datatype logger_state = LS_IDLE | LS_ARMED | LS_RECORDING | LS_ERROR

record sample_record =
  sr_proximity :: u16
  sr_dt_ms :: u16

record window_header =
  wh_magic :: u16
  wh_version :: u8
  wh_sampleCount :: u8
  wh_sessionId :: u16
  wh_windowId :: u16
  wh_label :: u8
  wh_reserved0 :: u8
  wh_startUptimeMs :: u32
  wh_startEpoch :: u32
  wh_wakeThreshold :: u16
  wh_detectionThreshold :: u16
  wh_criticalDetectionThreshold :: u16
  wh_sensitivity :: u8
  wh_flags :: u8
  wh_bootCount :: u8
  wh_reserved1 :: u8
  wh_crc32 :: u32

record sample_window =
  w_header :: window_header
  w_samples :: "sample_record list"

record ml_cfg =
  WINDOW_SIZE :: nat
  WINDOW_STRIDE :: nat
  WINDOW_MAGIC :: u16
  WINDOW_VERSION :: u8
  LOGGER_QUEUE_DEPTH :: nat
  SAMPLING_PERIOD_MS :: u32

text \<open>The sample count of a window is one byte and the stride moves the buffer forward.\<close>

definition ml_ok :: "ml_cfg \<Rightarrow> bool" where
  "ml_ok c \<longleftrightarrow> 0 < WINDOW_SIZE c \<and> WINDOW_SIZE c < 256 \<and> 0 < WINDOW_STRIDE c"

definition enc_window_header :: "window_header \<Rightarrow> bytes" where
  "enc_window_header h =
     le16 (wh_magic h) @ [wh_version h, wh_sampleCount h] @ le16 (wh_sessionId h) @
     le16 (wh_windowId h) @ [wh_label h, wh_reserved0 h] @ le32 (wh_startUptimeMs h) @
     le32 (wh_startEpoch h) @ le16 (wh_wakeThreshold h) @ le16 (wh_detectionThreshold h) @
     le16 (wh_criticalDetectionThreshold h) @
     [wh_sensitivity h, wh_flags h, wh_bootCount h, wh_reserved1 h] @ le32 (wh_crc32 h)"

definition enc_sample :: "sample_record \<Rightarrow> bytes" where
  "enc_sample r = le16 (sr_proximity r) @ le16 (sr_dt_ms r)"

definition enc_window :: "sample_window \<Rightarrow> bytes" where
  "enc_window w = enc_window_header (w_header w) @ concat (map enc_sample (w_samples w))"

definition logger_calcCRC32 :: "bytes \<Rightarrow> u32" where
  "logger_calcCRC32 data = NOT (foldl crc32_byte 0xFFFFFFFF data)"

definition window_crc :: "sample_window \<Rightarrow> u32" where
  "window_crc w =
     (let crc = foldl crc32_byte 0xFFFFFFFF (take (32 - 4) (enc_window_header (w_header w)));
          crc = foldl crc32_byte crc (concat (map enc_sample (w_samples w)))
      in NOT crc)"

definition window_isValid :: "ml_cfg \<Rightarrow> sample_window \<Rightarrow> bool" where
  "window_isValid c w =
     (if wh_magic (w_header w) \<noteq> WINDOW_MAGIC c then False
      else if wh_version (w_header w) \<noteq> WINDOW_VERSION c then False
      else if WINDOW_SIZE c < unat (wh_sampleCount (w_header w)) then False
      else wh_crc32 (w_header w) = window_crc w)"

section \<open>The file system\<close>

text \<open>
  What the recorder calls of SPIFFS: mounting, opening a file for append and writing to it
  (\<open>None\<close> when it does not open, else the bytes written), the names that the directory walk
  over the root yields, and removal.
\<close>

record 'f spiffs_api =
  sp_begin :: "'f \<Rightarrow> bool"
  sp_append :: "'f \<Rightarrow> string \<Rightarrow> bytes \<Rightarrow> (nat \<times> 'f) option"
  sp_names :: "'f \<Rightarrow> string list option"
  sp_remove :: "'f \<Rightarrow> string \<Rightarrow> bool \<times> 'f"
  sp_totalBytes :: "'f \<Rightarrow> nat"
  sp_usedBytes :: "'f \<Rightarrow> nat"

type_synonym fs_view = "string \<Rightarrow> bytes option"

definition fs_contents :: "fs_view \<Rightarrow> string \<Rightarrow> bytes" where
  "fs_contents v p = (case v p of None \<Rightarrow> [] | Some bs \<Rightarrow> bs)"

text \<open>
  The documented contract, through a view of the file system as a map from paths to contents:
  a write appends a prefix of the bytes to that file and changes no other, a removal that
  succeeds removes that file, and the walk yields the names of the files.
\<close>

definition spiffs_ok :: "'f spiffs_api \<Rightarrow> ('f \<Rightarrow> fs_view) \<Rightarrow> bool" where
  "spiffs_ok api view \<longleftrightarrow>
     (\<forall>f p bs n f'. sp_append api f p bs = Some (n, f') \<longrightarrow> n \<le> length bs \<and>
        view f' = (view f)(p \<mapsto> fs_contents (view f) p @ take n bs)) \<and>
     (\<forall>f p. view (snd (sp_remove api f p)) =
        (if fst (sp_remove api f p) then (view f)(p := None) else view f)) \<and>
     (\<forall>f ps. sp_names api f = Some ps \<longrightarrow> set ps = dom (view f))"

text \<open>A file system with room: it mounts, the walk opens, writes and removals succeed.\<close>

definition spiffs_reliable :: "'f spiffs_api \<Rightarrow> ('f \<Rightarrow> fs_view) \<Rightarrow> bool" where
  "spiffs_reliable api view \<longleftrightarrow> spiffs_ok api view \<and>
     (\<forall>f. sp_begin api f) \<and>
     (\<forall>f p bs. \<exists>f'. sp_append api f p bs = Some (length bs, f')) \<and>
     (\<forall>f p. view f p \<noteq> None \<longrightarrow> fst (sp_remove api f p)) \<and>
     (\<forall>f. sp_names api f \<noteq> None)"

lemma spiffs_okD:
  assumes "spiffs_ok api view"
  shows "sp_append api f p bs = Some (n, f') \<Longrightarrow> n \<le> length bs"
    and "sp_append api f p bs = Some (n, f') \<Longrightarrow>
      view f' = (view f)(p \<mapsto> fs_contents (view f) p @ take n bs)"
    and "view (snd (sp_remove api f p)) =
      (if fst (sp_remove api f p) then (view f)(p := None) else view f)"
    and "sp_names api f = Some ps \<Longrightarrow> set ps = dom (view f)"
  using assms unfolding spiffs_ok_def by blast+

lemma spiffs_reliableD:
  assumes "spiffs_reliable api view"
  shows "spiffs_ok api view" and "sp_begin api f"
    and "\<exists>f'. sp_append api f p bs = Some (length bs, f') \<and>
      view f' = (view f)(p \<mapsto> fs_contents (view f) p @ bs)"
    and "view f p \<noteq> None \<Longrightarrow> fst (sp_remove api f p)"
    and "\<exists>ps. sp_names api f = Some ps \<and> set ps = dom (view f)"
proof -
  show ok: "spiffs_ok api view" using assms by (simp add: spiffs_reliable_def)
  show "sp_begin api f" using assms by (simp add: spiffs_reliable_def)
  show "view f p \<noteq> None \<Longrightarrow> fst (sp_remove api f p)" using assms by (simp add: spiffs_reliable_def)
  obtain f' where "sp_append api f p bs = Some (length bs, f')"
    using assms unfolding spiffs_reliable_def by blast
  with spiffs_okD(2) [OF ok this] show "\<exists>f'. sp_append api f p bs = Some (length bs, f') \<and>
      view f' = (view f)(p \<mapsto> fs_contents (view f) p @ bs)" by simp
  obtain ps where "sp_names api f = Some ps" using assms unfolding spiffs_reliable_def by blast
  with spiffs_okD(4) [OF ok this] show "\<exists>ps. sp_names api f = Some ps \<and> set ps = dom (view f)"
    by blast
qed

text \<open>A concrete file system: the names in order of creation and a map of the contents.\<close>

type_synonym demo_fs = "(string \<times> bytes) list"

definition alist_spiffs :: "demo_fs spiffs_api" where
  "alist_spiffs = \<lparr>
     sp_begin = (\<lambda>f. True),
     sp_append = (\<lambda>f p bs. Some (length bs,
        (p, fs_contents (map_of f) p @ bs) # filter (\<lambda>e. fst e \<noteq> p) f)),
     sp_names = (\<lambda>f. Some (map fst f)),
     sp_remove = (\<lambda>f p. (True, filter (\<lambda>e. fst e \<noteq> p) f)),
     sp_totalBytes = (\<lambda>f. 1000000),
     sp_usedBytes = (\<lambda>f. sum_list (map (length \<circ> snd) f))\<rparr>"

lemma map_of_filter_other: "map_of (filter (\<lambda>e. fst e \<noteq> p) f) = (map_of f)(p := None)"
  by (induction f) (auto simp: fun_eq_iff)

lemma alist_spiffs_reliable: "spiffs_reliable alist_spiffs map_of"
  by (simp add: spiffs_reliable_def spiffs_ok_def alist_spiffs_def map_of_filter_other dom_map_of_conv_image_fst)

section \<open>State\<close>

text \<open>
  \<open>lg_queue\<close> is the queue to the logger task, \<open>None\<close> until it is created; \<open>lg_task\<close> says
  whether the task is alive, \<open>lg_notified\<close> counts the notifications of the inference task.
\<close>

record 'f logger =
  lg_state :: logger_state
  lg_initialized :: bool
  lg_running :: bool
  lg_currentSessionId :: u16
  lg_currentWindowId :: u16
  lg_windowsWritten :: u16
  lg_currentLabel :: gesture_label
  lg_dropCount :: u32
  lg_totalWindowsWritten :: u32
  lg_sampleBuf :: "sample_record list"
  lg_sampleIndex :: nat
  lg_windowStartUptime :: u32
  lg_cachedBootCount :: u8
  lg_cachedFlags :: u8
  lg_inferenceWindow :: sample_window
  lg_mutex :: bool
  lg_queue :: "sample_window list option"
  lg_task :: bool
  lg_inferenceTask :: bool
  lg_notified :: nat
  lg_spiffsMounted :: bool
  lg_nextSessionId :: u16
  lg_fs :: 'f

definition zero_header :: window_header where
  "zero_header = \<lparr>wh_magic = 0, wh_version = 0, wh_sampleCount = 0, wh_sessionId = 0,
     wh_windowId = 0, wh_label = 0, wh_reserved0 = 0, wh_startUptimeMs = 0, wh_startEpoch = 0,
     wh_wakeThreshold = 0, wh_detectionThreshold = 0, wh_criticalDetectionThreshold = 0,
     wh_sensitivity = 0, wh_flags = 0, wh_bootCount = 0, wh_reserved1 = 0, wh_crc32 = 0\<rparr>"

definition zero_samples :: "ml_cfg \<Rightarrow> sample_record list" where
  "zero_samples c = replicate (WINDOW_SIZE c) \<lparr>sr_proximity = 0, sr_dt_ms = 0\<rparr>"

definition logger_new :: "ml_cfg \<Rightarrow> 'f \<Rightarrow> 'f logger" where
  "logger_new c f = \<lparr>lg_state = LS_IDLE, lg_initialized = False, lg_running = False,
     lg_currentSessionId = 0, lg_currentWindowId = 0, lg_windowsWritten = 0,
     lg_currentLabel = GL_UNLABELED, lg_dropCount = 0, lg_totalWindowsWritten = 0,
     lg_sampleBuf = zero_samples c, lg_sampleIndex = 0, lg_windowStartUptime = 0,
     lg_cachedBootCount = 0, lg_cachedFlags = 0,
     lg_inferenceWindow = \<lparr>w_header = zero_header, w_samples = zero_samples c\<rparr>,
     lg_mutex = False, lg_queue = None, lg_task = False, lg_inferenceTask = False,
     lg_notified = 0, lg_spiffsMounted = False, lg_nextSessionId = 1, lg_fs = f\<rparr>"

section \<open>Files\<close>

definition buildSessionPath :: "u16 \<Rightarrow> string" where
  "buildSessionPath sessionId = ''/ml_s'' @ dec_pad 4 (unat sessionId) @ ''.bin''"

definition mountSpiffs :: "'f spiffs_api \<Rightarrow> 'f logger \<Rightarrow> bool \<times> 'f logger" where
  "mountSpiffs api s =
     (if lg_spiffsMounted s then (True, s)
      else if \<not> sp_begin api (lg_fs s) then (False, s)
      else (True, s\<lparr>lg_spiffsMounted := True\<rparr>))"

definition unmountSpiffs :: "'f logger \<Rightarrow> 'f logger" where
  "unmountSpiffs s = (if \<not> lg_spiffsMounted s then s else s\<lparr>lg_spiffsMounted := False\<rparr>)"

definition ensureDirectory :: "'f logger \<Rightarrow> bool" where
  "ensureDirectory s = lg_spiffsMounted s"

definition rebuild_step :: "u16 \<Rightarrow> string \<Rightarrow> u16" where
  "rebuild_step maxId name =
     (if take 5 name = ''/ml_s''
      then (let i = word_of_int (atoi (drop 5 name)) in if maxId < i then i else maxId)
      else maxId)"

definition rebuildNextSessionId :: "'f spiffs_api \<Rightarrow> 'f logger \<Rightarrow> u16" where
  "rebuildNextSessionId api s =
     (if \<not> lg_spiffsMounted s then 1
      else case sp_names api (lg_fs s) of None \<Rightarrow> 1
        | Some names \<Rightarrow> foldl rebuild_step 0 names + 1)"

definition loadNextSessionId :: "'f spiffs_api \<Rightarrow> 'f logger \<Rightarrow> u16" where
  "loadNextSessionId api s = rebuildNextSessionId api s"

definition appendManifest :: "'f spiffs_api \<Rightarrow> u16 \<Rightarrow> gesture_label \<Rightarrow> 'f logger \<Rightarrow> bool \<times> 'f logger" where
  "appendManifest api sessionId label s =
     (if \<not> lg_spiffsMounted s then (False, s)
      else case sp_append api (lg_fs s) ''/ml_manifest.txt''
            (text_bytes (dec (unat sessionId) @ '','' @ gestureLabelToString label @ [CHR 0x0A])) of
          None \<Rightarrow> (False, s)
        | Some (written, f) \<Rightarrow> (True, s\<lparr>lg_fs := f\<rparr>))"

definition getSpiffsUsage :: "'f spiffs_api \<Rightarrow> 'f logger \<Rightarrow> bool \<times> nat \<times> nat" where
  "getSpiffsUsage api s =
     (if \<not> lg_spiffsMounted s then (False, 0, 0)
      else (True, sp_totalBytes api (lg_fs s), sp_usedBytes api (lg_fs s)))"

section \<open>Windows from samples\<close>

text \<open>
  What \<open>fillWindowHeader\<close> reads: the uptime, \<open>tv_sec\<close> of \<open>gettimeofday\<close>, the three thresholds of
  the sensor and the sensitivity of the configuration, if the two exist.
\<close>

record fill_env =
  fe_uptime :: u32
  fe_tv_sec :: int
  fe_thresholds :: "(u16 \<times> u16 \<times> u16) option"
  fe_sensitivity :: "u8 option"

definition start_epoch :: "fill_env \<Rightarrow> u32 \<Rightarrow> u32" where
  "start_epoch e windowStartUptime =
     (if 1577836800 < fe_tv_sec e \<and> windowStartUptime \<le> fe_uptime e
      then word_of_int (fe_tv_sec e) - (fe_uptime e - windowStartUptime) div 1000
      else 0)"

definition fillWindowHeader :: "ml_cfg \<Rightarrow> fill_env \<Rightarrow> 'f logger \<Rightarrow> window_header \<Rightarrow> window_header" where
  "fillWindowHeader c e s h =
     (let (wake, detection, critical) = (case fe_thresholds e of Some t \<Rightarrow> t | None \<Rightarrow> (0, 0, 0))
      in h\<lparr>wh_magic := WINDOW_MAGIC c, wh_version := WINDOW_VERSION c,
           wh_sampleCount := word_of_nat (WINDOW_SIZE c),
           wh_sessionId := lg_currentSessionId s, wh_windowId := lg_currentWindowId s,
           wh_startUptimeMs := lg_windowStartUptime s,
           wh_startEpoch := start_epoch e (lg_windowStartUptime s),
           wh_wakeThreshold := wake, wh_detectionThreshold := detection,
           wh_criticalDetectionThreshold := critical,
           wh_sensitivity := (case fe_sensitivity e of Some v \<Rightarrow> v | None \<Rightarrow> 50),
           wh_bootCount := lg_cachedBootCount s, wh_reserved0 := 0, wh_reserved1 := 0,
           wh_flags := lg_cachedFlags s, wh_crc32 := 0\<rparr>)"

definition with_window_crc :: "sample_window \<Rightarrow> sample_window" where
  "with_window_crc w = w\<lparr>w_header := (w_header w)\<lparr>wh_crc32 := window_crc w\<rparr>\<rparr>"

text \<open>
  The copy for the inference task: it is skipped when the lock is taken, and the header is
  filled over the one of the last window.
\<close>

definition offer_inference :: "ml_cfg \<Rightarrow> bool \<Rightarrow> fill_env \<Rightarrow> 'f logger \<Rightarrow> 'f logger" where
  "offer_inference c lock_free e s =
     (if lg_mutex s \<and> lock_free
      then (let h = fillWindowHeader c e s (w_header (lg_inferenceWindow s));
                w = \<lparr>w_header = h\<lparr>wh_label := label_code GL_UNLABELED\<rparr>, w_samples = lg_sampleBuf s\<rparr>;
                s = s\<lparr>lg_inferenceWindow := with_window_crc w\<rparr>
            in if lg_inferenceTask s then s\<lparr>lg_notified := lg_notified s + 1\<rparr> else s)
      else s)"

text \<open>The window that goes to the logger task; \<open>fillWindowHeader\<close> leaves no field of it unset.\<close>

definition write_window :: "ml_cfg \<Rightarrow> fill_env \<Rightarrow> 'f logger \<Rightarrow> sample_window" where
  "write_window c e s =
     (let h = fillWindowHeader c e s zero_header
      in with_window_crc
           \<lparr>w_header = h\<lparr>wh_label := label_code (lg_currentLabel s),
              wh_sessionId := lg_currentSessionId s, wh_windowId := lg_currentWindowId s\<rparr>,
            w_samples = lg_sampleBuf s\<rparr>)"

definition queue_send :: "ml_cfg \<Rightarrow> sample_window \<Rightarrow> sample_window list option \<Rightarrow> sample_window list option" where
  "queue_send c w q =
     (case q of None \<Rightarrow> None
      | Some ws \<Rightarrow> if length ws < LOGGER_QUEUE_DEPTH c then Some (ws @ [w]) else None)"

definition record_window :: "ml_cfg \<Rightarrow> fill_env \<Rightarrow> 'f logger \<Rightarrow> 'f logger" where
  "record_window c e s =
     (if lg_state s = LS_RECORDING
      then (case queue_send c (write_window c e s) (lg_queue s) of
              Some q \<Rightarrow> s\<lparr>lg_queue := Some q, lg_currentWindowId := lg_currentWindowId s + 1\<rparr>
            | None \<Rightarrow> s\<lparr>lg_dropCount := lg_dropCount s + 1\<rparr>)
      else s)"

definition slide_buffer :: "ml_cfg \<Rightarrow> 'f logger \<Rightarrow> 'f logger" where
  "slide_buffer c s =
     (if WINDOW_STRIDE c < WINDOW_SIZE c
      then (let keepSamples = (WINDOW_SIZE c - WINDOW_STRIDE c) mod 256
            in s\<lparr>lg_sampleBuf := blit (lg_sampleBuf s) 0
                   (take keepSamples (drop (WINDOW_STRIDE c) (lg_sampleBuf s))),
                 lg_sampleIndex := keepSamples,
                 lg_windowStartUptime := lg_windowStartUptime s +
                   word_of_nat (WINDOW_STRIDE c) * SAMPLING_PERIOD_MS c\<rparr>)
      else s\<lparr>lg_sampleIndex := 0\<rparr>)"

record sample_env =
  se_uptime :: u32
  se_lock_free :: bool
  se_fill :: fill_env
  se_fill2 :: fill_env

definition appendSample :: "ml_cfg \<Rightarrow> sample_env \<Rightarrow> u16 \<Rightarrow> u16 \<Rightarrow> 'f logger \<Rightarrow> 'f logger" where
  "appendSample c e proximity dt_ms s =
     (let s = (if lg_sampleIndex s = 0 then s\<lparr>lg_windowStartUptime := se_uptime e\<rparr> else s);
          s = s\<lparr>lg_sampleBuf := (lg_sampleBuf s)[lg_sampleIndex s :=
                  \<lparr>sr_proximity = proximity, sr_dt_ms = dt_ms\<rparr>],
                lg_sampleIndex := (lg_sampleIndex s + 1) mod 256\<rparr>
      in if WINDOW_SIZE c \<le> lg_sampleIndex s
         then slide_buffer c (record_window c (se_fill2 e) (offer_inference c (se_lock_free e) (se_fill e) s))
         else s)"

definition getCurrentWindow :: "bool \<Rightarrow> 'f logger \<Rightarrow> sample_window option" where
  "getCurrentWindow lock_free s =
     (if lg_mutex s \<and> lock_free then Some (lg_inferenceWindow s) else None)"

section \<open>Sessions\<close>

definition startSession :: "'f spiffs_api \<Rightarrow> gesture_label \<Rightarrow> 'f logger \<Rightarrow> bool \<times> 'f logger" where
  "startSession api label s =
     (if lg_state s = LS_RECORDING \<or> lg_state s = LS_ARMED
      then (lg_state s = LS_RECORDING \<and> lg_currentLabel s = label, s)
      else if \<not> lg_spiffsMounted s then (False, s\<lparr>lg_state := LS_ERROR\<rparr>)
      else if label = GL_INVALID then (False, s)
      else
        (let s = s\<lparr>lg_currentSessionId := lg_nextSessionId s, lg_nextSessionId := lg_nextSessionId s + 1,
                   lg_currentWindowId := 0, lg_windowsWritten := 0, lg_currentLabel := label,
                   lg_sampleIndex := 0\<rparr>;
             s = snd (appendManifest api (lg_currentSessionId s) label s)
         in (True, s\<lparr>lg_state := LS_RECORDING\<rparr>)))"

definition stopSession :: "'f logger \<Rightarrow> bool \<times> 'f logger" where
  "stopSession s =
     (if lg_state s \<noteq> LS_RECORDING \<and> lg_state s \<noteq> LS_ARMED then (True, s)
      else (True, s\<lparr>lg_state := LS_IDLE\<rparr>))"

definition remove_step :: "'f spiffs_api \<Rightarrow> 'f \<Rightarrow> string \<Rightarrow> 'f" where
  "remove_step api f name = (if take 4 name = ''/ml_'' then snd (sp_remove api f name) else f)"

definition deleteAll :: "'f spiffs_api \<Rightarrow> 'f logger \<Rightarrow> bool \<times> 'f logger" where
  "deleteAll api s =
     (let s = (if lg_state s = LS_RECORDING \<or> lg_state s = LS_ARMED then snd (stopSession s) else s)
      in if \<not> lg_spiffsMounted s then (False, s)
         else case sp_names api (lg_fs s) of None \<Rightarrow> (False, s)
           | Some names \<Rightarrow>
               (True, s\<lparr>lg_fs := foldl (remove_step api) (lg_fs s) names, lg_nextSessionId := 1,
                        lg_totalWindowsWritten := 0, lg_dropCount := 0\<rparr>))"

definition logger_getStateName :: "'f logger \<Rightarrow> string" where
  "logger_getStateName s = (case lg_state s of LS_IDLE \<Rightarrow> ''IDLE'' | LS_ARMED \<Rightarrow> ''ARMED''
     | LS_RECORDING \<Rightarrow> ''RECORDING'' | LS_ERROR \<Rightarrow> ''ERROR'')"

section \<open>The logger task\<close>

definition processWrite :: "'f spiffs_api \<Rightarrow> sample_window \<Rightarrow> 'f logger \<Rightarrow> 'f logger" where
  "processWrite api w s =
     (if \<not> lg_spiffsMounted s then s\<lparr>lg_state := LS_ERROR\<rparr>
      else case sp_append api (lg_fs s) (buildSessionPath (wh_sessionId (w_header w))) (enc_window w) of
          None \<Rightarrow> s\<lparr>lg_state := LS_ERROR\<rparr>
        | Some (written, f) \<Rightarrow>
            if written \<noteq> length (enc_window w) then s\<lparr>lg_fs := f, lg_state := LS_ERROR\<rparr>
            else s\<lparr>lg_fs := f, lg_windowsWritten := lg_windowsWritten s + 1,
                   lg_totalWindowsWritten := lg_totalWindowsWritten s + 1\<rparr>)"

text \<open>
  One turn of the task: it writes the next window of the queue, in its main loop and in the
  drain after the stop flag alike, and ends when it finds the queue empty after that.
\<close>

definition logger_step :: "'f spiffs_api \<Rightarrow> 'f logger \<Rightarrow> 'f logger" where
  "logger_step api s =
     (if \<not> lg_task s then s
      else case lg_queue s of
          Some (w # ws) \<Rightarrow> processWrite api w (s\<lparr>lg_queue := Some ws\<rparr>)
        | _ \<Rightarrow> if lg_running s then s else s\<lparr>lg_task := False\<rparr>)"

text \<open>
  \<open>init\<close> with the outcomes of creating mutex, queue and task; \<open>shutdown\<close> with the number of
  turns that the task makes in the 1.5 s that it waits.
\<close>

record logger_init_env =
  ie_mutex :: bool
  ie_queue :: bool
  ie_task :: bool

definition logger_init :: "'f spiffs_api \<Rightarrow> logger_init_env \<Rightarrow> 'f logger \<Rightarrow> bool \<times> 'f logger" where
  "logger_init api e s =
     (if lg_initialized s then (True, s)
      else let s = s\<lparr>lg_mutex := ie_mutex e\<rparr> in
      if \<not> ie_mutex e then (False, s)
      else let s = s\<lparr>lg_queue := (if ie_queue e then Some [] else None)\<rparr> in
      if \<not> ie_queue e then (False, s)
      else
        (let s = snd (mountSpiffs api s);
             s = (if lg_spiffsMounted s then s\<lparr>lg_nextSessionId := rebuildNextSessionId api s\<rparr> else s);
             s = s\<lparr>lg_running := True\<rparr>
         in if \<not> ie_task e then (False, s\<lparr>lg_running := False\<rparr>)
            else (True, s\<lparr>lg_task := True, lg_initialized := True\<rparr>)))"

definition logger_shutdown :: "'f spiffs_api \<Rightarrow> nat \<Rightarrow> 'f logger \<Rightarrow> 'f logger" where
  "logger_shutdown api turns s =
     (if \<not> lg_initialized s then s
      else let s = (if lg_state s = LS_RECORDING \<or> lg_state s = LS_ARMED then snd (stopSession s) else s);
               s = s\<lparr>lg_running := False\<rparr>;
               s = (logger_step api ^^ turns) s;
               s = unmountSpiffs s
           in s\<lparr>lg_initialized := False\<rparr>)"

definition setBootCount :: "u8 \<Rightarrow> 'f logger \<Rightarrow> 'f logger" where
  "setBootCount n s = s\<lparr>lg_cachedBootCount := n\<rparr>"

definition setRuntimeFlags :: "u8 \<Rightarrow> 'f logger \<Rightarrow> 'f logger" where
  "setRuntimeFlags n s = s\<lparr>lg_cachedFlags := n\<rparr>"

definition setInferenceTaskHandle :: "bool \<Rightarrow> 'f logger \<Rightarrow> 'f logger" where
  "setInferenceTaskHandle h s = s\<lparr>lg_inferenceTask := h\<rparr>"

section \<open>Labels, paths and checksums\<close>

definition named_label :: "gesture_label \<Rightarrow> bool" where
  "named_label l \<longleftrightarrow> (case l of GL_INVALID \<Rightarrow> False | GL_other k \<Rightarrow> False | _ \<Rightarrow> True)"

lemma getLabel_code: "named_label l \<Longrightarrow> getLabel (label_code l) = l"
  by (cases l) (simp_all add: getLabel_def named_label_def)

lemmas text_compare = strcaseeq_def to_lower_def Let_def

lemma label_text_lemma:
  "named_label l \<Longrightarrow> stringToGestureLabel (Some s) = l \<longleftrightarrow> strcaseeq s (gestureLabelToString l)"
  unfolding stringToGestureLabel_def option.case
  by (cases l) (auto simp: named_label_def text_compare split: if_splits)

text \<open>
  A name that the serial console accepts, in any mixture of cases, stands for exactly the label
  whose printed form it is; so the label in the manifest of the sessions is the one that was
  asked for.
\<close>

theorem label_text_roundtrip:
  assumes "named_label l"
  shows "stringToGestureLabel (Some s) = l \<longleftrightarrow> strcaseeq s (gestureLabelToString l)"
  by (rule label_text_lemma [OF assms])

theorem label_text_roundtrip_witness:
  "stringToGestureLabel (Some ''Quick_Pass'') = GL_QUICK_PASS \<and>
   stringToGestureLabel (Some ''quick pass'') \<noteq> GL_QUICK_PASS"
  using label_text_roundtrip [of GL_QUICK_PASS "''Quick_Pass''"]
    label_text_roundtrip [of GL_QUICK_PASS "''quick pass''"]
  by (simp add: named_label_def text_compare char_of_def bit_0)

lemma take_buildSessionPath [simp]: "take 5 (buildSessionPath i) = ''/ml_s''"
  by (simp add: buildSessionPath_def)

lemma take_4_buildSessionPath [simp]: "take 4 (buildSessionPath i) = ''/ml_''"
  by (simp add: buildSessionPath_def)

lemma atoi_buildSessionPath [simp]: "atoi (drop 5 (buildSessionPath i)) = int (unat i)"
proof -
  have "unat i < 2 ^ 31" using unsigned_less [where 'a = nat, of i] by simp
  from atoi_dec_pad [OF this, of "''.bin''" 4] show ?thesis
    by (simp add: buildSessionPath_def is_digit_def)
qed

lemma buildSessionPath_inject [simp]: "buildSessionPath i = buildSessionPath j \<longleftrightarrow> i = j"
proof
  assume "buildSessionPath i = buildSessionPath j"
  then have "atoi (drop 5 (buildSessionPath i)) = atoi (drop 5 (buildSessionPath j))" by simp
  then show "i = j" by (simp only: atoi_buildSessionPath of_nat_eq_iff unsigned_word_eqI word_unat_eq_iff)
qed simp

lemma buildSessionPath_manifest [simp]:
  "buildSessionPath i \<noteq> ''/ml_manifest.txt''" "''/ml_manifest.txt'' \<noteq> buildSessionPath i"
  by (auto simp: buildSessionPath_def)

lemma rebuild_step_path [simp]: "rebuild_step m (buildSessionPath i) = max m i"
  by (cases "m < i") (auto simp: rebuild_step_def max_def Let_def not_less intro: antisym)

lemma rebuild_fold_mono: "m \<le> foldl rebuild_step m names"
proof (induction names arbitrary: m)
  case (Cons a names)
  have "m \<le> rebuild_step m a" by (auto simp: rebuild_step_def Let_def)
  then show ?case using Cons [of "rebuild_step m a"] by simp
qed simp

lemma rebuild_fold_ge:
  "buildSessionPath i \<in> set names \<Longrightarrow> i \<le> foldl rebuild_step m names"
proof (induction names arbitrary: m)
  case (Cons a names)
  show ?case
  proof (cases "buildSessionPath i = a")
    case True
    then have "i \<le> rebuild_step m a" by (simp flip: True)
    then show ?thesis using rebuild_fold_mono [of "rebuild_step m a" names] by simp
  next
    case False
    then show ?thesis using Cons by simp
  qed
qed simp

lemma length_enc_window_header [simp]: "length (enc_window_header h) = 32"
  by (simp add: enc_window_header_def)

lemma length_enc_sample [simp]: "length (enc_sample r) = 4"
  by (simp add: enc_sample_def)

lemma length_enc_window: "length (enc_window w) = 32 + 4 * length (w_samples w)"
  by (simp add: enc_window_def length_concat_map [of enc_sample 4])

lemma window_crc_indep [simp]:
  "window_crc (w\<lparr>w_header := (w_header w)\<lparr>wh_crc32 := k\<rparr>\<rparr>) = window_crc w"
  by (simp add: window_crc_def enc_window_header_def)

lemma with_window_crc_simps [simp]:
  "w_samples (with_window_crc w) = w_samples w"
  "wh_sessionId (w_header (with_window_crc w)) = wh_sessionId (w_header w)"
  "wh_windowId (w_header (with_window_crc w)) = wh_windowId (w_header w)"
  "wh_label (w_header (with_window_crc w)) = wh_label (w_header w)"
  "wh_magic (w_header (with_window_crc w)) = wh_magic (w_header w)"
  "wh_version (w_header (with_window_crc w)) = wh_version (w_header w)"
  "wh_sampleCount (w_header (with_window_crc w)) = wh_sampleCount (w_header w)"
  "wh_startUptimeMs (w_header (with_window_crc w)) = wh_startUptimeMs (w_header w)"
  "wh_crc32 (w_header (with_window_crc w)) = window_crc w"
  "window_crc (with_window_crc w) = window_crc w"
  by (simp_all add: with_window_crc_def)

lemma fillWindowHeader_simps [simp]:
  "wh_magic (fillWindowHeader c e s h) = WINDOW_MAGIC c"
  "wh_version (fillWindowHeader c e s h) = WINDOW_VERSION c"
  "wh_sampleCount (fillWindowHeader c e s h) = word_of_nat (WINDOW_SIZE c)"
  "wh_startUptimeMs (fillWindowHeader c e s h) = lg_windowStartUptime s"
  by (simp_all add: fillWindowHeader_def Let_def split: prod.split)

lemma write_window_simps [simp]:
  "w_samples (write_window c e s) = lg_sampleBuf s"
  "wh_sessionId (w_header (write_window c e s)) = lg_currentSessionId s"
  "wh_windowId (w_header (write_window c e s)) = lg_currentWindowId s"
  "wh_label (w_header (write_window c e s)) = label_code (lg_currentLabel s)"
  "wh_startUptimeMs (w_header (write_window c e s)) = lg_windowStartUptime s"
  by (simp_all add: write_window_def Let_def)

lemma write_window_valid: "ml_ok c \<Longrightarrow> window_isValid c (write_window c e s)"
  by (simp add: window_isValid_def write_window_def Let_def ml_ok_def unat_word_of_nat_less)

end
