(* ===== verification/Fw_LoggerRun.thy ===== *)
theory Fw_LoggerRun
  imports Fw_Logger "HOL-Library.Sublist"
begin

text \<open>
  Runs of the recorder. First the well-formedness that every operation keeps (\<open>logger_ok\<close>), then
  the reference the overlapping windows are measured by (\<open>slides\<close>), the session that records
  them, the identifiers of sessions across restarts, and the ways in which recorded data gets
  lost or mixed: deletion with windows in the queue, a torn write, a shutdown that does not wait
  long enough.
\<close>

section \<open>Well-formed states\<close>

definition window_ok :: "ml_cfg \<Rightarrow> sample_window \<Rightarrow> bool" where
  "window_ok c w \<longleftrightarrow> window_isValid c w \<and> length (w_samples w) = WINDOW_SIZE c"

definition queue_ok :: "ml_cfg \<Rightarrow> sample_window list option \<Rightarrow> bool" where
  "queue_ok c q \<longleftrightarrow> (\<forall>ws. q = Some ws \<longrightarrow> length ws \<le> LOGGER_QUEUE_DEPTH c \<and> (\<forall>w \<in> set ws. window_ok c w))"

text \<open>Between the new sample and the slide of the buffer the index may equal the window size.\<close>

definition lg_buffer_ok :: "ml_cfg \<Rightarrow> 'f logger \<Rightarrow> bool" where
  "lg_buffer_ok c s \<longleftrightarrow> length (lg_sampleBuf s) = WINDOW_SIZE c \<and> lg_sampleIndex s \<le> WINDOW_SIZE c \<and>
     length (w_samples (lg_inferenceWindow s)) = WINDOW_SIZE c \<and> queue_ok c (lg_queue s) \<and>
     lg_state s \<noteq> LS_ARMED \<and> (lg_state s = LS_RECORDING \<longrightarrow> lg_spiffsMounted s) \<and>
     (lg_spiffsMounted s \<longrightarrow> lg_queue s \<noteq> None)"

definition logger_ok :: "ml_cfg \<Rightarrow> 'f logger \<Rightarrow> bool" where
  "logger_ok c s \<longleftrightarrow> lg_buffer_ok c s \<and> lg_sampleIndex s < WINDOW_SIZE c"

lemma logger_ok_iff:
  "logger_ok c s \<longleftrightarrow> length (lg_sampleBuf s) = WINDOW_SIZE c \<and> lg_sampleIndex s < WINDOW_SIZE c \<and>
     length (w_samples (lg_inferenceWindow s)) = WINDOW_SIZE c \<and> queue_ok c (lg_queue s) \<and>
     lg_state s \<noteq> LS_ARMED \<and> (lg_state s = LS_RECORDING \<longrightarrow> lg_spiffsMounted s) \<and>
     (lg_spiffsMounted s \<longrightarrow> lg_queue s \<noteq> None)"
  by (auto simp: logger_ok_def lg_buffer_ok_def)

lemma queue_ok_Some [simp]:
  "queue_ok c (Some ws) \<longleftrightarrow> length ws \<le> LOGGER_QUEUE_DEPTH c \<and> (\<forall>w \<in> set ws. window_ok c w)"
  "queue_ok c None"
  by (auto simp: queue_ok_def)

lemma queue_send_ok:
  "queue_ok c q \<Longrightarrow> window_ok c w \<Longrightarrow> queue_send c w q = Some q' \<Longrightarrow> queue_ok c (Some q')"
  by (auto simp: queue_send_def split: option.splits if_splits)

lemma logger_ok_new: "ml_ok c \<Longrightarrow> logger_ok c (logger_new c f)"
  by (simp add: logger_ok_iff logger_new_def zero_samples_def ml_ok_def)

lemma logger_ok_more:
  assumes "logger_ok c s"
  shows "logger_ok c (s\<lparr>lg_windowStartUptime := t\<rparr>)" "logger_ok c (s\<lparr>lg_dropCount := k\<rparr>)"
    "logger_ok c (s\<lparr>lg_notified := n\<rparr>)" "logger_ok c (setBootCount b s)" "logger_ok c (setRuntimeFlags b s)"
    "logger_ok c (setInferenceTaskHandle h s)" "logger_ok c (s\<lparr>lg_fs := f\<rparr>)"
    "logger_ok c (s\<lparr>lg_running := h\<rparr>)" "logger_ok c (s\<lparr>lg_task := h\<rparr>)" "logger_ok c (s\<lparr>lg_state := LS_ERROR\<rparr>)"
  using assms by (simp_all add: logger_ok_iff setBootCount_def setRuntimeFlags_def setInferenceTaskHandle_def)

lemma logger_ok_processWrite: "logger_ok c s \<Longrightarrow> logger_ok c (processWrite api w s)"
  by (auto simp: processWrite_def logger_ok_iff split: option.split)

lemma logger_ok_step: "logger_ok c s \<Longrightarrow> logger_ok c (logger_step api s)"
proof -
  assume ok: "logger_ok c s"
  have "logger_ok c (s\<lparr>lg_queue := Some ws\<rparr>)" if "lg_queue s = Some (w # ws)" for w ws
    using ok that by (simp add: logger_ok_iff)
  then show ?thesis
    using ok by (auto simp: logger_step_def logger_ok_more intro!: logger_ok_processWrite split: option.split list.split)
qed

lemma logger_ok_steps: "logger_ok c s \<Longrightarrow> logger_ok c ((logger_step api ^^ n) s)"
  by (induction n) (simp_all add: logger_ok_step)

lemma logger_ok_stop: "logger_ok c s \<Longrightarrow> logger_ok c (snd (stopSession s))"
  by (auto simp: stopSession_def logger_ok_iff)

lemma logger_ok_start: "ml_ok c \<Longrightarrow> logger_ok c s \<Longrightarrow> logger_ok c (snd (startSession api l s))"
  by (auto simp: startSession_def appendManifest_def logger_ok_iff ml_ok_def Let_def split: option.split)

lemma logger_ok_delete: "logger_ok c s \<Longrightarrow> logger_ok c (snd (deleteAll api s))"
  by (auto simp: deleteAll_def stopSession_def logger_ok_iff Let_def split: option.split)

lemma logger_ok_init:
  assumes "logger_ok c s" "ie_queue e \<or> \<not> lg_spiffsMounted s"
  shows "logger_ok c (snd (logger_init api e s))"
  using assms by (auto simp: logger_init_def mountSpiffs_def logger_ok_iff Let_def)

text \<open>While the task drains the queue nothing starts to record.\<close>

lemma step_not_recording:
  "lg_state s \<noteq> LS_RECORDING \<Longrightarrow> lg_state (logger_step api s) \<noteq> LS_RECORDING"
  by (auto simp: logger_step_def processWrite_def split: option.split list.split)

lemma steps_not_recording:
  "lg_state s \<noteq> LS_RECORDING \<Longrightarrow> lg_state ((logger_step api ^^ n) s) \<noteq> LS_RECORDING"
  by (induction n) (simp_all add: step_not_recording)

lemma logger_ok_unmount:
  "logger_ok c s \<Longrightarrow> lg_state s \<noteq> LS_RECORDING \<Longrightarrow> logger_ok c ((unmountSpiffs s)\<lparr>lg_initialized := False\<rparr>)"
  by (auto simp: unmountSpiffs_def logger_ok_iff)

lemma logger_ok_shutdown: "logger_ok c s \<Longrightarrow> logger_ok c (logger_shutdown api n s)"
proof -
  assume ok: "logger_ok c s"
  let ?t = "(if lg_state s = LS_RECORDING \<or> lg_state s = LS_ARMED then snd (stopSession s) else s)\<lparr>lg_running := False\<rparr>"
  let ?u = "(logger_step api ^^ n) ?t"
  have "logger_ok c ?t" using ok logger_ok_stop [OF ok] by (simp add: logger_ok_more)
  then have u: "logger_ok c ?u" by (rule logger_ok_steps)
  have "lg_state ?u \<noteq> LS_RECORDING" by (rule steps_not_recording) (simp add: stopSession_def)
  with u have "logger_ok c ((unmountSpiffs ?u)\<lparr>lg_initialized := False\<rparr>)" by (rule logger_ok_unmount)
  then show ?thesis using ok unfolding logger_shutdown_def Let_def by (cases "lg_initialized s") simp_all
qed

lemma logger_ok_offer:
  "logger_ok c s \<Longrightarrow> logger_ok c (offer_inference c lf e s)"
  by (auto simp: offer_inference_def logger_ok_iff Let_def)

lemma offer_inference_keeps [simp]:
  "lg_sampleIndex (offer_inference c lf e s) = lg_sampleIndex s"
  "lg_sampleBuf (offer_inference c lf e s) = lg_sampleBuf s"
  "lg_state (offer_inference c lf e s) = lg_state s"
  "lg_queue (offer_inference c lf e s) = lg_queue s"
  "lg_currentSessionId (offer_inference c lf e s) = lg_currentSessionId s"
  "lg_currentWindowId (offer_inference c lf e s) = lg_currentWindowId s"
  "lg_currentLabel (offer_inference c lf e s) = lg_currentLabel s"
  "lg_dropCount (offer_inference c lf e s) = lg_dropCount s"
  "lg_spiffsMounted (offer_inference c lf e s) = lg_spiffsMounted s"
  "lg_nextSessionId (offer_inference c lf e s) = lg_nextSessionId s"
  "lg_task (offer_inference c lf e s) = lg_task s"
  "lg_running (offer_inference c lf e s) = lg_running s"
  "lg_fs (offer_inference c lf e s) = lg_fs s"
  "length (w_samples (lg_inferenceWindow (offer_inference c lf e s))) = WINDOW_SIZE c \<longleftrightarrow>
     (if lg_mutex s \<and> lf then length (lg_sampleBuf s) else length (w_samples (lg_inferenceWindow s))) = WINDOW_SIZE c"
  by (simp_all add: offer_inference_def Let_def)

lemma window_ok_write:
  "ml_ok c \<Longrightarrow> logger_ok c s \<Longrightarrow> window_ok c (write_window c e s)"
  by (simp add: window_ok_def write_window_valid logger_ok_iff)

lemma lg_buffer_ok_record:
  assumes "ml_ok c" "lg_buffer_ok c s"
  shows "lg_buffer_ok c (record_window c e s)"
proof -
  have "window_ok c (write_window c e s)"
    using assms by (simp add: window_ok_def write_window_valid lg_buffer_ok_def)
  then show ?thesis
    using assms(2) queue_send_ok [of c "lg_queue s" "write_window c e s"]
    by (auto simp: record_window_def lg_buffer_ok_def split: option.split)
qed

lemma slide_buffer_ok:
  "ml_ok c \<Longrightarrow> lg_buffer_ok c s \<Longrightarrow> logger_ok c (slide_buffer c s)"
  by (auto simp: slide_buffer_def lg_buffer_ok_def logger_ok_iff ml_ok_def Let_def min_def)

lemma logger_ok_sample:
  assumes "ml_ok c" "logger_ok c s"
  shows "logger_ok c (appendSample c e p d s)"
proof -
  let ?s = "(if lg_sampleIndex s = 0 then s\<lparr>lg_windowStartUptime := se_uptime e\<rparr> else s)"
  let ?t = "?s\<lparr>lg_sampleBuf := (lg_sampleBuf ?s)[lg_sampleIndex ?s := \<lparr>sr_proximity = p, sr_dt_ms = d\<rparr>],
                lg_sampleIndex := (lg_sampleIndex ?s + 1) mod 256\<rparr>"
  have idx: "(lg_sampleIndex s + 1) mod 256 = lg_sampleIndex s + 1" "lg_sampleIndex s < WINDOW_SIZE c"
    using assms by (simp_all add: ml_ok_def logger_ok_iff)
  then have t: "lg_buffer_ok c ?t" using assms(2) by (simp add: logger_ok_iff lg_buffer_ok_def)
  show ?thesis
  proof (cases "WINDOW_SIZE c \<le> lg_sampleIndex ?t")
    case True
    have "lg_buffer_ok c (offer_inference c (se_lock_free e) (se_fill e) ?t)"
      using t by (simp add: lg_buffer_ok_def)
    from slide_buffer_ok [OF assms(1) lg_buffer_ok_record [OF assms(1) this]]
    show ?thesis using True unfolding appendSample_def Let_def by (simp only: if_True)
  next
    case False
    then have "logger_ok c ?t" using t by (simp add: logger_ok_iff lg_buffer_ok_def)
    then show ?thesis using False unfolding appendSample_def Let_def by (simp only: if_False)
  qed
qed

section \<open>Every reachable state\<close>

text \<open>
  The calls that the other tasks make in any order, and the turns of the logger task. The
  attempt to create the queue may fail as long as the file system is not mounted; \<open>main\<close> calls
  \<open>init\<close> once.
\<close>

inductive logger_ev :: "ml_cfg \<Rightarrow> 'f spiffs_api \<Rightarrow> 'f logger \<Rightarrow> 'f logger \<Rightarrow> bool" for c api where
  LE_init: "ie_queue e \<or> \<not> lg_spiffsMounted s \<Longrightarrow> logger_ev c api s (snd (logger_init api e s))"
| LE_sample: "logger_ev c api s (appendSample c e p d s)"
| LE_start: "logger_ev c api s (snd (startSession api l s))"
| LE_stop: "logger_ev c api s (snd (stopSession s))"
| LE_delete: "logger_ev c api s (snd (deleteAll api s))"
| LE_task: "logger_ev c api s (logger_step api s)"
| LE_shutdown: "logger_ev c api s (logger_shutdown api n s)"
| LE_boot: "logger_ev c api s (setBootCount b s)"
| LE_flags: "logger_ev c api s (setRuntimeFlags b s)"
| LE_handle: "logger_ev c api s (setInferenceTaskHandle h s)"

lemma logger_ev_ok:
  assumes "ml_ok c" "logger_ev c api s t" "logger_ok c s"
  shows "logger_ok c t"
  using assms(2,3,1)
  by (induction rule: logger_ev.induct)
    (simp_all add: logger_ok_init logger_ok_sample logger_ok_start logger_ok_stop logger_ok_delete
      logger_ok_step logger_ok_shutdown logger_ok_more)

text \<open>
  C26: In every state that the recorder can reach, in any order of calls, the sample index lies inside
  the buffer, every window in the queue has the announced number of samples, the right constants
  and a checksum that matches, recording implies a mounted file system and a queue, and the
  state ARMED never occurs.
\<close>

theorem logger_well_formed:
  assumes "ml_ok c" "(logger_ev c api)\<^sup>*\<^sup>* (logger_new c f) s"
  shows "lg_sampleIndex s < length (lg_sampleBuf s) \<and> lg_state s \<noteq> LS_ARMED \<and>
    (lg_state s = LS_RECORDING \<longrightarrow> lg_spiffsMounted s \<and> lg_queue s \<noteq> None) \<and>
    list_all (\<lambda>w. window_isValid c w \<and> length (enc_window w) = 32 + 4 * WINDOW_SIZE c)
      (case lg_queue s of None \<Rightarrow> [] | Some ws \<Rightarrow> ws)"
proof -
  have "logger_ok c s"
    using assms(2) by (induction rule: rtranclp_induct)
      (auto intro: logger_ok_new [OF assms(1)] logger_ev_ok [OF assms(1)])
  then show ?thesis
    by (cases "lg_queue s") (auto simp: logger_ok_iff window_ok_def length_enc_window list_all_iff)
qed

section \<open>The windows of a recording\<close>

text \<open>
  The reference: all windows of \<open>n\<close> consecutive samples that start at a multiple of \<open>st\<close>, and what
  is left over after the last of them.
\<close>

fun slides :: "nat \<Rightarrow> nat \<Rightarrow> 'a list \<Rightarrow> 'a list list" where
  "slides n st xs =
     (if n = 0 \<or> st = 0 \<or> length xs < n then [] else take n xs # slides n st (drop st xs))"

fun residue :: "nat \<Rightarrow> nat \<Rightarrow> 'a list \<Rightarrow> 'a list" where
  "residue n st xs =
     (if n = 0 \<or> st = 0 \<or> length xs < n then xs else residue n st (drop st xs))"

declare slides.simps [simp del] residue.simps [simp del]

lemma slides_nth:
  assumes "0 < n" "0 < st" "i * st + n \<le> length xs"
  shows "i < length (slides n st xs) \<and> slides n st xs ! i = take n (drop (i * st) xs)"
  using assms
proof (induction i arbitrary: xs)
  case 0
  then show ?case by (subst (1 2) slides.simps) simp
next
  case (Suc i)
  then have "i * st + n \<le> length (drop st xs)" by simp
  from Suc.IH [OF Suc.prems(1,2) this] Suc.prems show ?case
    by (subst (1 2) slides.simps) (simp add: ac_simps)
qed

lemma length_residue: "0 < n \<Longrightarrow> 0 < st \<Longrightarrow> length (residue n st xs) < n"
  by (induction n st xs rule: residue.induct) (subst residue.simps, auto)

lemma slides_snoc:
  assumes "0 < n" "0 < st" "st \<le> n"
  shows "slides n st (xs @ [x]) =
      slides n st xs @ (if length (residue n st xs) + 1 = n then [residue n st xs @ [x]] else [])"
    and "residue n st (xs @ [x]) =
      (if length (residue n st xs) + 1 = n then drop st (residue n st xs @ [x]) else residue n st xs @ [x])"
proof -
  have "slides n st (xs @ [x]) =
      slides n st xs @ (if length (residue n st xs) + 1 = n then [residue n st xs @ [x]] else []) \<and>
    residue n st (xs @ [x]) =
      (if length (residue n st xs) + 1 = n then drop st (residue n st xs @ [x]) else residue n st xs @ [x])"
    using assms
  proof (induction n st xs rule: residue.induct)
    case (1 n st xs)
    show ?case
    proof (cases "length xs < n")
      case True
      have short: "slides n st (drop st (xs @ [x])) = []" "residue n st (drop st (xs @ [x])) = drop st (xs @ [x])"
        if "length xs + 1 = n" using that 1(3) by (subst slides.simps residue.simps, simp)+
      have r: "residue n st xs = xs" "slides n st xs = []"
        using True by (subst slides.simps residue.simps, simp)+
      show ?thesis
      proof (cases "length xs + 1 = n")
        case full: True
        have "slides n st (xs @ [x]) = take n (xs @ [x]) # slides n st (drop st (xs @ [x]))"
          "residue n st (xs @ [x]) = residue n st (drop st (xs @ [x]))"
          using full 1(2,3) by (subst slides.simps residue.simps, simp)+
        then show ?thesis using r short [OF full] full by simp
      next
        case False
        then have "length (xs @ [x]) < n" using True by simp
        then have "slides n st (xs @ [x]) = []" "residue n st (xs @ [x]) = xs @ [x]"
          by (subst slides.simps residue.simps, simp)+
        then show ?thesis using r False by simp
      qed
    next
      case False
      then have e: "slides n st xs = take n xs # slides n st (drop st xs)" "residue n st xs = residue n st (drop st xs)"
        "slides n st (xs @ [x]) = take n xs # slides n st (drop st xs @ [x])"
        "residue n st (xs @ [x]) = residue n st (drop st xs @ [x])"
        using 1(2-4) by (subst slides.simps residue.simps, simp)+
      show ?thesis using 1(1) [of] 1(2-4) False unfolding e by auto
    qed
  qed
  then show "slides n st (xs @ [x]) =
      slides n st xs @ (if length (residue n st xs) + 1 = n then [residue n st xs @ [x]] else [])"
    "residue n st (xs @ [x]) =
      (if length (residue n st xs) + 1 = n then drop st (residue n st xs @ [x]) else residue n st xs @ [x])"
    by simp_all
qed

section \<open>A recording session\<close>

datatype rec_event = RE_sample sample_env u16 u16 | RE_task

fun rec_step :: "ml_cfg \<Rightarrow> 'f spiffs_api \<Rightarrow> 'f logger \<Rightarrow> rec_event \<Rightarrow> 'f logger" where
  "rec_step c api s (RE_sample e p d) = appendSample c e p d s"
| "rec_step c api s RE_task = logger_step api s"

fun rec_sample :: "rec_event \<Rightarrow> sample_record list" where
  "rec_sample (RE_sample e p d) = [\<lparr>sr_proximity = p, sr_dt_ms = d\<rparr>]"
| "rec_sample RE_task = []"

definition rec_samples :: "rec_event list \<Rightarrow> sample_record list" where
  "rec_samples evs = concat (map rec_sample evs)"

definition ml_step :: "ml_cfg \<Rightarrow> nat" where
  "ml_step c = min (WINDOW_STRIDE c) (WINDOW_SIZE c)"

definition queued :: "'f logger \<Rightarrow> sample_window list" where
  "queued s = (case lg_queue s of None \<Rightarrow> [] | Some ws \<Rightarrow> ws)"

text \<open>What a session has recorded: its file, followed by its windows in the queue.\<close>

definition session_data :: "('f \<Rightarrow> fs_view) \<Rightarrow> u16 \<Rightarrow> 'f logger \<Rightarrow> bytes" where
  "session_data view sid s = fs_contents (view (lg_fs s)) (buildSessionPath sid) @
     concat (map enc_window (filter (\<lambda>w. wh_sessionId (w_header w) = sid) (queued s)))"

definition rec_window_ok :: "ml_cfg \<Rightarrow> u16 \<Rightarrow> gesture_label \<Rightarrow> nat \<Rightarrow> sample_window \<Rightarrow> bool" where
  "rec_window_ok c sid l k w \<longleftrightarrow> window_isValid c w \<and> wh_sessionId (w_header w) = sid \<and>
     wh_windowId (w_header w) = word_of_nat k \<and> wh_label (w_header w) = label_code l"

definition rec_inv :: "ml_cfg \<Rightarrow> ('f \<Rightarrow> fs_view) \<Rightarrow> u16 \<Rightarrow> gesture_label \<Rightarrow> u32 \<Rightarrow> sample_record list \<Rightarrow>
    sample_window list \<Rightarrow> 'f logger \<Rightarrow> bool" where
  "rec_inv c view sid l d0 xs ws s \<longleftrightarrow>
     logger_ok c s \<and> lg_state s = LS_RECORDING \<and> lg_task s \<and> lg_running s \<and> lg_currentSessionId s = sid \<and>
     lg_currentLabel s = l \<and> lg_currentWindowId s = word_of_nat (length ws) \<and>
     take (lg_sampleIndex s) (lg_sampleBuf s) = residue (WINDOW_SIZE c) (ml_step c) xs \<and>
     subseq (map w_samples ws) (slides (WINDOW_SIZE c) (ml_step c) xs) \<and>
     lg_dropCount s = d0 + word_of_nat (length (slides (WINDOW_SIZE c) (ml_step c) xs) - length ws) \<and>
     (\<forall>k < length ws. rec_window_ok c sid l k (ws ! k)) \<and>
     session_data view sid s = concat (map enc_window ws)"

lemma sample_pending:
  assumes "ml_ok c" "logger_ok c s" "lg_sampleIndex s + 1 \<noteq> WINDOW_SIZE c"
  shows "appendSample c e p d s = s\<lparr>
     lg_windowStartUptime := (if lg_sampleIndex s = 0 then se_uptime e else lg_windowStartUptime s),
     lg_sampleBuf := (lg_sampleBuf s)[lg_sampleIndex s := \<lparr>sr_proximity = p, sr_dt_ms = d\<rparr>],
     lg_sampleIndex := lg_sampleIndex s + 1\<rparr>"
  using assms by (simp add: appendSample_def Let_def logger_ok_iff ml_ok_def)

text \<open>The sample that completes a window: what the recording step sees.\<close>

lemma sample_completes:
  assumes "ml_ok c" "logger_ok c s" "lg_sampleIndex s + 1 = WINDOW_SIZE c"
  obtains t where "appendSample c e p d s = slide_buffer c (record_window c (se_fill2 e) t)"
    "lg_sampleBuf t = take (lg_sampleIndex s) (lg_sampleBuf s) @ [\<lparr>sr_proximity = p, sr_dt_ms = d\<rparr>]"
    "lg_buffer_ok c t" "lg_state t = lg_state s" "lg_task t = lg_task s" "lg_queue t = lg_queue s"
    "lg_currentSessionId t = lg_currentSessionId s" "lg_currentWindowId t = lg_currentWindowId s"
    "lg_currentLabel t = lg_currentLabel s" "lg_dropCount t = lg_dropCount s" "lg_fs t = lg_fs s"
    "lg_nextSessionId t = lg_nextSessionId s" "lg_spiffsMounted t = lg_spiffsMounted s" "lg_running t = lg_running s"
proof -
  let ?i = "lg_sampleIndex s" and ?x = "\<lparr>sr_proximity = p, sr_dt_ms = d\<rparr>"
  let ?buf = "take ?i (lg_sampleBuf s) @ [?x]"
  let ?u = "s\<lparr>lg_windowStartUptime := (if ?i = 0 then se_uptime e else lg_windowStartUptime s),
               lg_sampleBuf := ?buf, lg_sampleIndex := ?i + 1\<rparr>"
  let ?t = "offer_inference c (se_lock_free e) (se_fill e) ?u"
  have i: "?i < length (lg_sampleBuf s)" "length (lg_sampleBuf s) = ?i + 1" "(?i + 1) mod 256 = ?i + 1"
    using assms by (simp_all add: logger_ok_iff ml_ok_def)
  have buf: "(lg_sampleBuf s)[?i := ?x] = ?buf"
    using upd_conv_take_nth_drop [OF i(1), of ?x] i(2) by simp
  have len: "length ?buf = WINDOW_SIZE c" using i assms(3) by simp
  have "lg_buffer_ok c ?t"
    using assms(2,3) len by (simp add: logger_ok_iff lg_buffer_ok_def)
  moreover have "appendSample c e p d s = slide_buffer c (record_window c (se_fill2 e) ?t)"
  proof (cases "?i = 0")
    case True
    then show ?thesis using buf i(3) assms(3) by (simp add: appendSample_def Let_def)
  next
    case False
    then show ?thesis using buf i(3) assms(3) by (simp add: appendSample_def Let_def)
  qed
  ultimately show ?thesis by (intro that [of ?t]) simp_all
qed

lemma slide_buffer_keeps [simp]:
  "lg_state (slide_buffer c s) = lg_state s" "lg_task (slide_buffer c s) = lg_task s"
  "lg_queue (slide_buffer c s) = lg_queue s" "lg_currentSessionId (slide_buffer c s) = lg_currentSessionId s"
  "lg_currentWindowId (slide_buffer c s) = lg_currentWindowId s"
  "lg_currentLabel (slide_buffer c s) = lg_currentLabel s" "lg_dropCount (slide_buffer c s) = lg_dropCount s"
  "lg_fs (slide_buffer c s) = lg_fs s" "lg_nextSessionId (slide_buffer c s) = lg_nextSessionId s"
  "lg_spiffsMounted (slide_buffer c s) = lg_spiffsMounted s" "lg_running (slide_buffer c s) = lg_running s"
  by (simp_all add: slide_buffer_def Let_def)

lemma slide_buffer_residue:
  "ml_ok c \<Longrightarrow> length (lg_sampleBuf s) = WINDOW_SIZE c \<Longrightarrow>
   take (lg_sampleIndex (slide_buffer c s)) (lg_sampleBuf (slide_buffer c s)) = drop (ml_step c) (lg_sampleBuf s)"
  by (auto simp: slide_buffer_def ml_step_def ml_ok_def Let_def blit_def min_def)

lemma queued_send:
  "queue_send c w q = Some q' \<Longrightarrow> queued (s\<lparr>lg_queue := Some q'\<rparr>) = queued (s\<lparr>lg_queue := q\<rparr>) @ [w]"
  by (auto simp: queue_send_def queued_def split: option.splits if_splits)

lemma fs_contents_upd [simp]:
  "fs_contents (v(p \<mapsto> bs)) q = (if q = p then bs else fs_contents v q)"
  by (simp add: fs_contents_def)

text \<open>With a reliable file system a turn of the task moves one window from the queue to its file.\<close>

lemma logger_step_writes:
  assumes "spiffs_reliable api view" "lg_task s" "lg_queue s = Some (w # ws)" "lg_spiffsMounted s"
  obtains f where "logger_step api s = s\<lparr>lg_queue := Some ws, lg_fs := f,
      lg_windowsWritten := lg_windowsWritten s + 1, lg_totalWindowsWritten := lg_totalWindowsWritten s + 1\<rparr>"
    "view f = (view (lg_fs s))(buildSessionPath (wh_sessionId (w_header w)) \<mapsto>
       fs_contents (view (lg_fs s)) (buildSessionPath (wh_sessionId (w_header w))) @ enc_window w)"
proof -
  obtain f where f: "sp_append api (lg_fs s) (buildSessionPath (wh_sessionId (w_header w))) (enc_window w) =
      Some (length (enc_window w), f)"
    "view f = (view (lg_fs s))(buildSessionPath (wh_sessionId (w_header w)) \<mapsto>
       fs_contents (view (lg_fs s)) (buildSessionPath (wh_sessionId (w_header w))) @ enc_window w)"
    using spiffs_reliableD(3) [OF assms(1)] by blast
  show ?thesis
    by (rule that [OF _ f(2)]) (simp add: logger_step_def processWrite_def assms f(1))
qed

lemma logger_step_cases:
  assumes "spiffs_reliable api view" "lg_running s" "lg_spiffsMounted s"
  obtains (idle) "\<not> lg_task s \<or> queued s = []" "logger_step api s = s"
  | (wrote) w ws f k m where "lg_task s" "lg_queue s = Some (w # ws)"
    "logger_step api s = s\<lparr>lg_queue := Some ws, lg_fs := f, lg_windowsWritten := k, lg_totalWindowsWritten := m\<rparr>"
    "view f = (view (lg_fs s))(buildSessionPath (wh_sessionId (w_header w)) \<mapsto>
       fs_contents (view (lg_fs s)) (buildSessionPath (wh_sessionId (w_header w))) @ enc_window w)"
proof (cases "lg_task s")
  case True
  show ?thesis
  proof (cases "queued s")
    case Nil
    then have "logger_step api s = s"
      using assms(2) by (auto simp: logger_step_def queued_def split: option.splits)
    with Nil show ?thesis using idle by blast
  next
    case (Cons w ws)
    then have q: "lg_queue s = Some (w # ws)" by (auto simp: queued_def split: option.splits)
    show ?thesis using logger_step_writes [OF assms(1) True q assms(3)] wrote [OF True q] by metis
  qed
next
  case False
  then show ?thesis using idle by (simp add: logger_step_def)
qed

lemma session_data_step:
  assumes "spiffs_reliable api view" "lg_running s" "lg_spiffsMounted s"
  shows "session_data view sid (logger_step api s) = session_data view sid s"
  using assms by (cases rule: logger_step_cases) (simp_all add: session_data_def queued_def)

lemma logger_step_keeps:
  assumes "spiffs_reliable api view" "lg_running s" "lg_spiffsMounted s"
  shows "lg_state (logger_step api s) = lg_state s" "lg_task (logger_step api s) = lg_task s"
    "lg_running (logger_step api s) = lg_running s" "lg_spiffsMounted (logger_step api s) = lg_spiffsMounted s"
    "lg_currentSessionId (logger_step api s) = lg_currentSessionId s"
    "lg_currentLabel (logger_step api s) = lg_currentLabel s"
    "lg_currentWindowId (logger_step api s) = lg_currentWindowId s"
    "lg_sampleIndex (logger_step api s) = lg_sampleIndex s" "lg_sampleBuf (logger_step api s) = lg_sampleBuf s"
    "lg_dropCount (logger_step api s) = lg_dropCount s"
    "lg_nextSessionId (logger_step api s) = lg_nextSessionId s"
    "queued (logger_step api s) = (if lg_task s then tl (queued s) else queued s)"
  using assms by (cases rule: logger_step_cases; auto simp: queued_def)+

lemma rec_inv_task:
  assumes "spiffs_reliable api view" "rec_inv c view sid l d0 xs ws s"
  shows "rec_inv c view sid l d0 xs ws (logger_step api s)"
proof -
  have m: "lg_running s" "lg_spiffsMounted s"
    using assms(2) by (simp_all add: rec_inv_def logger_ok_iff)
  show ?thesis
    using assms(2) logger_ok_step [of c s api]
    by (simp add: rec_inv_def logger_step_keeps [OF assms(1) m] session_data_step [OF assms(1) m])
qed

lemma rec_inv_sample:
  assumes "ml_ok c" "rec_inv c view sid l d0 xs ws s"
  shows "\<exists>ws'. rec_inv c view sid l d0 (xs @ [\<lparr>sr_proximity = p, sr_dt_ms = d\<rparr>]) ws' (appendSample c e p d s)"
proof -
  let ?x = "\<lparr>sr_proximity = p, sr_dt_ms = d\<rparr>" and ?i = "lg_sampleIndex s"
  let ?r = "residue (WINDOW_SIZE c) (ml_step c) xs" and ?sl = "slides (WINDOW_SIZE c) (ml_step c) xs"
  have ok: "logger_ok c s" and r: "take ?i (lg_sampleBuf s) = ?r" using assms(2) by (simp_all add: rec_inv_def)
  have i: "?i < length (lg_sampleBuf s)" using ok by (simp add: logger_ok_iff)
  have len: "length ?r = ?i" using r i by (metis length_take min.absorb4)
  have st: "0 < WINDOW_SIZE c" "0 < ml_step c" "ml_step c \<le> WINDOW_SIZE c"
    using assms(1) by (auto simp: ml_ok_def ml_step_def)
  note snoc = slides_snoc [OF st, of xs ?x, unfolded len]
  have ok': "logger_ok c (appendSample c e p d s)" by (rule logger_ok_sample [OF assms(1) ok])
  show ?thesis
  proof (cases "?i + 1 = WINDOW_SIZE c")
    case False
    have "take (?i + 1) ((lg_sampleBuf s)[?i := ?x]) = take ?i (lg_sampleBuf s) @ [?x]"
      using i by (simp add: take_Suc_conv_app_nth)
    then have "rec_inv c view sid l d0 (xs @ [?x]) ws (appendSample c e p d s)"
      using assms(2) ok' snoc False r
      by (simp add: rec_inv_def sample_pending [OF assms(1) ok] session_data_def queued_def)
    then show ?thesis by blast
  next
    case True
    obtain t where t: "appendSample c e p d s = slide_buffer c (record_window c (se_fill2 e) t)"
      "lg_sampleBuf t = ?r @ [?x]"
      "lg_buffer_ok c t" "lg_state t = lg_state s" "lg_task t = lg_task s" "lg_queue t = lg_queue s"
      "lg_currentSessionId t = lg_currentSessionId s" "lg_currentWindowId t = lg_currentWindowId s"
      "lg_currentLabel t = lg_currentLabel s" "lg_dropCount t = lg_dropCount s" "lg_fs t = lg_fs s"
      "lg_spiffsMounted t = lg_spiffsMounted s" "lg_running t = lg_running s"
      using sample_completes [OF assms(1) ok True, of e p d] r by metis
    let ?w = "write_window c (se_fill2 e) t" and ?u = "record_window c (se_fill2 e) t"
    have sub: "subseq (map w_samples ws) ?sl" "length ws \<le> length ?sl"
      using assms(2) list_emb_length [of "(=)" "map w_samples ws" ?sl] by (simp_all add: rec_inv_def)
    have buf: "lg_sampleBuf ?u = ?r @ [?x]" using t(2) by (auto simp: record_window_def split: option.split)
    have res: "take (lg_sampleIndex (slide_buffer c ?u)) (lg_sampleBuf (slide_buffer c ?u)) = drop (ml_step c) (?r @ [?x])"
      using slide_buffer_residue [OF assms(1), of ?u] buf len True by simp
    have q: "queued s = queued (s\<lparr>lg_queue := lg_queue t\<rparr>)" using t(6) by simp
    show ?thesis
    proof (cases "queue_send c ?w (lg_queue t)")
      case None
      have "subseq (map w_samples ws) (?sl @ [?r @ [?x]])"
        using list_emb_append_mono [OF sub(1) list_emb_Nil] by simp
      then have "rec_inv c view sid l d0 (xs @ [?x]) ws (slide_buffer c ?u)"
        using assms(2) ok' snoc True res t None sub(2)
        by (simp add: rec_inv_def record_window_def session_data_def queued_def Suc_diff_le)
      then show ?thesis unfolding t(1) by blast
    next
      case (Some qs)
      have "subseq (map w_samples (ws @ [?w])) (?sl @ [?r @ [?x]])"
        using sub(1) t(2) by (simp add: list_emb_append_mono)
      moreover have "queued (t\<lparr>lg_queue := Some qs\<rparr>) = queued s @ [?w]"
        using queued_send [OF Some, of t] t(6) by (simp add: queued_def)
      moreover have "window_isValid c ?w" by (rule write_window_valid [OF assms(1)])
      ultimately have "rec_inv c view sid l d0 (xs @ [?x]) (ws @ [?w]) (slide_buffer c ?u)"
        using assms(2) ok' snoc True res t Some sub(2)
        by (auto simp: rec_inv_def record_window_def session_data_def queued_def rec_window_ok_def nth_append
            less_Suc_eq)
      then show ?thesis unfolding t(1) by blast
    qed
  qed
qed

lemma session_data_drained:
  "queued s = [] \<Longrightarrow> session_data view sid s = fs_contents (view (lg_fs s)) (buildSessionPath sid)"
  by (simp add: session_data_def)

lemma rec_inv_run:
  assumes "ml_ok c" "spiffs_reliable api view" "rec_inv c view sid l d0 xs ws s"
  shows "\<exists>ws'. rec_inv c view sid l d0 (xs @ rec_samples evs) ws' (foldl (rec_step c api) s evs)"
  using assms(3)
proof (induction evs arbitrary: s xs ws)
  case Nil
  then show ?case by (auto simp: rec_samples_def)
next
  case (Cons ev evs)
  have "\<exists>ws'. rec_inv c view sid l d0 (xs @ rec_sample ev) ws' (rec_step c api s ev)"
    using rec_inv_sample [OF assms(1) Cons.prems] rec_inv_task [OF assms(2) Cons.prems]
    by (cases ev) auto
  with Cons.IH show ?case by (fastforce simp: rec_samples_def)
qed

lemma rec_inv_start:
  assumes "ml_ok c" "spiffs_reliable api view" "logger_ok c s" "lg_task s" "lg_running s"
    "startSession api l s = (True, s1)" "lg_state s \<noteq> LS_RECORDING"
    "view (lg_fs s) (buildSessionPath (lg_nextSessionId s)) = None"
    "\<forall>w \<in> set (queued s). wh_sessionId (w_header w) \<noteq> lg_nextSessionId s"
  shows "rec_inv c view (lg_nextSessionId s) l (lg_dropCount s) [] [] s1"
proof -
  have m: "lg_spiffsMounted s" "lg_state s \<noteq> LS_ARMED" "l \<noteq> GL_INVALID"
    using assms(6,7) by (auto simp: startSession_def split: if_splits)
  obtain f where f: "sp_append api (lg_fs s) ''/ml_manifest.txt''
      (text_bytes (dec (unat (lg_nextSessionId s)) @ '','' @ gestureLabelToString l @ [CHR 0x0A])) =
      Some (length (text_bytes (dec (unat (lg_nextSessionId s)) @ '','' @ gestureLabelToString l @ [CHR 0x0A])), f)"
    "\<exists>bs. view f = (view (lg_fs s))(''/ml_manifest.txt'' \<mapsto> bs)"
    using spiffs_reliableD(3) [OF assms(2)] by metis
  have s1: "s1 = s\<lparr>lg_currentSessionId := lg_nextSessionId s, lg_nextSessionId := lg_nextSessionId s + 1,
      lg_currentWindowId := 0, lg_windowsWritten := 0, lg_currentLabel := l, lg_sampleIndex := 0,
      lg_fs := f, lg_state := LS_RECORDING\<rparr>"
    using assms(6,7) m f(1) by (simp add: startSession_def appendManifest_def Let_def)
  have ok: "logger_ok c s1"
    using logger_ok_start [OF assms(1,3), of api l] assms(6) by simp
  obtain bs where v: "view f = (view (lg_fs s))(''/ml_manifest.txt'' \<mapsto> bs)" using f(2) by blast
  have "session_data view (lg_nextSessionId s) s1 = []"
    using assms(8,9) v by (auto simp: s1 session_data_def queued_def fs_contents_def filter_empty_conv)
  moreover have "residue (WINDOW_SIZE c) (ml_step c) ([] :: sample_record list) = []"
    "slides (WINDOW_SIZE c) (ml_step c) ([] :: sample_record list) = []"
    using assms(1) by (subst residue.simps slides.simps, simp add: ml_ok_def)+
  ultimately show ?thesis using assms(4,5) ok by (simp add: rec_inv_def s1)
qed

lemma drain_queue:
  assumes "spiffs_reliable api view" "lg_task s" "lg_running s" "lg_spiffsMounted s" "length (queued s) \<le> n"
  shows "queued ((logger_step api ^^ n) s) = [] \<and>
    session_data view sid ((logger_step api ^^ n) s) = session_data view sid s"
  using assms(2-5)
proof (induction n arbitrary: s)
  case (Suc n)
  note k = logger_step_keeps [OF assms(1) Suc.prems(2,3)]
  have "length (queued (logger_step api s)) \<le> n" using Suc.prems(1,4) k by auto
  with Suc.IH [of "logger_step api s"] Suc.prems k session_data_step [OF assms(1) Suc.prems(2,3)]
  show ?case by (simp add: funpow_swap1)
qed simp

text \<open>
  C8: A recording session, with samples and turns of the logger task in any order: its file and its
  windows in the queue are together a sequence of valid windows with the label of the session
  and the numbers 0, 1, 2 and so on. Their samples are those overlapping windows of the sample stream
  since the start that were not dropped, in order; the drop counter has grown by the number of
  the others, so without drops they are exactly the reference windows. After the stop
  the task needs one turn per queued window to bring all of them into the file.
\<close>

theorem recorded_windows:
  assumes "ml_ok c" "spiffs_reliable api view" "logger_ok c s" "lg_task s" "lg_running s"
    "startSession api l s = (True, s1)" "lg_state s \<noteq> LS_RECORDING"
    "view (lg_fs s) (buildSessionPath (lg_nextSessionId s)) = None"
    "\<forall>w \<in> set (queued s). wh_sessionId (w_header w) \<noteq> lg_nextSessionId s"
  shows "let s2 = foldl (rec_step c api) s1 evs;
             reference = slides (WINDOW_SIZE c) (min (WINDOW_STRIDE c) (WINDOW_SIZE c)) (rec_samples evs);
             s3 = (logger_step api ^^ length (queued s2)) (snd (stopSession s2))
         in \<exists>ws. session_data view (lg_nextSessionId s) s2 = concat (map enc_window ws) \<and>
              fs_contents (view (lg_fs s3)) (buildSessionPath (lg_nextSessionId s)) = concat (map enc_window ws) \<and>
              subseq (map w_samples ws) reference \<and>
              lg_dropCount s2 = lg_dropCount s + word_of_nat (length reference - length ws) \<and>
              (\<forall>k < length ws. rec_window_ok c (lg_nextSessionId s) l k (ws ! k))"
proof -
  let ?sid = "lg_nextSessionId s" and ?s2 = "foldl (rec_step c api) s1 evs"
  obtain ws where ws: "rec_inv c view ?sid l (lg_dropCount s) (rec_samples evs) ws ?s2"
    using rec_inv_run [OF assms(1,2) rec_inv_start [OF assms], of evs] by auto
  let ?t = "snd (stopSession ?s2)"
  have t: "?t = ?s2\<lparr>lg_state := LS_IDLE\<rparr>" using ws by (simp add: stopSession_def rec_inv_def)
  have "lg_spiffsMounted ?s2" "lg_task ?s2" "lg_running ?s2"
    using ws by (simp_all add: rec_inv_def logger_ok_iff)
  then have d: "queued ((logger_step api ^^ length (queued ?s2)) ?t) = [] \<and>
      session_data view ?sid ((logger_step api ^^ length (queued ?s2)) ?t) = session_data view ?sid ?t"
    by (intro drain_queue [OF assms(2)]) (simp_all add: t queued_def)
  have "session_data view ?sid ?t = session_data view ?sid ?s2" by (simp add: t session_data_def queued_def)
  with d have "fs_contents (view (lg_fs ((logger_step api ^^ length (queued ?s2)) ?t))) (buildSessionPath ?sid) =
      session_data view ?sid ?s2"
    using session_data_drained [of "(logger_step api ^^ length (queued ?s2)) ?t" view ?sid] by simp
  then show ?thesis using ws unfolding Let_def rec_inv_def ml_step_def by auto
qed

definition demo_ml :: ml_cfg where
  "demo_ml = \<lparr>WINDOW_SIZE = 2, WINDOW_STRIDE = 1, WINDOW_MAGIC = 0x4D4C, WINDOW_VERSION = 1,
     LOGGER_QUEUE_DEPTH = 4, SAMPLING_PERIOD_MS = 20\<rparr>"

definition demo_logger :: "demo_fs logger" where
  "demo_logger = snd (logger_init alist_spiffs \<lparr>ie_mutex = True, ie_queue = True, ie_task = True\<rparr> (logger_new demo_ml []))"

lemma demo_ml_ok: "ml_ok demo_ml"
  by (simp add: ml_ok_def demo_ml_def)

lemma demo_logger_eq:
  "demo_logger = (logger_new demo_ml [])\<lparr>lg_mutex := True, lg_queue := Some [], lg_spiffsMounted := True,
     lg_nextSessionId := 1, lg_running := True, lg_task := True, lg_initialized := True\<rparr>"
  by (simp add: demo_logger_def logger_init_def Let_def mountSpiffs_def rebuildNextSessionId_def
      alist_spiffs_def logger_new_def)

lemma demo_logger_ok: "logger_ok demo_ml demo_logger"
  by (simp add: demo_logger_eq logger_ok_iff logger_new_def zero_samples_def demo_ml_def)

definition demo_samples :: "rec_event list" where
  "demo_samples =
     (let f = \<lparr>fe_uptime = 5, fe_tv_sec = 0, fe_thresholds = None, fe_sensitivity = None\<rparr>;
          e = \<lparr>se_uptime = 5, se_lock_free = True, se_fill = f, se_fill2 = f\<rparr>
      in [RE_sample e 10 20, RE_sample e 11 20, RE_task, RE_sample e 12 20])"

theorem recorded_windows_witness:
  "let s1 = snd (startSession alist_spiffs GL_HOVER demo_logger);
       s2 = foldl (rec_step demo_ml alist_spiffs) s1 demo_samples;
       s3 = (logger_step alist_spiffs ^^ length (queued s2)) (snd (stopSession s2));
       smp = (\<lambda>p. \<lparr>sr_proximity = p, sr_dt_ms = 20\<rparr>)
   in \<exists>ws. fs_contents (map_of (lg_fs s3)) ''/ml_s0001.bin'' = concat (map enc_window ws) \<and>
        subseq (map w_samples ws) [[smp 10, smp 11], [smp 11, smp 12]] \<and>
        lg_dropCount s2 = word_of_nat (2 - length ws)"
proof -
  have d: "lg_task demo_logger" "lg_running demo_logger" "lg_state demo_logger \<noteq> LS_RECORDING"
    "lg_nextSessionId demo_logger = 1" "lg_dropCount demo_logger = 0" "lg_fs demo_logger = []" "queued demo_logger = []"
    by (simp_all add: demo_logger_eq logger_new_def queued_def)
  have start: "startSession alist_spiffs GL_HOVER demo_logger =
      (True, snd (startSession alist_spiffs GL_HOVER demo_logger))"
    by (simp add: startSession_def demo_logger_eq logger_new_def Let_def)
  have zeros: "replicate 3 (CHR ''0'') = ''000''" by (simp add: numeral_3_eq_3)
  have path: "buildSessionPath 1 = ''/ml_s0001.bin''"
    by (simp add: buildSessionPath_def dec_pad_def dec.simps char_of_def bit_0 zeros)
  let ?smp = "\<lambda>p. \<lparr>sr_proximity = p, sr_dt_ms = 20\<rparr>"
  have samples: "rec_samples demo_samples = [?smp 10, ?smp 11, ?smp 12]"
    by (simp add: demo_samples_def rec_samples_def Let_def)
  have reference: "slides (WINDOW_SIZE demo_ml) (min (WINDOW_STRIDE demo_ml) (WINDOW_SIZE demo_ml))
      (rec_samples demo_samples) = [[?smp 10, ?smp 11], [?smp 11, ?smp 12]]"
    unfolding samples by (simp add: demo_ml_def slides.simps)
  have two: "length [[?smp 10, ?smp 11], [?smp 11, ?smp 12]] = 2" by simp
  have free: "map_of [] ''/ml_s0001.bin'' = None" "\<forall>w \<in> set []. wh_sessionId (w_header w) \<noteq> 1" by simp_all
  show ?thesis
    using recorded_windows [OF demo_ml_ok alist_spiffs_reliable demo_logger_ok d(1,2) start d(3), of demo_samples,
        unfolded reference d path Let_def two add_0, OF free]
    unfolding Let_def by blast
qed

section \<open>Identifiers of sessions\<close>

text \<open>
  The calls from a boot on, without deletion: \<open>init\<close> on a file system that is not mounted yet, and
  sessions as long as the 16-bit identifier has not wrapped around.
\<close>

inductive session_ev :: "ml_cfg \<Rightarrow> 'f spiffs_api \<Rightarrow> 'f logger \<Rightarrow> 'f logger \<Rightarrow> bool" for c api where
  SE_init: "\<not> lg_spiffsMounted s \<Longrightarrow> lg_nextSessionId (snd (logger_init api e s)) \<noteq> 0 \<Longrightarrow>
    session_ev c api s (snd (logger_init api e s))"
| SE_sample: "session_ev c api s (appendSample c e p d s)"
| SE_start: "lg_nextSessionId s \<noteq> - 1 \<Longrightarrow> session_ev c api s (snd (startSession api l s))"
| SE_stop: "session_ev c api s (snd (stopSession s))"
| SE_task: "session_ev c api s (logger_step api s)"
| SE_shutdown: "session_ev c api s (logger_shutdown api n s)"
| SE_boot: "session_ev c api s (setBootCount b s)"
| SE_flags: "session_ev c api s (setRuntimeFlags b s)"
| SE_handle: "session_ev c api s (setInferenceTaskHandle h s)"

text \<open>The identifiers in use: of the files, of the windows in the queue and of the session that records.\<close>

definition used_ids :: "('f \<Rightarrow> fs_view) \<Rightarrow> 'f logger \<Rightarrow> u16 set" where
  "used_ids view s = {i. view (lg_fs s) (buildSessionPath i) \<noteq> None} \<union>
     (\<lambda>w. wh_sessionId (w_header w)) ` set (queued s) \<union>
     (if lg_state s = LS_RECORDING then {lg_currentSessionId s} else {})"

definition ids_below :: "('f \<Rightarrow> fs_view) \<Rightarrow> 'f logger \<Rightarrow> bool" where
  "ids_below view s \<longleftrightarrow> (lg_spiffsMounted s \<longrightarrow> (\<forall>i \<in> used_ids view s. i < lg_nextSessionId s))"

lemma ids_below_mono:
  "ids_below view s \<Longrightarrow> used_ids view t \<subseteq> used_ids view s \<Longrightarrow> lg_nextSessionId t = lg_nextSessionId s \<Longrightarrow>
   lg_spiffsMounted t = lg_spiffsMounted s \<Longrightarrow> ids_below view t"
  by (auto simp: ids_below_def)

lemma processWrite_keeps [simp]:
  "lg_queue (processWrite api w s) = lg_queue s" "lg_nextSessionId (processWrite api w s) = lg_nextSessionId s"
  "lg_spiffsMounted (processWrite api w s) = lg_spiffsMounted s"
  "lg_currentSessionId (processWrite api w s) = lg_currentSessionId s"
  by (simp_all add: processWrite_def split: option.split)

lemma processWrite_recording:
  "lg_state (processWrite api w s) = LS_RECORDING \<Longrightarrow> lg_state s = LS_RECORDING"
  by (auto simp: processWrite_def split: option.splits if_splits)

lemma processWrite_files:
  "spiffs_ok api view \<Longrightarrow> view (lg_fs (processWrite api w s)) (buildSessionPath i) = Some bs \<Longrightarrow>
   i \<noteq> wh_sessionId (w_header w) \<Longrightarrow> \<exists>bs. view (lg_fs s) (buildSessionPath i) = Some bs"
  by (auto simp: processWrite_def dest: spiffs_okD(2) split: option.splits if_splits)

lemma ids_below_task:
  assumes "spiffs_ok api view" "ids_below view s"
  shows "ids_below view (logger_step api s)"
proof (cases "lg_task s \<and> queued s \<noteq> []")
  case True
  then obtain w ws where q: "lg_queue s = Some (w # ws)"
    by (cases "queued s") (auto simp: queued_def split: option.splits)
  then have step: "logger_step api s = processWrite api w (s\<lparr>lg_queue := Some ws\<rparr>)"
    using True by (simp add: logger_step_def)
  have "used_ids view (logger_step api s) \<subseteq> used_ids view s"
    using processWrite_recording [of api w "s\<lparr>lg_queue := Some ws\<rparr>"]
    by (auto simp: step q used_ids_def queued_def
        dest!: processWrite_files [OF assms(1), of w "s\<lparr>lg_queue := Some ws\<rparr>"])
  then show ?thesis using ids_below_mono [OF assms(2)] by (simp add: step)
next
  case False
  then have "logger_step api s = s \<or> logger_step api s = s\<lparr>lg_task := False\<rparr>"
    by (auto simp: logger_step_def queued_def split: option.splits list.splits)
  then show ?thesis using assms(2) ids_below_mono [OF assms(2), of "s\<lparr>lg_task := False\<rparr>"]
    by (auto simp: used_ids_def queued_def)
qed

lemma ids_below_start:
  assumes "spiffs_reliable api view" "ids_below view s" "lg_nextSessionId s \<noteq> - 1"
  shows "ids_below view (snd (startSession api l s))"
proof -
  obtain f bs where f: "sp_append api (lg_fs s) ''/ml_manifest.txt''
      (text_bytes (dec (unat (lg_nextSessionId s)) @ '','' @ gestureLabelToString l @ [CHR 0x0A])) =
      Some (length (text_bytes (dec (unat (lg_nextSessionId s)) @ '','' @ gestureLabelToString l @ [CHR 0x0A])), f)"
    "view f = (view (lg_fs s))(''/ml_manifest.txt'' \<mapsto> bs)"
    using spiffs_reliableD(3) [OF assms(1)] by metis
  have lt: "lg_nextSessionId s < lg_nextSessionId s + 1"
    using assms(3) less_inc by (metis word_order.not_eq_extremum)
  then have le: "i < lg_nextSessionId s + 1" if "i < lg_nextSessionId s" for i using that by simp
  show ?thesis
    using assms(2) f lt le
    by (auto simp: startSession_def appendManifest_def ids_below_def used_ids_def queued_def Let_def)
qed

lemma ids_below_init:
  assumes "spiffs_reliable api view" "ids_below view s" "\<not> lg_spiffsMounted s" "lg_state s \<noteq> LS_RECORDING"
    "lg_nextSessionId (snd (logger_init api e s)) \<noteq> 0"
  shows "ids_below view (snd (logger_init api e s))"
proof -
  obtain names where n: "sp_names api (lg_fs s) = Some names" "set names = dom (view (lg_fs s))"
    using spiffs_reliableD(5) [OF assms(1)] by blast
  let ?m = "foldl rebuild_step 0 names"
  have max: "i \<le> ?m" if "view (lg_fs s) (buildSessionPath i) \<noteq> None" for i
    by (rule rebuild_fold_ge) (use n(2) that in auto)
  have below: "i < ?m + 1" if "view (lg_fs s) (buildSessionPath i) \<noteq> None" "?m + 1 \<noteq> 0" for i
  proof -
    have "?m \<noteq> - 1" using that(2) by (metis add.left_inverse)
    then have "?m < ?m + 1" using less_inc by (metis word_order.not_eq_extremum)
    with max [OF that(1)] show ?thesis by simp
  qed
  show ?thesis
    using assms(2-5) n(1) below spiffs_reliableD(2) [OF assms(1)]
    by (auto simp: logger_init_def mountSpiffs_def rebuildNextSessionId_def Let_def ids_below_def used_ids_def
        queued_def split: if_splits)
qed

lemma ids_below_sample:
  assumes "ml_ok c" "logger_ok c s" "ids_below view s"
  shows "ids_below view (appendSample c e p d s)"
proof (cases "lg_sampleIndex s + 1 = WINDOW_SIZE c")
  case True
  obtain t where t: "appendSample c e p d s = slide_buffer c (record_window c (se_fill2 e) t)"
    "lg_state t = lg_state s" "lg_queue t = lg_queue s" "lg_currentSessionId t = lg_currentSessionId s"
    "lg_fs t = lg_fs s" "lg_nextSessionId t = lg_nextSessionId s" "lg_spiffsMounted t = lg_spiffsMounted s"
    using sample_completes [OF assms(1,2) True, of e p d] by metis
  have "used_ids view (appendSample c e p d s) \<subseteq> used_ids view s \<and>
    lg_nextSessionId (appendSample c e p d s) = lg_nextSessionId s \<and>
    lg_spiffsMounted (appendSample c e p d s) = lg_spiffsMounted s"
    unfolding t(1) using t(2-)
    by (auto simp: used_ids_def record_window_def queued_def queue_send_def split: option.splits if_splits)
  then show ?thesis using ids_below_mono [OF assms(3)] by blast
next
  case False
  show ?thesis unfolding sample_pending [OF assms(1,2) False]
    by (rule ids_below_mono [OF assms(3)]) (simp_all add: used_ids_def queued_def)
qed

lemma ids_below_shutdown:
  assumes "ids_below view s"
  shows "ids_below view (logger_shutdown api n s)"
proof (cases "lg_initialized s")
  case True
  have "\<not> lg_spiffsMounted (logger_shutdown api n s)"
    using True by (simp add: logger_shutdown_def Let_def unmountSpiffs_def)
  then show ?thesis by (simp add: ids_below_def)
next
  case False
  then show ?thesis using assms by (simp add: logger_shutdown_def)
qed

lemma session_ev_inv:
  assumes "ml_ok c" "spiffs_reliable api view" "session_ev c api s t" "logger_ok c s" "ids_below view s"
  shows "logger_ok c t \<and> ids_below view t"
  using assms(3)
proof cases
  case (SE_init e)
  have "lg_state s \<noteq> LS_RECORDING" using assms(4) SE_init(2) by (simp add: logger_ok_iff)
  with SE_init show ?thesis
    using ids_below_init [OF assms(2,5)] logger_ok_init [OF assms(4)] by simp
next
  case SE_sample
  then show ?thesis using ids_below_sample [OF assms(1,4,5)] logger_ok_sample [OF assms(1,4)] by simp
next
  case SE_start
  then show ?thesis using ids_below_start [OF assms(2,5)] logger_ok_start [OF assms(1,4)] by simp
next
  case SE_stop
  have "ids_below view t"
    unfolding SE_stop by (rule ids_below_mono [OF assms(5)]) (auto simp: stopSession_def used_ids_def queued_def)
  then show ?thesis using SE_stop logger_ok_stop [OF assms(4)] by simp
next
  case SE_task
  then show ?thesis
    using ids_below_task [OF spiffs_reliableD(1) [OF assms(2)] assms(5)] logger_ok_step [OF assms(4)] by simp
next
  case SE_shutdown
  then show ?thesis using ids_below_shutdown [OF assms(5)] logger_ok_shutdown [OF assms(4)] by simp
next
  case SE_boot
  have "ids_below view t"
    unfolding SE_boot by (rule ids_below_mono [OF assms(5)]) (auto simp: setBootCount_def used_ids_def queued_def)
  then show ?thesis using SE_boot logger_ok_more(4) [OF assms(4)] by simp
next
  case SE_flags
  have "ids_below view t"
    unfolding SE_flags by (rule ids_below_mono [OF assms(5)]) (auto simp: setRuntimeFlags_def used_ids_def queued_def)
  then show ?thesis using SE_flags logger_ok_more(5) [OF assms(4)] by simp
next
  case SE_handle
  have "ids_below view t"
    unfolding SE_handle
    by (rule ids_below_mono [OF assms(5)]) (auto simp: setInferenceTaskHandle_def used_ids_def queued_def)
  then show ?thesis using SE_handle logger_ok_more(6) [OF assms(4)] by simp
qed

lemma session_run_inv:
  assumes "ml_ok c" "spiffs_reliable api view" "(session_ev c api)\<^sup>*\<^sup>* (logger_new c f) s"
  shows "logger_ok c s \<and> ids_below view s"
  using assms(3)
proof (induction rule: rtranclp_induct)
  case base
  show ?case using logger_ok_new [OF assms(1)] by (simp add: ids_below_def logger_new_def)
next
  case (step s t)
  then show ?case using session_ev_inv [OF assms(1,2) step(2)] by blast
qed



section \<open>How recorded data gets lost or mixed\<close>

lemma remove_fold:
  assumes "spiffs_reliable api view"
  shows "view (foldl (remove_step api) f names) =
    (\<lambda>p. if take 4 p = ''/ml_'' \<and> p \<in> set names then None else view f p)"
proof (induction names arbitrary: f)
  case (Cons a names)
  have "view (remove_step api f a) = (\<lambda>p. if take 4 p = ''/ml_'' \<and> p = a then None else view f p)"
    using spiffs_okD(3) [OF spiffs_reliableD(1) [OF assms], of f a] spiffs_reliableD(4) [OF assms, of f a]
    by (cases "view f a") (auto simp: remove_step_def fun_eq_iff)
  then show ?case using Cons [of "remove_step api f a"] by (auto simp: fun_eq_iff)
qed simp

lemma deleteAll_reliable:
  assumes "spiffs_reliable api view" "lg_spiffsMounted s"
  obtains f where "deleteAll api s = (True, (snd (stopSession s))\<lparr>lg_fs := f, lg_nextSessionId := 1,
      lg_totalWindowsWritten := 0, lg_dropCount := 0\<rparr>)"
    "view f = (\<lambda>p. if take 4 p = ''/ml_'' then None else view (lg_fs s) p)"
proof -
  obtain names where n: "sp_names api (lg_fs s) = Some names" "set names = dom (view (lg_fs s))"
    using spiffs_reliableD(5) [OF assms(1)] by blast
  let ?f = "foldl (remove_step api) (lg_fs s) names"
  have "view ?f = (\<lambda>p. if take 4 p = ''/ml_'' then None else view (lg_fs s) p)"
    using n(2) by (auto simp: remove_fold [OF assms(1)] fun_eq_iff)
  moreover have "deleteAll api s = (True, (snd (stopSession s))\<lparr>lg_fs := ?f, lg_nextSessionId := 1,
      lg_totalWindowsWritten := 0, lg_dropCount := 0\<rparr>)"
    using n(1) assms(2) by (simp add: deleteAll_def stopSession_def Let_def)
  ultimately show ?thesis by (rule that [rotated])
qed

lemma startSession_reliable:
  assumes "spiffs_reliable api view" "lg_spiffsMounted s" "lg_state s \<noteq> LS_RECORDING" "lg_state s \<noteq> LS_ARMED"
    "l \<noteq> GL_INVALID"
  obtains f bs where "startSession api l s = (True, s\<lparr>lg_currentSessionId := lg_nextSessionId s,
      lg_nextSessionId := lg_nextSessionId s + 1, lg_currentWindowId := 0, lg_windowsWritten := 0,
      lg_currentLabel := l, lg_sampleIndex := 0, lg_fs := f, lg_state := LS_RECORDING\<rparr>)"
    "view f = (view (lg_fs s))(''/ml_manifest.txt'' \<mapsto> bs)"
proof -
  obtain f bs where f: "sp_append api (lg_fs s) ''/ml_manifest.txt''
      (text_bytes (dec (unat (lg_nextSessionId s)) @ '','' @ gestureLabelToString l @ [CHR 0x0A])) =
      Some (length (text_bytes (dec (unat (lg_nextSessionId s)) @ '','' @ gestureLabelToString l @ [CHR 0x0A])), f)"
    "view f = (view (lg_fs s))(''/ml_manifest.txt'' \<mapsto> bs)"
    using spiffs_reliableD(3) [OF assms(1)] by metis
  show ?thesis
    by (rule that [OF _ f(2)]) (use assms f(1) in \<open>simp add: startSession_def appendManifest_def Let_def\<close>)
qed

text \<open>
  Deletion resets the session counter but leaves the queue alone: the next session gets
  identifier 1, and a window of an earlier session 1 that was waiting in the queue becomes the
  beginning of its file.
\<close>

theorem delete_mixes_sessions:
  assumes "spiffs_reliable api view" "lg_task s" "lg_spiffsMounted s" "lg_queue s = Some (w # ws)"
    "wh_sessionId (w_header w) = 1" "l \<noteq> GL_INVALID"
  shows "let (deleted, s1) = deleteAll api s; (started, s2) = startSession api l s1; s3 = logger_step api s2
         in deleted \<and> started \<and> lg_currentSessionId s3 = 1 \<and>
            view (lg_fs s1) (buildSessionPath 1) = None \<and>
            view (lg_fs s3) (buildSessionPath 1) = Some (enc_window w)"
proof -
  obtain f where f: "deleteAll api s = (True, (snd (stopSession s))\<lparr>lg_fs := f, lg_nextSessionId := 1,
      lg_totalWindowsWritten := 0, lg_dropCount := 0\<rparr>)"
    "view f = (\<lambda>p. if take 4 p = ''/ml_'' then None else view (lg_fs s) p)"
    by (rule deleteAll_reliable [OF assms(1,3)])
  let ?s1 = "snd (deleteAll api s)"
  have s1: "lg_spiffsMounted ?s1" "lg_state ?s1 \<noteq> LS_RECORDING" "lg_state ?s1 \<noteq> LS_ARMED" "lg_task ?s1"
    "lg_queue ?s1 = Some (w # ws)" "lg_nextSessionId ?s1 = 1" "view (lg_fs ?s1) (buildSessionPath 1) = None"
    using assms(2-4) f by (auto simp: stopSession_def)
  obtain g bs where g: "startSession api l ?s1 = (True, ?s1\<lparr>lg_currentSessionId := lg_nextSessionId ?s1,
      lg_nextSessionId := lg_nextSessionId ?s1 + 1, lg_currentWindowId := 0, lg_windowsWritten := 0,
      lg_currentLabel := l, lg_sampleIndex := 0, lg_fs := g, lg_state := LS_RECORDING\<rparr>)"
    "view g = (view (lg_fs ?s1))(''/ml_manifest.txt'' \<mapsto> bs)"
    by (rule startSession_reliable [OF assms(1) s1(1-3) assms(6)])
  let ?s2 = "snd (startSession api l ?s1)"
  have s2: "lg_task ?s2" "lg_queue ?s2 = Some (w # ws)" "lg_spiffsMounted ?s2" "lg_currentSessionId ?s2 = 1"
    "fs_contents (view (lg_fs ?s2)) (buildSessionPath 1) = []"
    using g s1 by (simp_all add: fs_contents_def)
  obtain h where h: "logger_step api ?s2 = ?s2\<lparr>lg_queue := Some ws, lg_fs := h,
      lg_windowsWritten := lg_windowsWritten ?s2 + 1, lg_totalWindowsWritten := lg_totalWindowsWritten ?s2 + 1\<rparr>"
    "view h = (view (lg_fs ?s2))(buildSessionPath (wh_sessionId (w_header w)) \<mapsto>
       fs_contents (view (lg_fs ?s2)) (buildSessionPath (wh_sessionId (w_header w))) @ enc_window w)"
    by (rule logger_step_writes [OF assms(1) s2(1,2,3)])
  have "lg_currentSessionId (logger_step api ?s2) = 1"
    "view (lg_fs (logger_step api ?s2)) (buildSessionPath 1) = Some (enc_window w)"
    unfolding h(1) using h(2) s2(4,5) assms(5) by simp_all
  moreover have "fst (deleteAll api s)" "fst (startSession api l ?s1)" using f(1) g(1) by simp_all
  ultimately show ?thesis using s1(7) unfolding case_prod_beta Let_def by blast
qed

definition demo_window :: sample_window where
  "demo_window = \<lparr>w_header = zero_header\<lparr>wh_sessionId := 1\<rparr>, w_samples = zero_samples demo_ml\<rparr>"

theorem delete_mixes_sessions_witness:
  "let s = demo_logger\<lparr>lg_queue := Some [demo_window]\<rparr>;
       s2 = snd (startSession alist_spiffs GL_NOISE (snd (deleteAll alist_spiffs s)))
   in map_of (lg_fs (logger_step alist_spiffs s2)) (buildSessionPath 1) = Some (enc_window demo_window)"
  using delete_mixes_sessions [OF alist_spiffs_reliable, of "demo_logger\<lparr>lg_queue := Some [demo_window]\<rparr>"
      demo_window "[]" GL_NOISE]
  by (simp add: demo_logger_eq logger_new_def demo_window_def zero_header_def Let_def case_prod_beta)

text \<open>
  A write that stores only part of a window ends the recording but not the queue: the next
  window of the same session follows the fragment, so it no longer starts at a multiple of the
  window size and the file cannot be cut into windows again.
\<close>

theorem torn_write_misaligns:
  assumes "spiffs_ok api view" "lg_task s" "lg_spiffsMounted s" "lg_queue s = Some [v, w]"
    "wh_sessionId (w_header v) = sid" "wh_sessionId (w_header w) = sid"
    "sp_append api (lg_fs s) (buildSessionPath sid) (enc_window v) = Some (n, f)" "n \<noteq> length (enc_window v)"
    "sp_append api f (buildSessionPath sid) (enc_window w) = Some (length (enc_window w), g)"
  shows "let s2 = logger_step api (logger_step api s)
         in lg_state s2 = LS_ERROR \<and> n < length (enc_window v) \<and>
            fs_contents (view (lg_fs s2)) (buildSessionPath sid) =
              fs_contents (view (lg_fs s)) (buildSessionPath sid) @ take n (enc_window v) @ enc_window w"
proof -
  have n: "n < length (enc_window v)" using spiffs_okD(1) [OF assms(1,7)] assms(8) by simp
  have v: "view f = (view (lg_fs s))(buildSessionPath sid \<mapsto>
      fs_contents (view (lg_fs s)) (buildSessionPath sid) @ take n (enc_window v))"
    by (rule spiffs_okD(2) [OF assms(1,7)])
  have w: "view g = (view f)(buildSessionPath sid \<mapsto> fs_contents (view f) (buildSessionPath sid) @ enc_window w)"
    using spiffs_okD(2) [OF assms(1,9)] by simp
  have "logger_step api (logger_step api s) = s\<lparr>lg_queue := Some [], lg_fs := g, lg_state := LS_ERROR,
      lg_windowsWritten := lg_windowsWritten s + 1, lg_totalWindowsWritten := lg_totalWindowsWritten s + 1\<rparr>"
    using assms(2-9) by (simp add: logger_step_def processWrite_def)
  then show ?thesis using n v w by simp
qed

text \<open>
  Shutdown waits for the task for a limited time and then unmounts the file system; a window that
  is still in the queue then is taken out by the task but never written.
\<close>

theorem shutdown_loses_queue:
  assumes "lg_initialized s" "queued (logger_shutdown api turns s) \<noteq> []"
  shows "lg_fs ((logger_step api ^^ n) (logger_shutdown api turns s)) = lg_fs (logger_shutdown api turns s)"
proof -
  have "lg_fs ((logger_step api ^^ n) t) = lg_fs t \<and> \<not> lg_spiffsMounted ((logger_step api ^^ n) t)"
    if "\<not> lg_spiffsMounted t" for t
  proof (induction n)
    case (Suc n)
    have "lg_fs (logger_step api u) = lg_fs u \<and> \<not> lg_spiffsMounted (logger_step api u)"
      if "\<not> lg_spiffsMounted u" for u
      using that by (auto simp: logger_step_def processWrite_def split: option.split list.split)
    with Suc show ?case by simp
  qed (use that in simp)
  moreover have "\<not> lg_spiffsMounted (logger_shutdown api turns s)"
    using assms(1) by (simp add: logger_shutdown_def Let_def unmountSpiffs_def)
  ultimately show ?thesis by blast
qed

definition demo_sample_env :: sample_env where
  "demo_sample_env = (let fe = \<lparr>fe_uptime = 0, fe_tv_sec = 0, fe_thresholds = None, fe_sensitivity = None\<rparr>
     in \<lparr>se_uptime = 0, se_lock_free = True, se_fill = fe, se_fill2 = fe\<rparr>)"

theorem logger_well_formed_witness:
  "let s = appendSample demo_ml demo_sample_env 7 20 (appendSample demo_ml demo_sample_env 7 20 (snd (startSession alist_spiffs GL_IDLE demo_logger)))
   in lg_state s \<noteq> LS_ARMED \<and> lg_sampleIndex s < length (lg_sampleBuf s)"
proof -
  have i: "logger_ev demo_ml alist_spiffs (logger_new demo_ml []) demo_logger"
    unfolding demo_logger_def by (rule LE_init) simp
  have "(logger_ev demo_ml alist_spiffs)\<^sup>*\<^sup>* (logger_new demo_ml [])
      (appendSample demo_ml demo_sample_env 7 20 (appendSample demo_ml demo_sample_env 7 20 (snd (startSession alist_spiffs GL_IDLE demo_logger))))"
    by (meson i LE_start LE_sample rtranclp.rtrancl_into_rtrancl rtranclp.rtrancl_refl)
  from logger_well_formed [OF demo_ml_ok this] show ?thesis by (simp add: Let_def)
qed

end
