(* ===== verification/Fw_Personal.thy ===== *)
theory Fw_Personal
  imports Fw_Nvs Fw_Crc Fw_Logger
begin

text \<open>
  Calibration of the gesture recogniser to its user
  (\<open>src/src/Services/PersonalizationService.cpp\<close>): feature vectors of one gesture are summed up,
  their average becomes the prototype of its class, and the record of all prototypes is written
  to flash some time later by a worker task. Floating point numbers are their bit patterns, the
  arithmetic on them is the parameter \<open>cal_float_ops\<close>; the numbers of classes and features are those
  of \<open>InferenceService.h\<close>, which the asserted record size of 428 bytes confirms.
\<close>

section \<open>The stored record\<close>

definition NUM_CLASSES :: nat where "NUM_CLASSES = 9"
definition NUM_FEATURES :: nat where "NUM_FEATURES = 10"
definition CAL_SIZE :: nat where "CAL_SIZE = 428"

type_synonym f32 = u32
type_synonym f64 = "64 word"

record cal_float_ops =
  d_of_f :: "f32 \<Rightarrow> f64"
  d_add :: "f64 \<Rightarrow> f64 \<Rightarrow> f64"
  d_div :: "f64 \<Rightarrow> nat \<Rightarrow> f64"
  f_of_d :: "f64 \<Rightarrow> f32"
  f_positive :: "f32 \<Rightarrow> bool"

record cal_data =
  cd_version :: u8
  cd_numCalibratedClasses :: u8
  cd_reserved :: "u8 list"
  cd_baselineMean :: f32
  cd_baselineSigma :: f32
  cd_dynamicRange :: f32
  cd_prototypes :: "f32 list list"
  cd_biasOffsets :: "f32 list"
  cd_sampleCounts :: "u8 list"
  cd_reserved2 :: "u8 list"
  cd_crc32 :: u32

definition enc_cal_body :: "cal_data \<Rightarrow> bytes" where
  "enc_cal_body d =
     [cd_version d, cd_numCalibratedClasses d] @ cd_reserved d @
     le32 (cd_baselineMean d) @ le32 (cd_baselineSigma d) @ le32 (cd_dynamicRange d) @
     concat (map le32 (concat (cd_prototypes d))) @ concat (map le32 (cd_biasOffsets d)) @
     cd_sampleCounts d @ cd_reserved2 d"

definition enc_cal :: "cal_data \<Rightarrow> bytes" where
  "enc_cal d = enc_cal_body d @ le32 (cd_crc32 d)"

definition rd_at :: "bytes \<Rightarrow> nat \<Rightarrow> u32" where
  "rd_at b i = rd_le32 (b ! i) (b ! (i + 1)) (b ! (i + 2)) (b ! (i + 3))"

definition dec_cal :: "bytes \<Rightarrow> cal_data" where
  "dec_cal b = \<lparr>cd_version = b ! 0, cd_numCalibratedClasses = b ! 1, cd_reserved = take 2 (drop 2 b),
     cd_baselineMean = rd_at b 4, cd_baselineSigma = rd_at b 8, cd_dynamicRange = rd_at b 12,
     cd_prototypes = map (\<lambda>k. map (\<lambda>f. rd_at b (16 + 4 * (NUM_FEATURES * k + f))) [0..<NUM_FEATURES]) [0..<NUM_CLASSES],
     cd_biasOffsets = map (\<lambda>k. rd_at b (376 + 4 * k)) [0..<NUM_CLASSES],
     cd_sampleCounts = take NUM_CLASSES (drop 412 b),
     cd_reserved2 = take 3 (drop 421 b), cd_crc32 = rd_at b 424\<rparr>"

definition cal_ok :: "cal_data \<Rightarrow> bool" where
  "cal_ok d \<longleftrightarrow> length (cd_reserved d) = 2 \<and> length (cd_prototypes d) = NUM_CLASSES \<and>
     (\<forall>p \<in> set (cd_prototypes d). length p = NUM_FEATURES) \<and> length (cd_biasOffsets d) = NUM_CLASSES \<and>
     length (cd_sampleCounts d) = NUM_CLASSES \<and> length (cd_reserved2 d) = 3"

lemma rd_at_skip: "length p = k \<Longrightarrow> k \<le> i \<Longrightarrow> rd_at (p @ r) i = rd_at r (i - k)"
  by (auto simp: rd_at_def nth_append le_iff_add)

lemma rd_at_le32 [simp]: "rd_at (le32 x @ r) 0 = x"
  by (simp add: rd_at_def le32_def)

lemma length_le32s: "length (concat (map le32 xs)) = 4 * length xs"
  by (rule length_concat_map) simp

lemma rd_at_le32s: "i < length xs \<Longrightarrow> rd_at (concat (map le32 xs) @ r) (4 * i) = xs ! i"
proof (induction xs arbitrary: i)
  case (Cons x xs)
  then show ?case
    by (cases i) (simp_all add: rd_at_skip [of "le32 x" 4])
qed simp

lemma concat_nth_rows:
  "\<forall>p \<in> set ps. length p = m \<Longrightarrow> k < length ps \<Longrightarrow> f < m \<Longrightarrow> concat ps ! (m * k + f) = ps ! k ! f"
proof (induction ps arbitrary: k)
  case (Cons p ps)
  then show ?case by (cases k) (auto simp: nth_append)
qed simp

lemma length_concat_rows: "\<forall>p \<in> set ps. length p = m \<Longrightarrow> length (concat ps) = m * length ps"
  by (induction ps) auto

lemma length_enc_cal_body: "cal_ok d \<Longrightarrow> length (enc_cal_body d) = 424"
  using length_concat_rows [of "cd_prototypes d" NUM_FEATURES]
  by (simp add: enc_cal_body_def cal_ok_def length_le32s NUM_CLASSES_def NUM_FEATURES_def del: length_concat)

lemma length_enc_cal: "cal_ok d \<Longrightarrow> length (enc_cal d) = CAL_SIZE"
  by (simp add: enc_cal_def length_enc_cal_body CAL_SIZE_def)

text \<open>The record is read back from its bytes.\<close>

lemma dec_enc_cal:
  assumes "cal_ok d"
  shows "dec_cal (enc_cal d) = d"
proof -
  let ?ps = "concat (cd_prototypes d)" and ?bo = "cd_biasOffsets d"
  let ?tail2 = "cd_sampleCounts d @ cd_reserved2 d @ le32 (cd_crc32 d)"
  let ?tail1 = "concat (map le32 ?bo) @ ?tail2"
  let ?head = "[cd_version d, cd_numCalibratedClasses d] @ cd_reserved d"
  let ?base = "le32 (cd_baselineMean d) @ le32 (cd_baselineSigma d) @ le32 (cd_dynamicRange d)"
  have len: "length ?ps = 90" "length ?head = 4" "length ?base = 12" "length (concat (map le32 ?ps)) = 360"
    "length ?bo = 9" "length (concat (map le32 ?bo)) = 36" "length (cd_sampleCounts d) = 9"
    "length (cd_reserved2 d) = 3"
    using assms length_concat_rows [of "cd_prototypes d" NUM_FEATURES]
    by (simp_all add: cal_ok_def NUM_CLASSES_def NUM_FEATURES_def length_le32s del: length_concat)
  have e: "enc_cal d = ?head @ ?base @ concat (map le32 ?ps) @ ?tail1"
    by (simp add: enc_cal_def enc_cal_body_def)
  have at: "rd_at (enc_cal d) (16 + 4 * i) = ?ps ! i" if "i < 90" for i
    unfolding e using that len rd_at_le32s [of i ?ps ?tail1]
    by (simp add: rd_at_skip [of ?head 4] rd_at_skip [of ?base 12] del: append_assoc append.simps)
  have bias: "rd_at (enc_cal d) (376 + 4 * k) = ?bo ! k" if "k < 9" for k
    unfolding e using that len rd_at_le32s [of k ?bo ?tail2]
    by (simp add: rd_at_skip [of ?head 4] rd_at_skip [of ?base 12] rd_at_skip [of _ 360] del: append_assoc append.simps)
  have base_assoc: "?base @ r = le32 (cd_baselineMean d) @ (le32 (cd_baselineSigma d) @ (le32 (cd_dynamicRange d) @ r))" for r
    by simp
  have base: "rd_at (enc_cal d) 4 = cd_baselineMean d" "rd_at (enc_cal d) 8 = cd_baselineSigma d"
    "rd_at (enc_cal d) 12 = cd_dynamicRange d"
    unfolding e using len(2)
      rd_at_skip [of "le32 (cd_baselineMean d) @ le32 (cd_baselineSigma d)" 8]
    by (simp_all add: rd_at_skip [of ?head 4] rd_at_skip [of "le32 _" 4] base_assoc del: append.simps append_assoc)
  let ?pre = "?head @ ?base @ concat (map le32 ?ps) @ concat (map le32 ?bo)"
  have e2: "enc_cal d = ?pre @ ?tail2" by (simp add: e)
  have pre: "length ?pre = 412" using len by simp
  have counts: "drop 412 (enc_cal d) = ?tail2" unfolding e2 using pre by simp
  have "drop 421 (enc_cal d) = drop 9 (drop 412 (enc_cal d))" by simp
  then have res2: "take 3 (drop 421 (enc_cal d)) = cd_reserved2 d" using counts len by simp
  have "rd_at (enc_cal d) 424 = rd_at ?tail2 12" unfolding e2 using rd_at_skip [OF pre, of 424 ?tail2] by simp
  also have "\<dots> = cd_crc32 d"
    using len rd_at_skip [of "cd_sampleCounts d @ cd_reserved2 d" 12 12 "le32 (cd_crc32 d)"] rd_at_le32 [of _ "[]"]
    by simp
  finally have crc: "rd_at (enc_cal d) 424 = cd_crc32 d" .
  let ?row = "\<lambda>k. map (\<lambda>f. rd_at (enc_cal d) (16 + 4 * (NUM_FEATURES * k + f))) [0..<NUM_FEATURES]"
  have rows: "map ?row [0..<NUM_CLASSES] =
      cd_prototypes d"
  proof (rule nth_equalityI)
    show "length (map ?row [0..<NUM_CLASSES]) = length (cd_prototypes d)" using assms by (simp add: cal_ok_def)
  next
    fix k assume "k < length (map ?row [0..<NUM_CLASSES])"
    then have k: "k < NUM_CLASSES" by simp
    have "rd_at (enc_cal d) (16 + 4 * (NUM_FEATURES * k + f)) = cd_prototypes d ! k ! f" if "f < NUM_FEATURES" for f
    proof -
      have "NUM_FEATURES * k + f < 90" using k that by (simp add: NUM_FEATURES_def NUM_CLASSES_def)
      from at [OF this] concat_nth_rows [of "cd_prototypes d" NUM_FEATURES k f] that k assms
      show ?thesis by (simp add: cal_ok_def)
    qed
    moreover have "length (cd_prototypes d ! k) = NUM_FEATURES" using k assms by (simp add: cal_ok_def)
    ultimately have "?row k = cd_prototypes d ! k" by (intro nth_equalityI) simp_all
    then show "map ?row [0..<NUM_CLASSES] ! k = cd_prototypes d ! k" using k by simp
  qed
  have biases: "map (\<lambda>k. rd_at (enc_cal d) (376 + 4 * k)) [0..<NUM_CLASSES] = ?bo"
    using bias len by (intro nth_equalityI) (simp_all add: NUM_CLASSES_def)
  have first: "enc_cal d ! 0 = cd_version d" "enc_cal d ! 1 = cd_numCalibratedClasses d"
    "take 2 (drop 2 (enc_cal d)) = cd_reserved d"
    unfolding e using assms by (simp_all add: cal_ok_def)
  show ?thesis
    unfolding dec_cal_def base rows biases first counts res2 crc using len by (simp add: NUM_CLASSES_def)
qed

section \<open>State\<close>

text \<open>
  \<open>pe_timer\<close> says whether the one-shot commit timer runs, \<open>pe_notify\<close> holds the notification bits
  of the worker task that are not handled yet, \<open>pe_worker\<close> is the task handle, \<open>pe_task\<close> whether
  the task is alive. Flash, with the length query of \<open>Preferences\<close> beside \<open>prefs_api\<close>, is \<open>pe_nvs\<close>.
\<close>

record 'n cal_api =
  cal_prefs :: "'n prefs_api"
  p_getBytesLength :: "'n \<Rightarrow> string \<Rightarrow> string \<Rightarrow> nat"

record cal_cfg =
  CALIBRATION_VERSION :: u8
  MIN_CALIBRATION_WINDOWS :: nat
  MAX_CALIBRATION_WINDOWS :: nat
  CAL_NAMESPACE :: string
  CAL_KEY :: string

record capture_accum =
  ca_featureSum :: "f64 list"
  ca_count :: nat
  ca_label :: gesture_label

record notify_bits =
  NOTIFY_SAVE :: bool
  NOTIFY_SHUTDOWN :: bool

record 'n personal =
  pe_data :: cal_data
  pe_initialized :: bool
  pe_dirty :: bool
  pe_calibrating :: bool
  pe_accum :: capture_accum
  pe_snapshot :: cal_data
  pe_mutex :: bool
  pe_worker :: bool
  pe_workerRunning :: bool
  pe_task :: bool
  pe_hasTimer :: bool
  pe_timer :: bool
  pe_notify :: notify_bits
  pe_nvs :: 'n

definition cal_defaults :: "cal_cfg \<Rightarrow> cal_data" where
  "cal_defaults c = \<lparr>cd_version = CALIBRATION_VERSION c, cd_numCalibratedClasses = 0, cd_reserved = [0, 0],
     cd_baselineMean = 0, cd_baselineSigma = 0, cd_dynamicRange = 0,
     cd_prototypes = replicate NUM_CLASSES (replicate NUM_FEATURES 0),
     cd_biasOffsets = replicate NUM_CLASSES 0, cd_sampleCounts = replicate NUM_CLASSES 0,
     cd_reserved2 = [0, 0, 0], cd_crc32 = 0\<rparr>"

definition empty_accum :: capture_accum where
  "empty_accum = \<lparr>ca_featureSum = replicate NUM_FEATURES 0, ca_count = 0, ca_label = GL_INVALID\<rparr>"

definition resetDataToDefaults :: "cal_cfg \<Rightarrow> 'n personal \<Rightarrow> 'n personal" where
  "resetDataToDefaults c s = s\<lparr>pe_data := cal_defaults c\<rparr>"

definition publishSnapshot :: "'n personal \<Rightarrow> 'n personal" where
  "publishSnapshot s = s\<lparr>pe_snapshot := pe_data s\<rparr>"

definition personal_new :: "cal_cfg \<Rightarrow> 'n \<Rightarrow> 'n personal" where
  "personal_new c n = \<lparr>pe_data = cal_defaults c, pe_initialized = False, pe_dirty = False,
     pe_calibrating = False, pe_accum = empty_accum, pe_snapshot = cal_defaults c, pe_mutex = False,
     pe_worker = False, pe_workerRunning = False, pe_task = False, pe_hasTimer = False, pe_timer = False,
     pe_notify = \<lparr>NOTIFY_SAVE = False, NOTIFY_SHUTDOWN = False\<rparr>, pe_nvs = n\<rparr>"

section \<open>Flash\<close>

definition cal_calcCRC32 :: "bytes \<Rightarrow> u32" where
  "cal_calcCRC32 data = NOT (foldl crc32_byte 0xFFFFFFFF data)"

definition cal_calculateCrc :: "'n personal \<Rightarrow> u32" where
  "cal_calculateCrc s = cal_calcCRC32 (take (CAL_SIZE - 4) (enc_cal (pe_data s)))"

definition cal_readFromNvs :: "'n cal_api \<Rightarrow> cal_cfg \<Rightarrow> 'n personal \<Rightarrow> bool \<times> 'n personal" where
  "cal_readFromNvs api c s =
     (let n = pe_nvs s in
      if \<not> p_begin (cal_prefs api) n (CAL_NAMESPACE c) True then (False, s)
      else if p_getBytesLength api n (CAL_NAMESPACE c) (CAL_KEY c) \<noteq> CAL_SIZE then (False, s)
      else (let blob = p_getBytes (cal_prefs api) n (CAL_NAMESPACE c) (CAL_KEY c) CAL_SIZE; temp = dec_cal blob
            in if length blob \<noteq> CAL_SIZE then (False, s)
               else if cd_version temp \<noteq> CALIBRATION_VERSION c then (False, s)
               else if cd_crc32 temp \<noteq> cal_calcCRC32 (take (CAL_SIZE - 4) blob) then (False, s)
               else (True, s\<lparr>pe_data := temp\<rparr>)))"

definition cal_writeToNvs :: "'n cal_api \<Rightarrow> cal_cfg \<Rightarrow> 'n personal \<Rightarrow> bool \<times> 'n personal" where
  "cal_writeToNvs api c s =
     (let s = s\<lparr>pe_data := (pe_data s)\<lparr>cd_crc32 := cal_calculateCrc s\<rparr>\<rparr> in
      if \<not> p_begin (cal_prefs api) (pe_nvs s) (CAL_NAMESPACE c) False then (False, s)
      else (let (written, n) = p_putBytes (cal_prefs api) (pe_nvs s) (CAL_NAMESPACE c) (CAL_KEY c) (enc_cal (pe_data s));
                s = s\<lparr>pe_nvs := n\<rparr>
            in if written \<noteq> CAL_SIZE then (False, s) else (True, s\<lparr>pe_dirty := False\<rparr>)))"

text \<open>\<open>lock\<close> says whether the mutex is obtained within the time given.\<close>

definition cal_forceFlush :: "'n cal_api \<Rightarrow> cal_cfg \<Rightarrow> bool \<Rightarrow> 'n personal \<Rightarrow> bool \<times> 'n personal" where
  "cal_forceFlush api c lock s =
     (if \<not> pe_initialized s \<or> \<not> pe_dirty s then (True, s)
      else (let s = (if pe_hasTimer s then s\<lparr>pe_timer := False\<rparr> else s)
            in if pe_mutex s \<and> lock then cal_writeToNvs api c s else (False, s)))"

section \<open>Worker and timer\<close>

definition cal_timerCallback :: "'n personal \<Rightarrow> 'n personal" where
  "cal_timerCallback s =
     (if pe_timer s
      then (let s = s\<lparr>pe_timer := False\<rparr>
            in if pe_worker s then s\<lparr>pe_notify := (pe_notify s)\<lparr>NOTIFY_SAVE := True\<rparr>\<rparr> else s)
      else s)"

text \<open>
  One turn of the worker. \<open>waiting\<close> says that the task has passed the test of its loop before and
  now leaves the wait; otherwise the turn begins with that test.
\<close>

definition cal_worker_step :: "'n cal_api \<Rightarrow> cal_cfg \<Rightarrow> bool \<Rightarrow> bool \<Rightarrow> 'n personal \<Rightarrow> 'n personal" where
  "cal_worker_step api c waiting lock s =
     (if \<not> pe_task s then s
      else if \<not> waiting \<and> \<not> pe_workerRunning s then s\<lparr>pe_task := False\<rparr>
      else (let bits = pe_notify s;
                s = s\<lparr>pe_notify := \<lparr>NOTIFY_SAVE = False, NOTIFY_SHUTDOWN = False\<rparr>\<rparr>;
                s = (if NOTIFY_SAVE bits \<and> pe_mutex s \<and> lock then snd (cal_writeToNvs api c s) else s)
            in if NOTIFY_SHUTDOWN bits then s\<lparr>pe_task := False\<rparr> else s))"

section \<open>Start and end\<close>

definition personal_init :: "'n cal_api \<Rightarrow> cal_cfg \<Rightarrow> bool \<Rightarrow> bool \<Rightarrow> bool \<Rightarrow> 'n personal \<Rightarrow> bool \<times> 'n personal" where
  "personal_init api c mutex_ok timer_ok task_ok s =
     (if pe_initialized s then (True, s)
      else let s = s\<lparr>pe_mutex := mutex_ok\<rparr> in
      if \<not> mutex_ok then (False, s)
      else let s = s\<lparr>pe_hasTimer := timer_ok, pe_timer := False\<rparr> in
      if \<not> timer_ok then (False, s)
      else
        (let (loaded, s) = cal_readFromNvs api c s;
             s = (if loaded then publishSnapshot s else s);
             s = s\<lparr>pe_workerRunning := True\<rparr>
         in if \<not> task_ok then (False, s\<lparr>pe_workerRunning := False\<rparr>)
            else (True, s\<lparr>pe_worker := True, pe_task := True, pe_initialized := True,
                          pe_notify := \<lparr>NOTIFY_SAVE = False, NOTIFY_SHUTDOWN = False\<rparr>\<rparr>)))"

text \<open>\<open>turns\<close> are the turns that the worker makes during the wait, each with its position and the outcome of the lock.\<close>

definition personal_shutdown :: "'n cal_api \<Rightarrow> cal_cfg \<Rightarrow> bool \<Rightarrow> (bool \<times> bool) list \<Rightarrow> 'n personal \<Rightarrow> 'n personal" where
  "personal_shutdown api c lock turns s =
     (if \<not> pe_initialized s then s
      else let s = (if pe_dirty s then snd (cal_forceFlush api c lock s) else s);
               s = s\<lparr>pe_workerRunning := False\<rparr>;
               s = (if pe_worker s
                    then (foldl (\<lambda>s (waiting, l). cal_worker_step api c waiting l s)
                            (s\<lparr>pe_notify := (pe_notify s)\<lparr>NOTIFY_SHUTDOWN := True\<rparr>\<rparr>) turns)\<lparr>pe_worker := False\<rparr>
                    else s)
           in s\<lparr>pe_initialized := False\<rparr>)"

section \<open>Calibration\<close>

definition personal_startCalibration :: "'n personal \<Rightarrow> bool \<times> 'n personal" where
  "personal_startCalibration s =
     (if \<not> pe_initialized s then (False, s)
      else (True, s\<lparr>pe_accum := empty_accum, pe_calibrating := True\<rparr>))"

definition add_features :: "cal_float_ops \<Rightarrow> f32 list \<Rightarrow> f64 list \<Rightarrow> f64 list" where
  "add_features fo features sums = map (\<lambda>f. d_add fo (sums ! f) (d_of_f fo (features ! f))) [0..<NUM_FEATURES]"

definition captureWindow :: "cal_float_ops \<Rightarrow> cal_cfg \<Rightarrow> f32 list option \<Rightarrow> gesture_label \<Rightarrow> 'n personal \<Rightarrow> bool \<times> 'n personal" where
  "captureWindow fo c features label s =
     (case features of None \<Rightarrow> (False, s)
      | Some fs \<Rightarrow>
          if \<not> pe_calibrating s then (False, s)
          else if label = GL_INVALID \<or> label = GL_UNLABELED then (False, s)
          else if NUM_CLASSES \<le> unat (label_code label) then (False, s)
          else (let s = (if ca_label (pe_accum s) \<noteq> label
                         then s\<lparr>pe_accum := \<lparr>ca_featureSum = replicate NUM_FEATURES 0, ca_count = 0, ca_label = label\<rparr>\<rparr>
                         else s)
                in if MAX_CALIBRATION_WINDOWS c \<le> ca_count (pe_accum s) then (False, s)
                   else (True, s\<lparr>pe_accum := (pe_accum s)\<lparr>
                           ca_featureSum := add_features fo fs (ca_featureSum (pe_accum s)),
                           ca_count := (ca_count (pe_accum s) + 1) mod 65536\<rparr>\<rparr>)))"

definition count_calibrated :: "u8 list \<Rightarrow> u8" where
  "count_calibrated counts = word_of_nat (length (filter (\<lambda>k. 0 < k) counts))"

definition commitCalibration :: "cal_float_ops \<Rightarrow> cal_cfg \<Rightarrow> bool \<Rightarrow> 'n personal \<Rightarrow> bool \<times> 'n personal" where
  "commitCalibration fo c lock s =
     (let a = pe_accum s; classIdx = unat (label_code (ca_label a)); d = pe_data s in
      if \<not> pe_initialized s \<or> \<not> pe_calibrating s then (False, s)
      else if ca_count a < MIN_CALIBRATION_WINDOWS c then (False, s)
      else if NUM_CLASSES \<le> classIdx then (False, s)
      else if \<not> pe_mutex s \<or> \<not> lock then (False, s)
      else
        (let d = d\<lparr>cd_prototypes := (cd_prototypes d)[classIdx :=
                     map (\<lambda>f. f_of_d fo (d_div fo (ca_featureSum a ! f) (ca_count a))) [0..<NUM_FEATURES]],
                   cd_sampleCounts := (cd_sampleCounts d)[classIdx :=
                     if 255 < ca_count a then 255 else word_of_nat (ca_count a)]\<rparr>;
             d = d\<lparr>cd_numCalibratedClasses := count_calibrated (cd_sampleCounts d)\<rparr>;
             s = publishSnapshot (s\<lparr>pe_data := d, pe_dirty := True\<rparr>);
             s = (if pe_hasTimer s then s\<lparr>pe_timer := True\<rparr> else s)
         in (True, s\<lparr>pe_accum := empty_accum\<rparr>)))"

definition personal_resetCalibration :: "'n cal_api \<Rightarrow> cal_cfg \<Rightarrow> bool \<Rightarrow> bool \<Rightarrow> 'n personal \<Rightarrow> bool \<times> 'n personal" where
  "personal_resetCalibration api c lock lock2 s =
     (if \<not> pe_initialized s then (False, s)
      else if \<not> pe_mutex s \<or> \<not> lock then (False, s)
      else (let s = publishSnapshot ((resetDataToDefaults c s)\<lparr>pe_dirty := True, pe_calibrating := False\<rparr>)
            in (True, snd (cal_forceFlush api c lock2 s))))"

definition updateSensorBaseline :: "bool \<Rightarrow> f32 \<Rightarrow> f32 \<Rightarrow> f32 \<Rightarrow> 'n personal \<Rightarrow> 'n personal" where
  "updateSensorBaseline lock mean sigma dynamicRange s =
     (if \<not> pe_initialized s then s
      else if pe_mutex s \<and> lock
      then (let s = publishSnapshot (s\<lparr>pe_data := (pe_data s)\<lparr>cd_baselineMean := mean, cd_baselineSigma := sigma,
                        cd_dynamicRange := dynamicRange\<rparr>, pe_dirty := True\<rparr>)
            in if pe_hasTimer s then s\<lparr>pe_timer := True\<rparr> else s)
      else s)"

section \<open>Queries\<close>

text \<open>The recogniser reads the snapshot without taking the mutex.\<close>

definition isCalibrated :: "'n personal \<Rightarrow> bool" where
  "isCalibrated s \<longleftrightarrow> 0 < cd_numCalibratedClasses (pe_snapshot s)"

definition getAdaptationQuality :: "cal_cfg \<Rightarrow> 'n personal \<Rightarrow> u8" where
  "getAdaptationQuality c s =
     (if cd_numCalibratedClasses (pe_snapshot s) = 0 then 0
      else (let totalSamples = sum_list (map unat (cd_sampleCounts (pe_snapshot s))) mod 65536;
                maxTotal = (NUM_CLASSES * MAX_CALIBRATION_WINDOWS c) mod 65536;
                quality = (totalSamples * 100) div maxTotal mod 65536
            in if 100 < quality then 100 else word_of_nat quality))"

definition getBaselineParams :: "cal_float_ops \<Rightarrow> 'n personal \<Rightarrow> bool \<times> f32 \<times> f32 \<times> f32" where
  "getBaselineParams fo s =
     (let d = pe_snapshot s
      in (f_positive fo (cd_dynamicRange d), cd_baselineMean d, cd_baselineSigma d, cd_dynamicRange d))"

definition getPrototype :: "nat \<Rightarrow> 'n personal \<Rightarrow> f32 list option" where
  "getPrototype classIdx s =
     (if NUM_CLASSES \<le> classIdx then None
      else if cd_sampleCounts (pe_snapshot s) ! classIdx = 0 then None
      else Some (cd_prototypes (pe_snapshot s) ! classIdx))"

definition getBiasOffset :: "nat \<Rightarrow> 'n personal \<Rightarrow> f32" where
  "getBiasOffset classIdx s =
     (if NUM_CLASSES \<le> classIdx then 0 else cd_biasOffsets (pe_snapshot s) ! classIdx)"

section \<open>What a restart finds\<close>

text \<open>
  \<open>Preferences\<close> as documented: the length of a stored blob, and a namespace that holds something
  opens for reading.
\<close>

definition cal_api_ok :: "'n cal_api \<Rightarrow> ('n \<Rightarrow> nvs_view) \<Rightarrow> bool" where
  "cal_api_ok api view \<longleftrightarrow> prefs_ok (cal_prefs api) view \<and>
     (\<forall>n ns k. view n (ns, k) \<noteq> None \<longrightarrow> p_begin (cal_prefs api) n ns True) \<and>
     (\<forall>n ns k. p_getBytesLength api n ns k =
        (case view n (ns, k) of Some (VBlob b) \<Rightarrow> length b | _ \<Rightarrow> 0))"

text \<open>The record that the next start works with: the stored one if it is valid, else the defaults.\<close>

definition next_boot :: "'n cal_api \<Rightarrow> cal_cfg \<Rightarrow> 'n \<Rightarrow> cal_data" where
  "next_boot api c n = pe_data (snd (cal_readFromNvs api c (personal_new c n)))"

definition no_crc :: "cal_data \<Rightarrow> cal_data" where
  "no_crc d = d\<lparr>cd_crc32 := 0\<rparr>"

lemma no_crc_simps [simp]:
  "no_crc (d\<lparr>cd_crc32 := x\<rparr>) = no_crc d" "cd_version (no_crc d) = cd_version d"
  "cal_ok (d\<lparr>cd_crc32 := x\<rparr>) = cal_ok d" "cal_ok (no_crc d) = cal_ok d"
  "enc_cal_body (d\<lparr>cd_crc32 := x\<rparr>) = enc_cal_body d" "enc_cal_body (no_crc d) = enc_cal_body d"
  by (simp_all add: no_crc_def cal_ok_def enc_cal_body_def)

lemma no_crc_cong:
  assumes "no_crc d = no_crc e"
  shows "cd_version d = cd_version e" "cal_ok d = cal_ok e" "cd_sampleCounts d = cd_sampleCounts e"
    "cd_prototypes d = cd_prototypes e" "cd_biasOffsets d = cd_biasOffsets e"
    "cd_dynamicRange d = cd_dynamicRange e" "cd_numCalibratedClasses d = cd_numCalibratedClasses e"
  using assms by (cases d; cases e; simp add: no_crc_def cal_ok_def)+

lemma cal_ok_defaults: "cal_ok (cal_defaults c)"
  by (simp add: cal_ok_def cal_defaults_def)

lemma take_enc_cal: "cal_ok d \<Longrightarrow> take (CAL_SIZE - 4) (enc_cal d) = enc_cal_body d"
  by (simp add: enc_cal_def length_enc_cal_body CAL_SIZE_def)

lemma readFromNvs_indep:
  "cal_readFromNvs api c s = (fst (cal_readFromNvs api c (personal_new c (pe_nvs s))),
     if fst (cal_readFromNvs api c (personal_new c (pe_nvs s)))
     then s\<lparr>pe_data := next_boot api c (pe_nvs s)\<rparr> else s)"
  by (simp add: cal_readFromNvs_def next_boot_def personal_new_def Let_def)

lemma next_boot_none:
  "\<not> fst (cal_readFromNvs api c (personal_new c n)) \<Longrightarrow> next_boot api c n = cal_defaults c"
  unfolding next_boot_def cal_readFromNvs_def Let_def by (auto simp: personal_new_def split: if_splits)

lemma next_boot_version: "cd_version (next_boot api c n) = CALIBRATION_VERSION c"
  unfolding next_boot_def cal_readFromNvs_def Let_def
  by (auto simp: personal_new_def cal_defaults_def)

lemma cal_ok_dec: "length b = CAL_SIZE \<Longrightarrow> cal_ok (dec_cal b)"
  by (simp add: cal_ok_def dec_cal_def CAL_SIZE_def NUM_CLASSES_def)

lemma next_boot_ok: "cal_ok (next_boot api c n)"
  unfolding next_boot_def cal_readFromNvs_def Let_def
  by (auto simp: personal_new_def cal_ok_defaults cal_ok_dec)

section \<open>The invariant\<close>

text \<open>
  The snapshot is the data, the record is well formed and of the current version, and a service
  whose data is not marked dirty holds what the next start will load (a service that is not
  initialised may instead hold the defaults, before it has loaded anything).
\<close>

definition cal_inv :: "'n cal_api \<Rightarrow> cal_cfg \<Rightarrow> 'n personal \<Rightarrow> bool" where
  "cal_inv api c s \<longleftrightarrow> cal_ok (pe_data s) \<and> cd_version (pe_data s) = CALIBRATION_VERSION c \<and>
     no_crc (pe_snapshot s) = no_crc (pe_data s) \<and>
     (\<not> pe_dirty s \<longrightarrow> no_crc (next_boot api c (pe_nvs s)) = no_crc (pe_data s) \<or>
        \<not> pe_initialized s \<and> no_crc (pe_data s) = no_crc (cal_defaults c))"

lemma cal_inv_new: "cal_inv api c (personal_new c n)"
  by (simp add: cal_inv_def personal_new_def cal_ok_defaults) (simp add: cal_defaults_def)

lemma cal_inv_cong:
  assumes "cal_inv api c s" "pe_data t = pe_data s" "pe_snapshot t = pe_snapshot s" "pe_nvs t = pe_nvs s"
    "pe_dirty t = pe_dirty s" "pe_initialized t \<longrightarrow> pe_initialized s"
  shows "cal_inv api c t"
  using assms by (auto simp: cal_inv_def)

lemma next_boot_view:
  assumes "cal_api_ok api view"
  shows "next_boot api c n = (case view n (CAL_NAMESPACE c, CAL_KEY c) of
      Some (VBlob b) \<Rightarrow>
        if length b = CAL_SIZE \<and> cd_version (dec_cal b) = CALIBRATION_VERSION c \<and>
           cd_crc32 (dec_cal b) = cal_calcCRC32 (take (CAL_SIZE - 4) b) then dec_cal b else cal_defaults c
    | _ \<Rightarrow> cal_defaults c)"
proof (cases "view n (CAL_NAMESPACE c, CAL_KEY c)")
  case None
  then have "p_getBytesLength api n (CAL_NAMESPACE c) (CAL_KEY c) \<noteq> CAL_SIZE"
    using assms by (simp add: cal_api_ok_def CAL_SIZE_def)
  then show ?thesis using None by (simp add: next_boot_def cal_readFromNvs_def personal_new_def Let_def)
next
  case (Some v)
  have p: "prefs_ok (cal_prefs api) view" using assms by (simp add: cal_api_ok_def)
  have "p_begin (cal_prefs api) n (CAL_NAMESPACE c) True"
    using assms Some unfolding cal_api_ok_def by blast
  moreover have "p_getBytesLength api n (CAL_NAMESPACE c) (CAL_KEY c) = (case v of VBlob b \<Rightarrow> length b | _ \<Rightarrow> 0)"
    using assms Some by (simp add: cal_api_ok_def split: nvs_val.split)
  moreover have "CAL_SIZE \<noteq> 0" by (simp add: CAL_SIZE_def)
  ultimately show ?thesis
    using Some prefs_okD(7) [OF p, of n "CAL_NAMESPACE c" "CAL_KEY c" CAL_SIZE]
    by (auto simp: next_boot_def cal_readFromNvs_def personal_new_def Let_def split: nvs_val.split)
qed

lemma next_boot_cong:
  "cal_api_ok api view \<Longrightarrow> view n = view m \<Longrightarrow> next_boot api c n = next_boot api c m"
  by (simp add: next_boot_view)

text \<open>A record that is in flash with its checksum is what the next start works with.\<close>

lemma next_boot_stored:
  assumes "cal_api_ok api view"
    "view n (CAL_NAMESPACE c, CAL_KEY c) = Some (VBlob (enc_cal d))" "cal_ok d"
    "cd_version d = CALIBRATION_VERSION c" "cd_crc32 d = cal_calcCRC32 (enc_cal_body d)"
  shows "next_boot api c n = d"
  using assms(2,4,5) dec_enc_cal [OF assms(3)] take_enc_cal [OF assms(3)] length_enc_cal [OF assms(3)]
  by (simp add: next_boot_view [OF assms(1)])

text \<open>The three outcomes of a write: not opened, not stored, stored.\<close>

lemma writeToNvs_cases:
  assumes "cal_api_ok api view" "cal_ok (pe_data s)" "cd_version (pe_data s) = CALIBRATION_VERSION c"
  obtains (closed) "cal_writeToNvs api c s = (False, s\<lparr>pe_data := (pe_data s)\<lparr>cd_crc32 := cal_calculateCrc s\<rparr>\<rparr>)"
      "\<not> p_begin (cal_prefs api) (pe_nvs s) (CAL_NAMESPACE c) False"
  | (full) n where "cal_writeToNvs api c s =
        (False, s\<lparr>pe_data := (pe_data s)\<lparr>cd_crc32 := cal_calculateCrc s\<rparr>, pe_nvs := n\<rparr>)" "view n = view (pe_nvs s)"
      "fst (p_putBytes (cal_prefs api) (pe_nvs s) (CAL_NAMESPACE c) (CAL_KEY c)
         (enc_cal ((pe_data s)\<lparr>cd_crc32 := cal_calculateCrc s\<rparr>))) = 0"
  | (stored) n where "cal_writeToNvs api c s =
        (True, s\<lparr>pe_data := (pe_data s)\<lparr>cd_crc32 := cal_calculateCrc s\<rparr>, pe_nvs := n, pe_dirty := False\<rparr>)"
      "next_boot api c n = (pe_data s)\<lparr>cd_crc32 := cal_calculateCrc s\<rparr>"
proof (cases "p_begin (cal_prefs api) (pe_nvs s) (CAL_NAMESPACE c) False")
  case True
  let ?d = "(pe_data s)\<lparr>cd_crc32 := cal_calculateCrc s\<rparr>"
  have p: "prefs_ok (cal_prefs api) view" using assms(1) by (simp add: cal_api_ok_def)
  obtain k n where put: "p_putBytes (cal_prefs api) (pe_nvs s) (CAL_NAMESPACE c) (CAL_KEY c) (enc_cal ?d) = (k, n)"
    by (cases "p_putBytes (cal_prefs api) (pe_nvs s) (CAL_NAMESPACE c) (CAL_KEY c) (enc_cal ?d)")
  have ok: "cal_ok ?d" using assms(2) by simp
  have len: "length (enc_cal ?d) = CAL_SIZE" by (rule length_enc_cal [OF ok])
  have pos: "CAL_SIZE \<noteq> 0" by (simp add: CAL_SIZE_def)
  consider "k = CAL_SIZE" "view n = (view (pe_nvs s))((CAL_NAMESPACE c, CAL_KEY c) \<mapsto> VBlob (enc_cal ?d))"
    | "k = 0" "view n = view (pe_nvs s)"
    using prefs_okD(4) [OF p, of "pe_nvs s" "CAL_NAMESPACE c" "CAL_KEY c" "enc_cal ?d"] put len
    by (auto simp: put_ok_def)
  then show ?thesis
  proof cases
    case 1
    have "cd_crc32 ?d = cal_calcCRC32 (enc_cal_body ?d)"
      using assms(2) by (simp add: cal_calculateCrc_def take_enc_cal)
    then have "next_boot api c n = ?d"
      using next_boot_stored [OF assms(1), of n c ?d] 1(2) assms(2,3) by simp
    moreover have "cal_writeToNvs api c s = (True, s\<lparr>pe_data := ?d, pe_nvs := n, pe_dirty := False\<rparr>)"
      using True put 1(1) by (simp add: cal_writeToNvs_def Let_def)
    ultimately show ?thesis by (rule stored [rotated])
  next
    case 2
    have "cal_writeToNvs api c s = (False, s\<lparr>pe_data := ?d, pe_nvs := n\<rparr>)"
      using True put 2(1) pos by (simp add: cal_writeToNvs_def Let_def)
    moreover have "fst (p_putBytes (cal_prefs api) (pe_nvs s) (CAL_NAMESPACE c) (CAL_KEY c) (enc_cal ?d)) = 0"
      using put 2(1) by simp
    ultimately show ?thesis using 2(2) by (intro full)
  qed
next
  case False
  then show ?thesis using closed by (simp add: cal_writeToNvs_def Let_def)
qed


lemma cal_inv_write:
  assumes "cal_api_ok api view" "cal_inv api c s"
  shows "cal_inv api c (snd (cal_writeToNvs api c s))"
proof -
  have ok: "cal_ok (pe_data s)" "cd_version (pe_data s) = CALIBRATION_VERSION c"
    using assms(2) by (simp_all add: cal_inv_def)
  have nb: "\<not> pe_dirty s \<longrightarrow> no_crc (next_boot api c (pe_nvs s)) = no_crc (pe_data s) \<or>
      \<not> pe_initialized s \<and> no_crc (pe_data s) = no_crc (cal_defaults c)" using assms(2) by (simp add: cal_inv_def)
  from assms(1) ok show ?thesis
  proof (cases rule: writeToNvs_cases)
    case closed
    then show ?thesis using assms(2) by (simp add: cal_inv_def)
  next
    case (full n)
    then show ?thesis using assms(2) next_boot_cong [OF assms(1) full(2)] by (simp add: cal_inv_def)
  next
    case (stored n)
    then show ?thesis using assms(2) by (simp add: cal_inv_def)
  qed
qed

lemma cal_inv_flush:
  assumes "cal_api_ok api view" "cal_inv api c s"
  shows "cal_inv api c (snd (cal_forceFlush api c lock s))"
proof -
  have "cal_inv api c (s\<lparr>pe_timer := t\<rparr>)" for t by (rule cal_inv_cong [OF assms(2)]) simp_all
  then show ?thesis using assms(2) by (auto simp: cal_forceFlush_def Let_def intro: cal_inv_write [OF assms(1)])
qed

lemma cal_inv_timer: "cal_inv api c s \<Longrightarrow> cal_inv api c (cal_timerCallback s)"
  by (auto simp: cal_timerCallback_def Let_def cal_inv_def)

lemma cal_inv_worker:
  assumes "cal_api_ok api view" "cal_inv api c s"
  shows "cal_inv api c (cal_worker_step api c waiting lock s)"
proof -
  let ?t = "s\<lparr>pe_notify := \<lparr>NOTIFY_SAVE = False, NOTIFY_SHUTDOWN = False\<rparr>\<rparr>"
  have t: "cal_inv api c ?t" by (rule cal_inv_cong [OF assms(2)]) simp_all
  have kill: "cal_inv api c (u\<lparr>pe_task := b\<rparr>)" if "cal_inv api c u" for u b
    by (rule cal_inv_cong [OF that]) simp_all
  show ?thesis
    using assms(2) t kill cal_inv_write [OF assms(1) t] by (auto simp: cal_worker_step_def Let_def)
qed

lemma cal_inv_init:
  assumes "cal_inv api c s"
  shows "cal_inv api c (snd (personal_init api c m t k s))"
proof (cases "pe_initialized s")
  case False
  let ?r = "fst (cal_readFromNvs api c (personal_new c (pe_nvs s)))"
  note r = readFromNvs_indep [of api c]
  show ?thesis
  proof (cases ?r)
    case True
    then show ?thesis
      using assms False r [of "s\<lparr>pe_mutex := True, pe_hasTimer := True, pe_timer := False\<rparr>"]
        next_boot_ok [of api c "pe_nvs s"] next_boot_version [of api c "pe_nvs s"]
      by (auto simp: personal_init_def cal_inv_def publishSnapshot_def Let_def case_prod_beta)
  next
    case none: False
    then show ?thesis
      using assms False r [of "s\<lparr>pe_mutex := True, pe_hasTimer := True, pe_timer := False\<rparr>"]
        next_boot_none [OF none]
      by (auto simp: personal_init_def cal_inv_def Let_def case_prod_beta)
  qed
qed (use assms in \<open>simp add: personal_init_def\<close>)

lemma cal_inv_shutdown:
  assumes "cal_api_ok api view" "cal_inv api c s"
  shows "cal_inv api c (personal_shutdown api c lock turns s)"
proof -
  have fold: "cal_inv api c (foldl (\<lambda>s (w, l). cal_worker_step api c w l s) u turns)" if "cal_inv api c u" for u
    using that by (induction turns arbitrary: u) (auto intro: cal_inv_worker [OF assms(1)])
  have upd: "cal_inv api c (u\<lparr>pe_notify := b\<rparr>)" "cal_inv api c (u\<lparr>pe_worker := w\<rparr>)"
    "cal_inv api c (u\<lparr>pe_workerRunning := w\<rparr>)" "cal_inv api c (u\<lparr>pe_initialized := False\<rparr>)"
    if "cal_inv api c u" for u b w
    by (rule cal_inv_cong [OF that]; simp)+
  show ?thesis
    using assms(2) by (auto simp: personal_shutdown_def Let_def intro!: upd fold cal_inv_flush [OF assms(1)])
qed

lemma cal_inv_change:
  assumes "cal_inv api c s" "cal_ok d" "cd_version d = cd_version (pe_data s)"
  shows "cal_inv api c (publishSnapshot (s\<lparr>pe_data := d, pe_dirty := True\<rparr>))"
  using assms by (simp add: cal_inv_def publishSnapshot_def)

lemma cal_inv_capture: "cal_inv api c s \<Longrightarrow> cal_inv api c (snd (captureWindow fo c fs l s))"
  by (auto simp: captureWindow_def Let_def cal_inv_def split: option.split)

lemma cal_inv_startCal: "cal_inv api c s \<Longrightarrow> cal_inv api c (snd (personal_startCalibration s))"
  by (auto simp: personal_startCalibration_def cal_inv_def)

lemma cal_inv_baseline: "cal_inv api c s \<Longrightarrow> cal_inv api c (updateSensorBaseline lock m sg r s)"
  by (auto simp: updateSensorBaseline_def Let_def cal_inv_def publishSnapshot_def cal_ok_def)

definition prototype_data :: "cal_float_ops \<Rightarrow> capture_accum \<Rightarrow> cal_data \<Rightarrow> cal_data" where
  "prototype_data fo a d =
     (let classIdx = unat (label_code (ca_label a));
          d = d\<lparr>cd_prototypes := (cd_prototypes d)[classIdx :=
                  map (\<lambda>f. f_of_d fo (d_div fo (ca_featureSum a ! f) (ca_count a))) [0..<NUM_FEATURES]],
                cd_sampleCounts := (cd_sampleCounts d)[classIdx :=
                  if 255 < ca_count a then 255 else word_of_nat (ca_count a)]\<rparr>
      in d\<lparr>cd_numCalibratedClasses := count_calibrated (cd_sampleCounts d)\<rparr>)"

lemma commitCalibration_eq:
  "commitCalibration fo c lock s =
     (if pe_initialized s \<and> pe_calibrating s \<and> MIN_CALIBRATION_WINDOWS c \<le> ca_count (pe_accum s) \<and>
         unat (label_code (ca_label (pe_accum s))) < NUM_CLASSES \<and> pe_mutex s \<and> lock
      then (True, (publishSnapshot (s\<lparr>pe_data := prototype_data fo (pe_accum s) (pe_data s), pe_dirty := True\<rparr>))
              \<lparr>pe_timer := (pe_hasTimer s \<or> pe_timer s), pe_accum := empty_accum\<rparr>)
      else (False, s))"
  by (cases "pe_hasTimer s")
    (simp_all add: commitCalibration_def prototype_data_def publishSnapshot_def Let_def not_less not_le)

lemma cal_ok_prototype_data:
  assumes "cal_ok d"
  shows "cal_ok (prototype_data fo a d)" "cd_version (prototype_data fo a d) = cd_version d"
proof -
  have "\<forall>p \<in> set ((cd_prototypes d)[k := map g [0..<NUM_FEATURES]]). length p = NUM_FEATURES"
    for k and g :: "nat \<Rightarrow> f32"
    using assms set_update_subset_insert [of "cd_prototypes d" k "map g [0..<NUM_FEATURES]"]
    by (auto simp: cal_ok_def)
  then show "cal_ok (prototype_data fo a d)" using assms by (simp add: prototype_data_def Let_def cal_ok_def)
  show "cd_version (prototype_data fo a d) = cd_version d" by (simp add: prototype_data_def Let_def)
qed

lemma cal_inv_commit:
  assumes "cal_inv api c s"
  shows "cal_inv api c (snd (commitCalibration fo c lock s))"
proof -
  have d: "cal_ok (pe_data s)" using assms by (simp add: cal_inv_def)
  have "cal_inv api c (u\<lparr>pe_timer := t, pe_accum := a\<rparr>)" if "cal_inv api c u" for u t a
    by (rule cal_inv_cong [OF that]) simp_all
  with cal_inv_change [OF assms cal_ok_prototype_data [OF d]] assms
  show ?thesis by (simp add: commitCalibration_eq)
qed

lemma cal_inv_reset:
  assumes "cal_api_ok api view" "cal_inv api c s"
  shows "cal_inv api c (snd (personal_resetCalibration api c lock lock2 s))"
proof -
  have "cal_inv api c (publishSnapshot ((resetDataToDefaults c s)\<lparr>pe_dirty := True, pe_calibrating := False\<rparr>))"
    using assms(2) by (simp add: cal_inv_def publishSnapshot_def resetDataToDefaults_def cal_ok_defaults)
      (simp add: cal_defaults_def)
  from cal_inv_flush [OF assms(1) this] show ?thesis
    using assms(2) by (simp add: personal_resetCalibration_def Let_def)
qed

inductive cal_ev :: "cal_float_ops \<Rightarrow> 'n cal_api \<Rightarrow> cal_cfg \<Rightarrow> 'n personal \<Rightarrow> 'n personal \<Rightarrow> bool" for fo api c where
  CE_init: "cal_ev fo api c s (snd (personal_init api c m t k s))"
| CE_shutdown: "cal_ev fo api c s (personal_shutdown api c lock turns s)"
| CE_start: "cal_ev fo api c s (snd (personal_startCalibration s))"
| CE_capture: "cal_ev fo api c s (snd (captureWindow fo c fs l s))"
| CE_commit: "cal_ev fo api c s (snd (commitCalibration fo c lock s))"
| CE_reset: "cal_ev fo api c s (snd (personal_resetCalibration api c lock lock2 s))"
| CE_baseline: "cal_ev fo api c s (updateSensorBaseline lock mean sigma dyn s)"
| CE_flush: "cal_ev fo api c s (snd (cal_forceFlush api c lock s))"
| CE_timer: "cal_ev fo api c s (cal_timerCallback s)"
| CE_worker: "cal_ev fo api c s (cal_worker_step api c waiting lock s)"

lemma cal_ev_inv:
  assumes "cal_api_ok api view" "cal_ev fo api c s t" "cal_inv api c s"
  shows "cal_inv api c t"
  using assms(2,3)
  by (induction rule: cal_ev.induct)
    (simp_all add: cal_inv_init cal_inv_shutdown [OF assms(1)] cal_inv_startCal cal_inv_capture cal_inv_commit
      cal_inv_reset [OF assms(1)] cal_inv_baseline cal_inv_flush [OF assms(1)] cal_inv_timer cal_inv_worker [OF assms(1)])

text \<open>
  C16: Whatever flash does and whoever holds the mutex, in any order of calls, expiries of the timer and
  turns of the worker: the recogniser sees the current calibration, and an initialised service
  that does not count its calibration as unsaved has it in flash, where the next start finds it.
\<close>

theorem calibration_tracked:
  assumes "cal_api_ok api view" "(cal_ev fo api c)\<^sup>*\<^sup>* (personal_new c n) s"
  shows "no_crc (pe_snapshot s) = no_crc (pe_data s) \<and>
    (pe_initialized s \<and> \<not> pe_dirty s \<longrightarrow> no_crc (next_boot api c (pe_nvs s)) = no_crc (pe_data s))"
proof -
  have "cal_inv api c s"
    using assms(2) by (induction rule: rtranclp_induct) (auto intro: cal_inv_new cal_ev_inv [OF assms(1)])
  then show ?thesis by (auto simp: cal_inv_def)
qed

section \<open>From captured windows to the next start\<close>

definition cal_reliable :: "'n cal_api \<Rightarrow> ('n \<Rightarrow> nvs_view) \<Rightarrow> bool" where
  "cal_reliable api view \<longleftrightarrow> cal_api_ok api view \<and> prefs_reliable (cal_prefs api) view"

lemma writeToNvs_reliable:
  assumes "cal_reliable api view" "cal_ok (pe_data s)" "cd_version (pe_data s) = CALIBRATION_VERSION c"
  obtains n where "cal_writeToNvs api c s =
      (True, s\<lparr>pe_data := (pe_data s)\<lparr>cd_crc32 := cal_calculateCrc s\<rparr>, pe_nvs := n, pe_dirty := False\<rparr>)"
    "next_boot api c n = (pe_data s)\<lparr>cd_crc32 := cal_calculateCrc s\<rparr>"
proof -
  let ?b = "enc_cal ((pe_data s)\<lparr>cd_crc32 := cal_calculateCrc s\<rparr>)"
  have ok: "cal_api_ok api view" and rel: "prefs_reliable (cal_prefs api) view"
    using assms(1) by (simp_all add: cal_reliable_def)
  have b: "?b \<noteq> []" using length_enc_cal [of "(pe_data s)\<lparr>cd_crc32 := cal_calculateCrc s\<rparr>"] assms(2)
    by (auto simp: CAL_SIZE_def)
  from ok assms(2,3) show ?thesis
  proof (cases rule: writeToNvs_cases)
    case closed
    then show ?thesis using prefs_reliableD(2) [OF rel] by simp
  next
    case (full n)
    then show ?thesis using prefs_reliableD(5) [OF rel b] b by auto
  next
    case (stored n)
    then show ?thesis by (rule that)
  qed
qed

text \<open>The sum that capturing builds up, feature by feature, in double precision.\<close>

definition feature_sums :: "cal_float_ops \<Rightarrow> f32 list list \<Rightarrow> f64 list" where
  "feature_sums fo fss = map (\<lambda>f. foldl (\<lambda>a fs. d_add fo a (d_of_f fo (fs ! f))) 0 fss) [0..<NUM_FEATURES]"

definition prototype_of :: "cal_float_ops \<Rightarrow> f32 list list \<Rightarrow> f32 list" where
  "prototype_of fo fss = map (\<lambda>f. f_of_d fo (d_div fo (feature_sums fo fss ! f) (length fss))) [0..<NUM_FEATURES]"

definition capture_all :: "cal_float_ops \<Rightarrow> cal_cfg \<Rightarrow> gesture_label \<Rightarrow> f32 list list \<Rightarrow> 'n personal \<Rightarrow> 'n personal" where
  "capture_all fo c l fss s = foldl (\<lambda>s fs. snd (captureWindow fo c (Some fs) l s)) s fss"

lemma feature_sums_snoc:
  "feature_sums fo (fss @ [fs]) = add_features fo fs (feature_sums fo fss)"
  by (simp add: feature_sums_def add_features_def)

lemma label_codes_valid:
  "unat (label_code l) < NUM_CLASSES \<Longrightarrow> l \<noteq> GL_INVALID \<and> l \<noteq> GL_UNLABELED"
  by (auto simp: NUM_CLASSES_def)

lemma capture_first:
  assumes "pe_calibrating s" "unat (label_code l) < NUM_CLASSES" "ca_label (pe_accum s) \<noteq> l"
    "0 < MAX_CALIBRATION_WINDOWS c"
  shows "snd (captureWindow fo c (Some fs) l s) =
    s\<lparr>pe_accum := \<lparr>ca_featureSum = feature_sums fo [fs], ca_count = 1, ca_label = l\<rparr>\<rparr>"
  using assms label_codes_valid [OF assms(2)]
  by (simp add: captureWindow_def Let_def feature_sums_def add_features_def not_le)

lemma capture_next:
  assumes "pe_calibrating s" "unat (label_code l) < NUM_CLASSES"
    "pe_accum s = \<lparr>ca_featureSum = feature_sums fo fss, ca_count = length fss, ca_label = l\<rparr>"
    "length fss < MAX_CALIBRATION_WINDOWS c" "MAX_CALIBRATION_WINDOWS c < 65536"
  shows "snd (captureWindow fo c (Some fs) l s) =
    s\<lparr>pe_accum := \<lparr>ca_featureSum = feature_sums fo (fss @ [fs]), ca_count = length (fss @ [fs]), ca_label = l\<rparr>\<rparr>"
  using assms label_codes_valid [OF assms(2)]
  by (simp add: captureWindow_def Let_def feature_sums_snoc not_le)

lemma capture_all_sums:
  assumes "pe_calibrating s" "unat (label_code l) < NUM_CLASSES" "ca_label (pe_accum s) \<noteq> l"
    "fss \<noteq> []" "length fss \<le> MAX_CALIBRATION_WINDOWS c" "MAX_CALIBRATION_WINDOWS c < 65536"
  shows "capture_all fo c l fss s =
    s\<lparr>pe_accum := \<lparr>ca_featureSum = feature_sums fo fss, ca_count = length fss, ca_label = l\<rparr>\<rparr>"
  using assms(4,5)
proof (induction fss rule: rev_induct)
  case (snoc fs fss)
  show ?case
  proof (cases "fss = []")
    case True
    then show ?thesis using snoc.prems capture_first [OF assms(1-3)] by (simp add: capture_all_def)
  next
    case False
    let ?t = "s\<lparr>pe_accum := \<lparr>ca_featureSum = feature_sums fo fss, ca_count = length fss, ca_label = l\<rparr>\<rparr>"
    have "capture_all fo c l fss s = ?t" using snoc False by simp
    moreover have "snd (captureWindow fo c (Some fs) l ?t) =
        ?t\<lparr>pe_accum := \<lparr>ca_featureSum = feature_sums fo (fss @ [fs]), ca_count = length (fss @ [fs]), ca_label = l\<rparr>\<rparr>"
      by (rule capture_next) (use assms snoc.prems in simp_all)
    ultimately show ?thesis by (simp add: capture_all_def)
  qed
qed simp

definition cal_running :: "'n personal \<Rightarrow> bool" where
  "cal_running s \<longleftrightarrow> pe_initialized s \<and> pe_mutex s \<and> pe_hasTimer s \<and> pe_worker s \<and> pe_task s \<and> pe_workerRunning s"

lemma getPrototype_snapshot:
  "no_crc (pe_snapshot s) = no_crc (pe_snapshot t) \<Longrightarrow> getPrototype k s = getPrototype k t"
  using no_crc_cong(3,4) [of "pe_snapshot s" "pe_snapshot t"] by (simp add: getPrototype_def)

lemma boot_snapshot:
  assumes "no_crc (next_boot api c n) = no_crc d" "d = d'"
  shows "no_crc (pe_snapshot (snd (personal_init api c True True True (personal_new c n)))) = no_crc d'"
proof -
  let ?s = "(personal_new c n)\<lparr>pe_mutex := True, pe_hasTimer := True, pe_timer := False\<rparr>"
  have s: "pe_nvs ?s = n" by (simp add: personal_new_def)
  show ?thesis
    using assms readFromNvs_indep [of api c ?s, unfolded s] next_boot_none [of api c n]
    by (auto simp: personal_init_def publishSnapshot_def Let_def personal_new_def case_prod_beta split: if_splits)
qed

text \<open>
  C10: A calibration of one gesture: windows captured for it, at least the minimum and at most the
  maximum number, are committed as the average of their features and are in effect at once. When
  the timer has expired and the worker has had its turn, they are in flash: a restart finds the
  new prototype, and the prototypes of the other classes as they were.
\<close>

theorem calibration_survives_restart:
  assumes "cal_reliable api view" "cal_inv api c s" "cal_running s"
    "unat (label_code l) < NUM_CLASSES" "fss \<noteq> []" "MIN_CALIBRATION_WINDOWS c \<le> length fss"
    "length fss \<le> MAX_CALIBRATION_WINDOWS c" "MAX_CALIBRATION_WINDOWS c < 65536"
  shows "let s1 = capture_all fo c l fss (snd (personal_startCalibration s));
             (ok, s2) = commitCalibration fo c True s1;
             s3 = cal_worker_step api c waiting True (cal_timerCallback s2);
             s4 = snd (personal_init api c True True True (personal_new c (pe_nvs s3)))
         in ok \<and> \<not> pe_dirty s3 \<and>
            getPrototype (unat (label_code l)) s2 = Some (prototype_of fo fss) \<and>
            getPrototype (unat (label_code l)) s4 = Some (prototype_of fo fss) \<and>
            (\<forall>k. k \<noteq> unat (label_code l) \<longrightarrow> getPrototype k s4 = getPrototype k s)"
proof -
  let ?k = "unat (label_code l)"
  let ?s0 = "snd (personal_startCalibration s)"
  let ?a = "\<lparr>ca_featureSum = feature_sums fo fss, ca_count = length fss, ca_label = l\<rparr>"
  let ?s1 = "?s0\<lparr>pe_accum := ?a\<rparr>"
  have s0: "?s0 = s\<lparr>pe_accum := empty_accum, pe_calibrating := True\<rparr>"
    using assms(3) by (simp add: personal_startCalibration_def cal_running_def)
  have l: "ca_label (pe_accum ?s0) \<noteq> l"
    using label_codes_valid [OF assms(4)] by (auto simp: s0 empty_accum_def)
  have s1: "capture_all fo c l fss ?s0 = ?s1"
    by (rule capture_all_sums [OF _ assms(4) l assms(5,7,8)]) (simp add: s0)
  let ?d = "prototype_data fo ?a (pe_data s)"
  let ?s2 = "snd (commitCalibration fo c True ?s1)"
  have c2: "commitCalibration fo c True ?s1 = (True, (publishSnapshot (?s1\<lparr>pe_data := ?d, pe_dirty := True\<rparr>))
      \<lparr>pe_timer := True, pe_accum := empty_accum\<rparr>)"
    using assms(3,4,6) by (simp add: commitCalibration_eq s0 cal_running_def)
  have inv: "cal_ok (pe_data s)" "cd_version (pe_data s) = CALIBRATION_VERSION c"
    "no_crc (pe_snapshot s) = no_crc (pe_data s)" using assms(2) by (simp_all add: cal_inv_def)
  have d: "cal_ok ?d" "cd_version ?d = CALIBRATION_VERSION c"
    using cal_ok_prototype_data [OF inv(1)] inv(2) by simp_all
  let ?t = "(cal_timerCallback ?s2)\<lparr>pe_notify := \<lparr>NOTIFY_SAVE = False, NOTIFY_SHUTDOWN = False\<rparr>\<rparr>"
  have t: "pe_data ?t = ?d" "pe_task (cal_timerCallback ?s2)" "pe_workerRunning (cal_timerCallback ?s2)"
    "NOTIFY_SAVE (pe_notify (cal_timerCallback ?s2))" "pe_mutex ?t"
    using assms(3) unfolding c2 snd_conv
    by (simp_all add: s0 cal_timerCallback_def publishSnapshot_def cal_running_def)
  obtain n where n: "cal_writeToNvs api c ?t =
      (True, ?t\<lparr>pe_data := (pe_data ?t)\<lparr>cd_crc32 := cal_calculateCrc ?t\<rparr>, pe_nvs := n, pe_dirty := False\<rparr>)"
    "next_boot api c n = (pe_data ?t)\<lparr>cd_crc32 := cal_calculateCrc ?t\<rparr>"
    using writeToNvs_reliable [OF assms(1), of ?t c] d unfolding t(1) by metis
  let ?s3 = "cal_worker_step api c waiting True (cal_timerCallback ?s2)"
  have s3: "pe_nvs ?s3 = n" "\<not> pe_dirty ?s3"
    using t(2-5) n(1) by (simp_all add: cal_worker_step_def Let_def)
  let ?s4 = "snd (personal_init api c True True True (personal_new c (pe_nvs ?s3)))"
  have snap4: "no_crc (pe_snapshot ?s4) = no_crc ?d"
    by (rule boot_snapshot [OF _ refl]) (simp add: s3(1) n(2) t(1))
  have snap2: "pe_snapshot ?s2 = ?d" unfolding c2 snd_conv by (simp add: publishSnapshot_def)
  have same: "getPrototype k ?s4 = getPrototype k ?s2" for k
    by (rule getPrototype_snapshot) (simp add: snap4 snap2)
  have count: "\<not> 255 < length fss \<longrightarrow> word_of_nat (length fss) \<noteq> (0 :: u8)"
    using assms(5) dvd_imp_le [of 256 "length fss"] by (auto simp: word_of_nat_eq_0_iff)
  have k: "?k < length (cd_sampleCounts (pe_data s))" "?k < length (cd_prototypes (pe_data s))"
    using inv(1) assms(4) by (simp_all add: cal_ok_def)
  have new: "getPrototype ?k ?s2 = Some (prototype_of fo fss)"
    using assms(4) count k
    by (simp add: getPrototype_def snap2 prototype_data_def Let_def prototype_of_def not_le)
  have old: "getPrototype k ?s2 = getPrototype k s" if "k \<noteq> ?k" for k
    using that no_crc_cong(3,4) [OF inv(3)]
    by (simp add: getPrototype_def snap2 prototype_data_def Let_def)
  have ok: "fst (commitCalibration fo c True ?s1)" unfolding c2 by simp
  have new4: "getPrototype ?k ?s4 = Some (prototype_of fo fss)" using same new by (rule trans)
  have old4: "\<forall>k. k \<noteq> ?k \<longrightarrow> getPrototype k ?s4 = getPrototype k s"
    by (intro allI impI trans [OF same]) (rule old)
  show ?thesis
    unfolding s1 Let_def case_prod_beta using ok s3(2) new new4 old4 by blast
qed

definition demo_cal_api :: "nvs_view cal_api" where
  "demo_cal_api = \<lparr>cal_prefs = map_prefs,
     p_getBytesLength = (\<lambda>n ns k. case n (ns, k) of Some (VBlob b) \<Rightarrow> length b | _ \<Rightarrow> 0)\<rparr>"

definition demo_cal_cfg :: cal_cfg where
  "demo_cal_cfg = \<lparr>CALIBRATION_VERSION = 1, MIN_CALIBRATION_WINDOWS = 2, MAX_CALIBRATION_WINDOWS = 20,
     CAL_NAMESPACE = ''ml_cal'', CAL_KEY = ''data''\<rparr>"

definition demo_float_ops :: cal_float_ops where
  "demo_float_ops = \<lparr>d_of_f = (\<lambda>x. ucast x), d_add = (+), d_div = (\<lambda>x k. x div word_of_nat k),
     f_of_d = (\<lambda>x. ucast x), f_positive = (\<lambda>x. 0 < x)\<rparr>"

definition demo_personal :: "nvs_view personal" where
  "demo_personal = snd (personal_init demo_cal_api demo_cal_cfg True True True (personal_new demo_cal_cfg Map.empty))"

lemma demo_cal_reliable: "cal_reliable demo_cal_api (\<lambda>n. n)"
  using map_prefs_ok map_prefs_reliable
  by (simp add: cal_reliable_def cal_api_ok_def demo_cal_api_def) (simp add: map_prefs_def)

lemma demo_personal_inv: "cal_inv demo_cal_api demo_cal_cfg demo_personal"
  unfolding demo_personal_def by (rule cal_inv_init [OF cal_inv_new])

lemma demo_personal_running: "cal_running demo_personal"
  by (simp add: cal_running_def demo_personal_def personal_init_def personal_new_def cal_readFromNvs_def
      demo_cal_api_def map_prefs_def CAL_SIZE_def Let_def)

theorem calibration_tracked_witness:
  "no_crc (pe_snapshot demo_personal) = no_crc (pe_data demo_personal)"
proof -
  have "cal_ev demo_float_ops demo_cal_api demo_cal_cfg (personal_new demo_cal_cfg Map.empty) demo_personal"
    unfolding demo_personal_def by (rule CE_init)
  then have "(cal_ev demo_float_ops demo_cal_api demo_cal_cfg)\<^sup>*\<^sup>* (personal_new demo_cal_cfg Map.empty) demo_personal"
    by (rule r_into_rtranclp)
  moreover have "cal_api_ok demo_cal_api (\<lambda>n. n)" using demo_cal_reliable by (simp add: cal_reliable_def)
  ultimately show ?thesis using calibration_tracked [of demo_cal_api "\<lambda>n. n"] by blast
qed

theorem calibration_survives_restart_witness:
  "let s1 = capture_all demo_float_ops demo_cal_cfg GL_HOVER [replicate 10 3, replicate 10 5]
              (snd (personal_startCalibration demo_personal));
       s2 = snd (commitCalibration demo_float_ops demo_cal_cfg True s1);
       s3 = cal_worker_step demo_cal_api demo_cal_cfg True True (cal_timerCallback s2);
       s4 = snd (personal_init demo_cal_api demo_cal_cfg True True True (personal_new demo_cal_cfg (pe_nvs s3)))
   in getPrototype 2 s4 = Some (replicate 10 4)"
proof -
  let ?fss = "[replicate 10 3, replicate 10 5] :: f32 list list"
  have side: "unat (label_code GL_HOVER) < NUM_CLASSES" "?fss \<noteq> []"
    "MIN_CALIBRATION_WINDOWS demo_cal_cfg \<le> length ?fss" "length ?fss \<le> MAX_CALIBRATION_WINDOWS demo_cal_cfg"
    "MAX_CALIBRATION_WINDOWS demo_cal_cfg < 65536"
    by (simp_all add: demo_cal_cfg_def NUM_CLASSES_def)
  have row: "map (\<lambda>f. d) [0..<NUM_FEATURES] = replicate 10 d" for d :: f32
    by (simp add: NUM_FEATURES_def map_replicate_const)
  have sums: "feature_sums demo_float_ops ?fss ! f = 8" if "f < NUM_FEATURES" for f
    using that by (simp add: feature_sums_def demo_float_ops_def NUM_FEATURES_def)
  then have avg: "prototype_of demo_float_ops ?fss = replicate 10 4"
    unfolding prototype_of_def row [symmetric] by (intro map_cong) (simp_all add: demo_float_ops_def)
  have k: "unat (label_code GL_HOVER) = 2" by simp
  show ?thesis
    using calibration_survives_restart [OF demo_cal_reliable demo_personal_inv demo_personal_running side,
        of demo_float_ops True, unfolded avg k Let_def case_prod_beta]
    unfolding Let_def by blast
qed

text \<open>
  A flush that does not get the mutex has already stopped the commit timer, and
  \<open>resetCalibration\<close> does not look at its outcome: the reset is reported as done, but no turn of
  the timer or the worker writes it, and the next start loads the old calibration.
\<close>

definition cal_background :: "'n cal_api \<Rightarrow> cal_cfg \<Rightarrow> 'n personal \<Rightarrow> 'n personal \<Rightarrow> bool" where
  "cal_background api c s t \<longleftrightarrow> t = cal_timerCallback s \<or> (\<exists>waiting lock. t = cal_worker_step api c waiting lock s)"

lemma quiet_timer: "\<not> pe_timer s \<Longrightarrow> cal_timerCallback s = s"
  by (simp add: cal_timerCallback_def)

lemma quiet_worker:
  assumes "\<not> NOTIFY_SAVE (pe_notify s)"
  shows "pe_nvs (cal_worker_step api c waiting lock s) = pe_nvs s"
    "pe_timer (cal_worker_step api c waiting lock s) = pe_timer s"
    "\<not> NOTIFY_SAVE (pe_notify (cal_worker_step api c waiting lock s))"
  using assms by (simp_all add: cal_worker_step_def Let_def)

theorem failed_flush_loses_reset:
  assumes "cal_running s" "\<not> NOTIFY_SAVE (pe_notify s)" "(cal_background api c)\<^sup>*\<^sup>* t u"
    "personal_resetCalibration api c True False s = (ok, t)"
  shows "ok \<and> pe_data t = cal_defaults c \<and> pe_nvs u = pe_nvs s \<and>
    next_boot api c (pe_nvs u) = next_boot api c (pe_nvs s)"
proof -
  have t: "ok" "pe_data t = cal_defaults c" "pe_nvs t = pe_nvs s" "\<not> pe_timer t" "\<not> NOTIFY_SAVE (pe_notify t)"
    using assms(1,2,4)
    by (auto simp: personal_resetCalibration_def cal_forceFlush_def cal_running_def publishSnapshot_def
        resetDataToDefaults_def Let_def)
  have "pe_nvs u = pe_nvs t \<and> \<not> pe_timer u \<and> \<not> NOTIFY_SAVE (pe_notify u)"
    using assms(3)
  proof (induction rule: rtranclp_induct)
    case (step y z)
    then show ?case by (auto simp: cal_background_def quiet_timer quiet_worker)
  qed (use t in simp)
  with t show ?thesis by simp
qed

end
