(* ===== verification/Fw_Inference.thy ===== *)
theory Fw_Inference
  imports Fw_LoggerRun Fw_Personal
begin

text \<open>
  The inference task (\<open>src/src/Services/InferenceService.cpp\<close>) and the serial commands that drive
  recording and calibration (\<open>processSerialMLCommand\<close> of \<open>src/src/main.cpp\<close>). In the published
  source the classifier is replaced by a constant answer; what remains is when the task runs, what
  it measures and how its results are handed over.
\<close>

section \<open>Results\<close>

record inference_result =
  ir_predictedLabel :: u8
  ir_confidence :: u8
  ir_latencyUs :: u16
  ir_timestampMs :: u32
  ir_globalConfidence :: u8
  ir_localConfidence :: u8
  ir_adaptationQuality :: u8
  ir_flags :: u8
  ir_rawGlobalLogit :: f32
  ir_rawLocalDistance :: f32

definition FLAG_BELOW_THRESHOLD :: u8 where "FLAG_BELOW_THRESHOLD = 0x02"

definition zero_result :: inference_result where
  "zero_result = \<lparr>ir_predictedLabel = 0, ir_confidence = 0, ir_latencyUs = 0, ir_timestampMs = 0,
     ir_globalConfidence = 0, ir_localConfidence = 0, ir_adaptationQuality = 0, ir_flags = 0,
     ir_rawGlobalLogit = 0, ir_rawLocalDistance = 0\<rparr>"

definition extractFeaturesNormalized :: "sample_record list \<Rightarrow> u8 \<Rightarrow> f32 \<Rightarrow> f32 list" where
  "extractFeaturesNormalized samples cnt dynamicRange =
     (if cnt = 0 then replicate NUM_FEATURES 0 else replicate NUM_FEATURES 0)"

definition extractFeatures :: "f32 \<Rightarrow> sample_record list \<Rightarrow> u8 \<Rightarrow> f32 list" where
  "extractFeatures default_prox_norm samples cnt = extractFeaturesNormalized samples cnt default_prox_norm"

definition predict :: "f32 list \<Rightarrow> gesture_label \<times> u8" where
  "predict features = (GL_UNKNOWN, 0)"

definition predictHybrid :: "f32 list \<Rightarrow> inference_result" where
  "predictHybrid features = zero_result\<lparr>ir_predictedLabel := label_code GL_UNKNOWN, ir_confidence := 0,
     ir_flags := FLAG_BELOW_THRESHOLD\<rparr>"

section \<open>The service\<close>

text \<open>\<open>in_queue\<close> is the result queue of length one, \<open>None\<close> until it is created.\<close>

record inference =
  in_taskRunning :: bool
  in_initialized :: bool
  in_dataLogger :: bool
  in_personalization :: bool
  in_queue :: "inference_result option option"
  in_taskHandle :: bool
  in_task :: bool
  in_lastResult :: inference_result
  in_inferenceCount :: u32
  in_totalLatencyUs :: u32

definition inference_new :: inference where
  "inference_new = \<lparr>in_taskRunning = False, in_initialized = False, in_dataLogger = False,
     in_personalization = False, in_queue = None, in_taskHandle = False, in_task = False,
     in_lastResult = zero_result, in_inferenceCount = 0, in_totalLatencyUs = 0\<rparr>"

definition inference_init :: "bool \<Rightarrow> bool \<Rightarrow> bool \<Rightarrow> bool \<Rightarrow> inference \<Rightarrow> bool \<times> inference" where
  "inference_init dataLogger personalization queue_made task_made s =
     (if in_initialized s then (True, s)
      else if \<not> dataLogger then (False, s)
      else let s = s\<lparr>in_dataLogger := True, in_personalization := personalization,
                     in_queue := (if queue_made then Some None else None)\<rparr> in
      if \<not> queue_made then (False, s)
      else if \<not> task_made then (False, s\<lparr>in_taskRunning := False\<rparr>)
      else (True, s\<lparr>in_taskRunning := True, in_taskHandle := True, in_task := True, in_initialized := True\<rparr>))"

definition inference_shutdown :: "inference \<Rightarrow> inference" where
  "inference_shutdown s =
     (if \<not> in_initialized s then s
      else s\<lparr>in_taskRunning := False, in_taskHandle := False, in_initialized := False\<rparr>)"

definition getLatestResult :: "inference \<Rightarrow> inference_result option \<times> inference" where
  "getLatestResult s =
     (case in_queue s of Some (Some r) \<Rightarrow> (Some r, s\<lparr>in_queue := Some None\<rparr>) | _ \<Rightarrow> (None, s))"

definition getAverageLatencyUs :: "inference \<Rightarrow> u32" where
  "getAverageLatencyUs s =
     (if in_inferenceCount s = 0 then 0 else in_totalLatencyUs s div in_inferenceCount s)"

record run_env =
  re_lock_free :: bool
  re_startUs :: u32
  re_endUs :: u32
  re_uptime :: u32
  re_default_norm :: f32

definition run_latency :: "run_env \<Rightarrow> u32" where
  "run_latency e = (if re_startUs e \<le> re_endUs e then re_endUs e - re_startUs e else 0)"

definition runInference :: "cal_float_ops \<Rightarrow> run_env \<Rightarrow> 'f logger \<Rightarrow> 'n personal \<Rightarrow> inference \<Rightarrow> inference" where
  "runInference fo e lg pe s =
     (case getCurrentWindow (re_lock_free e) lg of None \<Rightarrow> s
      | Some window \<Rightarrow>
          (let (positive, mean, sigma, dyn) = getBaselineParams fo pe;
               features = (if in_personalization s \<and> positive \<and> f_positive fo dyn
                 then extractFeaturesNormalized (w_samples window) (wh_sampleCount (w_header window)) dyn
                 else extractFeatures (re_default_norm e) (w_samples window) (wh_sampleCount (w_header window)));
               latencyUs = run_latency e;
               result = (predictHybrid features)\<lparr>
                 ir_latencyUs := (if 65535 < latencyUs then 65535 else ucast latencyUs),
                 ir_timestampMs := re_uptime e\<rparr>
           in s\<lparr>in_queue := map_option (\<lambda>_. Some result) (in_queue s), in_lastResult := result,
                in_inferenceCount := in_inferenceCount s + 1,
                in_totalLatencyUs := in_totalLatencyUs s + latencyUs\<rparr>))"

text \<open>
  The task: it gives its handle to the recorder when it starts. A turn of its loop takes all
  notifications at once and runs the classifier if there was any.
\<close>

definition inference_task_start :: "inference \<Rightarrow> 'f logger \<Rightarrow> 'f logger" where
  "inference_task_start s lg = (if in_dataLogger s then setInferenceTaskHandle True lg else lg)"

definition inference_turn :: "cal_float_ops \<Rightarrow> run_env \<Rightarrow> 'n personal \<Rightarrow> inference \<times> 'f logger \<Rightarrow> inference \<times> 'f logger" where
  "inference_turn fo e pe = (\<lambda>(s, lg).
     (if \<not> in_task s then (s, lg)
      else if \<not> in_taskRunning s then (s\<lparr>in_task := False\<rparr>, lg)
      else (let notified = lg_notified lg; lg = lg\<lparr>lg_notified := 0\<rparr>
            in if 0 < notified \<and> in_dataLogger s then (runInference fo e lg pe s, lg) else (s, lg))))"

lemma runInference_eq:
  assumes "lg_mutex lg" "re_lock_free e"
  shows "runInference fo e lg pe s =
    (let r = (predictHybrid [])\<lparr>ir_latencyUs := (if 65535 < run_latency e then 65535 else ucast (run_latency e)),
               ir_timestampMs := re_uptime e\<rparr>
     in s\<lparr>in_queue := map_option (\<lambda>_. Some r) (in_queue s), in_lastResult := r,
          in_inferenceCount := in_inferenceCount s + 1, in_totalLatencyUs := in_totalLatencyUs s + run_latency e\<rparr>)"
  using assms by (simp add: runInference_def getCurrentWindow_def predictHybrid_def Let_def case_prod_beta)

text \<open>
  However many windows were completed since the last turn, the task runs once for all of them, on
  the newest; the result replaces one that nobody has fetched, and it can be fetched exactly
  once. Until the weights are trained every result says UNKNOWN below the threshold.
\<close>

theorem inference_latest_result:
  assumes "in_task s" "in_taskRunning s" "in_dataLogger s" "in_queue s \<noteq> None"
    "0 < lg_notified lg" "lg_mutex lg" "re_lock_free e"
  shows "let (s1, lg1) = inference_turn fo e pe (s, lg); (r, s2) = getLatestResult s1
         in lg_notified lg1 = 0 \<and> in_inferenceCount s1 = in_inferenceCount s + 1 \<and>
            r = Some (in_lastResult s1) \<and> getLabel (ir_predictedLabel (in_lastResult s1)) = GL_UNKNOWN \<and>
            ir_flags (in_lastResult s1) = FLAG_BELOW_THRESHOLD \<and> fst (getLatestResult s2) = None"
  using assms by (auto simp: inference_turn_def runInference_eq getLatestResult_def predictHybrid_def
      getLabel_def Let_def)

section \<open>Serial commands\<close>

datatype serial_reply = SR_text string | SR_logger_status | SR_personal_status | SR_help

record ('f, 'n) ml_sys =
  ms_logger :: "'f logger"
  ms_personal :: "'n personal"
  ms_reply :: serial_reply

definition str_trim :: "string \<Rightarrow> string" where
  "str_trim s = rev (dropWhile is_space (rev (dropWhile is_space s)))"

definition starts_with :: "string \<Rightarrow> string \<Rightarrow> bool" where
  "starts_with p s \<longleftrightarrow> take (length p) s = p"

text \<open>Replies end with a line feed.\<close>

definition reply :: "string \<Rightarrow> ('f, 'n) ml_sys \<Rightarrow> ('f, 'n) ml_sys" where
  "reply t m = m\<lparr>ms_reply := SR_text (t @ [CHR 0x0A])\<rparr>"

definition cmd_ml_start :: "'f spiffs_api \<Rightarrow> string \<Rightarrow> ('f, 'n) ml_sys \<Rightarrow> ('f, 'n) ml_sys" where
  "cmd_ml_start sp line m =
     (let labelStr = str_trim (drop 9 line); label = stringToGestureLabel (Some labelStr)
      in if label = GL_INVALID then reply (''ERROR: Unknown label '' @ [CHR 0x27] @ labelStr @ [CHR 0x27]) m
         else (let (ok, lg) = startSession sp label (ms_logger m); m = m\<lparr>ms_logger := lg\<rparr>
               in if ok then reply (''OK: Session started (label='' @ labelStr @ '', id='' @
                       dec (unat (lg_currentSessionId lg)) @ '')'') m
                  else reply (''ERROR: Failed to start session (state='' @ logger_getStateName lg @ '')'') m))"

definition cmd_personalize_capture ::
    "cal_float_ops \<Rightarrow> cal_cfg \<Rightarrow> bool \<Rightarrow> f32 \<Rightarrow> string \<Rightarrow> ('f, 'n) ml_sys \<Rightarrow> ('f, 'n) ml_sys" where
  "cmd_personalize_capture fo c lock default_norm line m =
     (let labelStr = str_trim (drop 22 line); label = stringToGestureLabel (Some labelStr)
      in if label = GL_INVALID then reply (''ERROR: Unknown label '' @ [CHR 0x27] @ labelStr @ [CHR 0x27]) m
         else case getCurrentWindow lock (ms_logger m) of
             None \<Rightarrow> reply ''ERROR: No window available (wait for sensor data)'' m
           | Some window \<Rightarrow>
               (let (positive, mean, sigma, dyn) = getBaselineParams fo (ms_personal m);
                    features = (if positive \<and> f_positive fo dyn
                      then extractFeaturesNormalized (w_samples window) (wh_sampleCount (w_header window)) dyn
                      else extractFeatures default_norm (w_samples window) (wh_sampleCount (w_header window)));
                    (ok, pe) = captureWindow fo c (Some features) label (ms_personal m);
                    m = m\<lparr>ms_personal := pe\<rparr>
                in if ok then reply (''OK: Captured window for '' @ labelStr) m
                   else reply ''ERROR: Capture failed (not in calibration mode or at max)'' m))"

text \<open>\<open>lock\<close>, \<open>lock2\<close>: whether the mutexes that the command needs are obtained.\<close>

definition processSerialMLCommand :: "'f spiffs_api \<Rightarrow> 'n cal_api \<Rightarrow> cal_float_ops \<Rightarrow> cal_cfg \<Rightarrow> f32 \<Rightarrow>
    bool \<Rightarrow> bool \<Rightarrow> string \<Rightarrow> ('f, 'n) ml_sys \<Rightarrow> ('f, 'n) ml_sys" where
  "processSerialMLCommand sp api fo c default_norm lock lock2 line m =
     (if starts_with ''ML_START '' line then cmd_ml_start sp line m
      else if line = ''ML_STOP'' then
        (let (ok, lg) = stopSession (ms_logger m); m = m\<lparr>ms_logger := lg\<rparr>
         in if ok then reply (''OK: Session stopped ('' @ dec (unat (lg_windowsWritten lg)) @ '' windows written)'') m
            else reply ''ERROR: No active session'' m)
      else if line = ''ML_STATUS'' then m\<lparr>ms_reply := SR_logger_status\<rparr>
      else if line = ''ML_DELETE'' then
        (let (ok, lg) = deleteAll sp (ms_logger m); m = m\<lparr>ms_logger := lg\<rparr>
         in if ok then reply ''OK: All ML data deleted'' m else reply ''ERROR: Delete failed'' m)
      else if line = ''ML_PERSONALIZE_START'' then
        (let (ok, pe) = personal_startCalibration (ms_personal m); m = m\<lparr>ms_personal := pe\<rparr>
         in if ok then reply (''OK: Personalization capture mode started'' @ [CHR 0x0A] @
                '' Use: ML_PERSONALIZE_CAPTURE <label> to capture windows'') m
            else reply ''ERROR: Failed to start calibration'' m)
      else if starts_with ''ML_PERSONALIZE_CAPTURE '' line then cmd_personalize_capture fo c lock default_norm line m
      else if line = ''ML_PERSONALIZE_COMMIT'' then
        (let (ok, pe) = commitCalibration fo c lock (ms_personal m); m = m\<lparr>ms_personal := pe\<rparr>
         in if ok then reply ''OK: Calibration committed (will persist to NVS)'' m
            else reply ''ERROR: Commit failed (not enough samples or not calibrating)'' m)
      else if line = ''ML_PERSONALIZE_RESET'' then
        (let (ok, pe) = personal_resetCalibration api c lock lock2 (ms_personal m); m = m\<lparr>ms_personal := pe\<rparr>
         in if ok then reply ''OK: Personalization reset to defaults'' m else reply ''ERROR: Reset failed'' m)
      else if line = ''ML_PERSONALIZE_STATUS'' then m\<lparr>ms_reply := SR_personal_status\<rparr>
      else m\<lparr>ms_reply := SR_help\<rparr>)"

text \<open>
  The reader of the main loop: a line of at most 64 characters is collected, what follows is
  dropped up to the end of the line, and lines that do not begin with \<open>ML_\<close> are ignored.
\<close>

definition serial_char :: "(string \<Rightarrow> 'm \<Rightarrow> 'm) \<Rightarrow> string \<times> 'm \<Rightarrow> char \<Rightarrow> string \<times> 'm" where
  "serial_char cmd = (\<lambda>(buf, m) ch.
     if ch = CHR 0x0A \<or> ch = CHR 0x0D
     then ([], if 0 < length buf \<and> starts_with ''ML_'' buf then cmd buf m else m)
     else if length buf < 64 then (buf @ [ch], m) else (buf, m))"

lemma serial_line:
  assumes "\<forall>ch \<in> set t. ch \<noteq> CHR 0x0A \<and> ch \<noteq> CHR 0x0D" "length t \<le> 64"
  shows "foldl (serial_char cmd) ([], m) t = (t, m)"
  using assms by (induction t rule: rev_induct) (auto simp: serial_char_def)

text \<open>
  C33: A recording that is started from the serial console: the name of any label, in upper or lower
  case and with spaces around it, typed after \<open>ML_START\<close>, starts the next session with
  exactly this label while the recorder is idle.
\<close>

theorem serial_start_records:
  assumes "spiffs_reliable sp view" "lg_spiffsMounted (ms_logger m)" "lg_state (ms_logger m) = LS_IDLE"
    "named_label l" "strcaseeq (str_trim t) (gestureLabelToString l)"
    "\<forall>ch \<in> set t. ch \<noteq> CHR 0x0A \<and> ch \<noteq> CHR 0x0D" "length t \<le> 55"
  shows "let lg = ms_logger (snd (foldl (serial_char (processSerialMLCommand sp api fo c norm lock lock2)) ([], m)
                    (''ML_START '' @ t @ [CHR 0x0A])))
         in lg_state lg = LS_RECORDING \<and> lg_currentLabel lg = l \<and>
            lg_currentSessionId lg = lg_nextSessionId (ms_logger m) \<and> lg_currentWindowId lg = 0"
proof -
  let ?cmd = "processSerialMLCommand sp api fo c norm lock lock2"
  have "foldl (serial_char ?cmd) ([], m) (''ML_START '' @ t) = (''ML_START '' @ t, m)"
    by (rule serial_line) (use assms(6,7) in auto)
  then have cmd: "foldl (serial_char ?cmd) ([], m) (''ML_START '' @ t @ [CHR 0x0A]) =
      ([], cmd_ml_start sp (''ML_START '' @ t) m)"
    by (simp add: serial_char_def starts_with_def processSerialMLCommand_def)
  have l: "stringToGestureLabel (Some (str_trim t)) = l" "l \<noteq> GL_INVALID"
    using label_text_lemma [OF assms(4)] assms(4,5) by (auto simp: named_label_def)
  obtain f bs where f: "startSession sp l (ms_logger m) = (True, (ms_logger m)\<lparr>
      lg_currentSessionId := lg_nextSessionId (ms_logger m), lg_nextSessionId := lg_nextSessionId (ms_logger m) + 1,
      lg_currentWindowId := 0, lg_windowsWritten := 0, lg_currentLabel := l, lg_sampleIndex := 0, lg_fs := f,
      lg_state := LS_RECORDING\<rparr>)"
    by (rule startSession_reliable [OF assms(1,2) _ _ l(2)]) (simp_all add: assms(3))
  show ?thesis unfolding cmd snd_conv cmd_ml_start_def using f l by (simp add: reply_def Let_def)
qed

theorem serial_start_records_witness:
  "let m = \<lparr>ms_logger = demo_logger, ms_personal = demo_personal, ms_reply = SR_help\<rparr>;
       lg = ms_logger (snd (foldl (serial_char (processSerialMLCommand alist_spiffs demo_cal_api demo_float_ops
              demo_cal_cfg 0 True True)) ([], m) (''ML_START '' @ '' HoVer '' @ [CHR 0x0A])))
   in lg_state lg = LS_RECORDING \<and> lg_currentLabel lg = GL_HOVER \<and> lg_currentSessionId lg = 1"
proof -
  let ?m = "\<lparr>ms_logger = demo_logger, ms_personal = demo_personal, ms_reply = SR_help\<rparr>"
  have side: "lg_spiffsMounted (ms_logger ?m)" "lg_state (ms_logger ?m) = LS_IDLE" "named_label GL_HOVER"
    "lg_nextSessionId (ms_logger ?m) = 1"
    by (simp_all add: demo_logger_eq logger_new_def named_label_def)
  have t: "strcaseeq (str_trim '' HoVer '') (gestureLabelToString GL_HOVER)"
    by (simp add: str_trim_def is_space_def text_compare char_of_def bit_0)
  have clean: "\<forall>ch \<in> set '' HoVer ''. ch \<noteq> CHR 0x0A \<and> ch \<noteq> CHR 0x0D" "length '' HoVer '' \<le> 55"
    by simp_all
  show ?thesis
    using serial_start_records [OF alist_spiffs_reliable side(1-3) t clean, of demo_cal_api demo_float_ops
        demo_cal_cfg 0 True True, unfolded side(4)]
    unfolding Let_def by blast
qed

theorem inference_latest_result_witness:
  "let s = snd (inference_init True True True True inference_new); lg = demo_logger\<lparr>lg_notified := 3\<rparr>;
       e = \<lparr>re_lock_free = True, re_startUs = 10, re_endUs = 25, re_uptime = 7, re_default_norm = 0\<rparr>;
       s1 = fst (inference_turn demo_float_ops e demo_personal (s, lg))
   in in_inferenceCount s1 = 1 \<and> fst (getLatestResult s1) = Some (in_lastResult s1)"
  using inference_latest_result [of "snd (inference_init True True True True inference_new)"
      "demo_logger\<lparr>lg_notified := 3\<rparr>"
      "\<lparr>re_lock_free = True, re_startUs = 10, re_endUs = 25, re_uptime = 7, re_default_norm = 0\<rparr>"
      demo_float_ops demo_personal]
  by (simp add: inference_init_def inference_new_def demo_logger_eq logger_new_def case_prod_beta Let_def)

end
