(* ===== verification/Fw_Main.thy ===== *)
theory Fw_Main
  imports Fw_Sleep Fw_Sensor Fw_Inference Fw_Time
begin

text \<open>
  The main program (\<open>src/src/main.cpp\<close>) over all parts: the thresholds and their copy in RTC memory,
  the callbacks that the main program gives to \<open>ProtocolHandler\<close>, the button, keep-alive and
  heartbeat, the sensor task, \<open>setup\<close> and \<open>loop\<close>. The detection algorithm itself
  (\<open>handleDetection\<close>, \<open>isThresholdSane\<close>, the recovery from stuck detections) is removed from the
  published source: the functions are empty or constant there, and so they are here.
\<close>

section \<open>State\<close>

record thresholds =
  th_wake :: u16
  th_detection :: u16
  th_critical :: u16

text \<open>The static variables of \<open>handleButtonInput\<close>; true is the level \<open>HIGH\<close> of a released button.\<close>

record button =
  bn_last :: bool
  bn_lastDebounce :: u32
  bn_state :: bool
  bn_pressStart :: u32
  bn_longHandled :: bool

record ('n, 'u, 'f, 'd, 's) firmware =
  f_sys :: "('n, 'u, 'f) system"
  f_sensor :: "'d sensor"
  f_logger :: "'s logger"
  f_personal :: "'n personal"
  f_inference :: inference
  f_pump :: pump
  f_tracker :: tracker
  f_crashCounter :: u32
  f_stability :: u32
  f_wifi :: wifi
  f_time :: time_service
  f_netLog :: "net_act list"
  f_thresholds :: thresholds
  f_rtcCalibration :: calibration_data
  f_rtcTimeSync :: time_sync_data
  f_requestBackoff :: bool
  f_warmup :: bool
  f_stuckActive :: bool
  f_stuckStart :: u32
  f_taskStart :: u32
  f_lastDebugLog :: u32
  f_button :: button
  f_lastLedUpdate :: u32
  f_serial :: string
  f_reply :: serial_reply

text \<open>
  The interfaces of the libraries and the constants of \<open>Config.h\<close>. \<open>c_fless\<close>, \<open>c_fmulAdd\<close> and
  \<open>c_flit\<close> are the comparison, \<open>a + b * c\<close> and the literals of 32-bit floating point.
\<close>

record ('n, 'u, 'f, 'd, 's) fw_cfg =
  c_dev :: "('n, 'u) dev_cfg"
  c_pow :: "('n, 'f) power_cfg"
  c_i2c :: "'d i2c_api"
  c_sensor :: sensor_cfg
  c_ml :: ml_cfg
  c_spiffs :: "'s spiffs_api"
  c_calApi :: "'n cal_api"
  c_cal :: cal_cfg
  c_fo :: cal_float_ops
  c_boot :: boot_cfg
  c_fless :: "f32 \<Rightarrow> f32 \<Rightarrow> bool"
  c_fmulAdd :: "f32 \<Rightarrow> f32 \<Rightarrow> f32 \<Rightarrow> f32"
  c_flit :: "nat \<Rightarrow> f32"
  c_defaultNorm :: f32
  SAMPLING_PERIOD_MS :: u16
  BUTTON_DEBOUNCE_MS :: u32
  KEEPALIVE_INTERVAL_MS :: u32
  HEARTBEAT_TIMEOUT_MS :: u32
  PAIRING_WINDOW_MS :: u32
  COLOR_BOOT :: u32
  ARDUINO_USB_CDC_ON_BOOT :: bool

text \<open>
  The environment of one step: that of the system, the outcomes of the locks and the turns of
  the workers that the ML services need, and what the step itself reads.
\<close>

record fw_env =
  fv_sys :: sys_env
  fv_lock :: bool
  fv_lock2 :: bool
  fv_turns :: "(bool \<times> bool) list"
  fv_loggerTurns :: nat
  fv_sample :: sample_env
  fv_net :: net_env
  fv_found :: "conn_desc option"
  fv_connections :: nat
  fv_button :: bool
  fv_serial :: "char list"

definition on_sys :: "(('n, 'u, 'f) system \<Rightarrow> ('n, 'u, 'f) system) \<Rightarrow>
    ('n, 'u, 'f, 'd, 's) firmware \<Rightarrow> ('n, 'u, 'f, 'd, 's) firmware" where
  "on_sys g f = f\<lparr>f_sys := g (f_sys f)\<rparr>"

definition fw_ms :: "fw_env \<Rightarrow> ('n, 'u, 'f, 'd, 's) firmware \<Rightarrow> u32 \<times> ('n, 'u, 'f, 'd, 's) firmware" where
  "fw_ms env f = (let (t, s) = sys_ms (fv_sys env) (f_sys f) in (t, f\<lparr>f_sys := s\<rparr>))"

abbreviation fw_dev :: "('n, 'u, 'f, 'd, 's) firmware \<Rightarrow> ('n, 'u) device" where
  "fw_dev f \<equiv> s_dev (f_sys f)"

abbreviation fw_state :: "('n, 'u, 'f, 'd, 's) firmware \<Rightarrow> power_state" where
  "fw_state f \<equiv> power.w_state (s_pow (f_sys f))"

abbreviation fw_connected :: "('n, 'u, 'f, 'd, 's) firmware \<Rightarrow> bool" where
  "fw_connected f \<equiv> b_deviceConnected (d_ble (fw_dev f))"

section \<open>Thresholds and calibration\<close>

text \<open>The published source accepts all thresholds.\<close>

definition isThresholdSane :: "u16 \<Rightarrow> u16 \<Rightarrow> u16 \<Rightarrow> bool" where
  "isThresholdSane wake detection critical = True"

definition calibration_crc :: "calibration_data \<Rightarrow> u32" where
  "calibration_crc d = calculateCRC32 (enc_calibration_body d)"

definition default_thresholds :: "sensor_cfg \<Rightarrow> thresholds" where
  "default_thresholds c = \<lparr>th_wake = WAKE_THRESHOLD_DEFAULT c,
     th_detection = Fw_Sensor.sensor_cfg.DETECTION_THRESHOLD_DEFAULT c,
     th_critical = CRITICAL_DETECTION_THRESHOLD_DEFAULT c\<rparr>"

text \<open>The thresholds in use and in RTC memory are set together, the latter with their checksum.\<close>

definition store_thresholds :: "thresholds \<Rightarrow> ('n, 'u, 'f, 'd, 's) firmware \<Rightarrow> ('n, 'u, 'f, 'd, 's) firmware" where
  "store_thresholds t f =
     (let d = (f_rtcCalibration f)\<lparr>cal_wakeThresholdLow := th_wake t, cal_detectionThresholdLow := th_detection t,
                cal_criticalDetectionThreshold := th_critical t\<rparr>
      in f\<lparr>f_thresholds := t, f_rtcCalibration := d\<lparr>cal_crc32 := calibration_crc d\<rparr>\<rparr>)"

definition baseline_from_sensor :: "('n, 'u, 'f, 'd, 's) fw_cfg \<Rightarrow> bool \<Rightarrow>
    ('n, 'u, 'f, 'd, 's) firmware \<Rightarrow> ('n, 'u, 'f, 'd, 's) firmware" where
  "baseline_from_sensor c lock f =
     (let calMean = sn_lastCalMean (f_sensor f); calSigma = sn_lastCalSigma (f_sensor f)
      in if c_fless c 0 calSigma then
           (let dynRange = c_fmulAdd c calMean (c_flit c 10) calSigma;
                dynRange = (if c_fless c dynRange (c_flit c 500) then c_flit c 500 else dynRange)
            in f\<lparr>f_personal := updateSensorBaseline lock calMean calSigma dynRange (f_personal f)\<rparr>)
         else f)"

text \<open>\<open>outWake\<close>, \<open>outDetection\<close> are the variables of the caller; the result has their new values.\<close>

definition onCalibrateRequested :: "('n, 'u, 'f, 'd, 's) fw_cfg \<Rightarrow> bool \<Rightarrow> u16 \<Rightarrow> u16 \<Rightarrow>
    ('n, 'u, 'f, 'd, 's) firmware \<Rightarrow> u16 \<times> u16 \<times> ('n, 'u, 'f, 'd, 's) firmware" where
  "onCalibrateRequested c lock outWake outDetection f =
     (let criticalThreshold = 0; err = sensor_calibrate 3000 (f_sensor f)
      in if err = HAL_OK then
           (if \<not> isThresholdSane outWake outDetection criticalThreshold then
              (let t = default_thresholds (c_sensor c) in (th_wake t, th_detection t, store_thresholds t f))
            else
              (let f = store_thresholds \<lparr>th_wake = outWake, th_detection = outDetection,
                         th_critical = criticalThreshold\<rparr> f
               in (outWake, outDetection, baseline_from_sensor c lock f)))
         else (outWake, outDetection, f))"

definition loadCalibrationFromRTC :: "sensor_cfg \<Rightarrow> ('n, 'u, 'f, 'd, 's) firmware \<Rightarrow>
    bool \<times> ('n, 'u, 'f, 'd, 's) firmware" where
  "loadCalibrationFromRTC c f =
     (let d = f_rtcCalibration f
      in if calibration_crc d = cal_crc32 d \<and> isThresholdSane (cal_wakeThresholdLow d)
             (cal_detectionThresholdLow d) (cal_criticalDetectionThreshold d)
         then (True, f\<lparr>f_thresholds := \<lparr>th_wake = cal_wakeThresholdLow d,
                 th_detection = cal_detectionThresholdLow d, th_critical = cal_criticalDetectionThreshold d\<rparr>\<rparr>)
         else (False, f\<lparr>f_thresholds := default_thresholds c\<rparr>))"

text \<open>The calibration block of \<open>setup\<close>.\<close>

definition setup_calibration :: "('n, 'u, 'f, 'd, 's) fw_cfg \<Rightarrow> fw_env \<Rightarrow>
    ('n, 'u, 'f, 'd, 's) firmware \<Rightarrow> ('n, 'u, 'f, 'd, 's) firmware" where
  "setup_calibration c env f =
     (case loadCalibrationFromRTC (c_sensor c) f of
        (True, f) \<Rightarrow>
          (let d = f_rtcCalibration f;
               sn = setBaseThresholds (cal_wakeThresholdLow d) (cal_detectionThresholdLow d)
                      (cal_criticalDetectionThreshold d) (f_sensor f)
           in f\<lparr>f_sensor := sn, f_thresholds := \<lparr>th_wake = sn_wakeThreshold sn,
                 th_detection = getDetectionThreshold sn, th_critical = getCriticalDetectionThreshold sn\<rparr>\<rparr>)
      | (False, f) \<Rightarrow> on_sys (led_color (fv_sys env) (COLOR_BOOT c)) f)"

section \<open>Callbacks of the protocol handler\<close>

definition onTimeSyncReceived :: "fw_env \<Rightarrow> u32 \<Rightarrow> ('n, 'u, 'f, 'd, 's) firmware \<Rightarrow>
    ('n, 'u, 'f, 'd, 's) firmware" where
  "onTimeSyncReceived env epochSeconds f =
     (let (t, f) = fw_ms env f
      in f\<lparr>f_rtcTimeSync := (f_rtcTimeSync f)\<lparr>ts_syncedEpoch := epochSeconds, ts_syncedMillis := t,
             ts_isValid := 1\<rparr>\<rparr>)"

definition stop_ml :: "('n, 'u, 'f, 'd, 's) fw_cfg \<Rightarrow> fw_env \<Rightarrow>
    ('n, 'u, 'f, 'd, 's) firmware \<Rightarrow> ('n, 'u, 'f, 'd, 's) firmware" where
  "stop_ml c env f =
     f\<lparr>f_inference := inference_shutdown (f_inference f),
       f_personal := personal_shutdown (c_calApi c) (c_cal c) (fv_lock env) (fv_turns env) (f_personal f),
       f_logger := logger_shutdown (c_spiffs c) (fv_loggerTurns env) (f_logger f)\<rparr>"

definition onSleepCommandReceived :: "('n, 'u, 'f, 'd, 's) fw_cfg \<Rightarrow> fw_env \<Rightarrow>
    ('n, 'u, 'f, 'd, 's) firmware \<Rightarrow> ('n, 'u, 'f, 'd, 's) firmware" where
  "onSleepCommandReceived c env f = on_sys (requestSleep (c_pow c) (fv_sys env)) (stop_ml c env f)"

text \<open>
  What a handler asked for while it ran: the callbacks into the main program and the calls of the
  sensor. They touch no state that the handler reads afterwards, so they are applied in their
  order when it returns. Setting the clock and restarting the chip are effects outside the state.
\<close>

fun dev_callback :: "('n, 'u, 'f, 'd, 's) fw_cfg \<Rightarrow> fw_env \<Rightarrow> dev_call \<Rightarrow>
    ('n, 'u, 'f, 'd, 's) firmware \<Rightarrow> ('n, 'u, 'f, 'd, 's) firmware" where
  "dev_callback c env DC_activity f = on_sys (notifyActivity (c_pow c) (fv_sys env)) f"
| "dev_callback c env (DC_suppress ms) f =
     (let (t, f) = fw_ms env f in f\<lparr>f_sensor := suppressDetections t ms (f_sensor f)\<rparr>)"
| "dev_callback c env (DC_timeSync epoch) f = onTimeSyncReceived env epoch f"
| "dev_callback c env DC_sleep f = onSleepCommandReceived c env f"
| "dev_callback c env (DC_sensitivity v) f = f\<lparr>f_sensor := setUserSensitivity v (f_sensor f)\<rparr>"
| "dev_callback c env (DC_settime s us) f = f"
| "dev_callback c env DC_calibrate f = snd (snd (onCalibrateRequested c (fv_lock env) 0 0 f))"
| "dev_callback c env DC_restart f = f"

definition run_callbacks :: "('n, 'u, 'f, 'd, 's) fw_cfg \<Rightarrow> fw_env \<Rightarrow> nat \<Rightarrow>
    ('n, 'u, 'f, 'd, 's) firmware \<Rightarrow> ('n, 'u, 'f, 'd, 's) firmware" where
  "run_callbacks c env before f = fold (dev_callback c env) (drop before (d_calls (fw_dev f))) f"

definition fw_receive :: "('n, 'u, 'f, 'd, 's) fw_cfg \<Rightarrow> fw_env \<Rightarrow> bytes \<Rightarrow>
    ('n, 'u, 'f, 'd, 's) firmware \<Rightarrow> ('n, 'u, 'f, 'd, 's) firmware option" where
  "fw_receive c env data f =
     map_option (\<lambda>s. run_callbacks c env (length (d_calls (fw_dev f))) (f\<lparr>f_sys := s\<rparr>))
       (onBLEDataReceived (c_dev c) (fv_sys env) data (f_sys f))"

section \<open>The button\<close>

datatype button_act = BA_press | BA_toggle | BA_clear

text \<open>
  The decisions of \<open>handleButtonInput\<close>; \<open>t\<close> gives the values of \<open>millis\<close> at its four reads.
\<close>

definition button_step :: "u32 \<Rightarrow> (nat \<Rightarrow> u32) \<Rightarrow> bool \<Rightarrow> button \<Rightarrow> button_act list \<times> button" where
  "button_step debounce t reading b =
     (let b = (if reading \<noteq> bn_last b then b\<lparr>bn_lastDebounce := t 0\<rparr> else b);
          (acts, b) =
            (if debounce < t 1 - bn_lastDebounce b then
               (let (acts, b) =
                      (if reading \<noteq> bn_state b then
                         (let b = b\<lparr>bn_state := reading\<rparr>
                          in if \<not> reading
                             then ([BA_press], b\<lparr>bn_pressStart := t 2, bn_longHandled := False\<rparr>)
                             else if \<not> bn_longHandled b then ([BA_toggle], b) else ([], b))
                       else ([], b))
                in if \<not> bn_state b \<and> \<not> bn_longHandled b \<and> 3000 < t 3 - bn_pressStart b
                   then (acts @ [BA_clear], b\<lparr>bn_longHandled := True\<rparr>) else (acts, b))
             else ([], b))
      in (acts, b\<lparr>bn_last := reading\<rparr>))"

definition led_flash :: "sys_env \<Rightarrow> u32 \<Rightarrow> ('n, 'u, 'f) system \<Rightarrow> ('n, 'u, 'f) system" where
  "led_flash env color s = (let (t, s) = sys_ms env s in on_led (flash t color) s)"

fun button_do :: "('n, 'u, 'f, 'd, 's) fw_cfg \<Rightarrow> fw_env \<Rightarrow> button_act \<Rightarrow>
    ('n, 'u, 'f) system \<Rightarrow> ('n, 'u, 'f) system" where
  "button_do c env BA_press s = s"
| "button_do c env BA_toggle s =
     (if b_pairingModeEnabled (d_ble (s_dev s))
      then on_dev (\<lambda>d. d\<lparr>d_ble := disablePairingMode (d_ble d)\<rparr>) s
      else on_dev (dev_enable_pairing (se_dev (fv_sys env))) s)"
| "button_do c env BA_clear s =
     (let fl = led_flash (fv_sys env);
          s = fl (COLOR_ACTIVE (c_pow c)) (fl (COLOR_ERROR (c_pow c))
                (fl (COLOR_ACTIVE (c_pow c)) (fl (COLOR_ERROR (c_pow c)) s)));
          s = on_dev (\<lambda>d. emit (deleteAllBonds (d_bonds d)) d) s;
          s = on_dev (\<lambda>d. emit (ble_disconnect (fv_connections env) (d_ble d)) d) s
      in on_dev (dev_enable_pairing (se_dev (fv_sys env))) s)"

definition handleButtonInput :: "('n, 'u, 'f, 'd, 's) fw_cfg \<Rightarrow> fw_env \<Rightarrow>
    ('n, 'u, 'f, 'd, 's) firmware \<Rightarrow> ('n, 'u, 'f, 'd, 's) firmware" where
  "handleButtonInput c env f =
     (let k = d_tick (fw_dev f);
          (acts, b) = button_step (BUTTON_DEBOUNCE_MS c) (\<lambda>i. e_ms (se_dev (fv_sys env)) (k + i))
            (fv_button env) (f_button f);
          s = on_dev (tick \<circ> tick \<circ> tick \<circ> tick) (f_sys f)
      in f\<lparr>f_button := b, f_sys := fold (button_do c env) acts s\<rparr>)"

section \<open>Keep-alive and heartbeat\<close>

definition sendKeepalive :: "('n, 'u, 'f, 'd, 's) fw_cfg \<Rightarrow> fw_env \<Rightarrow> ('n, 'u, 'f) system \<Rightarrow>
    ('n, 'u, 'f) system" where
  "sendKeepalive c env s =
     (if \<not> b_deviceConnected (d_ble (s_dev s)) \<or> \<not> b_subscribed (d_ble (s_dev s)) then s
      else
        let (now, s) = sys_ms (fv_sys env) s
        in if KEEPALIVE_INTERVAL_MS c \<le> now - tm_lastKeepalive (s_timing s)
           then on_dev (snd \<circ> sendMessage (se_dev (fv_sys env)) MSG_HEARTBEAT None False)
                  (s\<lparr>s_timing := (s_timing s)\<lparr>tm_lastKeepalive := now\<rparr>\<rparr>)
           else s)"

definition checkHeartbeatTimeout :: "('n, 'u, 'f, 'd, 's) fw_cfg \<Rightarrow> fw_env \<Rightarrow> ('n, 'u, 'f) system \<Rightarrow>
    ('n, 'u, 'f) system" where
  "checkHeartbeatTimeout c env s =
     (if \<not> b_deviceConnected (d_ble (s_dev s)) then s
      else if dt_isDetecting (s_detect s) then s
      else if 0 < d_bonds (s_dev s) then s
      else
        let (now, s) = sys_ms (fv_sys env) s
        in if HEARTBEAT_TIMEOUT_MS c < now - tm_lastHeartbeat (s_timing s)
           then requestSleep (c_pow c) (fv_sys env) s else s)"

section \<open>The sensor task\<close>

text \<open>In the published source the detection algorithm does nothing.\<close>

definition handleDetection :: "u16 \<Rightarrow> ('n, 'u, 'f, 'd, 's) firmware \<Rightarrow> ('n, 'u, 'f, 'd, 's) firmware" where
  "handleDetection proximityValue f = f"

definition FLAG_WARMUP_ACTIVE :: u8 where "FLAG_WARMUP_ACTIVE = 0x01"
definition FLAG_BLE_CONNECTED :: u8 where "FLAG_BLE_CONNECTED = 0x02"
definition FLAG_USB_POWERED :: u8 where "FLAG_USB_POWERED = 0x04"
definition FLAG_CALIBRATION_VALID :: u8 where "FLAG_CALIBRATION_VALID = 0x08"

definition ml_flags :: "bool \<Rightarrow> bool \<Rightarrow> bool \<Rightarrow> bool \<Rightarrow> u8" where
  "ml_flags warmup connected usb calibrated =
     (let mlFlags = 0;
          mlFlags = (if warmup then mlFlags OR FLAG_WARMUP_ACTIVE else mlFlags);
          mlFlags = (if connected then mlFlags OR FLAG_BLE_CONNECTED else mlFlags);
          mlFlags = (if usb then mlFlags OR FLAG_USB_POWERED else mlFlags)
      in if calibrated then mlFlags OR FLAG_CALIBRATION_VALID else mlFlags)"

text \<open>Once per second the task refreshes its copy of the thresholds and the flags of the recorder.\<close>

definition refresh_flags :: "('n, 'u, 'f, 'd, 's) fw_cfg \<Rightarrow> fw_env \<Rightarrow>
    ('n, 'u, 'f, 'd, 's) firmware \<Rightarrow> ('n, 'u, 'f, 'd, 's) firmware" where
  "refresh_flags c env f =
     (let (now, f) = fw_ms env f
      in if 1000 \<le> now - f_lastDebugLog f then
           f\<lparr>f_lastDebugLog := now,
             f_thresholds := (f_thresholds f)\<lparr>th_detection := getDetectionThreshold (f_sensor f),
               th_critical := getCriticalDetectionThreshold (f_sensor f)\<rparr>,
             f_logger := setRuntimeFlags (ml_flags (f_warmup f) (fw_connected f) (ARDUINO_USB_CDC_ON_BOOT c)
               (sn_wakeThreshold (f_sensor f) \<noteq> 0)) (f_logger f)\<rparr>
         else f)"

text \<open>The decision of a sample during the sleep preparation.\<close>

definition sleep_cancel :: "('n, 'f) power_cfg \<Rightarrow> sys_env \<Rightarrow> u16 \<Rightarrow> ('n, 'u, 'f) system \<Rightarrow> ('n, 'u, 'f) system" where
  "sleep_cancel pc env proximity s =
     (let (t, s) = sys_ms env s
      in if shouldForceSleep pc t (b_deviceConnected (d_ble (s_dev s))) (s_pow s) then s
         else if getDynamicSleepCancelThreshold pc (s_pow s) < proximity then
           (let (maxCancelsReached, p) = incrementSleepCancelCount pc (s_pow s); s = on_pow (\<lambda>_. p) s
            in if maxCancelsReached then s else cancelSleep pc env s)
         else s)"

definition sensor_rest :: "('n, 'u, 'f, 'd, 's) fw_cfg \<Rightarrow> fw_env \<Rightarrow> u16 \<Rightarrow>
    ('n, 'u, 'f, 'd, 's) firmware \<Rightarrow> ('n, 'u, 'f, 'd, 's) firmware" where
  "sensor_rest c env proximity f =
     (let f = refresh_flags c env f;
          state = fw_state f;
          (state, f) =
            (if state = WAKE_MODE \<and> fw_connected f
             then (ACTIVE, on_sys (transitionTo (c_pow c) (fv_sys env) ACTIVE) f) else (state, f));
          f = (if state \<in> {ACTIVE, DETECTION_ACTIVE, WAKE_MODE, SLEEP_PREP} then handleDetection proximity f else f);
          f = (if state = DETECTION_ACTIVE then f
               else (let f = (if f_stuckActive f then f\<lparr>f_stuckActive := False, f_stuckStart := 0\<rparr> else f)
                     in f\<lparr>f_requestBackoff := False\<rparr>));
          f = (if state = WAKE_MODE \<or> state = SLEEP_PREP
               then on_sys (on_pow (updateRollingProxAverage (c_pow c) proximity)) f else f)
      in if state = SLEEP_PREP then on_sys (sleep_cancel (c_pow c) (fv_sys env) proximity) f else f)"

definition sample_of :: "fw_env \<Rightarrow> ('n, 'u, 'f, 'd, 's) firmware \<Rightarrow> sample_env" where
  "sample_of env f =
     (let sn = f_sensor f;
          fill = (\<lambda>e. e\<lparr>fe_thresholds := Some (sn_wakeThreshold sn, getDetectionThreshold sn,
                      getCriticalDetectionThreshold sn),
                    fe_sensitivity := Some (getSensitivity (d_cfg (fw_dev f)))\<rparr>)
      in (fv_sample env)\<lparr>se_fill := fill (se_fill (fv_sample env)), se_fill2 := fill (se_fill2 (fv_sample env))\<rparr>)"

text \<open>One pass of the loop of \<open>sensorTask\<close>. During the first second only the average is updated.\<close>

definition sensor_pass :: "('n, 'u, 'f, 'd, 's) fw_cfg \<Rightarrow> fw_env \<Rightarrow>
    ('n, 'u, 'f, 'd, 's) firmware \<Rightarrow> ('n, 'u, 'f, 'd, 's) firmware" where
  "sensor_pass c env f =
     (let (t, f) = fw_ms env f;
          (proximity, sn) = readProximity (c_i2c c) t (f_sensor f);
          f = f\<lparr>f_sensor := sn\<rparr>;
          f = f\<lparr>f_logger := appendSample (c_ml c) (sample_of env f) proximity (SAMPLING_PERIOD_MS c) (f_logger f)\<rparr>
      in if f_warmup f then
           (let (now, f) = fw_ms env f
            in if 1000 \<le> now - f_taskStart f
               then sensor_rest c env proximity (f\<lparr>f_warmup := False\<rparr>)
               else on_sys (on_pow (updateRollingProxAverage (c_pow c) proximity)) f)
         else sensor_rest c env proximity f)"

section \<open>The main loop\<close>

definition serial_command :: "('n, 'u, 'f, 'd, 's) fw_cfg \<Rightarrow> fw_env \<Rightarrow> string \<Rightarrow>
    ('n, 'u, 'f, 'd, 's) firmware \<Rightarrow> ('n, 'u, 'f, 'd, 's) firmware" where
  "serial_command c env line f =
     (let m = processSerialMLCommand (c_spiffs c) (c_calApi c) (c_fo c) (c_cal c) (c_defaultNorm c)
                (fv_lock env) (fv_lock2 env) line
                \<lparr>ms_logger = f_logger f, ms_personal = f_personal f, ms_reply = f_reply f\<rparr>
      in f\<lparr>f_logger := ms_logger m, f_personal := ms_personal m, f_reply := ms_reply m\<rparr>)"

definition serial_input :: "('n, 'u, 'f, 'd, 's) fw_cfg \<Rightarrow> fw_env \<Rightarrow>
    ('n, 'u, 'f, 'd, 's) firmware \<Rightarrow> ('n, 'u, 'f, 'd, 's) firmware" where
  "serial_input c env f =
     (let (buf, f) = foldl (serial_char (serial_command c env)) (f_serial f, f) (fv_serial env)
      in f\<lparr>f_serial := buf\<rparr>)"

definition fw_stability :: "('n, 'u, 'f, 'd, 's) fw_cfg \<Rightarrow> u32 \<Rightarrow>
    ('n, 'u, 'f, 'd, 's) firmware \<Rightarrow> ('n, 'u, 'f, 'd, 's) firmware" where
  "fw_stability c now f =
     (let r = \<lparr>g_crash_counter = f_crashCounter f, g_rtc_magic = d_rtcMagic (fw_dev f),
                g_boot_mode = d_bootMode (fw_dev f), g_stability_counter = f_stability f\<rparr>;
          (r, t, n) = stabilityCheck (c_boot c) (pc_nvs (c_pow c)) now r (f_tracker f) (d_nvs (fw_dev f))
      in on_sys (on_dev (\<lambda>d. d\<lparr>d_nvs := n\<rparr>)) (f\<lparr>f_stability := g_stability_counter r, f_tracker := t\<rparr>))"

definition fw_ble_update :: "('n, 'u, 'f, 'd, 's) fw_cfg \<Rightarrow> fw_env \<Rightarrow> ('n, 'u, 'f) system \<Rightarrow> ('n, 'u, 'f) system" where
  "fw_ble_update c env s =
     (let (now, s) = sys_ms (fv_sys env) s;
          (b, outs) = ble_update (PAIRING_WINDOW_MS c) (d_bonds (s_dev s)) now (fv_found env) (d_ble (s_dev s))
      in on_dev (\<lambda>d. emit outs (d\<lparr>d_ble := b\<rparr>)) s)"

definition fw_ota_update :: "('n, 'u, 'f, 'd, 's) fw_cfg \<Rightarrow> fw_env \<Rightarrow> ('n, 'u, 'f) system \<Rightarrow> ('n, 'u, 'f) system" where
  "fw_ota_update c env s =
     (let (now, s) = sys_ms (fv_sys env) s;
          (ot, u, ms) = ota_update (v_ota (c_dev c)) (v_update (c_dev c)) now (d_ota (s_dev s)) (d_upd (s_dev s))
      in on_dev (\<lambda>d. send_all (se_dev (fv_sys env)) ms (d\<lparr>d_ota := ot, d_upd := u\<rparr>)) s)"

definition fw_net_loop :: "('n, 'u, 'f, 'd, 's) fw_cfg \<Rightarrow> fw_env \<Rightarrow>
    ('n, 'u, 'f, 'd, 's) firmware \<Rightarrow> ('n, 'u, 'f, 'd, 's) firmware option" where
  "fw_net_loop c env f =
     map_option (\<lambda>s. on_sys (on_dev (\<lambda>_. nt_dev s)) (f\<lparr>f_wifi := nt_wifi s, f_time := nt_time s, f_netLog := nt_log s\<rparr>))
       (net_loop (c_dev c) ((fv_net env)\<lparr>ck_dev := se_dev (fv_sys env)\<rparr>)
         \<lparr>nt_dev = fw_dev f, nt_wifi = f_wifi f, nt_time = f_time f, nt_log = f_netLog f\<rparr>)"

text \<open>
  \<open>powerManager.update\<close>; the callback that stops the ML services runs when \<open>enterDeepSleep\<close> has asked
  for it. The boolean says that the chip sleeps.
\<close>

definition ml_stop_requested :: "('n, 'u, 'f) system \<Rightarrow> ('n, 'u, 'f) system \<Rightarrow> bool" where
  "ml_stop_requested s s' \<longleftrightarrow> SA_stopML \<in> set (drop (length (s_acts s)) (s_acts s'))"

definition fw_power_update :: "('n, 'u, 'f, 'd, 's) fw_cfg \<Rightarrow> fw_env \<Rightarrow> ('n, 'u, 'f, 'd, 's) firmware \<Rightarrow>
    (bool \<times> ('n, 'u, 'f, 'd, 's) firmware) option" where
  "fw_power_update c env f =
     map_option (\<lambda>(out, s). (out = Some Slept,
         (if ml_stop_requested (f_sys f) s then stop_ml c env else (\<lambda>f. f)) (f\<lparr>f_sys := s\<rparr>)))
       (power_update (c_dev c) (c_pow c) (fv_sys env) (f_sys f))"

text \<open>The rest of a pass after the power manager.\<close>

definition loop_tail :: "('n, 'u, 'f, 'd, 's) fw_cfg \<Rightarrow> fw_env \<Rightarrow> u32 \<Rightarrow>
    ('n, 'u, 'f, 'd, 's) firmware \<Rightarrow> ('n, 'u, 'f, 'd, 's) firmware" where
  "loop_tail c env now f =
     (let f = (if fw_connected f then on_sys (sendKeepalive c env) f else f);
          f = (if fw_state f = ACTIVE then on_sys (checkHeartbeatTimeout c env) f else f);
          f = (if 60 \<le> now - f_lastLedUpdate f
               then on_sys (led_tick (c_pow c) (fv_sys env)) (f\<lparr>f_lastLedUpdate := now\<rparr>) else f);
          f = handleButtonInput c env f
      in serial_input c env f)"

text \<open>One pass of \<open>loop\<close>: no result for a scan of the log that never ends, true if the chip sleeps.\<close>

definition fw_loop :: "('n, 'u, 'f, 'd, 's) fw_cfg \<Rightarrow> fw_env \<Rightarrow> ('n, 'u, 'f, 'd, 's) firmware \<Rightarrow>
    (bool \<times> ('n, 'u, 'f, 'd, 's) firmware) option" where
  "fw_loop c env f =
     (let (now, f) = fw_ms env f;
          f = fw_stability c now f;
          f = on_sys (fw_ble_update c env) f;
          f = on_sys (on_dev (processRetries (c_dev c) (se_dev (fv_sys env)))) f
      in case pump_update (c_dev c) (se_dev (fv_sys env)) (f_pump f) (fw_dev f) of
           None \<Rightarrow> None
         | Some (q, d) \<Rightarrow>
             (case fw_power_update c env (on_sys (on_dev (\<lambda>_. d)) (f\<lparr>f_pump := q\<rparr>)) of
                None \<Rightarrow> None
              | Some (True, f) \<Rightarrow> Some (True, f)
              | Some (False, f) \<Rightarrow>
                  (let f = on_sys (fw_ota_update c env) f
                   in case fw_net_loop c env f of
                        None \<Rightarrow> None
                      | Some f \<Rightarrow> Some (False, loop_tail c env now f))))"

section \<open>Set-up\<close>

text \<open>
  What the start reads: the reasons of the reset and the wake-up, the partition table, the state of
  the running image, whether the RTOS objects can be created, and the stored Wi-Fi credentials.
\<close>

record 'm setup_env =
  su_env :: fw_env
  su_reason :: reset_reason
  su_cause :: wakeup_cause
  su_pendingVerify :: bool
  su_part :: "string \<Rightarrow> u32 option"
  su_image :: "ota_img_state option"
  su_selfTest :: self_test_env
  su_markOk :: bool
  su_history :: init_env
  su_config :: config_env
  su_junk :: bytes
  su_protoMutex :: bool
  su_creds :: "'m creds_api \<times> 'm"
  su_timerOk :: bool
  su_logger :: logger_init_env
  su_personal :: "bool \<times> bool \<times> bool"
  su_inference :: "bool \<times> bool"

datatype 'a setup_result =
    Panic string | Rolled_back | Brownout_sleep 'a | Enter_flasher 'a | Scan_hangs | Ready 'a

text \<open>
  The objects of the program when it starts: the constructors run, RTC memory (\<open>h_state\<close>, the
  ghost-bond counter, the boot words, calibration and time sync), the hold of the LED pin and the flash
  keep what they have.
\<close>

definition fw_reset :: "('n, 'u, 'f, 'd, 's) fw_cfg \<Rightarrow> 'm setup_env \<Rightarrow>
    ('n, 'u, 'f, 'd, 's) firmware \<Rightarrow> ('n, 'u, 'f, 'd, 's) firmware" where
  "fw_reset c su f =
     (let d = fw_dev f; i = su_history su in
      \<lparr>f_sys = \<lparr>s_dev = d\<lparr>d_proto := proto_new (su_protoMutex su) (su_junk su),
                   d_ble := ble_new (b_ghostFailures (d_ble d)) (b_ghostMagic (d_ble d)),
                   d_hist := history_new (ie_mutexOk i) (ie_queueOk i) (h_state (d_hist d)),
                   d_cfg := config_new (ce_random (su_config su)), d_ota := ota_new\<rparr>,
          s_pow = power_new (c_pow c),
          s_led = led_new (l_hold (s_led (f_sys f))) (l_visible (s_led (f_sys f))),
          s_detect = \<lparr>dt_isDetecting = False, dt_startTime = 0, dt_confirmed = False\<rparr>,
          s_timing = \<lparr>tm_lastKeepalive = 0, tm_lastHeartbeat = 0, tm_connectionStart = 0\<rparr>,
          s_acts = []\<rparr>,
       f_sensor = sensor_new (c_sensor c) (sn_dev (f_sensor f)),
       f_logger = logger_new (c_ml c) (lg_fs (f_logger f)),
       f_personal = personal_new (c_cal c) (pe_nvs (f_personal f)), f_inference = inference_new,
       f_pump = pump_new, f_tracker = tracker_new, f_crashCounter = f_crashCounter f,
       f_stability = f_stability f, f_wifi = wifi_new, f_time = time_new, f_netLog = [],
       f_thresholds = default_thresholds (c_sensor c), f_rtcCalibration = f_rtcCalibration f,
       f_rtcTimeSync = f_rtcTimeSync f, f_requestBackoff = False, f_warmup = True,
       f_stuckActive = False, f_stuckStart = 0, f_taskStart = 0, f_lastDebugLog = 0,
       f_button = \<lparr>bn_last = True, bn_lastDebounce = 0, bn_state = True, bn_pressStart = 0,
          bn_longHandled = False\<rparr>,
       f_lastLedUpdate = 0, f_serial = [], f_reply = SR_help\<rparr>)"

text \<open>The boot counters and the decision for flasher mode.\<close>

definition setup_boot :: "('n, 'u, 'f, 'd, 's) fw_cfg \<Rightarrow> ('n \<Rightarrow> esp_err \<times> 'n) \<Rightarrow> 'm setup_env \<Rightarrow>
    ('n, 'u, 'f, 'd, 's) firmware \<Rightarrow> bool \<times> ('n, 'u, 'f, 'd, 's) firmware" where
  "setup_boot c erase su f =
     (let r = \<lparr>g_crash_counter = f_crashCounter f, g_rtc_magic = d_rtcMagic (fw_dev f),
                g_boot_mode = d_bootMode (fw_dev f), g_stability_counter = f_stability f\<rparr>;
          (enter, r, t, n) = boot_entry (c_boot c) (pc_nvs (c_pow c)) erase (su_pendingVerify su)
            (su_reason su) r (d_nvs (fw_dev f))
      in (enter, on_sys (on_dev (\<lambda>d. d\<lparr>d_nvs := n, d_rtcMagic := g_rtc_magic r, d_bootMode := g_boot_mode r\<rparr>))
            (f\<lparr>f_crashCounter := g_crash_counter r, f_stability := g_stability_counter r, f_tracker := t\<rparr>)))"

text \<open>The start after a brownout: the log is saved and the chip sleeps.\<close>

definition setup_brownout :: "('n, 'u, 'f, 'd, 's) fw_cfg \<Rightarrow> 'm setup_env \<Rightarrow>
    ('n, 'u, 'f, 'd, 's) firmware \<Rightarrow> (bool \<times> ('n, 'u, 'f, 'd, 's) firmware) option" where
  "setup_brownout c su f =
     map_option (\<lambda>(brownout, h, n). (brownout, on_sys (on_dev (\<lambda>d. d\<lparr>d_hist := h, d_nvs := n\<rparr>)) f))
       (handleBrownoutRecovery (v_hist (c_dev c)) (v_prefs (c_dev c)) (su_junk su)
          ((su_history su)\<lparr>ie_resetReason := su_reason su\<rparr>) (ie_lock (su_history su))
          (d_hist (fw_dev f)) (d_nvs (fw_dev f)))"

text \<open>Phase 0: partitions and flash. Phase 1: LED and sensor, whose identifier must be right.\<close>

definition setup_storage :: "('n, 'u, 'f, 'd, 's) fw_cfg \<Rightarrow> ('n \<Rightarrow> esp_err \<times> 'n) \<Rightarrow> 'm setup_env \<Rightarrow>
    ('n, 'u, 'f, 'd, 's) firmware \<Rightarrow> string + ('n, 'u, 'f, 'd, 's) firmware" where
  "setup_storage c erase su f =
     (let (valid, st) = validatePartitions (su_part su) storage_new
      in if \<not> valid then Inl (''Partition Error: '' @ getErrorString (sh_lastError st))
         else
           let (err, st, n) = initNvs (pc_nvs (c_pow c)) erase st (d_nvs (fw_dev f))
           in if err \<noteq> HAL_OK then Inl ''NVS initialization failed - cannot proceed''
              else Inr (on_sys (on_dev (\<lambda>d. d\<lparr>d_nvs := n\<rparr>)) f))"

definition hex2 :: "u16 \<Rightarrow> string" where
  "hex2 v = map (\<lambda>k. ''0123456789ABCDEF'' ! unat k) [drop_bit 4 v AND 0xF, v AND 0xF]"

definition setup_hal :: "('n, 'u, 'f, 'd, 's) fw_cfg \<Rightarrow> fw_env \<Rightarrow>
    ('n, 'u, 'f, 'd, 's) firmware \<Rightarrow> string + ('n, 'u, 'f, 'd, 's) firmware" where
  "setup_hal c env f =
     (let (t, f) = fw_ms env f;
          f = on_sys (on_led (led_init t)) f;
          f = on_sys (led_color (fv_sys env) (COLOR_BOOT c)) f;
          (err, sn) = sensor_init (c_i2c c) (f_sensor f);
          f = f\<lparr>f_sensor := sn\<rparr>
      in if err \<noteq> HAL_OK then Inr (on_sys (led_color (fv_sys env) (COLOR_ERROR (c_pow c))) f)
         else
           let (sensorId, sn) = getSensorId (c_i2c c) (f_sensor f); f = f\<lparr>f_sensor := sn\<rparr>
           in if sensorId AND 0x00FF \<noteq> 0x80 then Inl (''SENSOR ID MISMATCH: Expected 0x80, Got 0x'' @ hex2 (sensorId AND 0xFF)) else Inr f)"

text \<open>The services that keep data: the log and the settings.\<close>

definition setup_services :: "('n, 'u, 'f, 'd, 's) fw_cfg \<Rightarrow> 'm setup_env \<Rightarrow>
    ('n, 'u, 'f, 'd, 's) firmware \<Rightarrow> ('n, 'u, 'f, 'd, 's) firmware" where
  "setup_services c su f =
     (let d = fw_dev f;
          h = history_init (v_hist (c_dev c)) (v_prefs (c_dev c)) (su_junk su)
                ((su_history su)\<lparr>ie_resetReason := su_reason su\<rparr>) (d_hist d) (d_nvs d);
          (ok, clock, hal, cfg, n) = config_init (pc_nvs (c_pow c)) True (su_config su) (d_cfg d) (d_nvs d)
      in (on_sys (on_dev (\<lambda>d. d\<lparr>d_hist := h, d_cfg := cfg, d_nvs := n\<rparr>)) f)
           \<lparr>f_sensor := fold setUserSensitivity hal (f_sensor f)\<rparr>)"

text \<open>The link, the protocol and what is built on them. \<open>init\<close> of \<open>BLEManager\<close> always returns true.\<close>

definition setup_link :: "('n, 'u, 'f, 'd, 's) fw_cfg \<Rightarrow> 'm setup_env \<Rightarrow>
    ('n, 'u, 'f, 'd, 's) firmware \<Rightarrow> ('n, 'u, 'f, 'd, 's) firmware" where
  "setup_link c su f =
     (let env = su_env su;
          (t, f) = fw_ms env f;
          (b, bonds, outs) = ble_init True (d_bonds (fw_dev f)) t (d_ble (fw_dev f));
          f = on_sys (on_dev (\<lambda>d. emit outs (d\<lparr>d_ble := b\<lparr>b_eventHandler := True\<rparr>, d_bonds := bonds,
                d_proto := (snd (proto_init True True (d_proto d)))\<lparr>p_otaManager := True\<rparr>,
                d_ota := ota_init True True (d_ota d)\<rparr>))) f;
          (t, f) = fw_ms env f;
          f = f\<lparr>f_pump := snd (pump_init True True True t (f_pump f))\<rparr>
      in on_sys (\<lambda>s. on_pow (\<lambda>p. (setOTAManager True p)\<lparr>w_onBeforeSleep := True\<rparr>)
           (power_init (c_pow c) (fv_sys env) (su_reason su) (su_cause su) True True True s)) f)"

definition setup_net :: "'m setup_env \<Rightarrow> ('n, 'u, 'f, 'd, 's) firmware \<Rightarrow> ('n, 'u, 'f, 'd, 's) firmware" where
  "setup_net su f =
     (let s = net_setup (fst (su_creds su)) (snd (su_creds su)) (su_reason su) (su_timerOk su) (fw_dev f)
      in f\<lparr>f_wifi := nt_wifi s, f_time := nt_time s, f_netLog := nt_log s\<rparr>)"

definition setup_ml :: "('n, 'u, 'f, 'd, 's) fw_cfg \<Rightarrow> 'm setup_env \<Rightarrow>
    ('n, 'u, 'f, 'd, 's) firmware \<Rightarrow> ('n, 'u, 'f, 'd, 's) firmware" where
  "setup_ml c su f =
     (let lg = snd (logger_init (c_spiffs c) (su_logger su) (f_logger f));
          (mutexOk, timerOk, taskOk) = su_personal su;
          pe = snd (personal_init (c_calApi c) (c_cal c) mutexOk timerOk taskOk (f_personal f));
          (queueOk, inferenceOk) = su_inference su;
          inf = snd (inference_init True True queueOk inferenceOk (f_inference f));
          lg = setBootCount (ucast (getBootCount (d_hist (fw_dev f)) AND 0xFF)) lg
      in baseline_from_sensor c (fv_lock (su_env su)) (f\<lparr>f_logger := lg, f_personal := pe, f_inference := inf\<rparr>))"

text \<open>The end of \<open>setup\<close>, and the start of the sensor task.\<close>

definition setup_finish :: "('n, 'u, 'f, 'd, 's) fw_cfg \<Rightarrow> fw_env \<Rightarrow>
    ('n, 'u, 'f, 'd, 's) firmware \<Rightarrow> ('n, 'u, 'f, 'd, 's) firmware" where
  "setup_finish c env f =
     (let f = on_sys (transitionTo (c_pow c) (fv_sys env) WAKE_MODE) f;
          (t, f) = fw_ms env f;
          f = on_sys (\<lambda>s. s\<lparr>s_timing := (s_timing s)\<lparr>tm_lastHeartbeat := t\<rparr>\<rparr>) f;
          (t, f) = fw_ms env f
      in f\<lparr>f_taskStart := t, f_crashCounter := 0\<rparr>)"

definition fw_setup :: "('n, 'u, 'f, 'd, 's) fw_cfg \<Rightarrow> ('n \<Rightarrow> esp_err \<times> 'n) \<Rightarrow> 'm setup_env \<Rightarrow>
    ('n, 'u, 'f, 'd, 's) firmware \<Rightarrow> ('n, 'u, 'f, 'd, 's) firmware setup_result" where
  "fw_setup c erase su f =
     (let (enter, f) = setup_boot c erase su (fw_reset c su f)
      in if enter then Enter_flasher f
         else case setup_brownout c su f of
             None \<Rightarrow> Scan_hangs
           | Some (True, f) \<Rightarrow> Brownout_sleep f
           | Some (False, f) \<Rightarrow>
          (case setup_storage c erase su f of
             Inl msg \<Rightarrow> Panic msg
           | Inr f \<Rightarrow>
          (case setup_hal c (su_env su) f of
             Inl msg \<Rightarrow> Panic msg
           | Inr f \<Rightarrow>
          (case validateBootedFirmware (v_ota (c_dev c)) True (su_image su) (su_selfTest su) (su_markOk su) of
             Rollback \<Rightarrow> Rolled_back
           | Returned _ _ \<Rightarrow>
               Ready (setup_finish c (su_env su) (setup_ml c su (setup_net su (setup_link c su
                 (setup_calibration c (su_env su) (setup_services c su f))))))))))"

end
