(* ===== verification/Fw_MainInv.thy ===== *)
theory Fw_MainInv
  imports Fw_Main
begin

text \<open>
  The invariants of the device and of the system around it. The device (\<open>dev_inv\<close>): the log is valid, the
  table of pending messages has its slots, the update manager is wired up; every handler of the
  protocol keeps it and returns. The system (\<open>sys_inv\<close>): also the count of cancelled sleeps is in its bound;
  every transition, the entry of deep sleep, the poll of the power manager and the network services
  keep it and return.
\<close>

section \<open>The device\<close>

definition dev_inv :: "('n, 'u) dev_cfg \<Rightarrow> ('n, 'u) device \<Rightarrow> bool" where
  "dev_inv c d \<longleftrightarrow> hist_inv (v_hist c) (d_hist d) \<and> length (p_pending (d_proto d)) = MAX_PENDING_MESSAGES \<and>
     (p_otaManager (d_proto d) \<longrightarrow> o_protocolHandler (d_ota d))"

lemma dev_invD:
  assumes "dev_inv c d"
  shows "hist_inv (v_hist c) (d_hist d)" "h_valid (v_hist c) (d_hist d)"
    "length (p_pending (d_proto d)) = MAX_PENDING_MESSAGES"
  using assms by (simp_all add: dev_inv_def hist_inv_def)

lemma dev_inv_simps [simp]:
  "dev_inv c (tick d) = dev_inv c d" "dev_inv c (emit outs d) = dev_inv c d" "dev_inv c (call cs d) = dev_inv c d"
  "dev_inv c (d\<lparr>d_ble := b\<rparr>) = dev_inv c d" "dev_inv c (d\<lparr>d_nvs := n\<rparr>) = dev_inv c d"
  "dev_inv c (d\<lparr>d_cfg := cfg\<rparr>) = dev_inv c d" "dev_inv c (d\<lparr>d_upd := u\<rparr>) = dev_inv c d"
  "dev_inv c (d\<lparr>d_rtcMagic := m\<rparr>) = dev_inv c d" "dev_inv c (d\<lparr>d_bootMode := m\<rparr>) = dev_inv c d"
  "dev_inv c (d\<lparr>d_bonds := k\<rparr>) = dev_inv c d"
  by (simp_all add: dev_inv_def tick_def emit_def call_def)

lemma dev_inv_hist: "dev_inv c d \<Longrightarrow> hist_inv (v_hist c) h \<Longrightarrow> dev_inv c (d\<lparr>d_hist := h\<rparr>)"
  by (simp add: dev_inv_def)

lemma dev_inv_ota: "dev_inv c d \<Longrightarrow> o_protocolHandler s = o_protocolHandler (d_ota d) \<Longrightarrow> dev_inv c (d\<lparr>d_ota := s\<rparr>)"
  by (simp add: dev_inv_def)

text \<open>Updates of the protocol handler that keep the number of slots and the link to the update manager.\<close>

definition proto_keeps :: "proto \<Rightarrow> proto \<Rightarrow> bool" where
  "proto_keeps p' p \<longleftrightarrow> length (p_pending p') = length (p_pending p) \<and> p_otaManager p' = p_otaManager p"

lemma dev_inv_proto: "dev_inv c d \<Longrightarrow> proto_keeps p (d_proto d) \<Longrightarrow> dev_inv c (d\<lparr>d_proto := p\<rparr>)"
  by (simp add: dev_inv_def proto_keeps_def)

lemma dev_inv_upd: "dev_inv c d \<Longrightarrow> proto_keeps (f (d_proto d)) (d_proto d) \<Longrightarrow> dev_inv c (upd_proto f d)"
  by (simp add: upd_proto_def dev_inv_proto)

lemma proto_keeps_ops [simp]:
  "proto_keeps (snd (trackPendingLocked s t bs n now p)) p" "proto_keeps (snd (clearPendingLocked s p)) p"
  "proto_keeps (clear_all p) p" "proto_keeps (incr_error p) p" "proto_keeps (ack_found i p) p"
  "proto_keeps (handleSecurityThresholdExceeded p) p"
  "proto_keeps (incr_error (snd (clearPendingLocked s p))) p"
  by (auto simp: proto_keeps_def trackPendingLocked_def clearPendingLocked_def clear_all_def incr_error_def
      ack_found_def handleSecurityThresholdExceeded_def Let_def split: option.split)

lemma ble_send_inv [simp]: "dev_inv c (snd (ble_send data d)) = dev_inv c d"
  by (simp add: ble_send_def split_def Let_def)

lemma sendMessage_proto: "proto_keeps (d_proto (snd (sendMessage env t payload ack d))) (d_proto d)"
  using proto_keeps_ops(1,2)
  by (auto simp: sendMessage_def Let_def split_def proto_keeps_def upd_proto_def ble_send_def emit_def tick_def
      incr_error_def split: option.split)

lemma sendMessage_inv: "dev_inv c d \<Longrightarrow> dev_inv c (snd (sendMessage env t payload ack d))"
  using sendMessage_proto [of env t payload ack d] services_eqD [OF sendMessage_services [of env t payload ack d]]
  by (simp add: dev_inv_def proto_keeps_def)

lemma send_invs:
  assumes "dev_inv c d"
  shows "dev_inv c (sendAck env s d)" "dev_inv c (sendNack env s e d)" "dev_inv c (snd (sendPong env d))"
    "dev_inv c (snd (sendConfigData env d))" "dev_inv c (snd (sendHelloAck c' env d))"
    "dev_inv c (snd (sendSleepNotification env d))" "dev_inv c (snd (sendWifiStatus env st r rs ip d))"
  using assms by (simp_all add: sendAck_def sendNack_def sendPong_def sendConfigData_def sendHelloAck_def
      sendSleepNotification_def sendWifiStatus_def sendMessage_inv Let_def split_def)

lemma send_all_inv: "dev_inv c d \<Longrightarrow> dev_inv c (send_all env ms d)"
  unfolding send_all_def by (induction ms arbitrary: d) (auto simp: sendMessage_inv)

lemma sendDetectionEvent_inv: "dev_inv c d \<Longrightarrow> dev_inv c (snd (sendDetectionEvent env e b d))"
  by (simp add: sendDetectionEvent_def Let_def split_def sendMessage_inv dev_inv_upd proto_keeps_def)

lemmas dev_send_invs = sendMessage_inv send_invs send_all_inv sendDetectionEvent_inv

section \<open>The handlers\<close>

lemma handleHello_inv: "dev_inv c d \<Longrightarrow> dev_inv c (handleHello c env s payload d)"
  by (simp add: handleHello_def Let_def split_def dev_send_invs dev_inv_hist inv_forward dev_invD)

lemma validateAckSecurity_inv: "dev_inv c d \<Longrightarrow> dev_inv c (snd (validateAckSecurity env s d))"
  by (simp add: validateAckSecurity_def Let_def split_def dev_inv_upd proto_keeps_def incr_error_def
      handleSecurityThresholdExceeded_def)

lemma mark_inv:
  assumes "hist_inv c h"
  shows "\<exists>b h'. markAsSynced c i lock h = Some (b, h') \<and> hist_inv c h'"
proof -
  have "\<exists>b h'. markAsSynced c i lock h = Some (b, h')"
  proof (cases lock)
    case True
    then show ?thesis by (metis markAsSynced_stored [OF hist_invD(1) [OF assms]])
  qed (use hist_invD(4) [OF assms] in \<open>auto simp: markAsSynced_def h_ready_def\<close>)
  then show ?thesis using inv_mark [OF assms] by blast
qed

lemma handleAck_inv:
  assumes "dev_inv c d"
  shows "\<exists>d'. handleAck c env payload d = Some d' \<and> dev_inv c d'"
proof -
  let ?v = "snd (validateAckSecurity env (rd_be16 (payload ! 0) (payload ! 1)) d)"
  have v: "dev_inv c ?v" using assms by (rule validateAckSecurity_inv)
  have "\<forall>i lock. \<exists>r. markAsSynced (v_hist c) i lock (d_hist ?v) = Some r \<and> hist_inv (v_hist c) (snd r)"
    using mark_inv [OF dev_invD(1) [OF v]] by fastforce
  then obtain M where "\<And>i lock. markAsSynced (v_hist c) i lock (d_hist ?v) = Some (M i lock)"
      "\<And>i lock. hist_inv (v_hist c) (snd (M i lock))" by metis
  then show ?thesis
    using assms v by (auto simp: handleAck_def Let_def split_def dev_inv_upd dev_inv_hist dev_invD split: option.split)
qed

lemma handleNack_inv: "dev_inv c d \<Longrightarrow> dev_inv c (handleNack env payload d)"
  by (simp add: handleNack_def clearPending_def Let_def split_def dev_inv_upd dev_inv_proto)

lemma getEventsSince_total: "h_valid c h \<Longrightarrow> getEventsSince c i n lock h \<noteq> None"
  using h_validD [of c h] by (auto simp: getEventsSince_def collect_events_stored)

lemma sync_loop_inv: "dev_inv c d \<Longrightarrow> \<exists>d'. sync_loop c env n i d = Some d' \<and> dev_inv c d'"
proof (induction n arbitrary: i d)
  case (Suc n)
  let ?l = "e_lock env (d_tick d)"
  obtain ok batch where b: "getEventsSince (v_hist c) i 1 ?l (d_hist (tick d)) = Some (ok, batch)"
    using getEventsSince_total [of "v_hist c" "d_hist (tick d)" i 1 ?l] dev_invD(2) [of c "tick d"] Suc.prems by auto
  show ?case
  proof (cases batch)
    case (Cons e es)
    have "dev_inv c (snd (sendDetectionEvent env e True (tick d)))"
      using Suc.prems by (simp add: sendDetectionEvent_inv)
    then show ?thesis using Suc b Cons by (simp add: Let_def split_def)
  qed (use Suc b in \<open>simp add: Let_def\<close>)
qed simp

lemma handleSyncRequest_inv: "dev_inv c d \<Longrightarrow> \<exists>d'. handleSyncRequest c env s payload d = Some d' \<and> dev_inv c d'"
proof -
  obtain d1 where "sync_loop c env 10 (rd_be32 (payload ! 0) (payload ! 1) (payload ! 2) (payload ! 3)) d = Some d1"
      "dev_inv c d1" if "dev_inv c d"
    using sync_loop_inv by blast
  then show "dev_inv c d \<Longrightarrow> ?thesis" by (simp add: handleSyncRequest_def Let_def dev_send_invs)
qed

lemma applyTimeSync_total: "h_valid c h \<Longrightarrow> applyTimeSync c epoch tenv h \<noteq> None"
proof (cases "te_lock tenv")
  case True
  assume "h_valid c h"
  then obtain tv h' where "applyTimeSync c epoch tenv h = Some (Some tv, h')"
    by (rule applyTimeSync_stored [OF _ True, of c h epoch])
  then show ?thesis by simp
qed (simp add: applyTimeSync_def Let_def)

lemma time_sync_inv:
  assumes "hist_inv c h"
  shows "\<exists>tv h'. applyTimeSync c epoch tenv h = Some (tv, h') \<and> hist_inv c h'"
  using applyTimeSync_total [of c h epoch tenv] inv_time [OF assms, of epoch tenv] assms
  by (cases "applyTimeSync c epoch tenv h") (auto simp: hist_inv_def)

lemma handleTimeSync_inv:
  assumes "dev_inv c d"
  shows "\<exists>d'. handleTimeSync c env s payload d = Some d' \<and> dev_inv c d'"
proof -
  have "\<forall>epoch tenv. \<exists>r. applyTimeSync (v_hist c) epoch tenv (d_hist d) = Some r \<and> hist_inv (v_hist c) (snd r)"
    using time_sync_inv [OF dev_invD(1) [OF assms]] by fastforce
  then obtain M where "\<And>epoch tenv. applyTimeSync (v_hist c) epoch tenv (d_hist d) = Some (M epoch tenv)"
      "\<And>epoch tenv. hist_inv (v_hist c) (snd (M epoch tenv))" by metis
  then show ?thesis
    using assms dev_invD(1) [OF assms]
    by (simp add: handleTimeSync_def Let_def split_def dev_send_invs dev_inv_hist)
qed

lemma ota_keeps_link:
  "o_protocolHandler (fst (snd (handleStart oc up nx now payload s u))) = o_protocolHandler s"
  "o_protocolHandler (fst (snd (handleData up now k bs s u))) = o_protocolHandler s"
  "o_protocolHandler (fst (snd (handleCommit up s u))) = o_protocolHandler s"
  "o_protocolHandler (fst (handleAbort up s u)) = o_protocolHandler s"
  "o_protocolHandler (fst (ota_update oc up now s u)) = o_protocolHandler s"
  by (simp_all add: handleStart_def handleData_def handleCommit_def handleAbort_def ota_update_def ota_updateCRC_def
      ota_reject_def Let_def case_prod_beta split: option.split)

lemma ota_handlers_inv:
  assumes "dev_inv c d"
  shows "dev_inv c (handleOtaStart c env s payload d)" "dev_inv c (handleOtaData c env s payload d)"
    "dev_inv c (handleOtaCommit c env s d)" "dev_inv c (handleOtaAbort c env s d)"
  using assms by (simp_all add: handleOtaStart_def handleOtaData_def handleOtaCommit_def handleOtaAbort_def
      Let_def split_def dev_send_invs dev_inv_ota ota_keeps_link)

lemma handleOtaInfo_inv:
  assumes "dev_inv c d"
  shows "\<exists>d'. handleOtaInfo c env s d = Some d' \<and> dev_inv c d'"
  using assms by (auto simp: handleOtaInfo_def handleInfoRequest_def dev_send_invs) (simp add: dev_inv_def)

lemma plain_handlers_inv:
  assumes "dev_inv c d"
  shows "dev_inv c (handleHeartbeat d)" "dev_inv c (handlePing env s d)" "dev_inv c (handleCalibrate c env s d)"
    "dev_inv c (handleSetConfig env s payload d)" "dev_inv c (handleGetConfig env s d)"
    "dev_inv c (handleSleepCommand c env s d)" "dev_inv c (dev_enable_pairing env d)"
    "dev_inv c (handlePairingMode env s d)" "dev_inv c (handleClearBonds env s d)"
    "dev_inv c (handleSetWifi env s payload d)" "dev_inv c (handleEnterOtaMode c env s d)"
  using assms by (simp_all add: handleHeartbeat_def handlePing_def handleCalibrate_def handleSetConfig_def
      handleGetConfig_def handleSleepCommand_def dev_enable_pairing_def handlePairingMode_def handleClearBonds_def
      handleSetWifi_def handleEnterOtaMode_def Let_def split_def dev_send_invs dev_inv_upd proto_keeps_def
      split: option.split)

lemma dispatch_inv:
  assumes "dev_inv c d"
  shows "\<exists>d'. dispatchMessage c env t s payload d = Some d' \<and> dev_inv c d'"
proof -
  let ?d = "if (t \<noteq> MSG_HEARTBEAT \<and> t \<noteq> MSG_ACK \<and> t \<noteq> MSG_NACK) \<and> v_onActivity c then call [DC_activity] d else d"
  have d: "dev_inv c ?d" using assms by simp
  show ?thesis
    using handleHello_inv [OF d] handleAck_inv [OF d] handleNack_inv [OF d] handleSyncRequest_inv [OF d]
      handleTimeSync_inv [OF d] ota_handlers_inv [OF d] handleOtaInfo_inv [OF d] plain_handlers_inv [OF d]
      send_invs(2) [OF d]
    unfolding dispatchMessage_def Let_def by (cases t) simp_all
qed

lemma processReceived_inv:
  assumes "dev_inv c d"
  shows "\<exists>d'. processReceived c env data d = Some d' \<and> dev_inv c d'"
proof -
  let ?d = "if e_lock env (d_tick d) then upd_proto (\<lambda>p. p\<lparr>p_rxCount := p_rxCount p + 1\<rparr>) (tick d) else tick d"
  have "dev_inv c ?d" using assms by (simp add: dev_inv_upd proto_keeps_def)
  from dispatch_inv [OF this] show ?thesis
    using assms unfolding processReceived_def Let_def ask_simps split_def
    by (auto simp: dev_send_invs dev_inv_upd split: option.split)
qed

section \<open>The periodic work of the device\<close>

lemma retry_slot_inv: "dev_inv c d \<Longrightarrow> dev_inv c (retry_slot c env now i d)"
  by (simp add: retry_slot_def Let_def split_def dev_inv_upd proto_keeps_def incr_error_def)

lemma processRetries_inv:
  assumes "dev_inv c d"
  shows "dev_inv c (processRetries c env d)"
proof -
  have "dev_inv c (fold (retry_slot c env now) slots d)" if "dev_inv c d" for now slots and d :: "('a, 'b) device"
    using that by (induction slots arbitrary: d) (auto simp: retry_slot_inv)
  then show ?thesis using assms by (simp add: processRetries_def)
qed

lemma getNextUnsynced_total: "h_valid c h \<Longrightarrow> getNextUnsynced c lock h \<noteq> None"
proof (cases lock)
  case True
  then show "h_valid c h \<Longrightarrow> ?thesis" using h_validD [of c h] by (simp add: getNextUnsynced_stored)
qed (simp add: getNextUnsynced_def)

lemma pump_update_inv:
  assumes "dev_inv c d"
  shows "\<exists>q' d'. pump_update c env q d = Some (q', d') \<and> dev_inv c d'"
proof -
  have "\<forall>lock. \<exists>r. getNextUnsynced (v_hist c) lock (d_hist d) = Some r"
    using getNextUnsynced_total [OF dev_invD(2) [OF assms]] by blast
  then obtain M where "\<And>lock. getNextUnsynced (v_hist c) lock (d_hist d) = Some (M lock)" by metis
  then show ?thesis
    using assms by (auto simp: pump_update_def Let_def split_def sendDetectionEvent_inv split: option.split)
qed

section \<open>The system\<close>

definition sys_inv :: "('n, 'u) dev_cfg \<Rightarrow> ('n, 'f) power_cfg \<Rightarrow> ('n, 'u, 'f) system \<Rightarrow> bool" where
  "sys_inv c pc s \<longleftrightarrow> dev_inv c (s_dev s) \<and> w_cancelCount (s_pow s) \<le> MAX_SLEEP_CANCEL_COUNT pc"

lemma unchanged_dev_inv: "unchanged s' s \<Longrightarrow> dev_inv c (s_dev s') = dev_inv c (s_dev s)"
  by (simp add: dev_inv_def unchangedD)

lemma sys_invI:
  "sys_inv c pc s \<Longrightarrow> unchanged s' s \<Longrightarrow> w_cancelCount (s_pow s') \<le> w_cancelCount (s_pow s) \<Longrightarrow> sys_inv c pc s'"
  by (auto simp: sys_inv_def unchanged_dev_inv)

lemma sys_inv_simps [simp]:
  "sys_inv c pc (on_led g s) = sys_inv c pc s" "sys_inv c pc (act as s) = sys_inv c pc s"
  "sys_inv c pc (on_dev tick s) = sys_inv c pc s" "sys_inv c pc (s\<lparr>s_timing := t\<rparr>) = sys_inv c pc s"
  "sys_inv c pc (s\<lparr>s_detect := e\<rparr>) = sys_inv c pc s"
  by (simp_all add: sys_inv_def)

lemma sys_inv_dev: "sys_inv c pc s \<Longrightarrow> (\<And>d. dev_inv c d \<Longrightarrow> dev_inv c (g d)) \<Longrightarrow> sys_inv c pc (on_dev g s)"
  by (simp add: sys_inv_def)

lemma sys_inv_pow: "sys_inv c pc s \<Longrightarrow> w_cancelCount (g (s_pow s)) = w_cancelCount (s_pow s) \<Longrightarrow> sys_inv c pc (on_pow g s)"
  by (simp add: sys_inv_def)

lemma sys_inv_led [simp]:
  "sys_inv c pc (led_color env k s) = sys_inv c pc s" "sys_inv c pc (led_pattern env k p s) = sys_inv c pc s"
  "sys_inv c pc (led_tick pc' env s) = sys_inv c pc s" "sys_inv c pc (led_flash env k s) = sys_inv c pc s"
  by (simp_all add: led_color_def led_pattern_def led_tick_def led_flash_def Let_def split_def)

text \<open>The cancellations are counted by the sensor task only; the power manager at most clears the count.\<close>

lemma count_hit_cancel [simp]: "w_cancelCount (count_hit t p) = w_cancelCount p"
  by (simp add: count_hit_def Let_def)

lemma resetRolling_cancel [simp]: "w_cancelCount (resetRollingProxAverage pc p) = w_cancelCount p"
  by (simp add: resetRollingProxAverage_def)

lemma transitionTo_cancel: "w_cancelCount (s_pow (transitionTo pc env st s)) \<le> w_cancelCount (s_pow s)"
  by (simp add: transitionTo_def Let_def split_def split: power_state.split)

lemma transitionTo_inv: "sys_inv c pc s \<Longrightarrow> sys_inv c pc (transitionTo pc' env st s)"
  by (rule sys_invI [OF _ transitionTo_unchanged transitionTo_cancel])

lemma requestSleep_inv: "sys_inv c pc s \<Longrightarrow> sys_inv c pc (requestSleep pc' env s)"
  by (simp add: requestSleep_def transitionTo_inv)

lemma cancelSleep_inv: "sys_inv c pc s \<Longrightarrow> sys_inv c pc (cancelSleep pc' env s)"
  by (simp add: cancelSleep_def Let_def split_def transitionTo_inv sys_inv_pow)

lemma notifyActivity_inv: "sys_inv c pc s \<Longrightarrow> sys_inv c pc (notifyActivity pc' env s)"
  by (simp add: notifyActivity_def Let_def split_def cancelSleep_inv sys_inv_pow)

lemma power_battery_inv: "sys_inv c pc s \<Longrightarrow> sys_inv c pc (power_battery pc' env s)"
  by (rule sys_invI [OF _ power_battery_unchanged]) (simp_all add: power_battery_def Let_def)

lemma checkIdleTimeout_inv: "sys_inv c pc s \<Longrightarrow> sys_inv c pc (checkIdleTimeout pc' env s)"
  by (simp add: checkIdleTimeout_def Let_def split_def requestSleep_inv)

lemma clearAllPending_inv: "dev_inv c d \<Longrightarrow> dev_inv c (clearAllPending env d)"
  by (simp add: clearAllPending_def Let_def split_def dev_inv_upd)

lemma resetForNewConnection_inv: "dev_inv c d \<Longrightarrow> dev_inv c (resetForNewConnection env d)"
  by (simp add: resetForNewConnection_def dev_inv_upd clearAllPending_inv proto_keeps_def)

lemma ble_flag_inv:
  "dev_inv c d \<Longrightarrow> dev_inv c (d\<lparr>d_hist := setBleConnected (v_hist c) up t (q d) (d_hist d)\<rparr>)"
  by (simp add: dev_inv_hist inv_ble dev_invD)

lemma onBLEConnect_inv: "sys_inv c pc s \<Longrightarrow> sys_inv c pc (onBLEConnect c pc' env s)"
  unfolding onBLEConnect_def Let_def split_def sys_ms_simps
  by (intro sys_inv_dev transitionTo_inv ble_flag_inv resetForNewConnection_inv) simp_all

lemma onBLEDisconnect_inv: "sys_inv c pc s \<Longrightarrow> sys_inv c pc (onBLEDisconnect c pc' env s)"
  unfolding onBLEDisconnect_def Let_def split_def sys_ms_simps sys_inv_simps
  by (auto intro!: sys_inv_dev transitionTo_inv ble_flag_inv clearAllPending_inv)

lemma onBLEDataReceived_inv:
  assumes "sys_inv c pc s"
  shows "\<exists>s'. onBLEDataReceived c env data s = Some s' \<and> sys_inv c pc s'"
  using processReceived_inv [of c "tick (s_dev s)"] assms
  by (fastforce simp: onBLEDataReceived_def Let_def split_def sys_inv_def)

section \<open>Deep sleep and the poll of the power manager\<close>

lemma sys_invD: "sys_inv c pc s \<Longrightarrow> dev_inv c (s_dev s)"
  by (simp add: sys_inv_def)

lemma sleep_notify_inv: "sys_inv c pc s \<Longrightarrow> sys_inv c pc (sleep_notify env s)"
  by (auto simp: sleep_notify_def Let_def dev_send_invs intro!: sys_inv_dev)

lemma sleep_config_inv: "sys_inv c pc s \<Longrightarrow> sys_inv c pc (sleep_config pc' env s)"
  by (auto simp: sleep_config_def sys_lock_def Let_def split_def intro!: sys_inv_dev)

lemma sleep_worker_inv: "sys_inv c pc s \<Longrightarrow> sys_inv c pc (sleep_worker c pc' env s)"
  using inv_stop [OF dev_invD(1) [OF sys_invD]]
  by (auto simp: sleep_worker_def sys_lock_def Let_def split_def intro!: sys_inv_dev dev_inv_hist)

lemma sleep_history_inv:
  assumes "sys_inv c pc s"
  shows "\<exists>s'. sleep_history c pc' env s = Some s' \<and> sys_inv c pc s'"
proof -
  note h = dev_invD [OF sys_invD [OF assms]]
  show ?thesis
    using assms hasPendingData_valid [OF h(2)] inv_flush [OF h(1)]
    by (auto simp: sleep_history_def sys_lock_def Let_def split_def forceNvsSync_def intro!: sys_inv_dev dev_inv_hist
        split: bool.split)
qed

lemma sleep_ble_inv: "sys_inv c pc s \<Longrightarrow> sys_inv c pc (sleep_ble c pc' env s)"
  unfolding sleep_ble_def Let_def split_def
  by (auto intro!: sys_inv_dev onBLEDisconnect_inv split: option.split)

lemma sleep_wakeups_inv: "sys_inv c pc s \<Longrightarrow> sys_inv c pc (sleep_wakeups pc' env s)"
  by (simp add: sleep_wakeups_def Let_def)

lemma sleep_decide_inv: "sys_inv c pc s \<Longrightarrow> sys_inv c pc (snd (sleep_decide pc' env s))"
  by (simp add: sleep_decide_def sleep_abort_def Let_def split_def transitionTo_inv sys_inv_pow)

lemma enterDeepSleep_inv:
  assumes "sys_inv c pc s"
  shows "\<exists>out s'. enterDeepSleep c pc' env s = Some (out, s') \<and> sys_inv c pc s'"
proof -
  have "sys_inv c pc (sleep_worker c pc' env (sleep_config pc' env (sleep_notify env s)))"
    using assms by (intro sleep_worker_inv sleep_config_inv sleep_notify_inv)
  then obtain s1 where s1: "sleep_history c pc' env (sleep_worker c pc' env (sleep_config pc' env (sleep_notify env s))) = Some s1"
      "sys_inv c pc s1" using sleep_history_inv by blast
  have "sys_inv c pc (snd (sleep_decide pc' env (power_battery pc' env (sleep_wakeups pc' env (on_led prepareForSleep
      (led_pattern env (COLOR_SLEEP_PREP pc') FAST_BLINK (sleep_ble c pc' env s1)))))))"
    by (intro sleep_decide_inv power_battery_inv sleep_wakeups_inv) (simp add: sleep_ble_inv s1)
  then show ?thesis using s1(1) unfolding enterDeepSleep_def Let_def by (auto simp: prod_eq_iff)
qed

lemma canSafelyEnterSleep_inv:
  assumes "sys_inv c pc s"
  shows "\<exists>r s'. canSafelyEnterSleep c env s = Some (r, s') \<and> sys_inv c pc s'"
  using assms hasPendingData_valid [OF dev_invD(2) [OF sys_invD [OF assms]]]
  by (simp add: canSafelyEnterSleep_def sys_lock_def Let_def split_def)

lemma sleep_prep_step_inv:
  assumes "sys_inv c pc s"
  shows "\<exists>r s'. sleep_prep_step c pc' env s = Some (r, s') \<and> sys_inv c pc s'"
proof -
  let ?s = "on_dev tick (on_dev tick (led_tick pc' env s))"
  obtain r s1 where 1: "canSafelyEnterSleep c env ?s = Some (r, s1)" "sys_inv c pc s1"
    using canSafelyEnterSleep_inv [of c pc ?s env] assms by auto
  obtain out s2 where 2: "enterDeepSleep c pc' env (transitionTo pc' env DEEP_SLEEP s1) = Some (out, s2)" "sys_inv c pc s2"
    using enterDeepSleep_inv [OF transitionTo_inv [OF 1(2)]] by blast
  show ?thesis using assms 1 2 by (simp add: sleep_prep_step_def Let_def split_def sys_inv_pow)
qed

lemma wake_mode_led_inv: "sys_inv c pc s \<Longrightarrow> sys_inv c pc (wake_mode_led pc' env s)"
  by (simp add: wake_mode_led_def Let_def)

lemma power_update_inv:
  assumes "sys_inv c pc s"
  shows "\<exists>r s'. power_update c pc' env s = Some (r, s') \<and> sys_inv c pc s'"
proof -
  let ?s = "battery_poll pc' env (e_ms (se_dev env) (d_tick (s_dev s))) (on_dev tick s)"
  have s: "sys_inv c pc ?s" using assms by (simp add: battery_poll_def power_battery_inv)
  show ?thesis
    using assms s sleep_prep_step_inv [OF s] checkIdleTimeout_inv [OF wake_mode_led_inv [OF s]] requestSleep_inv [OF s]
    by (simp add: power_update_def Let_def split_def sys_inv_pow split: power_state.split)
qed

section \<open>Network services\<close>

lemma fire_sync_inv:
  assumes "dev_inv c (nt_dev s)"
  shows "\<exists>s'. fire_sync c env epoch s = Some s' \<and> dev_inv c (nt_dev s')"
proof -
  have "\<forall>epoch tenv. \<exists>r. onSystemTimeSynced (v_hist c) epoch tenv (d_hist (nt_dev s)) = Some r \<and>
      hist_inv (v_hist c) (snd r)"
    using time_sync_inv [OF dev_invD(1) [OF assms]] by (fastforce simp: onSystemTimeSynced_def)
  then obtain M where "\<And>epoch tenv. onSystemTimeSynced (v_hist c) epoch tenv (d_hist (nt_dev s)) = Some (M epoch tenv)"
      "\<And>epoch tenv. hist_inv (v_hist c) (snd (M epoch tenv))" by metis
  then show ?thesis using assms by (simp add: fire_sync_def Let_def split_def note_net_def dev_inv_hist)
qed

lemma time_callback_inv:
  "dev_inv c (nt_dev s) \<Longrightarrow> \<exists>s'. time_callback c env epoch s = Some s' \<and> dev_inv c (nt_dev s')"
  using fire_sync_inv [of c "on_time (\<lambda>t. t\<lparr>ts_callbackFired := True\<rparr>) s" env epoch] by (simp add: time_callback_def)

lemma startSync_inv:
  assumes "dev_inv c (nt_dev s)"
  shows "\<exists>s'. startSync c env s = Some s' \<and> dev_inv c (nt_dev s')"
  using assms time_callback_inv [of c "on_time (\<lambda>t. t\<lparr>ts_state := VALID\<rparr>) s" env]
  by (simp add: startSync_def initSNTP_def note_net_def)

lemma wifi_calls_inv:
  "dev_inv c (nt_dev s) \<Longrightarrow> \<exists>s'. wifi_calls c env as s = Some s' \<and> dev_inv c (nt_dev s')"
proof (induction "as" arbitrary: s)
  case (Cons a as)
  have "\<exists>s'. wifi_call c env a s = Some s' \<and> dev_inv c (nt_dev s')"
    using Cons.prems startSync_inv [OF Cons.prems] by (cases a) (simp_all add: dev_send_invs note_net_def)
  then show ?case using Cons.IH by auto
qed simp

lemma with_wifi_inv:
  "dev_inv c (nt_dev s) \<Longrightarrow> \<exists>s'. with_wifi c env g s = Some s' \<and> dev_inv c (nt_dev s')"
  using wifi_calls_inv [of c "s\<lparr>nt_wifi := snd (g (nt_wifi s))\<rparr>" env] by (simp add: with_wifi_def split_def Let_def)

lemma handleSyncSuccess_inv:
  assumes "dev_inv c (nt_dev s)"
  shows "\<exists>s'. handleSyncSuccess c env s = Some s' \<and> dev_inv c (nt_dev s')"
proof -
  let ?s = "on_time (\<lambda>t. t\<lparr>ts_timer := map_option (\<lambda>m. m\<lparr>tm_started := None\<rparr>) (ts_timer t), ts_oneShotSyncActive := False\<rparr>) s"
  obtain s1 where "with_wifi c env wifi_shutdown ?s = Some s1" "dev_inv c (nt_dev s1)"
    using with_wifi_inv [of c ?s env wifi_shutdown] assms by auto
  then show ?thesis by (simp add: handleSyncSuccess_def Let_def stopSync_def note_net_def)
qed

lemma time_update_inv:
  assumes "dev_inv c (nt_dev s)"
  shows "\<exists>s'. time_update c env s = Some s' \<and> dev_inv c (nt_dev s')"
proof -
  let ?s = "on_time (\<lambda>t. t\<lparr>ts_lastTimeCheck := ck_now env\<rparr>) s"
  let ?v = "on_time (\<lambda>t. t\<lparr>ts_state := VALID\<rparr>) ?s"
  obtain s1 where s1: "time_callback c env (getEpoch (ck_time2 env)) ?v = Some s1" "dev_inv c (nt_dev s1)"
    using time_callback_inv [of c ?v env] assms by auto
  show ?thesis
    using assms s1 handleSyncSuccess_inv [OF s1(2), of env] by (simp add: time_update_def Let_def split: clock_state.split)
qed

lemma net_loop_inv:
  assumes "dev_inv c (nt_dev s)"
  shows "\<exists>s'. net_loop c env s = Some s' \<and> dev_inv c (nt_dev s')"
proof -
  obtain s1 where "with_wifi c env (wifi_update (ck_wifi env)) s = Some s1" "dev_inv c (nt_dev s1)"
    using with_wifi_inv [OF assms] by blast
  then show ?thesis using time_update_inv by (simp add: net_loop_def)
qed

end
