(* ===== verification/Fw_MainRun.thy ===== *)
theory Fw_MainRun
  imports Fw_MainInv
begin

text \<open>
  The running firmware: the steps of all tasks, callbacks and workers as one relation (\<open>fw_step\<close>), what every
  step keeps (proved once in the locale \<open>recorder_tasks\<close> for any property of the recorder), and the
  states that \<open>fw_setup\<close> reaches.
\<close>

section \<open>The recorder\<close>

text \<open>Only \<open>setRuntimeFlags\<close> changes the flags that the windows get.\<close>

lemma logger_step_flags [simp]: "lg_cachedFlags (logger_step api s) = lg_cachedFlags s"
  by (simp add: logger_step_def processWrite_def split: option.split list.split)

lemma logger_steps_flags [simp]: "lg_cachedFlags ((logger_step api ^^ n) s) = lg_cachedFlags s"
  by (induction n) simp_all

lemma sample_flags [simp]:
  "lg_cachedFlags (slide_buffer c s) = lg_cachedFlags s"
  "lg_cachedFlags (record_window c se s) = lg_cachedFlags s"
  "lg_cachedFlags (offer_inference c lf se s) = lg_cachedFlags s"
  by (auto simp: slide_buffer_def record_window_def offer_inference_def Let_def split: option.split)

lemma appendSample_flags [simp]: "lg_cachedFlags (appendSample c se p dt s) = lg_cachedFlags s"
  by (simp add: appendSample_def Let_def)

lemma startSession_flags [simp]: "lg_cachedFlags (snd (startSession api l s)) = lg_cachedFlags s"
  by (simp add: startSession_def appendManifest_def Let_def split: option.split)

lemma logger_flags [simp]:
  "lg_cachedFlags (snd (stopSession s)) = lg_cachedFlags s"
  "lg_cachedFlags (snd (deleteAll api s)) = lg_cachedFlags s"
  "lg_cachedFlags (setBootCount b s) = lg_cachedFlags s"
  "lg_cachedFlags (setInferenceTaskHandle h s) = lg_cachedFlags s"
  by (simp_all add: stopSession_def deleteAll_def setBootCount_def setInferenceTaskHandle_def Let_def
      split: option.split)

lemma logger_shutdown_flags [simp]: "lg_cachedFlags (logger_shutdown api n s) = lg_cachedFlags s"
  by (simp add: logger_shutdown_def Let_def unmountSpiffs_def)

lemma ml_flags_cold: "ml_flags False connected usb calibrated AND FLAG_WARMUP_ACTIVE = 0"
  by (simp add: ml_flags_def FLAG_WARMUP_ACTIVE_def FLAG_BLE_CONNECTED_def FLAG_USB_POWERED_def FLAG_CALIBRATION_VALID_def)

text \<open>
  What the tasks do to the recorder. A property of its state that all of these operations keep is
  kept by every step of the firmware; the locale proves this once, for any such property \<open>R\<close>.
\<close>

locale recorder_tasks =
  fixes c :: "('n, 'u, 'f, 'd, 's) fw_cfg" and R :: "'s logger \<Rightarrow> bool"
  assumes R_sample: "R lg \<Longrightarrow> R (appendSample (c_ml c) se p dt lg)"
    and R_task: "R lg \<Longrightarrow> R (logger_step (c_spiffs c) lg)"
    and R_start: "R lg \<Longrightarrow> R (snd (startSession (c_spiffs c) l lg))"
    and R_stop: "R lg \<Longrightarrow> R (snd (stopSession lg))"
    and R_delete: "R lg \<Longrightarrow> R (snd (deleteAll (c_spiffs c) lg))"
    and R_shutdown: "R lg \<Longrightarrow> R (logger_shutdown (c_spiffs c) n lg)"
    and R_notified: "R lg \<Longrightarrow> R (lg\<lparr>lg_notified := k\<rparr>)"
    and R_handle: "R lg \<Longrightarrow> R (setInferenceTaskHandle h lg)"
    and R_flags: "R lg \<Longrightarrow> v AND FLAG_WARMUP_ACTIVE = 0 \<Longrightarrow> R (setRuntimeFlags v lg)"
begin

lemmas R_ops = R_sample R_task R_start R_stop R_delete R_shutdown R_notified R_handle

lemma R_serial:
  assumes "R (ms_logger m)"
  shows "R (ms_logger (processSerialMLCommand (c_spiffs c) api fo cc norm lock lock2 line m))"
  using assms
  by (simp add: processSerialMLCommand_def cmd_ml_start_def cmd_personalize_capture_def reply_def Let_def split_def
      R_ops split: option.split)

lemma R_inference:
  assumes "R lg"
  shows "R (inference_task_start i lg)" "R (snd (inference_turn fo renv pe (i, lg)))"
  using assms by (simp_all add: inference_task_start_def inference_turn_def Let_def R_ops)

end

section \<open>The firmware\<close>

definition fw_inv :: "('s logger \<Rightarrow> bool) \<Rightarrow> ('n, 'u, 'f, 'd, 's) fw_cfg \<Rightarrow> ('n, 'u, 'f, 'd, 's) firmware \<Rightarrow> bool" where
  "fw_inv R c f \<longleftrightarrow> sys_inv (c_dev c) (c_pow c) (f_sys f) \<and> R (f_logger f)"

lemma fw_invD:
  assumes "fw_inv R c f"
  shows "sys_inv (c_dev c) (c_pow c) (f_sys f)" "dev_inv (c_dev c) (fw_dev f)" "R (f_logger f)"
  using assms by (simp_all add: fw_inv_def sys_inv_def)

lemma fw_inv_simps [simp]:
  "fw_inv R c (f\<lparr>f_sensor := sn\<rparr>) = fw_inv R c f" "fw_inv R c (f\<lparr>f_personal := pe\<rparr>) = fw_inv R c f"
  "fw_inv R c (f\<lparr>f_inference := i\<rparr>) = fw_inv R c f" "fw_inv R c (f\<lparr>f_pump := q\<rparr>) = fw_inv R c f"
  "fw_inv R c (f\<lparr>f_tracker := tr\<rparr>) = fw_inv R c f" "fw_inv R c (f\<lparr>f_crashCounter := k\<rparr>) = fw_inv R c f"
  "fw_inv R c (f\<lparr>f_stability := k\<rparr>) = fw_inv R c f" "fw_inv R c (f\<lparr>f_wifi := wi\<rparr>) = fw_inv R c f"
  "fw_inv R c (f\<lparr>f_time := ts\<rparr>) = fw_inv R c f" "fw_inv R c (f\<lparr>f_netLog := na\<rparr>) = fw_inv R c f"
  "fw_inv R c (f\<lparr>f_thresholds := th\<rparr>) = fw_inv R c f" "fw_inv R c (f\<lparr>f_rtcCalibration := rc\<rparr>) = fw_inv R c f"
  "fw_inv R c (f\<lparr>f_rtcTimeSync := rt\<rparr>) = fw_inv R c f" "fw_inv R c (f\<lparr>f_requestBackoff := u\<rparr>) = fw_inv R c f"
  "fw_inv R c (f\<lparr>f_warmup := u\<rparr>) = fw_inv R c f" "fw_inv R c (f\<lparr>f_stuckActive := u\<rparr>) = fw_inv R c f"
  "fw_inv R c (f\<lparr>f_stuckStart := k\<rparr>) = fw_inv R c f" "fw_inv R c (f\<lparr>f_taskStart := k\<rparr>) = fw_inv R c f"
  "fw_inv R c (f\<lparr>f_lastDebugLog := k\<rparr>) = fw_inv R c f" "fw_inv R c (f\<lparr>f_button := bn\<rparr>) = fw_inv R c f"
  "fw_inv R c (f\<lparr>f_lastLedUpdate := k\<rparr>) = fw_inv R c f" "fw_inv R c (f\<lparr>f_serial := ln\<rparr>) = fw_inv R c f"
  "fw_inv R c (f\<lparr>f_reply := sr\<rparr>) = fw_inv R c f"
  by (simp_all add: fw_inv_def)

lemma fw_inv_sys:
  assumes "fw_inv R c f" "\<And>s. sys_inv (c_dev c) (c_pow c) s \<Longrightarrow> sys_inv (c_dev c) (c_pow c) (g s)"
  shows "fw_inv R c (on_sys g f)"
  using assms by (simp add: fw_inv_def on_sys_def)

lemma fw_inv_logger: "fw_inv R c f \<Longrightarrow> R lg \<Longrightarrow> fw_inv R c (f\<lparr>f_logger := lg\<rparr>)"
  by (simp add: fw_inv_def)

lemma fw_inv_set_sys: "fw_inv R c f \<Longrightarrow> sys_inv (c_dev c) (c_pow c) s \<Longrightarrow> fw_inv R c (f\<lparr>f_sys := s\<rparr>)"
  by (simp add: fw_inv_def)

lemma fw_ms_simps [simp]:
  "fst (fw_ms env f) = e_ms (se_dev (fv_sys env)) (d_tick (fw_dev f))" "snd (fw_ms env f) = on_sys (on_dev tick) f"
  by (simp_all add: fw_ms_def split_def sys_ms_simps on_sys_def)

lemma on_sys_tick_inv [simp]: "fw_inv R c (on_sys (on_dev tick) f) = fw_inv R c f"
  by (simp add: fw_inv_def on_sys_def)

lemma on_sys_fields [simp]:
  "f_sys (on_sys g f) = g (f_sys f)" "f_logger (on_sys g f) = f_logger f" "f_warmup (on_sys g f) = f_warmup f"
  "f_sensor (on_sys g f) = f_sensor f" "f_thresholds (on_sys g f) = f_thresholds f"
  "f_rtcCalibration (on_sys g f) = f_rtcCalibration f" "f_inference (on_sys g f) = f_inference f"
  "f_personal (on_sys g f) = f_personal f"
  by (simp_all add: on_sys_def)

lemma store_thresholds_inv [simp]: "fw_inv R c (store_thresholds t f) = fw_inv R c f"
  by (simp add: store_thresholds_def Let_def)

lemma baseline_inv [simp]: "fw_inv R c (baseline_from_sensor c' lock f) = fw_inv R c f"
  by (simp add: baseline_from_sensor_def Let_def)

lemma onCalibrateRequested_inv [simp]: "fw_inv R c (snd (snd (onCalibrateRequested c' lock w d f))) = fw_inv R c f"
  by (simp add: onCalibrateRequested_def Let_def)

context recorder_tasks begin

lemma stop_ml_inv: "fw_inv R c f \<Longrightarrow> fw_inv R c (stop_ml c env f)"
  by (simp add: stop_ml_def fw_inv_def R_ops)

lemma dev_callback_inv: "fw_inv R c f \<Longrightarrow> fw_inv R c (dev_callback c env cb f)"
  by (cases cb) (simp_all add: fw_inv_sys notifyActivity_inv split_def onTimeSyncReceived_def
      onSleepCommandReceived_def requestSleep_inv stop_ml_inv)

lemma run_callbacks_inv: "fw_inv R c f \<Longrightarrow> fw_inv R c (run_callbacks c env k f)"
proof -
  have "fw_inv R c (fold (dev_callback c env) cs f)" if "fw_inv R c f" for cs f
    using that by (induction cs arbitrary: f) (simp_all add: dev_callback_inv)
  then show "fw_inv R c f \<Longrightarrow> ?thesis" by (simp add: run_callbacks_def)
qed

lemma fw_receive_inv:
  assumes "fw_inv R c f"
  shows "\<exists>f'. fw_receive c env data f = Some f' \<and> fw_inv R c f'"
proof -
  obtain s where "onBLEDataReceived (c_dev c) (fv_sys env) data (f_sys f) = Some s" "sys_inv (c_dev c) (c_pow c) s"
    using onBLEDataReceived_inv [OF fw_invD(1) [OF assms]] by blast
  then show ?thesis using assms by (simp add: fw_receive_def run_callbacks_inv fw_inv_set_sys)
qed

lemma button_do_inv: "sys_inv (c_dev c) (c_pow c) s \<Longrightarrow> sys_inv (c_dev c) (c_pow c) (button_do c env ba s)"
  by (cases ba) (auto simp: Let_def plain_handlers_inv intro!: sys_inv_dev)

lemma handleButtonInput_inv: "fw_inv R c f \<Longrightarrow> fw_inv R c (handleButtonInput c env f)"
proof -
  have "sys_inv (c_dev c) (c_pow c) (fold (button_do c env) acts s)" if "sys_inv (c_dev c) (c_pow c) s" for acts s
    using that by (induction acts arbitrary: s) (simp_all add: button_do_inv)
  moreover assume "fw_inv R c f"
  ultimately show ?thesis
    by (simp add: handleButtonInput_def Let_def split_def fw_inv_set_sys fw_invD sys_inv_dev)
qed

lemma sendKeepalive_inv: "sys_inv (c_dev c) (c_pow c) s \<Longrightarrow> sys_inv (c_dev c) (c_pow c) (sendKeepalive c env s)"
  by (simp add: sendKeepalive_def Let_def split_def) (auto simp: dev_send_invs intro!: sys_inv_dev)

lemma checkHeartbeatTimeout_inv:
  "sys_inv (c_dev c) (c_pow c) s \<Longrightarrow> sys_inv (c_dev c) (c_pow c) (checkHeartbeatTimeout c env s)"
  by (simp add: checkHeartbeatTimeout_def Let_def split_def requestSleep_inv)

text \<open>
  The sensor task counts a cancelled sleep only while the count is below its limit, so the
  count stays in its bound although the increment alone would wrap.
\<close>

lemma sleep_cancel_inv:
  assumes inv: "sys_inv dc pc s"
  shows "sys_inv dc pc (sleep_cancel pc env proximity s)"
proof (cases "w_cancelCount (s_pow s) < MAX_SLEEP_CANCEL_COUNT pc")
  case True
  let ?s = "on_pow (\<lambda>_. snd (incrementSleepCancelCount pc (s_pow s))) (on_dev tick s)"
  have "sys_inv dc pc ?s" using inv inc_le [OF True] by (simp add: sys_inv_def incrementSleepCancelCount_def Let_def)
  then show ?thesis using inv cancelSleep_inv [of dc pc ?s pc env] by (simp add: sleep_cancel_def Let_def split_def)
qed (use inv in \<open>auto simp: sleep_cancel_def Let_def split_def shouldForceSleep_def\<close>)

lemma refresh_flags_inv: "\<not> f_warmup f \<Longrightarrow> fw_inv R c f \<Longrightarrow> fw_inv R c (refresh_flags c env f)"
  by (simp add: refresh_flags_def Let_def split_def fw_inv_def on_sys_def R_flags ml_flags_cold)

lemma refresh_flags_warmup [simp]: "f_warmup (refresh_flags c env f) = f_warmup f"
  by (simp add: refresh_flags_def Let_def split_def)

lemma updateRolling_inv: "sys_inv dc pc s \<Longrightarrow> sys_inv dc pc (on_pow (updateRollingProxAverage pc' v) s)"
  by (rule sys_inv_pow) (simp_all add: updateRollingProxAverage_def Let_def)

lemma sensor_rest_inv: "\<not> f_warmup f \<Longrightarrow> fw_inv R c f \<Longrightarrow> fw_inv R c (sensor_rest c env proximity f)"
  by (simp add: sensor_rest_def handleDetection_def Let_def split_def)
    (auto intro!: fw_inv_sys sleep_cancel_inv updateRolling_inv transitionTo_inv refresh_flags_inv)

lemma sensor_pass_inv:
  assumes "fw_inv R c f"
  shows "fw_inv R c (sensor_pass c env f)"
  using assms
  by (auto simp: sensor_pass_def Let_def split_def R_ops fw_invD
      intro!: sensor_rest_inv fw_inv_sys updateRolling_inv fw_inv_logger)

lemma serial_command_inv: "fw_inv R c f \<Longrightarrow> fw_inv R c (serial_command c env ln f)"
  by (simp add: serial_command_def Let_def) (simp add: fw_inv_def R_serial)

lemma serial_input_inv:
  assumes "fw_inv R c f"
  shows "fw_inv R c (serial_input c env f)"
proof -
  have "fw_inv R c (snd (foldl (serial_char (serial_command c env)) p cs))" if "fw_inv R c (snd p)" for p cs
    using that by (induction cs arbitrary: p) (auto simp: serial_char_def serial_command_inv split_def Let_def)
  then show ?thesis using assms by (simp add: serial_input_def split_def Let_def)
qed

lemma fw_ota_update_inv: "sys_inv (c_dev c) (c_pow c) s \<Longrightarrow> sys_inv (c_dev c) (c_pow c) (fw_ota_update c env s)"
  by (simp add: fw_ota_update_def Let_def split_def)
    (simp add: sys_inv_def dev_send_invs dev_inv_ota ota_keeps_link)

lemma periodic_inv:
  assumes "fw_inv R c f"
  shows "fw_inv R c (fw_stability c now f)" "fw_inv R c (on_sys (fw_ble_update c env) f)"
    "fw_inv R c (on_sys (fw_ota_update c env) f)"
    "fw_inv R c (on_sys (on_dev (processRetries (c_dev c) denv)) f)"
  using assms
  by (auto simp: fw_stability_def fw_ble_update_def Let_def split_def processRetries_inv intro!: fw_inv_sys fw_ota_update_inv sys_inv_dev)

lemma fw_power_update_inv:
  assumes "fw_inv R c f"
  shows "\<exists>slept f'. fw_power_update c env f = Some (slept, f') \<and> fw_inv R c f'"
proof -
  obtain out s where "power_update (c_dev c) (c_pow c) (fv_sys env) (f_sys f) = Some (out, s)" "sys_inv (c_dev c) (c_pow c) s"
    using power_update_inv [OF fw_invD(1) [OF assms]] by blast
  then show ?thesis using assms by (simp add: fw_power_update_def stop_ml_inv fw_inv_set_sys)
qed

lemma fw_net_loop_inv:
  assumes "fw_inv R c f"
  shows "\<exists>f'. fw_net_loop c env f = Some f' \<and> fw_inv R c f'"
proof -
  let ?n = "\<lparr>nt_dev = fw_dev f, nt_wifi = f_wifi f, nt_time = f_time f, nt_log = f_netLog f\<rparr>"
  obtain s where "net_loop (c_dev c) ((fv_net env)\<lparr>ck_dev := se_dev (fv_sys env)\<rparr>) ?n = Some s" "dev_inv (c_dev c) (nt_dev s)"
    using net_loop_inv [of "c_dev c" ?n] fw_invD(2) [OF assms] by auto
  then show ?thesis using assms by (simp add: fw_net_loop_def fw_inv_def on_sys_def sys_inv_def)
qed

lemma loop_tail_inv: "fw_inv R c f \<Longrightarrow> fw_inv R c (loop_tail c env now f)"
  by (auto simp: loop_tail_def Let_def sendKeepalive_inv checkHeartbeatTimeout_inv
      intro!: serial_input_inv handleButtonInput_inv fw_inv_sys)

lemma fw_loop_inv:
  assumes "fw_inv R c f"
  shows "\<exists>slept f'. fw_loop c env f = Some (slept, f') \<and> fw_inv R c f'"
proof -
  let ?f = "on_sys (on_dev (processRetries (c_dev c) (se_dev (fv_sys env)))) (on_sys (fw_ble_update c env)
    (fw_stability c (fst (fw_ms env f)) (snd (fw_ms env f))))"
  have f: "fw_inv R c ?f" by (intro periodic_inv) (use assms in simp)
  obtain q d where d: "pump_update (c_dev c) (se_dev (fv_sys env)) (f_pump ?f) (fw_dev ?f) = Some (q, d)" "dev_inv (c_dev c) d"
    using pump_update_inv [OF fw_invD(2) [OF f]] by blast
  have "fw_inv R c (on_sys (on_dev (\<lambda>_. d)) (?f\<lparr>f_pump := q\<rparr>))"
    using f d(2) by (auto intro!: fw_inv_sys sys_inv_dev)
  from fw_power_update_inv [OF this] obtain slept g where
      g: "fw_power_update c env (on_sys (on_dev (\<lambda>_. d)) (?f\<lparr>f_pump := q\<rparr>)) = Some (slept, g)" "fw_inv R c g" by blast
  obtain h where h: "fw_net_loop c env (on_sys (fw_ota_update c env) g) = Some h" "fw_inv R c h"
    using fw_net_loop_inv [OF periodic_inv(3) [OF g(2)]] by blast
  show ?thesis
    using d g h loop_tail_inv [OF h(2)] unfolding fw_loop_def Let_def split_def by (cases slept) auto
qed

end

section \<open>The steps of the tasks\<close>

text \<open>
  The callbacks of the Bluetooth stack with the handler of the main program. The handlers of a
  connection and of its end write nothing to the link, so what \<open>BLEManager\<close> does before and after
  them is recorded first.
\<close>

definition fw_connect :: "('n, 'u, 'f, 'd, 's) fw_cfg \<Rightarrow> fw_env \<Rightarrow> conn_desc \<Rightarrow>
    ('n, 'u, 'f, 'd, 's) firmware \<Rightarrow> ('n, 'u, 'f, 'd, 's) firmware" where
  "fw_connect c env desc f =
     (let (t, f) = fw_ms env f;
          (b, outs) = onConnectInternal (d_bonds (fw_dev f)) t desc (d_ble (fw_dev f));
          f = on_sys (on_dev (\<lambda>d. emit outs (d\<lparr>d_ble := b\<rparr>))) f
      in if b_eventHandler b then on_sys (onBLEConnect (c_dev c) (c_pow c) (fv_sys env)) f else f)"

definition fw_disconnect :: "('n, 'u, 'f, 'd, 's) fw_cfg \<Rightarrow> fw_env \<Rightarrow> conn_desc option \<Rightarrow> nat \<Rightarrow>
    ('n, 'u, 'f, 'd, 's) firmware \<Rightarrow> ('n, 'u, 'f, 'd, 's) firmware" where
  "fw_disconnect c env desc reason f =
     (let (b, outs) = onDisconnectInternal desc reason (d_ble (fw_dev f));
          f = on_sys (on_dev (\<lambda>d. emit outs (d\<lparr>d_ble := b\<rparr>))) f
      in if b_eventHandler b then on_sys (onBLEDisconnect (c_dev c) (c_pow c) (fv_sys env)) f else f)"

definition fw_write :: "('n, 'u, 'f, 'd, 's) fw_cfg \<Rightarrow> fw_env \<Rightarrow> characteristic \<Rightarrow> bytes \<Rightarrow> conn_desc option \<Rightarrow>
    ('n, 'u, 'f, 'd, 's) firmware \<Rightarrow> ('n, 'u, 'f, 'd, 's) firmware option" where
  "fw_write c env ch data desc f =
     (let outs = onWrite ch data desc (d_ble (fw_dev f)); f = on_sys (on_dev (emit outs)) f
      in if EV_data data \<in> set outs then fw_receive c env data f else Some f)"

definition fw_subscribe :: "characteristic \<Rightarrow> u16 \<Rightarrow>
    ('n, 'u, 'f, 'd, 's) firmware \<Rightarrow> ('n, 'u, 'f, 'd, 's) firmware" where
  "fw_subscribe ch v f =
     (let (b, outs) = onSubscribe ch v (d_ble (fw_dev f)) in on_sys (on_dev (\<lambda>d. emit outs (d\<lparr>d_ble := b\<rparr>))) f)"

definition fw_authenticate :: "conn_desc \<Rightarrow> ('n, 'u, 'f, 'd, 's) firmware \<Rightarrow> ('n, 'u, 'f, 'd, 's) firmware" where
  "fw_authenticate desc f =
     (let (b, outs) = onAuthenticationComplete (d_bonds (fw_dev f)) desc (d_ble (fw_dev f))
      in on_sys (on_dev (\<lambda>d. emit outs (d\<lparr>d_ble := b\<rparr>))) f)"

text \<open>
  What happens in the running firmware, in any order: a pass of the sensor task or of the main loop,
  a callback of the Bluetooth stack (or a change of its bonds), a turn of a worker or of a timer,
  the interrupt of the sensor. The environment of each step is arbitrary: every lock may fail, every
  clock may show anything.
\<close>

inductive fw_step :: "('n, 'u, 'f, 'd, 's) fw_cfg \<Rightarrow> ('n, 'u, 'f, 'd, 's) firmware \<Rightarrow>
    ('n, 'u, 'f, 'd, 's) firmware \<Rightarrow> bool" for c where
  FS_sensor: "fw_step c f (sensor_pass c env f)"
| FS_loop: "fw_loop c env f = Some (False, f') \<Longrightarrow> fw_step c f f'"
| FS_connect: "fw_step c f (fw_connect c env desc f)"
| FS_disconnect: "fw_step c f (fw_disconnect c env odesc reason f)"
| FS_write: "fw_write c env ch data odesc f = Some f' \<Longrightarrow> fw_step c f f'"
| FS_subscribe: "fw_step c f (fw_subscribe ch v f)"
| FS_authenticate: "fw_step c f (fw_authenticate desc f)"
| FS_bonds: "fw_step c f (on_sys (on_dev (\<lambda>d. d\<lparr>d_bonds := k\<rparr>)) f)"
| FS_storage: "storageWorker_step (v_hist (c_dev c)) (v_prefs (c_dev c)) junk fenv still
      (d_hist (fw_dev f)) (d_nvs (fw_dev f)) = (h, n) \<Longrightarrow>
    fw_step c f (on_sys (on_dev (\<lambda>d. d\<lparr>d_hist := h, d_nvs := n\<rparr>)) f)"
| FS_configTimer: "fw_step c f (on_sys (on_dev (\<lambda>d. d\<lparr>d_cfg := snd (commitTimerCallback (d_cfg d))\<rparr>)) f)"
| FS_configWorker: "configWorker_step (pc_nvs (c_pow c)) bits lock (d_cfg (fw_dev f)) (d_nvs (fw_dev f)) = (cfg, n) \<Longrightarrow>
    fw_step c f (on_sys (on_dev (\<lambda>d. d\<lparr>d_cfg := cfg, d_nvs := n\<rparr>)) f)"
| FS_logger: "fw_step c f (f\<lparr>f_logger := logger_step (c_spiffs c) (f_logger f)\<rparr>)"
| FS_inference_start: "fw_step c f (f\<lparr>f_logger := inference_task_start (f_inference f) (f_logger f)\<rparr>)"
| FS_inference: "inference_turn (c_fo c) renv (f_personal f) (f_inference f, f_logger f) = (inf', lg) \<Longrightarrow>
    fw_step c f (f\<lparr>f_inference := inf', f_logger := lg\<rparr>)"
| FS_calTimer: "fw_step c f (f\<lparr>f_personal := cal_timerCallback (f_personal f)\<rparr>)"
| FS_calWorker: "fw_step c f (f\<lparr>f_personal := cal_worker_step (c_calApi c) (c_cal c) lock notified (f_personal f)\<rparr>)"
| FS_interrupt: "fw_step c f (f\<lparr>f_sensor := sensorInterruptHandler (f_sensor f)\<rparr>)"

context recorder_tasks begin

lemma ble_callbacks_inv:
  assumes "fw_inv R c f"
  shows "fw_inv R c (fw_connect c env desc f)" "fw_inv R c (fw_disconnect c env odesc reason f)"
    "fw_inv R c (fw_subscribe ch v f)" "fw_inv R c (fw_authenticate desc f)"
  using assms
  by (auto simp: fw_connect_def fw_disconnect_def fw_subscribe_def fw_authenticate_def Let_def split_def
      intro!: fw_inv_sys onBLEConnect_inv onBLEDisconnect_inv sys_inv_dev)

lemma fw_write_inv:
  assumes "fw_inv R c f"
  shows "\<exists>f'. fw_write c env ch data odesc f = Some f' \<and> fw_inv R c f'"
proof -
  have "fw_inv R c (on_sys (on_dev (emit (onWrite ch data odesc (d_ble (fw_dev f))))) f)"
    using assms by (auto intro!: fw_inv_sys sys_inv_dev)
  then show ?thesis using fw_receive_inv by (simp add: fw_write_def Let_def)
qed

lemma fw_step_inv:
  assumes "fw_step c f f'" "fw_inv R c f"
  shows "fw_inv R c f'"
  using assms
proof (cases rule: fw_step.cases)
  case (FS_storage junk fenv still h n)
  then have "hist_inv (v_hist (c_dev c)) h"
    using inv_worker [OF dev_invD(1) [OF fw_invD(2) [OF assms(2)]]] by (metis fst_conv)
  then show ?thesis using FS_storage assms(2) by (auto intro!: fw_inv_sys sys_inv_dev dev_inv_hist)
next
  case (FS_inference renv inf' lg)
  then have "R lg" using R_inference(2) [OF fw_invD(3) [OF assms(2)]] by (metis snd_conv)
  then show ?thesis using FS_inference assms(2) by (auto intro!: fw_inv_logger)
next
  case (FS_loop env)
  then show ?thesis using fw_loop_inv [OF assms(2), of env] by auto
next
  case (FS_write env ch data odesc)
  then show ?thesis using fw_write_inv [OF assms(2), of env ch data odesc] by auto
qed (use assms in
    \<open>auto simp: ble_callbacks_inv sensor_pass_inv R_ops R_inference fw_invD
       intro!: fw_inv_logger fw_inv_sys sys_inv_dev\<close>)

lemma fw_steps_inv:
  assumes "(fw_step c)\<^sup>*\<^sup>* f f'" "fw_inv R c f"
  shows "fw_inv R c f'"
  using assms by (induction rule: rtranclp_induct) (auto intro: fw_step_inv)

end

text \<open>
  Two such properties: the recorder is well-formed and no window gets the warm-up flag; the recorder
  is down, with the files \<open>fs\<close>.
\<close>

definition recorder_inv :: "ml_cfg \<Rightarrow> 's logger \<Rightarrow> bool" where
  "recorder_inv c lg \<longleftrightarrow> ml_ok c \<and> logger_ok c lg \<and> lg_cachedFlags lg AND FLAG_WARMUP_ACTIVE = 0"

definition recorder_down :: "'s \<Rightarrow> 's logger \<Rightarrow> bool" where
  "recorder_down fs lg \<longleftrightarrow> \<not> lg_spiffsMounted lg \<and> lg_state lg \<noteq> LS_RECORDING \<and> lg_fs lg = fs"

lemma recorder_inv_flags:
  assumes "recorder_inv c lg" "v AND FLAG_WARMUP_ACTIVE = 0"
  shows "recorder_inv c (setRuntimeFlags v lg)"
proof -
  have "lg_cachedFlags (setRuntimeFlags v lg) = v" by (simp add: setRuntimeFlags_def)
  then show ?thesis using assms logger_ok_more(5) [of c lg v] by (simp add: recorder_inv_def)
qed

interpretation rec: recorder_tasks c "recorder_inv (c_ml c)" for c :: "('n, 'u, 'f, 'd, 's) fw_cfg"
proof unfold_locales
  fix lg :: "'s logger" and v
  assume r: "recorder_inv (c_ml c) lg"
  show "v AND FLAG_WARMUP_ACTIVE = 0 \<Longrightarrow> recorder_inv (c_ml c) (setRuntimeFlags v lg)"
    by (rule recorder_inv_flags [OF r])
qed (auto simp: recorder_inv_def logger_ok_sample logger_ok_step logger_ok_start logger_ok_stop
      logger_ok_delete logger_ok_shutdown logger_ok_more)

lemma down_step: "recorder_down fs lg \<Longrightarrow> recorder_down fs (logger_step api lg)"
  by (auto simp: recorder_down_def logger_step_def processWrite_def split: option.split list.split)

lemma down_steps: "recorder_down fs lg \<Longrightarrow> recorder_down fs ((logger_step api ^^ n) lg)"
  by (induction n) (simp_all add: down_step)

lemma down_stop: "recorder_down fs lg \<Longrightarrow> recorder_down fs (snd (stopSession lg))"
  by (simp add: recorder_down_def stopSession_def)

lemma down_sample: "recorder_down fs lg \<Longrightarrow> recorder_down fs (appendSample c se p dt lg)"
  by (auto simp: recorder_down_def appendSample_def slide_buffer_def record_window_def offer_inference_def Let_def)

lemma down_shutdown:
  assumes "recorder_down fs lg"
  shows "recorder_down fs (logger_shutdown api n lg)"
proof -
  let ?t = "(if lg_state lg = LS_RECORDING \<or> lg_state lg = LS_ARMED then snd (stopSession lg) else lg)\<lparr>lg_running := False\<rparr>"
  let ?u = "(logger_step api ^^ n) ?t"
  have "recorder_down fs ?t" using assms down_stop [OF assms] by (simp add: recorder_down_def)
  then have "recorder_down fs ?u" by (rule down_steps)
  then have "recorder_down fs ((unmountSpiffs ?u)\<lparr>lg_initialized := False\<rparr>)"
    by (simp add: recorder_down_def unmountSpiffs_def)
  then show ?thesis using assms unfolding logger_shutdown_def Let_def by (cases "lg_initialized lg") simp_all
qed

interpretation down: recorder_tasks c "recorder_down fs" for c :: "('n, 'u, 'f, 'd, 's) fw_cfg" and fs
  by unfold_locales (auto simp: down_step down_stop down_sample down_shutdown,
    auto simp: recorder_down_def startSession_def deleteAll_def stopSession_def setInferenceTaskHandle_def
      setRuntimeFlags_def Let_def)

section \<open>Set-up\<close>

text \<open>The flash that the services find, after the boot counters and the check of the storage.\<close>

definition setup_flash :: "('n, 'u, 'f, 'd, 's) fw_cfg \<Rightarrow> ('n \<Rightarrow> esp_err \<times> 'n) \<Rightarrow> 'm setup_env \<Rightarrow>
    ('n, 'u, 'f, 'd, 's) firmware \<Rightarrow> 'n" where
  "setup_flash c erase su f =
     snd (snd (initNvs (pc_nvs (c_pow c)) erase (snd (validatePartitions (su_part su) storage_new))
       (d_nvs (fw_dev (snd (setup_boot c erase su (fw_reset c su f)))))))"

definition setup_history :: "('n, 'u, 'f, 'd, 's) fw_cfg \<Rightarrow> ('n \<Rightarrow> esp_err \<times> 'n) \<Rightarrow> 'm setup_env \<Rightarrow>
    ('n, 'u, 'f, 'd, 's) firmware \<Rightarrow> history" where
  "setup_history c erase su f =
     history_init (v_hist (c_dev c)) (v_prefs (c_dev c)) (su_junk su) ((su_history su)\<lparr>ie_resetReason := su_reason su\<rparr>)
       (history_new (ie_mutexOk (su_history su)) (ie_queueOk (su_history su)) (h_state (d_hist (fw_dev f))))
       (setup_flash c erase su f)"

text \<open>
  What the start relies on: sizes that fit their types, the mutex of the log, indices inside the
  buffer in an RTC memory that passes its check and in the backup, and a loaded log in the order of its
  identifiers.
\<close>

definition start_sane :: "('n, 'u, 'f, 'd, 's) fw_cfg \<Rightarrow> ('n \<Rightarrow> esp_err \<times> 'n) \<Rightarrow> 'm setup_env \<Rightarrow>
    ('n, 'u, 'f, 'd, 's) firmware \<Rightarrow> bool" where
  "start_sane c erase su f \<longleftrightarrow> ml_ok (c_ml c) \<and> 2 \<le> BUFFER_SIZE (v_hist (c_dev c)) \<and> BUFFER_SIZE (v_hist (c_dev c)) \<le> 65536 \<and>
     ie_mutexOk (su_history su) \<and>
     (\<not> cold_boot (v_hist (c_dev c)) ((su_history su)\<lparr>ie_resetReason := su_reason su\<rparr>) (h_state (d_hist (fw_dev f))) \<and>
      validateState (v_hist (c_dev c)) (h_state (d_hist (fw_dev f))) \<longrightarrow>
      rtc_ok (v_hist (c_dev c)) (h_state (d_hist (fw_dev f)))) \<and>
     backup_sane (v_hist (c_dev c)) (v_prefs (c_dev c)) (setup_flash c erase su f) \<and>
     ids_ok (v_hist (c_dev c)) (h_state (setup_history c erase su f))"

lemma restore_queue [simp]: "h_storageQueue (snd (restoreFromNvs c api junk lock h n)) = h_storageQueue h"
  by (simp add: restoreFromNvs_def Let_def)

lemma start_queue [simp]: "h_storageQueue (snd (startStorageWorker taskOk h)) = h_storageQueue h"
  by (simp add: startStorageWorker_def)

lemma init_queue: "h_storageQueue (history_init c api junk env h n) = h_storageQueue (init_primitives env h)"
proof -
  define p where "p = init_primitives env h"
  have p: "p = (let h = (if \<not> h_stateMutex h then h\<lparr>h_stateMutex := ie_mutexOk env\<rparr> else h)
      in if h_storageQueue h = None then h\<lparr>h_storageQueue := if ie_queueOk env then Some [] else None\<rparr> else h)"
    unfolding p_def init_primitives_def ..
  show ?thesis unfolding history_init_def Let_def start_queue p_def [symmetric] p [unfolded Let_def, symmetric]
    by (simp add: split_def)
qed

lemma init_flush_only:
  "h_storageQueue h = None \<or> h_storageQueue h = Some [] \<Longrightarrow> flush_only (history_init c api junk env h n)"
  by (auto simp: flush_only_def init_queue init_primitives_def Let_def)

lemma setup_history_inv:
  assumes "start_sane c erase su f"
  shows "hist_inv (v_hist (c_dev c)) (setup_history c erase su f)"
proof -
  let ?h = "history_new (ie_mutexOk (su_history su)) (ie_queueOk (su_history su)) (h_state (d_hist (fw_dev f)))"
  have h: "h_state ?h = h_state (d_hist (fw_dev f))" "h_stateMutex ?h = ie_mutexOk (su_history su)"
      "h_storageQueue ?h = None \<or> h_storageQueue ?h = Some []"
    by (simp_all add: history_new_def)
  have "rtc_valid (v_hist (c_dev c)) (h_state (setup_history c erase su f))"
    unfolding setup_history_def by (rule init_valid_lemma) (use assms h in \<open>simp_all add: start_sane_def\<close>)
  moreover have "h_ready (setup_history c erase su f)"
    using assms by (simp add: setup_history_def init_ready start_sane_def)
  moreover have "flush_only (setup_history c erase su f)"
    unfolding setup_history_def by (rule init_flush_only [OF h(3)])
  ultimately show ?thesis using assms by (simp add: hist_inv_def h_valid_def start_sane_def)
qed

text \<open>The state that the first phases hand to the services.\<close>

definition pre_services :: "('n, 'u, 'f, 'd, 's) fw_cfg \<Rightarrow> 'm setup_env \<Rightarrow> ('n, 'u, 'f, 'd, 's) firmware \<Rightarrow>
    ('n, 'u, 'f, 'd, 's) firmware \<Rightarrow> bool" where
  "pre_services c su f0 f \<longleftrightarrow>
     d_hist (fw_dev f) = history_new (ie_mutexOk (su_history su)) (ie_queueOk (su_history su)) (h_state (d_hist (fw_dev f0))) \<and>
     length (p_pending (d_proto (fw_dev f))) = MAX_PENDING_MESSAGES \<and> \<not> p_otaManager (d_proto (fw_dev f)) \<and>
     w_cancelCount (s_pow (f_sys f)) = 0 \<and> f_logger f = logger_new (c_ml c) (lg_fs (f_logger f0))"

lemma pre_reset: "pre_services c su f (fw_reset c su f)"
  by (simp add: pre_services_def fw_reset_def Let_def proto_new_def power_new_def)

lemma pre_boot: "pre_services c su f0 f \<Longrightarrow> pre_services c su f0 (snd (setup_boot c erase su f))"
  by (simp add: pre_services_def setup_boot_def Let_def split_def)

lemma pre_brownout:
  "setup_brownout c su f = Some (False, f') \<Longrightarrow> f' = f"
  by (auto simp: setup_brownout_def handleBrownoutRecovery_def on_sys_def on_dev_def Let_def
      split: if_splits option.splits bool.splits)

lemma pre_storage:
  assumes "setup_storage c erase su f = Inr f'" "pre_services c su f0 f"
  shows "pre_services c su f0 f'"
    "d_nvs (fw_dev f') = snd (snd (initNvs (pc_nvs (c_pow c)) erase (snd (validatePartitions (su_part su) storage_new))
       (d_nvs (fw_dev f))))"
  using assms by (auto simp: setup_storage_def pre_services_def Let_def split_def split: if_splits)

lemma led_init_dev [simp]:
  "s_dev (led_color env k s) = tick (s_dev s)" "s_pow (led_color env k s) = s_pow s"
  by (simp_all add: led_color_def split_def Let_def)

lemma pre_hal:
  assumes "setup_hal c env f = Inr f'" "pre_services c su f0 f"
  shows "pre_services c su f0 f'" "d_nvs (fw_dev f') = d_nvs (fw_dev f)"
  using assms by (auto simp: setup_hal_def pre_services_def Let_def split_def tick_def split: if_splits)
lemma pre_services_recorder:
  "ml_ok (c_ml c) \<Longrightarrow> pre_services c su f0 f \<Longrightarrow> recorder_inv (c_ml c) (f_logger f) \<and> \<not> lg_spiffsMounted (f_logger f)"
  by (simp add: pre_services_def recorder_inv_def logger_ok_new) (simp add: logger_new_def)

lemma setup_services_inv:
  assumes "start_sane c erase su f0" "pre_services c su f0 f" "d_nvs (fw_dev f) = setup_flash c erase su f0"
  shows "fw_inv (recorder_inv (c_ml c)) c (setup_services c su f)" "f_logger (setup_services c su f) = f_logger f"
proof -
  have "ml_ok (c_ml c)" using assms(1) by (simp add: start_sane_def)
  then have "recorder_inv (c_ml c) (f_logger f)" using pre_services_recorder [OF _ assms(2)] by simp
  moreover have "hist_inv (v_hist (c_dev c)) (history_init (v_hist (c_dev c)) (v_prefs (c_dev c)) (su_junk su)
      ((su_history su)\<lparr>ie_resetReason := su_reason su\<rparr>) (d_hist (fw_dev f)) (d_nvs (fw_dev f)))"
    using setup_history_inv [OF assms(1)] assms(2,3) by (simp add: setup_history_def pre_services_def)
  ultimately show "fw_inv (recorder_inv (c_ml c)) c (setup_services c su f)"
    using assms(2) by (simp add: setup_services_def Let_def split_def pre_services_def fw_inv_def sys_inv_def)
      (simp add: dev_inv_def)
qed (simp add: setup_services_def Let_def split_def)

lemma setup_calibration_inv:
  assumes "fw_inv (recorder_inv (c_ml c)) c f"
  shows "fw_inv (recorder_inv (c_ml c)) c (setup_calibration c env f)" "f_logger (setup_calibration c env f) = f_logger f"
  using assms by (auto simp: setup_calibration_def loadCalibrationFromRTC_def Let_def intro!: fw_inv_sys split: prod.split if_splits bool.split)

lemma wake_reason_cancel [simp]: "w_cancelCount (snd (detectWakeReason r w q)) = w_cancelCount q"
  by (induction r w q rule: detectWakeReason.induct) (simp split: wakeup_cause.split)

lemma setup_link_inv:
  assumes "fw_inv (recorder_inv (c_ml c)) c f"
  shows "fw_inv (recorder_inv (c_ml c)) c (setup_link c su f)" "f_logger (setup_link c su f) = f_logger f"
proof -
  show "f_logger (setup_link c su f) = f_logger f" by (simp add: setup_link_def Let_def split_def)
  have p: "sys_inv (c_dev c) (c_pow c) (power_init (c_pow c) env r w True True True s)"
    if "sys_inv (c_dev c) (c_pow c) s" for env r w s
    using that unfolding power_init_def Let_def split_def sys_ms_simps
    by (auto simp del: detectWakeReason.simps intro!: sys_inv_pow power_battery_inv)
  have d: "dev_inv (c_dev c) (emit outs (d\<lparr>d_ble := b, d_bonds := k, d_proto := (snd (proto_init True True p))\<lparr>p_otaManager := True\<rparr>,
      d_ota := ota_init True True ot\<rparr>))" if "dev_inv (c_dev c) d" "p = d_proto d" for outs d b k p ot
    using that by (simp add: dev_inv_def proto_init_def ota_init_def)
  show "fw_inv (recorder_inv (c_ml c)) c (setup_link c su f)"
    unfolding setup_link_def Let_def split_def fw_ms_simps
    by (intro fw_inv_sys sys_inv_pow p) (use assms in \<open>auto simp: setOTAManager_def intro!: fw_inv_sys sys_inv_dev d\<close>)
qed

lemma setup_net_inv:
  assumes "fw_inv (recorder_inv (c_ml c)) c f"
  shows "fw_inv (recorder_inv (c_ml c)) c (setup_net su f)" "f_logger (setup_net su f) = f_logger f"
  using assms by (simp_all add: setup_net_def Let_def)

lemma setup_ml_inv:
  assumes "fw_inv (recorder_inv (c_ml c)) c f" "ml_ok (c_ml c)" "\<not> lg_spiffsMounted (f_logger f)" "lg_cachedFlags (f_logger f) = 0"
  shows "fw_inv (recorder_inv (c_ml c)) c (setup_ml c su f)"
proof -
  let ?lg = "snd (logger_init (c_spiffs c) (su_logger su) (f_logger f))"
  have "lg_cachedFlags ?lg = lg_cachedFlags (f_logger f)"
    by (auto simp: logger_init_def mountSpiffs_def Let_def)
  moreover have "logger_ok (c_ml c) ?lg"
    using fw_invD(3) [OF assms(1)] assms(3) by (intro logger_ok_init) (simp_all add: recorder_inv_def)
  ultimately have "recorder_inv (c_ml c) ?lg" using assms(2,4) by (simp add: recorder_inv_def)
  then have "recorder_inv (c_ml c) (setBootCount b ?lg)" for b
    using logger_ok_more(4) [of "c_ml c" ?lg b] by (simp add: recorder_inv_def)
  then show ?thesis using assms(1) by (simp add: setup_ml_def Let_def split_def fw_inv_logger)
qed

lemma setup_finish_inv: "fw_inv (recorder_inv (c_ml c)) c f \<Longrightarrow> fw_inv (recorder_inv (c_ml c)) c (setup_finish c env f)"
  by (auto simp: setup_finish_def Let_def split_def transitionTo_inv intro!: fw_inv_sys)

lemma setup_phases:
  assumes "fw_setup c erase su f0 = Ready f"
  obtains f1 where "pre_services c su f0 f1" "d_nvs (fw_dev f1) = setup_flash c erase su f0"
    "f = setup_finish c (su_env su) (setup_ml c su (setup_net su (setup_link c su
       (setup_calibration c (su_env su) (setup_services c su f1)))))"
proof -
  let ?r = "snd (setup_boot c erase su (fw_reset c su f0))"
  have r: "pre_services c su f0 ?r" by (intro pre_boot pre_reset)
  from assms obtain f1 f2 f3 where 1: "setup_brownout c su ?r = Some (False, f1)"
      and 2: "setup_storage c erase su f1 = Inr f2" and 3: "setup_hal c (su_env su) f2 = Inr f3"
      and f: "f = setup_finish c (su_env su) (setup_ml c su (setup_net su (setup_link c su
                 (setup_calibration c (su_env su) (setup_services c su f3)))))"
    by (auto simp: fw_setup_def Let_def split_def split: if_splits option.splits bool.splits sum.splits boot_verdict.splits)
  have "f1 = ?r" using pre_brownout [OF 1] .
  with 2 r have s: "pre_services c su f0 f2" "d_nvs (fw_dev f2) = setup_flash c erase su f0"
    using pre_storage [OF 2] by (simp_all add: setup_flash_def)
  have h: "pre_services c su f0 f3" "d_nvs (fw_dev f3) = setup_flash c erase su f0"
    using pre_hal [OF 3 s(1)] s(2) by simp_all
  show thesis using that [OF h f] .
qed

lemma fw_setup_inv:
  assumes "fw_setup c erase su f0 = Ready f" "start_sane c erase su f0"
  shows "fw_inv (recorder_inv (c_ml c)) c f"
    "\<exists>b. f_logger f = setBootCount b (snd (logger_init (c_spiffs c) (su_logger su) (logger_new (c_ml c) (lg_fs (f_logger f0)))))"
proof -
  obtain f1 where h: "pre_services c su f0 f1" "d_nvs (fw_dev f1) = setup_flash c erase su f0"
      and f: "f = setup_finish c (su_env su) (setup_ml c su (setup_net su (setup_link c su
                 (setup_calibration c (su_env su) (setup_services c su f1)))))"
    using setup_phases [OF assms(1)] .
  note a = setup_services_inv [OF assms(2) h]
  note b = setup_calibration_inv [OF a(1), of "su_env su"]
  note d = setup_link_inv [OF b(1), of su]
  note n = setup_net_inv [OF d(1), of su]
  have lg: "f_logger (setup_net su (setup_link c su (setup_calibration c (su_env su) (setup_services c su f1)))) =
      logger_new (c_ml c) (lg_fs (f_logger f0))"
    using h(1) by (simp add: n(2) d(2) b(2) a(2) pre_services_def)
  show "fw_inv (recorder_inv (c_ml c)) c f" unfolding f
    by (intro setup_finish_inv setup_ml_inv n(1)) (use assms(2) in \<open>simp_all add: lg start_sane_def logger_new_def\<close>)
  show "\<exists>b. f_logger f = setBootCount b (snd (logger_init (c_spiffs c) (su_logger su) (logger_new (c_ml c) (lg_fs (f_logger f0)))))"
    unfolding f by (auto simp: setup_finish_def setup_ml_def baseline_from_sensor_def Let_def split_def lg)
qed

end
