(* ===== verification/Fw_MainProps.thy ===== *)
theory Fw_MainProps
  imports Fw_MainRun
begin

text \<open>
  What the running firmware guarantees, from its start through any order of steps of its tasks, and
  what the copies of the thresholds in RTC memory and the button guarantee by themselves.
\<close>

section \<open>A concrete firmware\<close>

definition demo_fw_cfg ::
  "(nvs_view, bytes \<times> bool \<times> bytes option, nat, (u8 \<Rightarrow> u16) \<times> u8, demo_fs) fw_cfg" where
  "demo_fw_cfg = \<lparr>c_dev = demo_dev_cfg, c_pow = demo_power_cfg, c_i2c = demo_i2c, c_sensor = demo_sensor_cfg,
     c_ml = demo_ml, c_spiffs = alist_spiffs, c_calApi = demo_cal_api, c_cal = demo_cal_cfg, c_fo = demo_float_ops,
     c_boot = demo_boot_cfg, c_fless = (<), c_fmulAdd = (\<lambda>a b k. a + b * k), c_flit = word_of_nat,
     c_defaultNorm = 1, SAMPLING_PERIOD_MS = 20, BUTTON_DEBOUNCE_MS = 50, KEEPALIVE_INTERVAL_MS = 30000,
     HEARTBEAT_TIMEOUT_MS = 60000, PAIRING_WINDOW_MS = 60000, COLOR_BOOT = 0xFFFFFF, ARDUINO_USB_CDC_ON_BOOT = True\<rparr>"

definition demo_fill :: fill_env where
  "demo_fill = \<lparr>fe_uptime = 1000, fe_tv_sec = 0, fe_thresholds = None, fe_sensitivity = None\<rparr>"

definition demo_fw_env :: fw_env where
  "demo_fw_env = \<lparr>fv_sys = demo_sys_env 1000 False, fv_lock = True, fv_lock2 = True, fv_turns = [], fv_loggerTurns = 4,
     fv_sample = \<lparr>se_uptime = 1000, se_lock_free = True, se_fill = demo_fill, se_fill2 = demo_fill\<rparr>,
     fv_net = demo_net_env, fv_found = None, fv_connections = 0, fv_button = True, fv_serial = []\<rparr>"

definition demo_fw :: "(nvs_view, bytes \<times> bool \<times> bytes option, nat, (u8 \<Rightarrow> u16) \<times> u8, demo_fs) firmware" where
  "demo_fw = \<lparr>f_sys = demo_system, f_sensor = sensor_new demo_sensor_cfg ((\<lambda>_. 0)(REG_ID := 0x80), 0),
     f_logger = logger_new demo_ml [], f_personal = personal_new demo_cal_cfg Map.empty,
     f_inference = inference_new, f_pump = pump_new, f_tracker = tracker_new, f_crashCounter = 0,
     f_stability = 0, f_wifi = wifi_new, f_time = time_new, f_netLog = [],
     f_thresholds = default_thresholds demo_sensor_cfg,
     f_rtcCalibration = \<lparr>cal_wakeThresholdLow = 0, cal_detectionThresholdLow = 0, cal_criticalDetectionThreshold = 0,
       cal_crc32 = 1\<rparr>,
     f_rtcTimeSync = \<lparr>ts_syncedEpoch = 0, ts_syncedMillis = 0, ts_isValid = 0, ts_reserved = (0, 0, 0)\<rparr>,
     f_requestBackoff = False, f_warmup = True, f_stuckActive = False, f_stuckStart = 0, f_taskStart = 0,
     f_lastDebugLog = 0,
     f_button = \<lparr>bn_last = True, bn_lastDebounce = 0, bn_state = True, bn_pressStart = 0, bn_longHandled = False\<rparr>,
     f_lastLedUpdate = 0, f_serial = [], f_reply = SR_help\<rparr>"

definition demo_setup :: "(string \<times> string \<Rightarrow> string option) setup_env" where
  "demo_setup = \<lparr>su_env = demo_fw_env, su_reason = ESP_RST_DEEPSLEEP, su_cause = WAKEUP_EXT0, su_pendingVerify = False,
     su_part = [''nvs'' \<mapsto> 0x5000, ''otadata'' \<mapsto> 0x2000, ''app0'' \<mapsto> 0x180000, ''app1'' \<mapsto> 0x180000],
     su_image = None,
     su_selfTest = \<lparr>st_sensor = True, st_probe = (\<lambda>_. None), st_freeHeap = 0, st_largestBlock = 0, st_running = None,
       st_next = None, st_nvs = None, st_led = True, st_storage = True, st_duration = 0\<rparr>,
     su_markOk = True, su_history = demo_init_env,
     su_config = \<lparr>ce_timerOk = True, ce_taskOk = True, ce_random = 7, ce_random2 = 8, ce_lock = True\<rparr>,
     su_junk = [], su_protoMutex = True, su_creds = (map_creds, Map.empty), su_timerOk = True,
     su_logger = \<lparr>ie_mutex = True, ie_queue = True, ie_task = True\<rparr>, su_personal = (True, True, True),
     su_inference = (True, True)\<rparr>"

lemma demo_hal:
  "fst (sensor_init demo_i2c (sensor_new demo_sensor_cfg ((\<lambda>_. 0)(REG_ID := 0x80), 0))) = HAL_OK"
  by code_simp

lemma demo_id:
  "fst (getSensorId demo_i2c (snd (sensor_init demo_i2c (sensor_new demo_sensor_cfg ((\<lambda>_. 0)(REG_ID := 0x80), 0))))) AND 0xFF = 0x80"
  by code_simp

abbreviation demo_erase :: "nvs_view \<Rightarrow> esp_err \<times> nvs_view" where
  "demo_erase \<equiv> (\<lambda>n. (ESP_OK, Map.empty))"

abbreviation demo_booted ::
  "bool \<times> (nvs_view, bytes \<times> bool \<times> bytes option, nat, (u8 \<Rightarrow> u16) \<times> u8, demo_fs) firmware" where
  "demo_booted \<equiv> setup_boot demo_fw_cfg demo_erase demo_setup (fw_reset demo_fw_cfg demo_setup demo_fw)"

lemma demo_fw_simps [simp]:
  "c_dev demo_fw_cfg = demo_dev_cfg" "c_pow demo_fw_cfg = demo_power_cfg" "c_ml demo_fw_cfg = demo_ml"
  "c_boot demo_fw_cfg = demo_boot_cfg" "c_sensor demo_fw_cfg = demo_sensor_cfg" "c_i2c demo_fw_cfg = demo_i2c"
  "f_sys demo_fw = demo_system" "f_crashCounter demo_fw = 0" "f_stability demo_fw = 0"
  "f_sensor demo_fw = sensor_new demo_sensor_cfg ((\<lambda>_. 0)(REG_ID := 0x80), 0)"
  "su_reason demo_setup = ESP_RST_DEEPSLEEP" "\<not> su_pendingVerify demo_setup" "su_history demo_setup = demo_init_env"
  "su_image demo_setup = None" "su_env demo_setup = demo_fw_env" "pc_nvs demo_power_cfg = map_nvs"
  "ie_mutexOk demo_init_env" "ie_queueOk demo_init_env" "ie_lock demo_init_env"
  by (simp_all add: demo_fw_cfg_def demo_fw_def demo_setup_def demo_power_cfg_def demo_init_env_def)

lemma demo_booted: "\<not> fst demo_booted" "d_nvs (fw_dev (snd demo_booted)) = Map.empty"
    "f_sensor (snd demo_booted) = sensor_new demo_sensor_cfg ((\<lambda>_. 0)(REG_ID := 0x80), 0)"
  by (simp_all add: setup_boot_def boot_entry_def performCrashRecoveryCheck_def wasCrashReset_def flasherEntry_def
      tracker_init_def tracker_new_def fw_reset_def Let_def split_def CRASH_RECOVERY_THRESHOLD_def sensor_new_def
      map_nvs_def demo_device_def)

lemma demo_storage:
  "\<exists>f. setup_storage demo_fw_cfg demo_erase demo_setup (snd demo_booted) = Inr f \<and>
     f_sensor f = sensor_new demo_sensor_cfg ((\<lambda>_. 0)(REG_ID := 0x80), 0)"
  by (simp add: setup_storage_def validatePartitions_def initNvs_def demo_setup_def MIN_NVS_SIZE_def Let_def
      demo_booted(3) [unfolded demo_setup_def]) (simp add: map_nvs_def)

lemma demo_flash: "setup_flash demo_fw_cfg demo_erase demo_setup demo_fw = Map.empty"
  using demo_booted(2) by (simp add: setup_flash_def initNvs_def) (simp add: map_nvs_def)

lemma demo_ready: "\<exists>f. fw_setup demo_fw_cfg demo_erase demo_setup demo_fw = Ready f"
proof -
  obtain f1 where b: "setup_brownout demo_fw_cfg demo_setup (snd demo_booted) = Some (False, f1)"
    by (auto simp: setup_brownout_def handleBrownoutRecovery_def)
  obtain f2 where s: "setup_storage demo_fw_cfg demo_erase demo_setup f1 = Inr f2"
      "f_sensor f2 = sensor_new demo_sensor_cfg ((\<lambda>_. 0)(REG_ID := 0x80), 0)"
    using demo_storage pre_brownout [OF b] by auto
  have "\<exists>f3. setup_hal demo_fw_cfg demo_fw_env f2 = Inr f3"
    using demo_hal demo_id by (simp add: setup_hal_def Let_def split_def s(2))
  then obtain f3 where h: "setup_hal demo_fw_cfg demo_fw_env f2 = Inr f3" by blast
  show ?thesis
    using demo_booted(1) b s(1) h by (simp add: fw_setup_def Let_def split_def validateBootedFirmware_def)
qed

lemma ids_ok_crc [simp]: "ids_ok c (updateCRC st) = ids_ok c st"
  by (simp add: ids_ok_def stored_def updateCRC_def)

lemma demo_start_sane: "start_sane demo_fw_cfg demo_erase demo_setup demo_fw"
proof -
  note h = hist_invD [OF demo_inv]
  have v: "validateState demo_cfg (h_state demo_history)"
    using h_validD(2) [OF h(1)] by (simp add: rtc_valid_def)
  then have m: "rs_magicNumber (h_state demo_history) = RTC_MAGIC_NUMBER demo_cfg"
    by (simp add: validateState_def split: if_splits)
  have w: "\<not> cold_boot demo_cfg (demo_init_env\<lparr>ie_resetReason := ESP_RST_DEEPSLEEP\<rparr>) (h_state demo_history)"
    using m by (simp add: cold_boot_def)
  have "ids_ok demo_cfg (h_state (setup_history demo_fw_cfg demo_erase demo_setup demo_fw))"
    using v w h(2) by (simp add: setup_history_def init_state history_new_def)
  then show ?thesis
    using h(5) by (simp add: start_sane_def demo_ml_ok demo_flash backup_sane_def map_prefs_def)
qed

section \<open>From the start on\<close>





lemma shutdown_down:
  assumes "lg_initialized lg"
  shows "recorder_down (lg_fs (logger_shutdown api n lg)) (logger_shutdown api n lg)"
proof -
  let ?t = "(if lg_state lg = LS_RECORDING \<or> lg_state lg = LS_ARMED then snd (stopSession lg) else lg)\<lparr>lg_running := False\<rparr>"
  have "lg_state ((logger_step api ^^ n) ?t) \<noteq> LS_RECORDING" by (rule steps_not_recording) (simp add: stopSession_def)
  then show ?thesis using assms unfolding logger_shutdown_def Let_def by (simp add: recorder_down_def unmountSpiffs_def)
qed

text \<open>
  C22: after a sleep command nothing is recorded until the next start. The command stops the recorder
  before it asks for sleep. Whatever happens then, also when the sleep is cancelled and the device stays awake
  for good, no sample file is written, started or deleted any more.
\<close>

theorem sleep_command_ends_recording:
  assumes "fw_setup c erase su f0 = Ready f" "start_sane c erase su f0" "(fw_step c)\<^sup>*\<^sup>* f f1"
    and "lg_initialized (f_logger f1)" "(fw_step c)\<^sup>*\<^sup>* (onSleepCommandReceived c env f1) f2"
  shows "lg_fs (f_logger f2) = lg_fs (f_logger (onSleepCommandReceived c env f1)) \<and>
    lg_state (f_logger f2) \<noteq> LS_RECORDING"
proof -
  let ?s = "onSleepCommandReceived c env f1"
  have "fw_inv (recorder_inv (c_ml c)) c f1" by (rule rec.fw_steps_inv [OF assms(3) fw_setup_inv(1) [OF assms(1,2)]])
  then have "sys_inv (c_dev c) (c_pow c) (f_sys ?s)"
    by (simp add: onSleepCommandReceived_def stop_ml_def requestSleep_inv fw_invD)
  moreover have "recorder_down (lg_fs (f_logger ?s)) (f_logger ?s)"
    using shutdown_down [OF assms(4)] by (simp add: onSleepCommandReceived_def stop_ml_def)
  ultimately have "fw_inv (recorder_down (lg_fs (f_logger ?s))) c ?s" by (simp add: fw_inv_def)
  from down.fw_steps_inv [OF assms(5) this] show ?thesis by (simp add: fw_inv_def recorder_down_def)
qed

theorem sleep_command_ends_recording_witness:
  "\<exists>f. fw_setup demo_fw_cfg demo_erase demo_setup demo_fw = Ready f \<and>
     (let g = onSleepCommandReceived demo_fw_cfg demo_fw_env f
      in lg_fs (f_logger (sensor_pass demo_fw_cfg demo_fw_env g)) = lg_fs (f_logger g))"
proof -
  obtain f where f: "fw_setup demo_fw_cfg demo_erase demo_setup demo_fw = Ready f" using demo_ready by blast
  have "lg_initialized (f_logger f)"
    using fw_setup_inv(2) [OF f demo_start_sane] demo_logger_eq [unfolded demo_logger_def]
    by (auto simp: demo_fw_cfg_def demo_setup_def demo_fw_def setBootCount_def logger_new_def)
  moreover have "(fw_step demo_fw_cfg)\<^sup>*\<^sup>* g (sensor_pass demo_fw_cfg demo_fw_env g)" for g
    by (rule rtranclp.rtrancl_into_rtrancl, rule rtranclp.rtrancl_refl, rule FS_sensor)
  ultimately show ?thesis
    using sleep_command_ends_recording [OF f demo_start_sane rtranclp.rtrancl_refl] f by (auto simp: Let_def)
qed

section \<open>The thresholds in RTC memory\<close>



section \<open>The button\<close>

text \<open>A sequence of passes: the values of the clock in a pass and the level that it reads.\<close>

fun button_log :: "u32 \<Rightarrow> ((nat \<Rightarrow> u32) \<times> bool) list \<Rightarrow> button \<Rightarrow> button_act list" where
  "button_log d [] b = []"
| "button_log d ((t, reading) # ins) b = (let (acts, b) = button_step d t reading b in acts @ button_log d ins b)"

text \<open>The actions alternate: a press, then one answer to it (a toggle of the pairing mode or the removal of the bonds).\<close>

fun alternate :: "bool \<Rightarrow> button_act list \<Rightarrow> bool" where
  "alternate pressed [] = True"
| "alternate pressed (BA_press # acts) = (\<not> pressed \<and> alternate True acts)"
| "alternate pressed (_ # acts) = (pressed \<and> alternate False acts)"

definition button_open :: "button \<Rightarrow> bool" where
  "button_open b \<longleftrightarrow> \<not> bn_state b \<and> \<not> bn_longHandled b"

lemma button_step_alternates:
  assumes "alternate (button_open (snd (button_step d t reading b))) acts"
  shows "alternate (button_open b) (fst (button_step d t reading b) @ acts)"
  using assms by (auto simp: button_step_def button_open_def Let_def split_def split: if_splits)

text \<open>
  C27: every press of the button has exactly one effect. Whatever the clock shows and the contact does, from the
  start on the log of the actions is a press, then the toggle of the pairing mode (a short press)
  or the removal of all bonds (a long one), then the next press: a long press that removed the
  bonds does not toggle the pairing mode when it ends, and no press is counted twice.
\<close>

theorem button_one_effect_per_press:
  "alternate False (button_log d ins (f_button (fw_reset c su f)))"
proof -
  have "alternate (button_open b) (button_log d ins b)" for b
  proof (induction ins arbitrary: b)
    case (Cons i ins)
    obtain t reading where i: "i = (t, reading)" by (cases i)
    from button_step_alternates [OF Cons.IH] show ?case by (simp add: i split_def Let_def)
  qed simp
  from this [of "f_button (fw_reset c su f)"] show ?thesis by (simp add: fw_reset_def button_open_def Let_def)
qed

text \<open>
  A contact that bounces does nothing: as long as every pass reads another level than the one
  before and the passes are not longer than the debounce time, there is no action.
\<close>

theorem bouncing_ignored:
  assumes "\<forall>(t, reading) \<in> set ins. t 1 - t 0 \<le> d" "successively (\<noteq>) (bn_last b # map snd ins)"
  shows "button_log d ins b = []"
  using assms
proof (induction ins arbitrary: b)
  case (Cons i ins)
  obtain t reading where i: "i = (t, reading)" by (cases i)
  have "fst (button_step d t reading b) = []" "bn_last (snd (button_step d t reading b)) = reading"
    using Cons.prems by (auto simp: i button_step_def Let_def split_def)
  then show ?case using Cons.prems Cons.IH [of "snd (button_step d t reading b)"] by (simp add: i split_def Let_def)
qed simp

theorem bouncing_ignored_witness:
  "button_log 50 [(\<lambda>k. 1000, False), (\<lambda>k. 1020, True), (\<lambda>k. 1040, False)]
     \<lparr>bn_last = True, bn_lastDebounce = 0, bn_state = True, bn_pressStart = 0, bn_longHandled = False\<rparr> = []"
  by (rule bouncing_ignored) simp_all

section \<open>The identifier of the sensor\<close>

text \<open>
  A device whose sensor does not answer starts without it; a device whose sensor answered and whose identifier
  cannot be read a moment later does not start at all.
\<close>

theorem unreadable_sensor_panics:
  assumes "sensor_init (c_i2c c) (f_sensor f) = (err, sn)"
  shows "err \<noteq> HAL_OK \<Longrightarrow> \<exists>g. setup_hal c env f = Inr g"
    and "err = HAL_OK \<Longrightarrow> sn_i2cInitialized sn \<Longrightarrow> fst (readRegister (c_i2c c) REG_ID sn) = None \<Longrightarrow>
      setup_hal c env f = Inl ''SENSOR ID MISMATCH: Expected 0x80, Got 0x00''"
  using assms by (simp_all add: setup_hal_def getSensorId_def hex2_def Let_def split_def)

end
