(* ===== verification/Fw_Gatt.thy ===== *)
theory Fw_Gatt
  imports Fw_Protocol Fw_Text
begin

text \<open>
  The side of \<open>BLEManager\<close> (\<open>src/src/Services/BLEManager.cpp\<close>) that faces the Bluetooth stack: what
  \<open>init\<close> sets up there (security, services and characteristics, advertising), the Database Hash
  from which a phone sees that the services have changed, the calls behind the actions of \<open>Fw_Ble\<close>,
  the queue of raw records and the line of diagnostics. The stack is not part of the
  repository: an operation returns the calls it makes, in order. The lemmas say when two firmware
  images have the same hash, and that the tables are set up in an order that the stack accepts.
\<close>

section \<open>The calls\<close>

datatype uuid = UUID16 u16 | UUID string

datatype char_property = P_READ | P_WRITE | P_WRITE_NR | P_NOTIFY | P_INDICATE

datatype power_type = PWR_ADV | PWR_SCAN | PWR_DEFAULT | PWR_CONN

datatype key_dist = KEY_DIST_ENC | KEY_DIST_ID

datatype stack_call =
    SC_init string | SC_setPower int | SC_txPower power_type int
  | SC_securityAuth bool bool bool | SC_noInputOutput | SC_initKey "key_dist list" | SC_respKey "key_dist list"
  | SC_mtu u16 | SC_createServer | SC_serverCallbacks
  | SC_createService uuid | SC_createChar uuid uuid "char_property list" | SC_charCallbacks uuid
  | SC_setValue uuid bytes | SC_notify uuid | SC_indicate uuid | SC_startService uuid
  | SC_advUUID uuid | SC_scanResponse bool | SC_appearance u16
  | SC_advInterval u16 u16 | SC_advPreferred u16 u16 | SC_advStart | SC_advStop
  | SC_startSecurity u16 | SC_disconnect u16 | SC_deleteBond nat
  | SC_updateConnParams u16 u16 u16 u16 u16

text \<open>The names and radio parameters of \<open>Config.h\<close>, which is not part of the repository.\<close>

record gatt_cfg =
  DEVICE_NAME :: string
  SERVICE_UUID :: string
  CHAR_MAIN_UUID :: string
  CHAR_OTA_UUID :: string
  GENERIC_ATTRIBUTE_SERVICE_UUID :: u16
  SERVICE_CHANGED_CHAR_UUID :: u16
  DATABASE_HASH_CHAR_UUID :: u16
  TX_POWER :: int
  REQUESTED_MTU :: u16
  ADV_INTERVAL_MIN :: u16
  ADV_INTERVAL_MAX :: u16
  CONN_INTERVAL_MIN :: u16
  CONN_INTERVAL_MAX :: u16
  CONN_LATENCY :: u16
  SUPERVISION_TIMEOUT :: u16

section \<open>The Database Hash\<close>

text \<open>The loop over the characters of the UUID, in wrapping 32-bit arithmetic.\<close>

definition char_code :: "char \<Rightarrow> u32" where
  "char_code ch = word_of_nat (of_char ch)"

fun uuidHash_loop :: "u32 \<Rightarrow> string \<Rightarrow> u32" where
  "uuidHash_loop h [] = h"
| "uuidHash_loop h (ch # s) = uuidHash_loop (h * 31 + char_code ch) s"

definition GATT_STRUCTURE_VERSION :: u32 where "GATT_STRUCTURE_VERSION = 0x00010001"

definition database_hash :: "ota_cfg \<Rightarrow> string \<Rightarrow> bytes" where
  "database_hash oc service =
     (let hash = replicate 16 0;
          hash = hash[0 := FIRMWARE_VERSION_MAJOR oc, 1 := FIRMWARE_VERSION_MINOR oc,
                      2 := FIRMWARE_VERSION_PATCH oc, 3 := FIRMWARE_BUILD_TYPE oc];
          hash = hash[5 := ucast (drop_bit 16 GATT_STRUCTURE_VERSION AND 0xFF),
                      6 := ucast (drop_bit 8 GATT_STRUCTURE_VERSION AND 0xFF),
                      7 := ucast (GATT_STRUCTURE_VERSION AND 0xFF)];
          uuidHash = uuidHash_loop 0 service;
          hash = hash[8 := ucast (drop_bit 24 uuidHash AND 0xFF), 9 := ucast (drop_bit 16 uuidHash AND 0xFF),
                      10 := ucast (drop_bit 8 uuidHash AND 0xFF), 11 := ucast (uuidHash AND 0xFF)]
      in hash[12 := 0x54, 13 := 0x52, 14 := 0x41, 15 := 0x4B])"

definition updateDatabaseHash :: "gatt_cfg \<Rightarrow> ota_cfg \<Rightarrow> bool \<Rightarrow> stack_call list" where
  "updateDatabaseHash g oc hashChar =
     (if \<not> hashChar then []
      else [SC_setValue (UUID16 (DATABASE_HASH_CHAR_UUID g)) (database_hash oc (SERVICE_UUID g))])"

section \<open>Setting up the stack\<close>

definition configureSecurity :: "stack_call list" where
  "configureSecurity =
     [SC_securityAuth True False True, SC_noInputOutput,
      SC_initKey [KEY_DIST_ENC, KEY_DIST_ID], SC_respKey [KEY_DIST_ENC, KEY_DIST_ID]]"

text \<open>\<open>extra\<close> are the calls of \<open>SessionEventService::init\<close>, a file that the repository does not hold.\<close>

definition createServices :: "gatt_cfg \<Rightarrow> ota_cfg \<Rightarrow> stack_call list \<Rightarrow> stack_call list" where
  "createServices g oc extra =
     (let gatt = UUID16 (GENERIC_ATTRIBUTE_SERVICE_UUID g); main = UUID (SERVICE_UUID g)
      in [SC_createService gatt,
          SC_createChar gatt (UUID16 (SERVICE_CHANGED_CHAR_UUID g)) [P_INDICATE],
          SC_createChar gatt (UUID16 (DATABASE_HASH_CHAR_UUID g)) [P_READ]] @
         updateDatabaseHash g oc True @
         [SC_startService gatt, SC_createService main,
          SC_createChar main (UUID (CHAR_MAIN_UUID g)) [P_READ, P_WRITE, P_WRITE_NR, P_NOTIFY, P_INDICATE],
          SC_charCallbacks (UUID (CHAR_MAIN_UUID g)),
          SC_createChar main (UUID (CHAR_OTA_UUID g)) [P_WRITE_NR, P_NOTIFY],
          SC_charCallbacks (UUID (CHAR_OTA_UUID g))] @
         extra @ [SC_startService main])"

definition configureAdvertising :: "gatt_cfg \<Rightarrow> stack_call list" where
  "configureAdvertising g =
     [SC_advUUID (UUID (SERVICE_UUID g)), SC_scanResponse True, SC_appearance 0x0340,
      SC_advInterval (ADV_INTERVAL_MIN g) (ADV_INTERVAL_MAX g),
      SC_advPreferred (CONN_INTERVAL_MIN g) (CONN_INTERVAL_MAX g)]"

text \<open>\<open>conn\<close>: the macro \<open>ESP_BLE_PWR_TYPE_CONN\<close> is defined. A failed call is only logged.\<close>

definition stack_setup :: "gatt_cfg \<Rightarrow> ota_cfg \<Rightarrow> bool \<Rightarrow> stack_call list \<Rightarrow> stack_call list" where
  "stack_setup g oc conn extra =
     [SC_init (DEVICE_NAME g), SC_setPower (TX_POWER g),
      SC_txPower PWR_ADV (TX_POWER g), SC_txPower PWR_SCAN (TX_POWER g), SC_txPower PWR_DEFAULT (TX_POWER g)] @
     (if conn then [SC_txPower PWR_CONN (TX_POWER g)] else []) @
     configureSecurity @ [SC_mtu (REQUESTED_MTU g), SC_createServer, SC_serverCallbacks] @
     createServices g oc extra @ configureAdvertising g"

section \<open>The calls behind an action\<close>

definition updateConnectionParams :: "gatt_cfg \<Rightarrow> u16 \<Rightarrow> stack_call list" where
  "updateConnectionParams g h =
     [SC_updateConnParams h (CONN_INTERVAL_MIN g) (CONN_INTERVAL_MAX g) (CONN_LATENCY g) (SUPERVISION_TIMEOUT g)]"

fun action_calls :: "gatt_cfg \<Rightarrow> ble_out \<Rightarrow> stack_call list" where
  "action_calls g ST_adv_start = [SC_advStart]"
| "action_calls g ST_adv_stop = [SC_advStop]"
| "action_calls g (ST_security h) = [SC_startSecurity h]"
| "action_calls g (ST_disconnect h) = [SC_disconnect h]"
| "action_calls g (ST_update_params h) = updateConnectionParams g h"
| "action_calls g (ST_notify data) =
     [SC_setValue (UUID (CHAR_MAIN_UUID g)) data, SC_notify (UUID (CHAR_MAIN_UUID g))]"
| "action_calls g (ST_indicate data) =
     [SC_setValue (UUID (CHAR_MAIN_UUID g)) data, SC_indicate (UUID (CHAR_MAIN_UUID g))]"
| "action_calls g (ST_service_changed data) =
     [SC_setValue (UUID16 (SERVICE_CHANGED_CHAR_UUID g)) data, SC_indicate (UUID16 (SERVICE_CHANGED_CHAR_UUID g))]"
| "action_calls g (ST_delete_bond i) = [SC_deleteBond i]"
| "action_calls g _ = []"

definition calls_of :: "gatt_cfg \<Rightarrow> ble_out list \<Rightarrow> stack_call list" where
  "calls_of g outs = concat (map (action_calls g) outs)"

text \<open>All of \<open>init\<close>: the set-up of the stack, then the state and the actions of \<open>Fw_Ble\<close>.\<close>

definition ble_begin :: "gatt_cfg \<Rightarrow> ota_cfg \<Rightarrow> bool \<Rightarrow> stack_call list \<Rightarrow> bool \<Rightarrow> nat \<Rightarrow> u32 \<Rightarrow> ble \<Rightarrow>
    ble \<times> nat \<times> stack_call list" where
  "ble_begin g oc conn extra historyService bonds now b =
     (let (b', bonds', outs) = ble_init historyService bonds now b
      in (b', bonds', (if b_initialized b then [] else stack_setup g oc conn extra) @ calls_of g outs))"

text \<open>The main program registers its handler; a passkey is never asked for, and a comparison always agrees.\<close>

definition setEventHandler :: "bool \<Rightarrow> ble \<Rightarrow> ble" where
  "setEventHandler handler b = b\<lparr>b_eventHandler := handler\<rparr>"

definition onPassKeyRequest :: u32 where "onPassKeyRequest = 0"

definition onConfirmPIN :: "u32 \<Rightarrow> bool" where "onConfirmPIN pin = True"

section \<open>Raw records and diagnostics\<close>

text \<open>The result is None when the scan of the history does not end.\<close>

definition processDataQueue :: "history_cfg \<Rightarrow> bool \<Rightarrow> history \<Rightarrow> ble \<Rightarrow> ble_out list option" where
  "processDataQueue c lock h b =
     (if \<not> b_initialized b \<or> \<not> b_deviceConnected b \<or> \<not> b_subscribed b then Some []
      else if \<not> b_historyService b then Some []
      else map_option (\<lambda>r. case r of None \<Rightarrow> [] | Some e \<Rightarrow> snd (sendNotification (enc_event e) b))
             (getNextUnsynced c lock h))"

text \<open>\<open>None\<close>: there is no advertising object before \<open>init\<close>.\<close>

definition isAdvertising :: "bool option \<Rightarrow> bool" where
  "isAdvertising adv = (adv = Some True)"

definition flag_text :: "bool \<Rightarrow> string" where
  "flag_text p = (if p then ''1'' else ''0'')"

definition ble_diagnostics :: "nat \<Rightarrow> nat \<Rightarrow> bool option \<Rightarrow> ble \<Rightarrow> string option" where
  "ble_diagnostics bufferSize bonds adv b =
     (if bufferSize = 0 then None
      else Some (take (bufferSize - 1)
        (''BLE: init='' @ flag_text (b_initialized b) @ '', conn='' @ flag_text (b_deviceConnected b) @
         '', sub='' @ flag_text (b_subscribed b) @ '', pair='' @ flag_text (b_pairingModeEnabled b) @
         '', bonds='' @ dec bonds @ '', adv='' @ flag_text (isAdvertising adv))))"

section \<open>What the hash distinguishes\<close>

lemma uuidHash_loop_append [simp]: "uuidHash_loop h (s @ t) = uuidHash_loop (uuidHash_loop h s) t"
  by (induction s arbitrary: h) simp_all

lemma char_code_inject [simp]: "char_code ch = char_code ch' \<longleftrightarrow> ch = ch'"
proof -
  have "unat (char_code ch) = of_char ch" for ch
  proof -
    have "of_char ch < (2 ^ LENGTH(32) :: nat)"
      by (rule less_le_trans [OF nat_of_char_less_256]) simp
    then show ?thesis unfolding char_code_def unat_of_nat by (rule mod_less)
  qed
  then show ?thesis by (metis of_char_eq_iff)
qed

text \<open>31 is odd, so a step of the loop loses nothing of the value it starts from.\<close>

lemma times_31_cancel: "(h :: u32) * 31 = h' * 31 \<longleftrightarrow> h = h'"
proof
  have e: "(31 :: u32) * 0xBDEF7BDF = 1" by code_simp
  have inv: "w = w * 31 * 0xBDEF7BDF" for w :: u32
    by (simp only: mult.assoc e mult_1_right)
  assume a: "h * 31 = h' * 31"
  have "h = h * 31 * 0xBDEF7BDF" by (rule inv)
  also have "\<dots> = h' * 31 * 0xBDEF7BDF" by (simp only: a)
  also have "\<dots> = h'" by (rule inv [symmetric])
  finally show "h = h'" .
qed simp

lemma uuidHash_loop_inject: "uuidHash_loop h s = uuidHash_loop h' s \<longleftrightarrow> h = h'"
  by (induction s arbitrary: h h') (simp_all add: times_31_cancel)

lemma ucast_byte: "ucast (x AND 0xFF :: u32) = (ucast x :: u8)"
proof -
  have "(0xFF :: u32) = mask 8" by (simp add: mask_eq_exp_minus_1)
  then show ?thesis unfolding \<open>0xFF = mask 8\<close>
    by (intro bit_word_eqI) (auto simp: bit_simps)
qed

lemma structure_bytes:
  "ucast (drop_bit 16 GATT_STRUCTURE_VERSION AND 0xFF) = (1 :: u8)"
  "ucast (drop_bit 8 GATT_STRUCTURE_VERSION AND 0xFF) = (0 :: u8)"
  "ucast (GATT_STRUCTURE_VERSION AND 0xFF) = (1 :: u8)"
  by code_simp+

lemma database_hash_bytes:
  "database_hash oc service =
     [FIRMWARE_VERSION_MAJOR oc, FIRMWARE_VERSION_MINOR oc, FIRMWARE_VERSION_PATCH oc, FIRMWARE_BUILD_TYPE oc,
      0, 1, 0, 1] @ rev (le32 (uuidHash_loop 0 service)) @ [0x54, 0x52, 0x41, 0x4B]"
  unfolding database_hash_def Let_def structure_bytes unfolding ucast_byte le32_def
  by (simp add: eval_nat_numeral)

lemma length_database_hash [simp]: "length (database_hash oc service) = 16"
  by (simp add: database_hash_bytes)

text \<open>
  Two images have the same Database Hash exactly when they have the same version, the same
  build type and the same hash of the service UUID; the layout of the tables itself does not enter.
\<close>

theorem database_hash_eq:
  "database_hash oc s = database_hash oc' s' \<longleftrightarrow>
     FIRMWARE_VERSION_MAJOR oc = FIRMWARE_VERSION_MAJOR oc' \<and>
     FIRMWARE_VERSION_MINOR oc = FIRMWARE_VERSION_MINOR oc' \<and>
     FIRMWARE_VERSION_PATCH oc = FIRMWARE_VERSION_PATCH oc' \<and>
     FIRMWARE_BUILD_TYPE oc = FIRMWARE_BUILD_TYPE oc' \<and> uuidHash_loop 0 s = uuidHash_loop 0 s'"
  by (auto simp: database_hash_bytes)

text \<open>A change of one character of the UUID always shows in the hash, in spite of the wrap-around.\<close>

theorem uuid_change_shows:
  "database_hash oc (s @ ch # t) = database_hash oc (s @ ch' # t) \<longleftrightarrow> ch = ch'"
  by (simp add: database_hash_eq uuidHash_loop_inject)

section \<open>The order of the set-up\<close>

text \<open>
  The stack builds the attribute table of a service when the service is started: a service is
  created once, its characteristics come between its creation and its start, and a callback or a value
  is for a characteristic that exists. \<open>created\<close>, \<open>opn\<close> and \<open>chars\<close> are the services created, those not
  yet started, and the characteristics.
\<close>

fun setup_ok :: "uuid list \<Rightarrow> uuid list \<Rightarrow> uuid list \<Rightarrow> stack_call list \<Rightarrow> bool" where
  "setup_ok created opn chars [] = (opn = [])"
| "setup_ok created opn chars (SC_createService u # cs) =
     (u \<notin> set created \<and> setup_ok (u # created) (u # opn) chars cs)"
| "setup_ok created opn chars (SC_createChar s u ps # cs) =
     (s \<in> set opn \<and> u \<notin> set chars \<and> setup_ok created opn (u # chars) cs)"
| "setup_ok created opn chars (SC_charCallbacks u # cs) = (u \<in> set chars \<and> setup_ok created opn chars cs)"
| "setup_ok created opn chars (SC_setValue u data # cs) = (u \<in> set chars \<and> setup_ok created opn chars cs)"
| "setup_ok created opn chars (SC_startService s # cs) =
     (s \<in> set opn \<and> setup_ok created (removeAll s opn) chars cs)"
| "setup_ok created opn chars (_ # cs) = setup_ok created opn chars cs"

fun chars_of :: "stack_call list \<Rightarrow> uuid list" where
  "chars_of [] = []"
| "chars_of (SC_createChar s u ps # cs) = u # chars_of cs"
| "chars_of (_ # cs) = chars_of cs"

text \<open>What the session service may do with the main service: add characteristics of its own.\<close>

definition adds_chars :: "uuid \<Rightarrow> stack_call list \<Rightarrow> bool" where
  "adds_chars s cs = list_all (\<lambda>k. case k of SC_createChar s' u ps \<Rightarrow> s' = s | _ \<Rightarrow> False) cs"

definition uuids_distinct :: "gatt_cfg \<Rightarrow> stack_call list \<Rightarrow> bool" where
  "uuids_distinct g extra = distinct
     (UUID16 (SERVICE_CHANGED_CHAR_UUID g) # UUID16 (DATABASE_HASH_CHAR_UUID g) #
      UUID (CHAR_MAIN_UUID g) # UUID (CHAR_OTA_UUID g) # chars_of extra)"

lemma setup_ok_adds:
  assumes "adds_chars s xs" "s \<in> set opn" "distinct (chars_of xs)" "set (chars_of xs) \<inter> set chars = {}"
  shows "setup_ok created opn chars (xs @ ys) = setup_ok created opn (rev (chars_of xs) @ chars) ys"
  using assms
proof (induction xs arbitrary: chars)
  case (Cons k xs)
  then obtain u ps where "k = SC_createChar s u ps"
    by (cases k) (auto simp: adds_chars_def)
  then show ?case using Cons by (simp add: adds_chars_def)
qed simp

text \<open>
  The set-up is in an order that the stack accepts, whatever characteristics the session service adds; every
  characteristic of the firmware that a phone can write has callbacks; pairing with bonding is
  configured before there is a server to connect to.
\<close>

theorem stack_setup_sound:
  assumes "adds_chars (UUID (SERVICE_UUID g)) extra" "uuids_distinct g extra"
  shows "setup_ok [] [] [] (stack_setup g oc conn extra)"
    "SC_createChar s u ps \<in> set (stack_setup g oc conn []) \<Longrightarrow> P_WRITE \<in> set ps \<or> P_WRITE_NR \<in> set ps \<Longrightarrow>
      SC_charCallbacks u \<in> set (stack_setup g oc conn extra)"
    "SC_securityAuth True False True \<in> set (takeWhile (\<lambda>k. k \<noteq> SC_createServer) (stack_setup g oc conn extra))"
proof -
  show "setup_ok [] [] [] (stack_setup g oc conn extra)"
    using assms by (auto simp: stack_setup_def createServices_def configureSecurity_def configureAdvertising_def
        updateDatabaseHash_def uuids_distinct_def Let_def setup_ok_adds [where s = "UUID (SERVICE_UUID g)"])
  show "SC_securityAuth True False True \<in> set (takeWhile (\<lambda>k. k \<noteq> SC_createServer) (stack_setup g oc conn extra))"
    by (simp add: stack_setup_def configureSecurity_def)
qed (auto simp: stack_setup_def createServices_def configureSecurity_def configureAdvertising_def
        updateDatabaseHash_def Let_def split: if_splits)

lemma ble_begin_once:
  "ble_begin g oc conn extra hist bonds now b = (b', bonds', calls) \<Longrightarrow>
   ble_begin g oc conn extra' hist' bonds' now' b' = (b', bonds', [])"
  by (auto simp: ble_begin_def ble_init_def calls_of_def Let_def split: prod.splits if_splits)

text \<open>Without a handler the stack is served all the same, and nobody hears of it.\<close>

lemma no_handler_no_event:
  "EV_connect handle \<notin> set (snd (onConnectInternal bonds now desc (setEventHandler False b)))"
  "ST_adv_stop \<in> set (snd (onConnectInternal bonds now desc (setEventHandler False b))) \<longleftrightarrow> b_initialized b"
  by (auto simp: onConnectInternal_def setEventHandler_def notify_handler_def stopAdvertising_def Let_def
      split: if_splits prod.splits)

section \<open>Values and records\<close>

text \<open>A notification or an indication carries the value that was set just before it.\<close>

fun carried :: "(uuid \<Rightarrow> bytes option) \<Rightarrow> stack_call list \<Rightarrow> bytes option list" where
  "carried v [] = []"
| "carried v (SC_setValue u data # cs) = carried (v(u \<mapsto> data)) cs"
| "carried v (SC_notify u # cs) = v u # carried v cs"
| "carried v (SC_indicate u # cs) = v u # carried v cs"
| "carried v (_ # cs) = carried v cs"

fun payloads :: "ble_out list \<Rightarrow> bytes list" where
  "payloads [] = []"
| "payloads (ST_notify data # outs) = data # payloads outs"
| "payloads (ST_indicate data # outs) = data # payloads outs"
| "payloads (ST_service_changed data # outs) = data # payloads outs"
| "payloads (_ # outs) = payloads outs"

theorem actions_carry_payloads: "carried v (calls_of g outs) = map Some (payloads outs)"
  by (induction outs arbitrary: v rule: payloads.induct)
    (simp_all add: calls_of_def updateConnectionParams_def)

text \<open>
  While a phone is subscribed, the queue sends the oldest unacknowledged record, and sends the same record
  again until it is acknowledged: the raw record of 24 bytes, which the phone can decode, not a frame.
\<close>

theorem processDataQueue_sends_oldest:
  assumes "h_ready h" "rtc_ok c (h_state h)"
    and "b_initialized b" "b_deviceConnected b" "b_subscribed b" "b_historyService b"
  shows "processDataQueue c True h b =
    Some (case find (\<lambda>e. \<not> isSynced e) (h_stored c h) of None \<Rightarrow> [] | Some e \<Rightarrow> [ST_notify (enc_event e)])"
proof -
  have "enc_event e \<noteq> []" for e
    using length_enc_event [of e] by (metis list.size(3) zero_neq_numeral)
  then show ?thesis using assms
    by (simp add: processDataQueue_def getNextUnsynced_stored sendNotification_def split: option.split)
qed

text \<open>The line of diagnostics fits in a buffer of 64 bytes for up to 99 bonds, and is cut to any smaller one.\<close>

lemma ble_diagnostics_fits:
  "length (dec bonds) \<le> 2 \<Longrightarrow> ble_diagnostics 64 bonds adv b = ble_diagnostics (64 + n) bonds adv b"
  by (simp add: ble_diagnostics_def flag_text_def)

end
